(* ===== verification/Py_Prelude.thy ===== *)
theory Py_Prelude
  imports Main "HOL-Library.AList" "HOL-Library.Char_ord" "HOL-Library.List_Lexorder"
    "HOL-Library.Product_Lexorder" "HOL-Library.Multiset"
begin

text \<open>
  The part of Python the modelled code uses, and the facts about it that the components share.

  \<^item> A Python \<open>str\<close> is a \<^typ>\<open>string\<close>, read as its UTF-8 encoding: a literal such as the arrow
    of a message is written out in bytes. Character classes (white space, alphanumerics, case)
    and \<open>len\<close> are those of ASCII text.
  \<^item> A \<open>dict\<close> is an association list in insertion order; storing under a present key keeps the
    key's place, as Python does.
  \<^item> A raised exception is the left side of a sum; \<open>list.sort\<close> and \<open>sorted\<close> are the stable
    \<open>sort_key\<close>.
  \<^item> The worklist loops of the code (a stack, a set of seen nodes, cycle-safe) are one search,
    \<open>dfs\<close>, with the variant \<open>dfs_any\<close> that returns at the first hit.
  \<^item> Two interfaces as locales: an insertion-ordered dictionary and a state machine with an invariant.
\<close>

named_theorems py_str \<open>string primitives, for evaluation\<close>
named_theorems py_dict \<open>dictionary laws\<close>

section \<open>Strings\<close>

definition py_space :: "char \<Rightarrow> bool" where
  [py_str]: "py_space c = (let n = of_char c :: nat in (9 \<le> n \<and> n \<le> 13) \<or> (28 \<le> n \<and> n \<le> 32))"

definition py_digit :: "char \<Rightarrow> bool" where
  [py_str]: "py_digit c = (let n = of_char c :: nat in 48 \<le> n \<and> n \<le> 57)"

definition py_upper_char :: "char \<Rightarrow> bool" where
  [py_str]: "py_upper_char c = (let n = of_char c :: nat in 65 \<le> n \<and> n \<le> 90)"

definition py_lower_char :: "char \<Rightarrow> bool" where
  [py_str]: "py_lower_char c = (let n = of_char c :: nat in 97 \<le> n \<and> n \<le> 122)"

definition py_isalnum :: "char \<Rightarrow> bool" where
  [py_str]: "py_isalnum c = (py_digit c \<or> py_upper_char c \<or> py_lower_char c)"

definition py_word :: "char \<Rightarrow> bool" where
  [py_str]: "py_word c = (py_isalnum c \<or> c = CHR ''_'')"

definition py_startswith :: "string \<Rightarrow> string \<Rightarrow> bool" where
  [py_str]: "py_startswith s p = (take (length p) s = p)"

text \<open>\<open>needle in hay\<close> and \<open>hay.find(needle)\<close>.\<close>

fun py_in :: "string \<Rightarrow> string \<Rightarrow> bool" where
  "py_in needle [] = (needle = [])"
| "py_in needle (c # cs) = (py_startswith (c # cs) needle \<or> py_in needle cs)"

fun py_find :: "string \<Rightarrow> string \<Rightarrow> nat option" where
  "py_find needle [] = (if needle = [] then Some 0 else None)"
| "py_find needle (c # cs) =
     (if py_startswith (c # cs) needle then Some 0 else map_option Suc (py_find needle cs))"

text \<open>\<open>s.split(c)\<close> for a one-character separator, never empty.\<close>

fun py_split :: "char \<Rightarrow> string \<Rightarrow> string list" where
  "py_split sep [] = [[]]"
| "py_split sep (c # cs) =
     (if c = sep then [] # py_split sep cs
      else case py_split sep cs of [] \<Rightarrow> [[c]] | w # ws \<Rightarrow> (c # w) # ws)"

definition py_lstrip :: "string \<Rightarrow> string" where
  [py_str]: "py_lstrip s = dropWhile py_space s"

definition py_strip :: "string \<Rightarrow> string" where
  [py_str]: "py_strip s = rev (dropWhile py_space (rev (dropWhile py_space s)))"

definition py_rstrip :: "string \<Rightarrow> string" where
  [py_str]: "py_rstrip s = rev (dropWhile py_space (rev s))"

definition py_lower :: "string \<Rightarrow> string" where
  [py_str]: "py_lower s = map (\<lambda>c. if py_upper_char c then char_of (of_char c + 32 :: nat) else c) s"

definition py_upper :: "string \<Rightarrow> string" where
  [py_str]: "py_upper s = map (\<lambda>c. if py_lower_char c then char_of (of_char c - 32 :: nat) else c) s"

definition py_capitalize :: "string \<Rightarrow> string" where
  [py_str]: "py_capitalize s = py_upper (take 1 s) @ py_lower (drop 1 s)"

text \<open>\<open>sep.join(xs)\<close>.\<close>

fun py_join :: "string \<Rightarrow> string list \<Rightarrow> string" where
  "py_join sep [] = []"
| "py_join sep [x] = x"
| "py_join sep (x # y # zs) = x @ sep @ py_join sep (y # zs)"

text \<open>\<open>s.replace(old, new)\<close> for a non-empty \<open>old\<close>, and with \<open>count=1\<close>.\<close>

function py_replace :: "string \<Rightarrow> string \<Rightarrow> string \<Rightarrow> string" where
  "py_replace old new [] = []"
| "py_replace old new (c # cs) =
     (if old \<noteq> [] \<and> py_startswith (c # cs) old
      then new @ py_replace old new (drop (length old) (c # cs))
      else c # py_replace old new cs)"
  by pat_completeness auto
termination
  by (relation "measure (\<lambda>(old, new, s). length s)") auto

fun py_replace1 :: "string \<Rightarrow> string \<Rightarrow> string \<Rightarrow> string" where
  "py_replace1 old new [] = []"
| "py_replace1 old new (c # cs) =
     (if py_startswith (c # cs) old then new @ drop (length old) (c # cs)
      else c # py_replace1 old new cs)"

text \<open>\<open>s.splitlines()\<close>: line boundaries are LF, CR, CR LF, VT, FF and the three separators;
  a final boundary opens no empty line.\<close>

definition py_linebreak :: "char \<Rightarrow> bool" where
  [py_str]: "py_linebreak c = (let n = of_char c :: nat in (10 \<le> n \<and> n \<le> 13) \<or> (28 \<le> n \<and> n \<le> 30))"

fun py_splitlines_aux :: "string \<Rightarrow> string \<Rightarrow> string list" where
  "py_splitlines_aux acc [] = (if acc = [] then [] else [rev acc])"
| "py_splitlines_aux acc (c # cs) =
     (if py_linebreak c
      then rev acc # (case cs of
             d # ds \<Rightarrow> if c = CHR 0x0D \<and> d = CHR 0x0A then py_splitlines_aux [] ds
                      else py_splitlines_aux [] cs
           | [] \<Rightarrow> py_splitlines_aux [] [])
      else py_splitlines_aux (c # acc) cs)"

definition py_splitlines :: "string \<Rightarrow> string list" where
  [py_str]: "py_splitlines s = py_splitlines_aux [] s"

text \<open>\<open>str(n)\<close> for integers, and the \<open>{n:03d}\<close> format.\<close>

fun nat_str :: "nat \<Rightarrow> string" where
  "nat_str n = (if n < 10 then [char_of (48 + n)] else nat_str (n div 10) @ [char_of (48 + n mod 10)])"

declare nat_str.simps [simp del]
declare nat_str.simps [py_str]

definition int_str :: "int \<Rightarrow> string" where
  [py_str]: "int_str i = (if i < 0 then CHR ''-'' # nat_str (nat (- i)) else nat_str (nat i))"

definition nat_str03 :: "nat \<Rightarrow> string" where
  [py_str]: "nat_str03 n = (let s = nat_str n in replicate (3 - length s) (CHR ''0'') @ s)"

text \<open>The characters a literal cannot carry in ASCII: the rightwards arrow and the em dash.\<close>

definition u_arrow :: string where
  [py_str]: "u_arrow = [CHR 0xE2, CHR 0x86, CHR 0x92]"

definition u_emdash :: string where
  [py_str]: "u_emdash = [CHR 0xE2, CHR 0x80, CHR 0x94]"

definition nl :: string where
  [py_str]: "nl = [CHR 0x0A]"

subsection \<open>Facts about strings\<close>

lemma py_split_nonempty [simp]: "py_split sep s \<noteq> []"
  by (cases s) (auto split: list.splits)

lemma py_split_join: "py_join [sep] (py_split sep s) = s"
proof (induction s)
  case Nil
  show ?case by simp
next
  case (Cons c cs)
  obtain w ws where sp: "py_split sep cs = w # ws"
    by (cases "py_split sep cs") auto
  with Cons.IH show ?case by (cases ws) auto
qed

lemma hd_py_split: "hd (py_split sep s) = takeWhile (\<lambda>c. c \<noteq> sep) s"
  by (induction s) (auto split: list.splits)

lemma py_split_no_sep: "w \<in> set (py_split sep s) \<Longrightarrow> sep \<notin> set w"
  by (induction s arbitrary: w) (auto split: list.splits if_splits)

lemma py_split_id: "sep \<notin> set s \<Longrightarrow> py_split sep s = [s]"
  by (induction s) auto

lemma py_split_append: "py_split sep (a @ sep # b) = py_split sep a @ py_split sep b"
  by (induction a) (auto split: list.splits)

lemma py_in_iff: "py_in needle hay \<longleftrightarrow> (\<exists>a b. hay = a @ needle @ b)"
proof (induction hay)
  case Nil
  show ?case by auto
next
  case (Cons c cs)
  have "py_startswith (c # cs) needle \<longleftrightarrow> (\<exists>b. c # cs = needle @ b)"
    unfolding py_startswith_def by (metis append_eq_conv_conj)
  with Cons.IH show ?case by (auto simp: Cons_eq_append_conv)
qed

lemma py_in_append: "py_in p a \<Longrightarrow> py_in p (pre @ a @ post)"
  by (auto simp: py_in_iff) (metis append.assoc)

lemma py_find_in: "py_find needle hay \<noteq> None \<longleftrightarrow> py_in needle hay"
  by (induction hay) auto

lemma py_find_Some:
  "py_find needle hay = Some i \<Longrightarrow> i \<le> length hay \<and> take (length needle) (drop i hay) = needle"
  by (induction hay arbitrary: i) (auto simp: py_startswith_def split: if_splits)

lemma nat_str_nonempty [simp]: "nat_str n \<noteq> []" "[] \<noteq> nat_str n"
  by (subst nat_str.simps, simp)+

lemma nat_str_digits: "c \<in> set (nat_str n) \<Longrightarrow> py_digit c"
proof (induction n rule: nat_str.induct)
  case (1 n)
  show ?case
  proof (cases "n < 10")
    case True
    with "1.prems" show ?thesis
      by (subst (asm) nat_str.simps) (auto simp: py_digit_def)
  next
    case False
    with "1.prems" have "c \<in> set (nat_str (n div 10)) \<or> c = char_of (48 + n mod 10)"
      by (subst (asm) nat_str.simps) auto
    with False "1.IH" show ?thesis
      by (auto simp: py_digit_def)
  qed
qed

lemma nat_str_inj: "nat_str m = nat_str n \<Longrightarrow> m = n"
proof (induction m arbitrary: n rule: nat_str.induct)
  case (1 m)
  note d = nat_str.simps [of m] nat_str.simps [of n]
  have inj: "char_of (48 + a) = (char_of (48 + b) :: char) \<Longrightarrow> a = b" if "a < 10" "b < 10" for a b :: nat
  proof -
    assume "char_of (48 + a) = (char_of (48 + b) :: char)"
    then have "of_char (char_of (48 + a) :: char) = (of_char (char_of (48 + b) :: char) :: nat)"
      by simp
    with that show "a = b" by (simp only: of_char_of) simp
  qed
  show ?case
  proof (cases "m < 10 \<longleftrightarrow> n < 10")
    case True
    show ?thesis
    proof (cases "m < 10")
      case t: True
      with True "1.prems" d inj show ?thesis by simp
    next
      case f: False
      with True "1.prems" d have "nat_str (m div 10) = nat_str (n div 10)"
        and e: "char_of (48 + m mod 10) = (char_of (48 + n mod 10) :: char)" by auto
      with f "1.IH" have "m div 10 = n div 10" by simp
      moreover have "m mod 10 = n mod 10" by (rule inj [OF _ _ e]) auto
      ultimately show ?thesis by (metis div_mult_mod_eq)
    qed
  next
    case False
    with "1.prems" d show ?thesis by (auto split: if_splits)
  qed
qed

subsection \<open>Comprehensions with a condition\<close>

text \<open>The value of a decimal numeral; leading zeros do not change it.\<close>

definition dec_val :: "string \<Rightarrow> nat" where
  "dec_val s = foldl (\<lambda>a c. 10 * a + (of_char c - 48)) 0 s"

lemma dec_val_snoc: "dec_val (s @ [c]) = 10 * dec_val s + (of_char c - 48)"
  by (simp add: dec_val_def)

lemma of_char_digit: "n < 10 \<Longrightarrow> of_char (char_of (48 + n :: nat)) = (48 + n :: nat)"
  by (simp add: of_char_of)

lemma dec_val_nat_str: "dec_val (nat_str n) = n"
proof (induction n rule: nat_str.induct)
  case (1 n)
  show ?case
  proof (cases "n < 10")
    case True
    then have "dec_val (nat_str n) = of_char (char_of (48 + n :: nat)) - 48"
      by (simp add: nat_str.simps [of n] dec_val_def)
    with True show ?thesis by (simp only: of_char_digit)
  next
    case False
    have "n mod 10 < 10" by simp
    from False have "dec_val (nat_str n) = 10 * dec_val (nat_str (n div 10)) + (of_char (char_of (48 + n mod 10 :: nat)) - 48)"
      by (simp add: nat_str.simps [of n] dec_val_snoc)
    with False "1.IH" show ?thesis by (simp only: of_char_digit [OF \<open>n mod 10 < 10\<close>]) simp
  qed
qed

lemma dec_val_zeros: "dec_val (replicate k (CHR ''0'') @ s) = dec_val s"
proof -
  have "foldl (\<lambda>a c. 10 * a + (of_char c - 48)) 0 (replicate k (CHR ''0'')) = (0 :: nat)"
    by (induction k) auto
  then show ?thesis by (simp add: dec_val_def)
qed

lemma set_map_filter_iff: "y \<in> set (List.map_filter f xs) \<longleftrightarrow> (\<exists>x \<in> set xs. f x = Some y)"
  by (force simp: List.map_filter_def)

lemma map_filter_snoc:
  "List.map_filter f (xs @ [x]) = List.map_filter f xs @ (case f x of None \<Rightarrow> [] | Some y \<Rightarrow> [y])"
  by (simp add: List.map_filter_def split: option.splits)

lemma sort_key_mset_cong:
  assumes "mset xs = mset ys" "inj_on f (set xs)"
  shows "sort_key f xs = sort_key f ys"
proof -
  have s: "set xs = set ys" using assms(1) by (metis set_mset_mset)
  have "sorted (map f (sort_key f ys))" by simp
  moreover have "mset (sort_key f ys) = mset xs" using assms(1) by simp
  ultimately show ?thesis using sort_key_inj_key_eq [of xs "sort_key f ys" f] assms(2) by simp
qed

lemma find_append: "find P (xs @ ys) = (case find P xs of Some x \<Rightarrow> Some x | None \<Rightarrow> find P ys)"
  by (induction xs) auto

lemma find_unique:
  assumes "x \<in> set xs" "P x" "\<And>y. y \<in> set xs \<Longrightarrow> P y \<Longrightarrow> y = x"
  shows "find P xs = Some x"
proof (cases "find P xs")
  case None
  with assms(1,2) show ?thesis by (auto simp: find_None_iff)
next
  case (Some y)
  then have "y \<in> set xs" "P y" by (auto simp: find_Some_iff)
  with Some assms(3) [of y] show ?thesis by simp
qed

section \<open>Exceptions\<close>

datatype py_exc = Py_exc (exc_class: string) (exc_msg: string)

type_synonym 'a py = "py_exc + 'a"

abbreviation raise :: "string \<Rightarrow> string \<Rightarrow> 'a py" where
  "raise cls msg \<equiv> Inl (Py_exc cls msg)"

text \<open>Sequencing, and a loop that stops at the first exception.\<close>

definition bindE :: "'e + 'a \<Rightarrow> ('a \<Rightarrow> 'e + 'b) \<Rightarrow> 'e + 'b" where
  "bindE m k = (case m of Inl e \<Rightarrow> Inl e | Inr x \<Rightarrow> k x)"

lemma bindE_simps [simp]: "bindE (Inl e) k = Inl e" "bindE (Inr x) k = k x"
  by (simp_all add: bindE_def)

lemma bindE_Inr: "bindE m k = Inr y \<longleftrightarrow> (\<exists>x. m = Inr x \<and> k x = Inr y)"
  by (cases m) auto

lemma bindE_Inl: "bindE m k = Inl e \<longleftrightarrow> m = Inl e \<or> (\<exists>x. m = Inr x \<and> k x = Inl e)"
  by (cases m) auto

fun mapE :: "('a \<Rightarrow> 'e + 'b) \<Rightarrow> 'a list \<Rightarrow> 'e + 'b list" where
  "mapE f [] = Inr []"
| "mapE f (x # xs) = bindE (f x) (\<lambda>y. bindE (mapE f xs) (\<lambda>ys. Inr (y # ys)))"

fun foldE :: "('a \<Rightarrow> 's \<Rightarrow> 'e + 's) \<Rightarrow> 'a list \<Rightarrow> 's \<Rightarrow> 'e + 's" where
  "foldE f [] s = Inr s"
| "foldE f (x # xs) s = bindE (f x s) (foldE f xs)"

lemma mapE_append:
  "mapE f (xs @ ys) = bindE (mapE f xs) (\<lambda>as. bindE (mapE f ys) (\<lambda>bs. Inr (as @ bs)))"
  by (induction xs) (auto simp: bindE_def split: sum.splits)

lemma foldE_append: "foldE f (xs @ ys) s = bindE (foldE f xs s) (foldE f ys)"
  by (induction xs arbitrary: s) (auto simp: bindE_def split: sum.splits)

lemma mapE_Inr_length: "mapE f xs = Inr ys \<Longrightarrow> length ys = length xs"
  by (induction xs arbitrary: ys) (auto simp: bindE_Inr)

lemma mapE_Inr_set: "mapE f xs = Inr ys \<Longrightarrow> y \<in> set ys \<Longrightarrow> \<exists>x \<in> set xs. f x = Inr y"
  by (induction xs arbitrary: ys) (auto simp: bindE_Inr)

lemma mapE_Inr_in: "mapE f xs = Inr ys \<Longrightarrow> x \<in> set xs \<Longrightarrow> \<exists>y \<in> set ys. f x = Inr y"
  by (induction xs arbitrary: ys) (auto simp: bindE_Inr)

section \<open>Insertion-ordered dictionaries\<close>

type_synonym ('k, 'v) dict = "('k \<times> 'v) list"

abbreviation dict_get :: "('k, 'v) dict \<Rightarrow> 'k \<Rightarrow> 'v option" where
  "dict_get \<equiv> map_of"

abbreviation dict_set :: "'k \<Rightarrow> 'v \<Rightarrow> ('k, 'v) dict \<Rightarrow> ('k, 'v) dict" where
  "dict_set \<equiv> AList.update"

definition dict_keys :: "('k, 'v) dict \<Rightarrow> 'k list" where
  [py_dict]: "dict_keys d = map fst d"

definition dict_getd :: "('k, 'v) dict \<Rightarrow> 'k \<Rightarrow> 'v \<Rightarrow> 'v" where
  "dict_getd d k v = (case dict_get d k of None \<Rightarrow> v | Some w \<Rightarrow> w)"

definition dict_setdefault :: "'k \<Rightarrow> 'v \<Rightarrow> ('k, 'v) dict \<Rightarrow> ('k, 'v) dict" where
  "dict_setdefault k v d = (case dict_get d k of None \<Rightarrow> dict_set k v d | Some _ \<Rightarrow> d)"

text \<open>\<open>d.pop(k, None)\<close>, without the value.\<close>

definition dict_pop :: "'k \<Rightarrow> ('k, 'v) dict \<Rightarrow> ('k, 'v) dict" where
  "dict_pop k d = filter (\<lambda>kv. fst kv \<noteq> k) d"

lemma dict_get_pop: "dict_get (dict_pop k d) x = (if x = k then None else dict_get d x)"
  by (induction d) (auto simp: dict_pop_def)

lemma dict_get_set [simp]: "dict_get (dict_set k v d) = (dict_get d)(k \<mapsto> v)"
  by (rule update_conv')

lemma dict_keys_set:
  "dict_keys (dict_set k v d) = (if k \<in> set (dict_keys d) then dict_keys d else dict_keys d @ [k])"
  by (induction d) (auto simp: dict_keys_def)

lemma dict_get_None: "dict_get d k = None \<longleftrightarrow> k \<notin> set (dict_keys d)"
  by (induction d) (auto simp: dict_keys_def)

lemma dict_keys_set_distinct:
  "distinct (dict_keys d) \<Longrightarrow> distinct (dict_keys (dict_set k v d))"
  by (simp add: dict_keys_set)

text \<open>The interface the reducers rely on: what a lookup returns after a store, and where a
  store puts a key.\<close>

locale ordered_dict =
  fixes get :: "'d \<Rightarrow> 'k \<Rightarrow> 'v option"
    and set_item :: "'k \<Rightarrow> 'v \<Rightarrow> 'd \<Rightarrow> 'd"
    and keys :: "'d \<Rightarrow> 'k list"
  assumes get_set_item: "get (set_item k v d) k' = (if k' = k then Some v else get d k')"
    and keys_set_item: "keys (set_item k v d) = (if k \<in> set (keys d) then keys d else keys d @ [k])"
    and get_None_keys: "get d k = None \<longleftrightarrow> k \<notin> set (keys d)"
begin

lemma get_fold_notin:
  "k \<notin> fst ` set kvs \<Longrightarrow> get (fold (\<lambda>(k, v). set_item k v) kvs d) k = get d k"
  by (induction kvs arbitrary: d) (auto simp: get_set_item)

lemma keys_fold:
  "set (keys (fold (\<lambda>(k, v). set_item k v) kvs d)) = set (keys d) \<union> fst ` set kvs"
  by (induction kvs arbitrary: d) (auto simp: keys_set_item split: if_splits)

lemma keys_fold_prefix:
  "\<exists>new. keys (fold (\<lambda>(k, v). set_item k v) kvs d) = keys d @ new"
proof (induction kvs arbitrary: d)
  case Nil
  show ?case by simp
next
  case (Cons kv kvs)
  obtain k v where kv: "kv = (k, v)" by (cases kv)
  from Cons.IH obtain new where
    "keys (fold (\<lambda>(k, v). set_item k v) kvs (set_item k v d)) = keys (set_item k v d) @ new"
    by blast
  then show ?case by (auto simp: kv keys_set_item split: if_splits)
qed

lemma keys_fold_distinct:
  "distinct (keys d) \<Longrightarrow> distinct (keys (fold (\<lambda>(k, v). set_item k v) kvs d))"
  by (induction kvs arbitrary: d) (auto simp: keys_set_item)

end

interpretation pyd: ordered_dict dict_get dict_set dict_keys
  by unfold_locales (auto simp: dict_keys_set dict_get_None)


section \<open>The worklist search\<close>

text \<open>
  The loops \<open>stack.pop()\<close> / \<open>if seen: continue\<close> / \<open>stack.extend(...)\<close> of the state
  interference graph and of the symbol index. The end of the Python list is the head of the model's
  list, so extending pushes the reversed successors. A node that is no key of the graph has no
  successors (\<open>.get(node, ())\<close>).
\<close>

definition succs :: "('a \<times> 'a list) list \<Rightarrow> 'a \<Rightarrow> 'a list" where
  "succs g x = (case dict_get g x of None \<Rightarrow> [] | Some ys \<Rightarrow> ys)"

lemma succs_notin: "x \<notin> set (dict_keys g) \<Longrightarrow> succs g x = []"
  by (simp add: succs_def dict_get_None [symmetric])

definition unseen :: "('a \<times> 'a list) list \<Rightarrow> 'a list \<Rightarrow> nat" where
  "unseen g seen = card (set (dict_keys g) - set seen)"

lemma unseen_step:
  assumes "x \<notin> set seen"
  shows "unseen g (x # seen) < unseen g seen \<or>
         (unseen g (x # seen) = unseen g seen \<and> succs g x = [])"
proof (cases "x \<in> set (dict_keys g)")
  case True
  with assms have "set (dict_keys g) - set (x # seen) \<subset> set (dict_keys g) - set seen" by auto
  then show ?thesis unfolding unseen_def by (simp add: psubset_card_mono)
next
  case False
  then have "set (dict_keys g) - set (x # seen) = set (dict_keys g) - set seen" by auto
  with False show ?thesis by (simp add: unseen_def succs_notin)
qed

function dfs :: "('a \<times> 'a list) list \<Rightarrow> 'a list \<Rightarrow> 'a list \<Rightarrow> 'a list" where
  "dfs g [] seen = seen"
| "dfs g (x # stack) seen =
     (if x \<in> set seen then dfs g stack seen
      else dfs g (rev (succs g x) @ stack) (x # seen))"
  by pat_completeness auto
termination
proof (relation "measures [\<lambda>(g, stack, seen). unseen g seen, \<lambda>(g, stack, seen). length stack]")
  fix g :: "('a \<times> 'a list) list" and x :: 'a and stack seen :: "'a list"
  assume "x \<notin> set seen"
  then show "((g, rev (succs g x) @ stack, x # seen), (g, x # stack, seen))
      \<in> measures [\<lambda>(g, stack, seen). unseen g seen, \<lambda>(g, stack, seen). length stack]"
    using unseen_step [of x seen g] by auto
qed auto

text \<open>The search that returns as soon as a popped node is a hit.\<close>

function dfs_any :: "('a \<times> 'a list) list \<Rightarrow> ('a \<Rightarrow> bool) \<Rightarrow> 'a list \<Rightarrow> 'a list \<Rightarrow> bool" where
  "dfs_any g hit [] seen = False"
| "dfs_any g hit (x # stack) seen =
     (if x \<in> set seen then dfs_any g hit stack seen
      else if hit x then True
      else dfs_any g hit (rev (succs g x) @ stack) (x # seen))"
  by pat_completeness auto
termination
proof (relation
    "measures [\<lambda>(g, hit, stack, seen). unseen g seen, \<lambda>(g, hit, stack, seen). length stack]")
  fix g :: "('a \<times> 'a list) list" and hit :: "'a \<Rightarrow> bool" and x :: 'a and stack seen :: "'a list"
  assume "x \<notin> set seen"
  then show "((g, hit, rev (succs g x) @ stack, x # seen), (g, hit, x # stack, seen))
      \<in> measures [\<lambda>(g, hit, stack, seen). unseen g seen, \<lambda>(g, hit, stack, seen). length stack]"
    using unseen_step [of x seen g] by auto
qed auto

definition edges :: "('a \<times> 'a list) list \<Rightarrow> ('a \<times> 'a) set" where
  "edges g = {(x, y). y \<in> set (succs g x)}"

lemma edges_iff [simp]: "(x, y) \<in> edges g \<longleftrightarrow> y \<in> set (succs g x)"
  by (simp add: edges_def)

text \<open>
  Correctness of both searches at once: the seen nodes of \<open>dfs\<close> are closed under successors and
  reached from the stack, and \<open>dfs_any\<close> is a test over the nodes \<open>dfs\<close> adds.
\<close>

lemma dfs_seen_mono: "set seen \<subseteq> set (dfs g stack seen)"
  by (induction g stack seen rule: dfs.induct) auto

lemma dfs_stack_mono: "set stack \<subseteq> set (dfs g stack seen)"
proof (induction g stack seen rule: dfs.induct)
  case (2 g x stack seen)
  then show ?case
    using dfs_seen_mono [of seen g stack]
      dfs_seen_mono [of "x # seen" g "rev (succs g x) @ stack"] by auto
qed simp

lemma dfs_closed:
  "edges g `` set seen \<subseteq> set seen \<union> set stack \<Longrightarrow>
   edges g `` set (dfs g stack seen) \<subseteq> set (dfs g stack seen)"
proof (induction g stack seen rule: dfs.induct)
  case (2 g x stack seen)
  show ?case
  proof (cases "x \<in> set seen")
    case True
    with 2 show ?thesis by auto
  next
    case False
    have "edges g `` set (x # seen) \<subseteq> set (x # seen) \<union> set (rev (succs g x) @ stack)"
      using "2.prems" by auto
    with False "2.IH"(2) show ?thesis by simp
  qed
qed simp

lemma dfs_sound: "set (dfs g stack seen) \<subseteq> set seen \<union> (edges g)\<^sup>* `` set stack"
proof (induction g stack seen rule: dfs.induct)
  case (2 g x stack seen)
  show ?case
  proof (cases "x \<in> set seen")
    case True
    with "2.IH"(1) show ?thesis by auto
  next
    case False
    have "(edges g)\<^sup>* `` set (rev (succs g x) @ stack) \<subseteq> (edges g)\<^sup>* `` set (x # stack)"
    proof
      fix z
      assume "z \<in> (edges g)\<^sup>* `` set (rev (succs g x) @ stack)"
      then obtain y where y: "y \<in> set (succs g x) \<or> y \<in> set stack" and yz: "(y, z) \<in> (edges g)\<^sup>*"
        by auto
      from y show "z \<in> (edges g)\<^sup>* `` set (x # stack)"
      proof
        assume "y \<in> set (succs g x)"
        then have "(x, z) \<in> (edges g)\<^sup>*"
          using yz by (meson converse_rtrancl_into_rtrancl edges_iff)
        then show ?thesis by auto
      qed (use yz in auto)
    qed
    with False "2.IH"(2) show ?thesis by auto
  qed
qed simp

theorem dfs_correct: "set (dfs g stack []) = (edges g)\<^sup>* `` set stack"
proof
  show "set (dfs g stack []) \<subseteq> (edges g)\<^sup>* `` set stack"
    using dfs_sound [of g stack "[]"] by simp
  have closed: "edges g `` set (dfs g stack []) \<subseteq> set (dfs g stack [])"
    by (rule dfs_closed) simp
  have "y \<in> set (dfs g stack [])" if "(x, y) \<in> (edges g)\<^sup>*" and "x \<in> set stack" for x y
    using that
  proof (induction rule: rtrancl_induct)
    case base
    with dfs_stack_mono [of stack g "[]"] show ?case by auto
  next
    case (step y z)
    from ImageI [OF step.hyps(2) step.IH [OF step.prems]]
    have "z \<in> edges g `` set (dfs g stack [])" .
    with closed show ?case by (rule subsetD)
  qed
  then show "(edges g)\<^sup>* `` set stack \<subseteq> set (dfs g stack [])" by blast
qed

lemma dfs_any_iff:
  "(\<forall>x \<in> set seen. \<not> hit x) \<Longrightarrow> dfs_any g hit stack seen \<longleftrightarrow> (\<exists>x \<in> set (dfs g stack seen). hit x)"
proof (induction g hit stack seen rule: dfs_any.induct)
  case (2 g hit x stack seen)
  then show ?case
    using dfs_seen_mono [of "x # seen" g "rev (succs g x) @ stack"] by auto
qed simp

theorem dfs_any_correct:
  "dfs_any g hit stack [] \<longleftrightarrow> (\<exists>x \<in> (edges g)\<^sup>* `` set stack. hit x)"
  by (simp add: dfs_any_iff dfs_correct)

section \<open>State machines\<close>

text \<open>
  Several components are a state and a few operations called in any order. An operation that
  raises leaves the state as it is.
\<close>

locale guarded_machine =
  fixes step :: "'op \<Rightarrow> 's \<Rightarrow> 's"
    and init :: 's
    and inv :: "'s \<Rightarrow> bool"
  assumes inv_init: "inv init"
    and inv_step: "inv s \<Longrightarrow> inv (step oper s)"
begin

lemma inv_run: "inv s \<Longrightarrow> inv (fold step ops s)"
  by (induction ops arbitrary: s) (auto intro: inv_step)

lemma inv_reachable: "inv (fold step ops init)"
  by (rule inv_run [OF inv_init])

end

end
