(* ===== verification/Audit_Finding.thy ===== *)
theory Audit_Finding
  imports Py_Prelude
begin

text \<open>
  The domain data of \<open>audit_agent/finding.py\<close>: severities, statuses, the taxonomy tags and the
  \<open>Finding\<close> model. An enumeration is a datatype with its value strings; calling the enumeration
  on a string (\<open>Severity(s)\<close>) is a lookup over its members, \<open>None\<close> for the \<open>ValueError\<close>.
  Severities are ordered by the rank the guardrails, the escalation triggers and stage 3 each
  write down as a table.
\<close>

section \<open>Enumerations\<close>

datatype severity = Critical | High | Medium | Low | Informational

datatype finding_status = Open | Confirmed | Mock_review | Unverified | False_positive

datatype poc_status = Poc_passed | Poc_failed | Poc_mock_review

datatype bastet_tag =
    Tag_access_control
  | Tag_missing_access_control
  | Tag_incorrect_access_control
  | Tag_reentrancy
  | Tag_read_only_reentrancy
  | Tag_cross_function_reentrancy
  | Tag_arithmetic
  | Tag_overflow_underflow
  | Tag_precision_loss
  | Tag_rounding_error
  | Tag_oracle_manipulation
  | Tag_price_manipulation
  | Tag_flash_loan_attack
  | Tag_frontrunning
  | Tag_sandwich_attack
  | Tag_mev
  | Tag_logic_error
  | Tag_incorrect_calculation
  | Tag_wrong_assumption
  | Tag_missing_check
  | Tag_state_corruption
  | Tag_incorrect_state_update
  | Tag_missing_state_update
  | Tag_denial_of_service
  | Tag_gas_exhaustion
  | Tag_unbounded_loop
  | Tag_signature_replay
  | Tag_missing_signature_verification
  | Tag_signature_malleability
  | Tag_uninitialized_variable
  | Tag_missing_initialization
  | Tag_upgradability
  | Tag_storage_collision
  | Tag_delegatecall_injection
  | Tag_erc20_compliance
  | Tag_fee_on_transfer
  | Tag_rebasing_token
  | Tag_unchecked_return_value
  | Tag_arbitrary_external_call
  | Tag_centralization_risk
  | Tag_admin_privilege
  | Tag_timestamp_dependence
  | Tag_block_number_dependence
  | Tag_hardcoded_address
  | Tag_missing_event
  | Tag_informational

primrec severity_value :: "severity \<Rightarrow> string" where
  "severity_value Critical = ''critical''"
| "severity_value High = ''high''"
| "severity_value Medium = ''medium''"
| "severity_value Low = ''low''"
| "severity_value Informational = ''informational''"

primrec finding_status_value :: "finding_status \<Rightarrow> string" where
  "finding_status_value Open = ''open''"
| "finding_status_value Confirmed = ''confirmed''"
| "finding_status_value Mock_review = ''mock_review''"
| "finding_status_value Unverified = ''unverified''"
| "finding_status_value False_positive = ''false_positive''"

primrec poc_status_value :: "poc_status \<Rightarrow> string" where
  "poc_status_value Poc_passed = ''passed''"
| "poc_status_value Poc_failed = ''failed''"
| "poc_status_value Poc_mock_review = ''mock_review''"

primrec tag_value :: "bastet_tag \<Rightarrow> string" where
  "tag_value Tag_access_control = ''access-control''"
| "tag_value Tag_missing_access_control = ''missing-access-control''"
| "tag_value Tag_incorrect_access_control = ''incorrect-access-control''"
| "tag_value Tag_reentrancy = ''reentrancy''"
| "tag_value Tag_read_only_reentrancy = ''read-only-reentrancy''"
| "tag_value Tag_cross_function_reentrancy = ''cross-function-reentrancy''"
| "tag_value Tag_arithmetic = ''arithmetic''"
| "tag_value Tag_overflow_underflow = ''overflow-underflow''"
| "tag_value Tag_precision_loss = ''precision-loss''"
| "tag_value Tag_rounding_error = ''rounding-error''"
| "tag_value Tag_oracle_manipulation = ''oracle-manipulation''"
| "tag_value Tag_price_manipulation = ''price-manipulation''"
| "tag_value Tag_flash_loan_attack = ''flash-loan-attack''"
| "tag_value Tag_frontrunning = ''frontrunning''"
| "tag_value Tag_sandwich_attack = ''sandwich-attack''"
| "tag_value Tag_mev = ''mev''"
| "tag_value Tag_logic_error = ''logic-error''"
| "tag_value Tag_incorrect_calculation = ''incorrect-calculation''"
| "tag_value Tag_wrong_assumption = ''wrong-assumption''"
| "tag_value Tag_missing_check = ''missing-check''"
| "tag_value Tag_state_corruption = ''state-corruption''"
| "tag_value Tag_incorrect_state_update = ''incorrect-state-update''"
| "tag_value Tag_missing_state_update = ''missing-state-update''"
| "tag_value Tag_denial_of_service = ''denial-of-service''"
| "tag_value Tag_gas_exhaustion = ''gas-exhaustion''"
| "tag_value Tag_unbounded_loop = ''unbounded-loop''"
| "tag_value Tag_signature_replay = ''signature-replay''"
| "tag_value Tag_missing_signature_verification = ''missing-signature-verification''"
| "tag_value Tag_signature_malleability = ''signature-malleability''"
| "tag_value Tag_uninitialized_variable = ''uninitialized-variable''"
| "tag_value Tag_missing_initialization = ''missing-initialization''"
| "tag_value Tag_upgradability = ''upgradability''"
| "tag_value Tag_storage_collision = ''storage-collision''"
| "tag_value Tag_delegatecall_injection = ''delegatecall-injection''"
| "tag_value Tag_erc20_compliance = ''erc20-compliance''"
| "tag_value Tag_fee_on_transfer = ''fee-on-transfer''"
| "tag_value Tag_rebasing_token = ''rebasing-token''"
| "tag_value Tag_unchecked_return_value = ''unchecked-return-value''"
| "tag_value Tag_arbitrary_external_call = ''arbitrary-external-call''"
| "tag_value Tag_centralization_risk = ''centralization-risk''"
| "tag_value Tag_admin_privilege = ''admin-privilege''"
| "tag_value Tag_timestamp_dependence = ''timestamp-dependence''"
| "tag_value Tag_block_number_dependence = ''block-number-dependence''"
| "tag_value Tag_hardcoded_address = ''hardcoded-address''"
| "tag_value Tag_missing_event = ''missing-event''"
| "tag_value Tag_informational = ''informational''"

definition all_severities :: "severity list" where
  "all_severities = [Critical, High, Medium, Low, Informational]"

definition all_tags :: "bastet_tag list" where
  "all_tags =
  [Tag_access_control,
   Tag_missing_access_control,
   Tag_incorrect_access_control,
   Tag_reentrancy,
   Tag_read_only_reentrancy,
   Tag_cross_function_reentrancy,
   Tag_arithmetic,
   Tag_overflow_underflow,
   Tag_precision_loss,
   Tag_rounding_error,
   Tag_oracle_manipulation,
   Tag_price_manipulation,
   Tag_flash_loan_attack,
   Tag_frontrunning,
   Tag_sandwich_attack,
   Tag_mev,
   Tag_logic_error,
   Tag_incorrect_calculation,
   Tag_wrong_assumption,
   Tag_missing_check,
   Tag_state_corruption,
   Tag_incorrect_state_update,
   Tag_missing_state_update,
   Tag_denial_of_service,
   Tag_gas_exhaustion,
   Tag_unbounded_loop,
   Tag_signature_replay,
   Tag_missing_signature_verification,
   Tag_signature_malleability,
   Tag_uninitialized_variable,
   Tag_missing_initialization,
   Tag_upgradability,
   Tag_storage_collision,
   Tag_delegatecall_injection,
   Tag_erc20_compliance,
   Tag_fee_on_transfer,
   Tag_rebasing_token,
   Tag_unchecked_return_value,
   Tag_arbitrary_external_call,
   Tag_centralization_risk,
   Tag_admin_privilege,
   Tag_timestamp_dependence,
   Tag_block_number_dependence,
   Tag_hardcoded_address,
   Tag_missing_event,
   Tag_informational]"

definition severity_of :: "string \<Rightarrow> severity option" where
  "severity_of s = find (\<lambda>x. severity_value x = s) all_severities"

definition tag_of :: "string \<Rightarrow> bastet_tag option" where
  "tag_of s = find (\<lambda>x. tag_value x = s) all_tags"

lemma severity_of_value [simp]: "severity_of (severity_value s) = Some s"
  by (cases s) (simp_all add: severity_of_def all_severities_def)

lemma severity_of_Some: "severity_of s = Some v \<Longrightarrow> severity_value v = s"
  by (auto simp: severity_of_def all_severities_def split: if_splits)

lemma tag_of_value: "tag_of (tag_value t) = Some t"
  by (cases t) (simp_all add: tag_of_def all_tags_def)

lemma tag_of_Some: "tag_of s = Some t \<Longrightarrow> tag_value t = s"
  by (auto simp: tag_of_def find_Some_iff)

lemma tag_value_inj: "tag_value s = tag_value t \<Longrightarrow> s = t"
  by (metis option.inject tag_of_value)

lemma length_all_tags: "length all_tags = 46" and set_all_tags: "set all_tags = UNIV"
proof -
  show "length all_tags = 46" by (simp add: all_tags_def)
  have "t \<in> set all_tags" for t
    using tag_of_value [of t] by (auto simp: tag_of_def find_Some_iff)
  then show "set all_tags = UNIV" by blast
qed

section \<open>The order of severities\<close>

primrec severity_rank :: "severity \<Rightarrow> nat" where
  "severity_rank Informational = 0"
| "severity_rank Low = 1"
| "severity_rank Medium = 2"
| "severity_rank High = 3"
| "severity_rank Critical = 4"

lemma severity_rank_inj: "severity_rank a = severity_rank b \<Longrightarrow> a = b"
  by (cases a; cases b) simp_all

lemma severity_rank_le: "severity_rank a \<le> 4"
  by (cases a) simp_all

instantiation severity :: linorder
begin

definition less_eq_severity :: "severity \<Rightarrow> severity \<Rightarrow> bool" where
  "less_eq_severity a b \<longleftrightarrow> severity_rank a \<le> severity_rank b"

definition less_severity :: "severity \<Rightarrow> severity \<Rightarrow> bool" where
  "less_severity a b \<longleftrightarrow> severity_rank a < severity_rank b"

instance
  by standard (auto simp: less_eq_severity_def less_severity_def dest: severity_rank_inj)

end

lemmas severity_ord = less_eq_severity_def less_severity_def

section \<open>Findings\<close>

record finding =
  f_finding_id :: string
  f_location :: string
  f_function_name :: string
  f_bastet_tag :: "bastet_tag option"
  f_severity :: severity
  f_status :: finding_status
  f_preconditions :: "(int, bool) dict"
  f_mitigations_present :: "string list"
  f_poc_path :: "string option"
  f_poc_status :: "poc_status option"
  f_combined_with :: "string list"

text \<open>The constructor with the model's defaults for every optional field.\<close>

definition mk_finding :: "string \<Rightarrow> string \<Rightarrow> string \<Rightarrow> severity \<Rightarrow> finding" where
  "mk_finding fid loc fn sev =
     \<lparr>f_finding_id = fid, f_location = loc, f_function_name = fn, f_bastet_tag = None,
      f_severity = sev, f_status = Open, f_preconditions = [], f_mitigations_present = [],
      f_poc_path = None, f_poc_status = None, f_combined_with = []\<rparr>"

text \<open>\<open>location.split(":")[0]\<close> and \<open>location.split(":")[-1]\<close>, the file and function halves of a
  location; several components cut locations and targets this way.\<close>

definition file_of :: "string \<Rightarrow> string" where
  "file_of loc = hd (py_split (CHR '':'') loc)"

definition fn_of :: "string \<Rightarrow> string" where
  "fn_of loc = last (py_split (CHR '':'') loc)"

lemma file_of_target: "CHR '':'' \<notin> set f \<Longrightarrow> file_of (f @ '':'' @ g) = f"
  by (simp add: file_of_def py_split_append py_split_id)

lemma fn_of_target: "CHR '':'' \<notin> set g \<Longrightarrow> fn_of (f @ '':'' @ g) = g"
  by (simp add: fn_of_def py_split_append py_split_id)

lemma file_of_no_colon: "CHR '':'' \<notin> set (file_of loc)"
  unfolding file_of_def by (rule py_split_no_sep [of _ _ loc]) simp

lemma file_of_idem [simp]: "file_of (file_of loc) = file_of loc"
  using file_of_no_colon [of loc] by (simp add: file_of_def py_split_id)

definition active_preconditions :: "finding \<Rightarrow> nat" where
  "active_preconditions f = length (filter snd (f_preconditions f))"

abbreviation mitigated :: "finding \<Rightarrow> bool" where
  "mitigated f \<equiv> f_mitigations_present f \<noteq> []"

end
