(* ===== verification/Guardrails.thy ===== *)
theory Guardrails
  imports Audit_Finding
begin

text \<open>
  The deterministic guardrails over findings: the severity conjunction correction
  (\<open>guardrails/severity.py\<close>), the mock detector for PoC tests (\<open>guardrails/mock_detect.py\<close>)
  and the finding-based escalation triggers (\<open>escalation.py\<close>). The lemmas give the correction as
  a clamp of the severity, its idempotence and the exact condition of each escalation trigger.
  The locale \<open>severity_policy\<close> is what stage 3 relies on.
\<close>

section \<open>Severity correction\<close>

record severity_verdict =
  v_original :: severity
  v_corrected :: "severity option"
  v_reason :: "string option"

definition was_corrected :: "severity_verdict \<Rightarrow> bool" where
  "was_corrected v = (v_corrected v \<noteq> None)"

definition v_final :: "severity_verdict \<Rightarrow> severity" where
  "v_final v = (case v_corrected v of Some s \<Rightarrow> s | None \<Rightarrow> v_original v)"

definition downgrade_reason :: "severity \<Rightarrow> string list \<Rightarrow> string" where
  "downgrade_reason sev mits =
     ''Severity downgraded '' @ severity_value sev @ '' '' @ u_arrow @ '' medium: mitigations present ('' @
     py_join '', '' mits @ ''). SCB correction applied.''"

definition upgrade_reason :: "severity \<Rightarrow> nat \<Rightarrow> string" where
  "upgrade_reason sev n =
     ''Severity upgraded '' @ severity_value sev @ '' '' @ u_arrow @ '' high: '' @ nat_str n @
     '' active preconditions, no mitigations. Precondition threshold correction applied.''"

definition check_severity :: "finding \<Rightarrow> severity_verdict" where
  "check_severity f =
     (let sev = f_severity f; active = active_preconditions f;
          has_mitigations = (f_mitigations_present f \<noteq> [])
      in if has_mitigations \<and> severity_rank sev > severity_rank Medium
         then \<lparr>v_original = sev, v_corrected = Some Medium,
               v_reason = Some (downgrade_reason sev (f_mitigations_present f))\<rparr>
         else if active \<ge> 4 \<and> \<not> has_mitigations \<and> severity_rank sev < severity_rank High
         then \<lparr>v_original = sev, v_corrected = Some High, v_reason = Some (upgrade_reason sev active)\<rparr>
         else \<lparr>v_original = sev, v_corrected = None, v_reason = None\<rparr>)"

text \<open>The contract: a mitigation caps, many preconditions without one raise, nothing else moves.\<close>

definition severity_clamp :: "finding \<Rightarrow> severity" where
  "severity_clamp f =
     (if mitigated f then min (f_severity f) Medium
      else if active_preconditions f \<ge> 4 then max (f_severity f) High
      else f_severity f)"

lemma v_final_clamp: "v_final (check_severity f) = severity_clamp f"
  by (cases "f_severity f")
    (auto simp: check_severity_def v_final_def severity_clamp_def Let_def severity_ord min_def max_def)

lemma was_corrected_iff: "was_corrected (check_severity f) \<longleftrightarrow> v_final (check_severity f) \<noteq> f_severity f"
  by (auto simp: check_severity_def was_corrected_def v_final_def Let_def)

lemma corrected_reason:
  "was_corrected (check_severity f) \<longleftrightarrow> v_reason (check_severity f) \<noteq> None"
  by (auto simp: check_severity_def was_corrected_def Let_def)

text \<open>
  The interface stage 3 has to the guardrail: a correction of severities that caps, floors and,
  applied again, changes nothing.
\<close>

locale severity_policy =
  fixes correct :: "finding \<Rightarrow> severity"
  assumes caps: "mitigated f \<Longrightarrow> correct f \<le> Medium"
    and floors: "\<not> mitigated f \<Longrightarrow> active_preconditions f \<ge> 4 \<Longrightarrow> High \<le> correct f"
    and stable: "correct (f\<lparr>f_severity := correct f\<rparr>) = correct f"
begin

lemma corrected_unmitigated: "High \<le> correct f \<Longrightarrow> \<not> mitigated f"
  using caps [of f] by (auto simp: severity_ord dest: order_trans)

lemma pass_stable:
  "map correct (map (\<lambda>f. f\<lparr>f_severity := correct f\<rparr>) fs) = map correct fs"
  by (simp add: stable)

end

interpretation sevp: severity_policy "\<lambda>f. v_final (check_severity f)"
proof
  fix f :: finding
  show "mitigated f \<Longrightarrow> v_final (check_severity f) \<le> Medium"
    by (simp add: v_final_clamp severity_clamp_def)
  show "\<not> mitigated f \<Longrightarrow> active_preconditions f \<ge> 4 \<Longrightarrow> High \<le> v_final (check_severity f)"
    by (simp add: v_final_clamp severity_clamp_def)
  show "v_final (check_severity (f\<lparr>f_severity := v_final (check_severity f)\<rparr>)) = v_final (check_severity f)"
    by (simp add: v_final_clamp severity_clamp_def active_preconditions_def)
qed

section \<open>Mock detection\<close>

definition mock_patterns :: "(string \<times> string) list" where
  "mock_patterns =
    [(''vm.mockCall'', ''mocked_external_call''),
     (''vm.store('', ''direct_storage_write''),
     (''vm.etch('', ''code_replacement''),
     (''vm.assume('', ''input_overconstraint''),
     (''not implemented'', ''unimplemented_stub''),
     (''assertTrue(true'', ''trivial_assertion''),
     (''// TODO'', ''incomplete_marker'')]"

record test_quality =
  q_is_mock :: bool
  q_flags :: "string list"
  q_status :: finding_status

definition check_test_realism :: "string \<Rightarrow> test_quality" where
  "check_test_realism code =
     (let flags = map snd (filter (\<lambda>(pattern, label). py_in pattern code) mock_patterns)
      in if flags \<noteq> [] then \<lparr>q_is_mock = True, q_flags = flags, q_status = Mock_review\<rparr>
         else \<lparr>q_is_mock = False, q_flags = [], q_status = Confirmed\<rparr>)"

lemma check_test_realism_confirmed:
  "q_status (check_test_realism code) = Confirmed \<longleftrightarrow> (\<forall>p \<in> fst ` set mock_patterns. \<not> py_in p code)"
  by (auto simp: check_test_realism_def Let_def filter_empty_conv) force

lemma check_test_realism_status:
  "q_status (check_test_realism code) = (if q_is_mock (check_test_realism code) then Mock_review else Confirmed)"
  by (simp add: check_test_realism_def Let_def)

text \<open>More text never clears a flag.\<close>

lemma check_test_realism_mono:
  "q_is_mock (check_test_realism code) \<Longrightarrow> q_is_mock (check_test_realism (pre @ code @ post))"
  by (auto simp: check_test_realism_def Let_def filter_empty_conv intro: py_in_append split: if_splits)

section \<open>Escalation\<close>

datatype escalation_trigger =
  Critical_finding | Unverified_high | Mock_test | Contradicting_findings | Unknown_pattern

record escalation_result =
  e_triggered :: bool
  e_trigger :: escalation_trigger
  e_detail :: string

definition escalate :: "escalation_trigger \<Rightarrow> string \<Rightarrow> escalation_result" where
  "escalate t d = \<lparr>e_triggered = True, e_trigger = t, e_detail = d\<rparr>"

definition rank_gap :: "severity \<Rightarrow> severity \<Rightarrow> int" where
  "rank_gap a b = abs (int (severity_rank a) - int (severity_rank b))"

definition contradicts :: "finding \<Rightarrow> finding \<Rightarrow> bool" where
  "contradicts f existing \<longleftrightarrow>
     f_location existing = f_location f \<and> f_function_name existing = f_function_name f \<and>
     rank_gap (f_severity existing) (f_severity f) \<ge> 2"

definition domain_escalation :: "finding option \<Rightarrow> finding list \<Rightarrow> escalation_result option" where
  "domain_escalation fo existing =
     (case fo of None \<Rightarrow> None
      | Some f \<Rightarrow>
        if f_severity f = Critical
        then Some (escalate Critical_finding (''Critical severity finding at '' @ f_location f))
        else if f_severity f = High \<and> f_status f = Unverified
        then Some (escalate Unverified_high (''Unverified high-severity finding '' @ f_finding_id f @
               '' at '' @ f_location f))
        else if f_poc_status f = Some Poc_mock_review
        then Some (escalate Mock_test (''PoC for '' @ f_finding_id f @ '' uses mock patterns '' @
               u_emdash @ '' human review required''))
        else (case find (contradicts f) existing of
            Some x \<Rightarrow> Some (escalate Contradicting_findings (''Contradicting severity at '' @
               f_location f @ '': existing='' @ severity_value (f_severity x) @ '', new='' @
               severity_value (f_severity f)))
          | None \<Rightarrow>
              if f_bastet_tag f = None \<and> f_severity f \<notin> {Informational, Low}
              then Some (escalate Unknown_pattern (''No Bastet tag on '' @ severity_value (f_severity f) @
                     '' finding '' @ f_finding_id f))
              else None))"

text \<open>The condition of each trigger, without the order of the tests.\<close>

definition trigger_holds :: "finding \<Rightarrow> finding list \<Rightarrow> escalation_trigger \<Rightarrow> bool" where
  "trigger_holds f existing t =
     (case t of
        Critical_finding \<Rightarrow> f_severity f = Critical
      | Unverified_high \<Rightarrow> f_severity f = High \<and> f_status f = Unverified
      | Mock_test \<Rightarrow> f_poc_status f = Some Poc_mock_review
      | Contradicting_findings \<Rightarrow> (\<exists>x \<in> set existing. contradicts f x)
      | Unknown_pattern \<Rightarrow> f_bastet_tag f = None \<and> Medium \<le> f_severity f)"

definition trigger_order :: "escalation_trigger list" where
  "trigger_order = [Critical_finding, Unverified_high, Mock_test, Contradicting_findings, Unknown_pattern]"

lemma find_None_ex: "find P xs = None \<longleftrightarrow> \<not> (\<exists>x \<in> set xs. P x)"
  by (auto simp: find_None_iff)

lemma severity_above_low: "f_severity f \<notin> {Informational, Low} \<longleftrightarrow> Medium \<le> f_severity f"
  by (cases "f_severity f") (auto simp: severity_ord)

lemma domain_escalation_first:
  "map_option e_trigger (domain_escalation (Some f) existing) = find (trigger_holds f existing) trigger_order"
proof (cases "find (contradicts f) existing")
  case None
  then have "\<not> (\<exists>x \<in> set existing. contradicts f x)" by (simp add: find_None_ex)
  with None show ?thesis
    using severity_above_low [of f]
    by (auto simp: domain_escalation_def escalate_def trigger_order_def trigger_holds_def)
next
  case (Some x)
  then have "\<exists>x \<in> set existing. contradicts f x" by (auto simp: find_Some_iff dest: nth_mem)
  with Some show ?thesis
    by (auto simp: domain_escalation_def escalate_def trigger_order_def trigger_holds_def)
qed

lemma domain_escalation_None: "domain_escalation None existing = None"
  by (simp add: domain_escalation_def)

section \<open>Properties\<close>

text \<open>The severity guardrail is the intended clamp. A mitigated finding ends at medium or its own
  lower severity, an unmitigated one with four active preconditions at high or its own higher
  severity, every other severity stands; a correction is reported exactly when the severity
  changes, and a corrected finding needs no second correction.\<close>

lemma severity_correction:
  "v_final (check_severity f) =
     (if mitigated f then min (f_severity f) Medium
      else if 4 \<le> active_preconditions f then max (f_severity f) High else f_severity f) \<and>
   (was_corrected (check_severity f) \<longleftrightarrow> v_final (check_severity f) \<noteq> f_severity f) \<and>
   \<not> was_corrected (check_severity (f\<lparr>f_severity := v_final (check_severity f)\<rparr>))"
  using v_final_clamp [of f] was_corrected_iff sevp.stable [of f]
  by (auto simp: severity_clamp_def)

text \<open>The domain triggers fire in their documented order. The escalation of a finding carries the
  first of the five triggers whose condition holds, and there is none when no condition holds.\<close>

lemma escalation_order:
  "map_option e_trigger (domain_escalation (Some f) existing) = find (trigger_holds f existing) trigger_order"
  by (rule domain_escalation_first)

text \<open>A proof-of-concept test is confirmed exactly when it holds none of the mock patterns, and text
  added around a flagged test never confirms it.\<close>

lemma mock_never_confirmed:
  "(q_status (check_test_realism code) = Confirmed \<longleftrightarrow> (\<forall>p \<in> fst ` set mock_patterns. \<not> py_in p code)) \<and>
   (q_status (check_test_realism code) \<noteq> Confirmed \<longrightarrow> q_status (check_test_realism (pre @ code @ post)) = Mock_review)"
  using check_test_realism_confirmed check_test_realism_mono [of code pre post] check_test_realism_status
  by (metis finding_status.distinct)

lemma mock_never_confirmed_witness:
  "q_status (check_test_realism (''function testX() { '' @ ''vm.mockCall(a, b, c);'' @ '' }'')) = Mock_review"
proof -
  have "q_status (check_test_realism ''vm.mockCall(a, b, c);'') \<noteq> Confirmed" by code_simp
  with mock_never_confirmed [of "''vm.mockCall(a, b, c);''" "''function testX() { ''" "'' }''"] show ?thesis by blast
qed

end
