(* ===== verification/Py_Regex.thy ===== *)
theory Py_Regex
  imports Py_Prelude
begin

text \<open>
  The module \<open>re\<close> as far as the code uses it: a backtracking matcher. A regular expression is
  compiled by hand into the constructors below, one for each construct of the source's patterns; a
  matcher state is the text before the position (reversed), the text after it and the groups
  captured so far. \<open>rmatch\<close> lists the ways to match at a position in the order the backtracking
  engine would try them, so its head is the match \<open>re\<close> reports. The lemmas say that a match
  never leaves the text it runs on, which makes \<open>finditer\<close> terminate, and where its spans lie.
\<close>

type_synonym re_groups = "(nat \<times> nat \<times> nat) list"
type_synonym re_state = "string \<times> string \<times> re_groups"

datatype regex =
    RChr "char \<Rightarrow> bool"            \<comment> \<open>a class, or one character\<close>
  | REps
  | RSeq regex regex
  | RAlt regex regex                \<comment> \<open>\<open>a|b\<close>\<close>
  | RStar bool regex                \<comment> \<open>\<open>r*\<close> (greedy) or \<open>r*?\<close>\<close>
  | RGrp nat regex                  \<comment> \<open>a capturing group and its number\<close>
  | RAhead bool regex               \<comment> \<open>\<open>(?=r)\<close> and \<open>(?!r)\<close>\<close>
  | RBehind bool "char \<Rightarrow> bool"    \<comment> \<open>\<open>(?<=c)\<close> and \<open>(?<!c)\<close>, one character\<close>
  | RWordB                          \<comment> \<open>\<open>\b\<close>\<close>
  | RBol bool                       \<comment> \<open>\<open>^\<close>, with \<open>re.M\<close> or without\<close>
  | REol bool                       \<comment> \<open>\<open>$\<close>, with \<open>re.M\<close> or without\<close>

section \<open>The matcher\<close>

text \<open>Iterations of a star: one that consumes nothing is not followed. The remaining length bounds
  the number of the others.\<close>

fun star_iter :: "nat \<Rightarrow> bool \<Rightarrow> (re_state \<Rightarrow> re_state list) \<Rightarrow> re_state \<Rightarrow> re_state list" where
  "star_iter 0 g m s = [s]"
| "star_iter (Suc n) g m s =
     (let more = concat (map (star_iter n g m)
                   (filter (\<lambda>t. length (fst (snd t)) < length (fst (snd s))) (m s)))
      in if g then more @ [s] else s # more)"

definition word_at :: "string \<Rightarrow> bool" where
  "word_at s = (case s of [] \<Rightarrow> False | c # _ \<Rightarrow> py_word c)"

primrec rmatch :: "regex \<Rightarrow> re_state \<Rightarrow> re_state list" where
  "rmatch (RChr p) s =
     (case fst (snd s) of [] \<Rightarrow> []
      | c # cs \<Rightarrow> if p c then [(c # fst s, cs, snd (snd s))] else [])"
| "rmatch REps s = [s]"
| "rmatch (RSeq a b) s = concat (map (rmatch b) (rmatch a s))"
| "rmatch (RAlt a b) s = rmatch a s @ rmatch b s"
| "rmatch (RStar g r) s = star_iter (length (fst (snd s))) g (rmatch r) s"
| "rmatch (RGrp n r) s =
     map (\<lambda>t. (fst t, fst (snd t), (n, length (fst s), length (fst t)) # snd (snd t))) (rmatch r s)"
| "rmatch (RAhead pos r) s = (if (rmatch r s \<noteq> []) = pos then [s] else [])"
| "rmatch (RBehind pos p) s =
     (if (case fst s of [] \<Rightarrow> False | c # _ \<Rightarrow> p c) = pos then [s] else [])"
| "rmatch RWordB s = (if word_at (fst s) \<noteq> word_at (fst (snd s)) then [s] else [])"
| "rmatch (RBol m) s =
     (if fst s = [] \<or> (m \<and> hd (fst s) = CHR 0x0A) then [s] else [])"
| "rmatch (REol m) s =
     (let rest = fst (snd s) in
      if rest = [] \<or> rest = [CHR 0x0A] \<or> (m \<and> hd rest = CHR 0x0A) then [s] else [])"

subsection \<open>Derived constructs\<close>

definition rlit :: "string \<Rightarrow> regex" where
  "rlit s = foldr (\<lambda>c. RSeq (RChr (\<lambda>d. d = c))) s REps"

definition rseq :: "regex list \<Rightarrow> regex" where
  "rseq rs = foldr RSeq rs REps"

definition ralts :: "regex list \<Rightarrow> regex" where
  "ralts rs = (case rs of [] \<Rightarrow> REps | _ \<Rightarrow> foldr RAlt (butlast rs) (last rs))"

definition rplus :: "regex \<Rightarrow> regex" where
  "rplus r = RSeq r (RStar True r)"

definition ropt :: "regex \<Rightarrow> regex" where
  "ropt r = RAlt r REps"

fun ropts :: "nat \<Rightarrow> regex \<Rightarrow> regex" where
  "ropts 0 r = REps"
| "ropts (Suc n) r = RAlt (RSeq r (ropts n r)) REps"

text \<open>\<open>r{m,n}\<close>, greedy.\<close>

definition rrange :: "nat \<Rightarrow> nat \<Rightarrow> regex \<Rightarrow> regex" where
  "rrange m n r = RSeq (rseq (replicate m r)) (ropts (n - m) r)"

definition rws :: regex where "rws = RChr py_space"
definition rws0 :: regex where "rws0 = RStar True rws"
definition rws1 :: regex where "rws1 = rplus rws"
definition rword1 :: regex where "rword1 = rplus (RChr py_word)"
definition rdigit1 :: regex where "rdigit1 = rplus (RChr py_digit)"
definition rident :: regex where
  "rident = RSeq (RChr (\<lambda>c. py_upper_char c \<or> py_lower_char c \<or> c = CHR ''_'')) (RStar True (RChr py_word))"

lemmas re_build = rlit_def rseq_def ralts_def rplus_def ropt_def rrange_def rws_def rws0_def
  rws1_def rword1_def rdigit1_def rident_def word_at_def

section \<open>Matches stay in their text\<close>

definition re_text :: "re_state \<Rightarrow> string" where
  "re_text s = rev (fst s) @ fst (snd s)"

definition re_left :: "re_state \<Rightarrow> nat" where
  "re_left s = length (fst (snd s))"

definition re_sub :: "re_state \<Rightarrow> re_state \<Rightarrow> bool" where
  "re_sub s t \<longleftrightarrow> re_text t = re_text s \<and> re_left t \<le> re_left s"

lemma re_sub_refl [simp]: "re_sub s s"
  by (simp add: re_sub_def)

lemma re_sub_trans: "re_sub s t \<Longrightarrow> re_sub t u \<Longrightarrow> re_sub s u"
  by (simp add: re_sub_def)

lemma star_iter_sub:
  "(\<And>s t. t \<in> set (m s) \<Longrightarrow> re_sub s t) \<Longrightarrow> t \<in> set (star_iter n g m s) \<Longrightarrow> re_sub s t"
proof (induction n arbitrary: s t)
  case (Suc n)
  from Suc.prems(2) consider "t = s"
    | u where "u \<in> set (m s)" "t \<in> set (star_iter n g m u)"
    by (auto simp: Let_def split: if_splits)
  then show ?case
  proof cases
    case 2
    with Suc.IH [OF Suc.prems(1) 2(2)] Suc.prems(1) show ?thesis by (metis re_sub_trans)
  qed simp
qed simp

lemma rmatch_sub: "t \<in> set (rmatch r s) \<Longrightarrow> re_sub s t"
proof (induction r arbitrary: s t)
  case (RChr p)
  then show ?case
    by (cases s) (auto simp: re_sub_def re_text_def re_left_def split: list.splits if_splits)
next
  case (RSeq a b)
  from RSeq.prems obtain u where u: "u \<in> set (rmatch a s)" "t \<in> set (rmatch b u)" by auto
  from re_sub_trans [OF RSeq.IH(1) [OF u(1)] RSeq.IH(2) [OF u(2)]] show ?case .
next
  case (RStar g r)
  then show ?case using star_iter_sub [of "rmatch r"] by auto
next
  case (RGrp n r)
  then obtain u where u: "u \<in> set (rmatch r s)"
    and t: "t = (fst u, fst (snd u), (n, length (fst s), length (fst u)) # snd (snd u))" by auto
  from RGrp.IH [OF u] t show ?case by (simp add: re_sub_def re_text_def re_left_def)
qed (auto simp: Let_def split: if_splits)

text \<open>The number of rounds of a star is enough: further rounds add nothing.\<close>

lemma star_iter_enough:
  "re_left s \<le> n \<Longrightarrow> star_iter (Suc n) g m s = star_iter n g m s"
proof (induction n arbitrary: s)
  case 0
  then show ?case by (simp add: re_left_def Let_def)
next
  case (Suc n)
  have "map (star_iter (Suc n) g m) us = map (star_iter n g m) us"
    if "\<forall>u \<in> set us. re_left u < re_left s" for us
    using that Suc by (auto intro!: map_cong)
  note this [of "filter (\<lambda>t. length (fst (snd t)) < length (fst (snd s))) (m s)"]
  then have eq: "map (star_iter (Suc n) g m) (filter (\<lambda>t. length (fst (snd t)) < length (fst (snd s))) (m s))
      = map (star_iter n g m) (filter (\<lambda>t. length (fst (snd t)) < length (fst (snd s))) (m s))"
    by (simp add: re_left_def del: star_iter.simps)
  show ?case
    by (simp only: star_iter.simps(2) [of "Suc n" g m s] star_iter.simps(2) [of n g m s] eq)
qed

section \<open>Searching\<close>

record re_match =
  m_start :: nat
  m_end :: nat
  m_groups :: re_groups

text \<open>\<open>re.match\<close> at a position, and the leftmost match from a position on; with \<open>adv\<close> an empty
  match at the position itself does not count (the rule after an empty match).\<close>

definition match_at :: "regex \<Rightarrow> bool \<Rightarrow> string \<Rightarrow> string \<Rightarrow> re_state option" where
  "match_at r adv pre rest =
     (case filter (\<lambda>t. adv \<longrightarrow> length (fst (snd t)) < length rest) (rmatch r (pre, rest, [])) of
        [] \<Rightarrow> None | t # _ \<Rightarrow> Some t)"

fun search_from :: "regex \<Rightarrow> bool \<Rightarrow> string \<Rightarrow> string \<Rightarrow> (nat \<times> re_state) option" where
  "search_from r adv pre [] = map_option (Pair (length pre)) (match_at r adv pre [])"
| "search_from r adv pre (c # cs) =
     (case match_at r adv pre (c # cs) of
        Some t \<Rightarrow> Some (length pre, t)
      | None \<Rightarrow> search_from r False (c # pre) cs)"

lemma match_at_sub:
  "match_at r adv pre rest = Some t \<Longrightarrow>
   re_sub (pre, rest, []) t \<and> (adv \<longrightarrow> re_left t < length rest)"
proof -
  assume "match_at r adv pre rest = Some t"
  then obtain ts where
    "filter (\<lambda>t. adv \<longrightarrow> length (fst (snd t)) < length rest) (rmatch r (pre, rest, [])) = t # ts"
    unfolding match_at_def
    by (cases "filter (\<lambda>t. adv \<longrightarrow> length (fst (snd t)) < length rest) (rmatch r (pre, rest, []))") simp_all
  then have "t \<in> set (filter (\<lambda>t. adv \<longrightarrow> length (fst (snd t)) < length rest) (rmatch r (pre, rest, [])))"
    by (simp only: list.set_intros)
  then show ?thesis by (auto simp: re_left_def dest: rmatch_sub)
qed

lemma re_text_sub: "re_sub s t \<Longrightarrow> re_text t = re_text s" by (simp add: re_sub_def)

lemma search_from_sub:
  "search_from r adv pre rest = Some (i, t) \<Longrightarrow>
   re_text t = rev pre @ rest \<and> re_left t \<le> length rest \<and> length pre \<le> i \<and> i \<le> length (fst t) \<and>
   (adv \<longrightarrow> re_left t < length rest)"
proof (induction r adv pre rest rule: search_from.induct)
  case (1 r adv pre)
  then obtain "match_at r adv pre [] = Some t" "i = length pre" by auto
  with match_at_sub [of r adv pre "[]" t] show ?case
    by (auto simp: re_sub_def re_text_def re_left_def)
next
  case (2 r adv pre c cs)
  show ?case
  proof (cases "match_at r adv pre (c # cs)")
    case None
    with 2 show ?thesis by fastforce
  next
    case (Some u)
    with "2.prems" have "u = t" "i = length pre" by auto
    with match_at_sub [OF Some] have "re_text t = rev pre @ c # cs" "re_left t \<le> length (c # cs)"
      "adv \<longrightarrow> re_left t < length (c # cs)" by (auto simp: re_sub_def re_text_def re_left_def)
    moreover have "length (re_text t) = length (fst t) + re_left t"
      by (simp add: re_text_def re_left_def)
    ultimately show ?thesis using \<open>i = length pre\<close> by auto
  qed
qed

function finditer_from :: "regex \<Rightarrow> bool \<Rightarrow> string \<Rightarrow> string \<Rightarrow> re_match list" where
  "finditer_from r adv pre rest =
     (case search_from r adv pre rest of
        None \<Rightarrow> []
      | Some (i, t) \<Rightarrow>
          \<lparr>m_start = i, m_end = length (fst t), m_groups = snd (snd t)\<rparr>
          # finditer_from r (length (fst t) = i) (fst t) (fst (snd t)))"
  by pat_completeness auto
termination
proof (relation "measures [\<lambda>(r, adv, pre, rest). length rest, \<lambda>(r, adv, pre, rest). if adv then 0 else 1]")
  fix r adv and pre rest :: string and x i t
  assume x: "search_from r adv pre rest = Some x" and it: "(i, t) = x"
  then have s: "search_from r adv pre rest = Some (i, t)" by simp
  have len: "length (fst t) + re_left t = length pre + length rest"
  proof -
    from search_from_sub [OF s] have "length (re_text t) = length (rev pre @ rest)" by simp
    then show ?thesis by (simp add: re_text_def re_left_def)
  qed
  from search_from_sub [OF s] len
  show "((r, length (fst t) = i, fst t, fst (snd t)), (r, adv, pre, rest))
      \<in> measures [\<lambda>(r, adv, pre, rest). length rest, \<lambda>(r, adv, pre, rest). if adv then 0 else 1]"
    by (auto simp: re_left_def)
qed simp

declare finditer_from.simps [simp del]

definition re_finditer :: "regex \<Rightarrow> string \<Rightarrow> re_match list" where
  "re_finditer r s = finditer_from r False [] s"

definition re_search :: "regex \<Rightarrow> string \<Rightarrow> re_match option" where
  "re_search r s = map_option
     (\<lambda>(i, t). \<lparr>m_start = i, m_end = length (fst t), m_groups = snd (snd t)\<rparr>) (search_from r False [] s)"

definition re_match_start :: "regex \<Rightarrow> string \<Rightarrow> re_match option" where
  "re_match_start r s = map_option
     (\<lambda>t. \<lparr>m_start = 0, m_end = length (fst t), m_groups = snd (snd t)\<rparr>) (match_at r False [] s)"

definition substr :: "string \<Rightarrow> nat \<Rightarrow> nat \<Rightarrow> string" where
  "substr s i j = take (j - i) (drop i s)"

definition m_span :: "string \<Rightarrow> re_match \<Rightarrow> string" where
  "m_span s m = substr s (m_start m) (m_end m)"

text \<open>\<open>m.group(n)\<close>: the newest capture; the empty string stands for a group that took no part.\<close>

definition m_group :: "string \<Rightarrow> nat \<Rightarrow> re_match \<Rightarrow> string" where
  "m_group s n m = (case map_of (m_groups m) n of None \<Rightarrow> [] | Some (i, j) \<Rightarrow> substr s i j)"

lemmas re_eval = re_build re_finditer_def re_search_def re_match_start_def match_at_def
  finditer_from.simps substr_def m_span_def m_group_def Let_def

section \<open>Where matches lie\<close>

lemma search_span:
  assumes "search_from r adv pre rest = Some (i, t)"
  shows "length pre \<le> i" and "i \<le> length (fst t)" and "length (fst t) \<le> length pre + length rest"
proof -
  from search_from_sub [OF assms] have "length (re_text t) = length (rev pre @ rest)" by simp
  then have "length (fst t) + re_left t = length pre + length rest"
    by (simp add: re_text_def re_left_def)
  with search_from_sub [OF assms]
  show "length pre \<le> i" and "i \<le> length (fst t)" and "length (fst t) \<le> length pre + length rest"
    by auto
qed

lemma re_search_bounds:
  "re_search r s = Some m \<Longrightarrow> m_start m \<le> m_end m \<and> m_end m \<le> length s"
  by (auto simp: re_search_def dest: search_span)

definition spans_from :: "nat \<Rightarrow> re_match list \<Rightarrow> bool" where
  "spans_from n ms \<longleftrightarrow> sorted_wrt (\<lambda>a b. m_end a \<le> m_start b) ms \<and>
     (\<forall>m \<in> set ms. n \<le> m_start m \<and> m_start m \<le> m_end m)"

lemma finditer_spans:
  "spans_from (length pre) (finditer_from r adv pre rest) \<and>
   (\<forall>m \<in> set (finditer_from r adv pre rest). m_end m \<le> length pre + length rest)"
proof (induction r adv pre rest rule: finditer_from.induct)
  case (1 r adv pre rest)
  show ?case
  proof (cases "search_from r adv pre rest")
    case None
    then show ?thesis by (simp add: finditer_from.simps spans_from_def)
  next
    case (Some x)
    obtain i t where x: "x = (i, t)" by (cases x)
    note s = Some [unfolded x]
    have len: "length (fst t) + length (fst (snd t)) = length pre + length rest"
    proof -
      from search_from_sub [OF s] have "length (re_text t) = length (rev pre @ rest)" by simp
      then show ?thesis by (simp add: re_text_def)
    qed
    have IH: "spans_from (length (fst t)) (finditer_from r (length (fst t) = i) (fst t) (fst (snd t))) \<and>
      (\<forall>m \<in> set (finditer_from r (length (fst t) = i) (fst t) (fst (snd t))).
         m_end m \<le> length (fst t) + length (fst (snd t)))"
      using "1.IH" [OF Some x [symmetric]] by simp
    show ?thesis
      using IH search_span [OF s] len
      by (subst (1 2) finditer_from.simps) (fastforce simp: s spans_from_def)
  qed
qed

theorem finditer_disjoint:
  "spans_from 0 (re_finditer r s) \<and> (\<forall>m \<in> set (re_finditer r s). m_end m \<le> length s)"
  using finditer_spans [of "[]" r False s] by (simp add: re_finditer_def)

section \<open>Substitution\<close>

text \<open>\<open>re.sub(r, f, s, count)\<close>; a count of 0 replaces every match.\<close>

fun splice :: "string \<Rightarrow> nat \<Rightarrow> re_match list \<Rightarrow> (re_match \<Rightarrow> string) \<Rightarrow> string" where
  "splice s pos [] f = drop pos s"
| "splice s pos (m # ms) f = substr s pos (m_start m) @ f m @ splice s (m_end m) ms f"

definition re_subst :: "regex \<Rightarrow> (string \<Rightarrow> re_match \<Rightarrow> string) \<Rightarrow> nat \<Rightarrow> string \<Rightarrow> string" where
  "re_subst r f cnt s =
     (let ms = re_finditer r s in splice s 0 (if cnt = 0 then ms else take cnt ms) (f s))"

lemma splice_id:
  "spans_from n ms \<Longrightarrow> splice s n ms (m_span s) = drop n s"
proof (induction ms arbitrary: n)
  case (Cons m ms)
  then have b: "n \<le> m_start m" "m_start m \<le> m_end m" and "spans_from (m_end m) ms"
    by (auto simp: spans_from_def)
  with Cons.IH have IH: "splice s (m_end m) ms (m_span s) = drop (m_end m) s" by blast
  have sub: "substr s i j @ drop j s = drop i s" if "i \<le> j" for i j
    using that by (metis append_take_drop_id drop_drop le_add_diff_inverse2 substr_def)
  show ?case by (simp only: splice.simps IH) (simp add: m_span_def sub b)
qed simp

theorem re_subst_id: "re_subst r m_span 0 s = s"
  using splice_id [of 0 "re_finditer r s" s] finditer_disjoint [of r s]
  by (simp add: re_subst_def)

end
