(* ===== verification/Planner_Stage1.thy ===== *)
theory Planner_Stage1
  imports Audit_Finding Py_Regex
begin

text \<open>
  Stage 1, deterministic discovery (\<open>planner/stage1.py\<close>): the lightweight function extractor, the
  red-flag score and the prioritised report. The file system is a parameter: the listing of
  \<open>.sol\<close> files, the path resolution and the reader, which is \<open>None\<close> where the read raises.
  Paths are strings with \<open>/\<close> between their parts. The lemmas give the shape of an extracted body, the
  red flags a positive score means, and that the report partitions the functions found.
\<close>

section \<open>Function extraction\<close>

definition FUNC_RE :: regex where
  "FUNC_RE = rseq [RWordB, rlit ''function'', rws1, RGrp 1 rword1, rws0, rlit ''('']"

definition ASSIGN_RE :: regex where
  "ASSIGN_RE = rseq [RChr (\<lambda>c. c \<notin> set ''=!<>''), rlit ''='', RChr (\<lambda>c. c \<noteq> CHR ''='')]"

text \<open>Where the brace depth first returns to zero, scanning from the given depth.\<close>

fun close_at :: "int \<Rightarrow> string \<Rightarrow> nat option" where
  "close_at d [] = None"
| "close_at d (c # cs) =
     (if c = CHR ''{'' then map_option Suc (close_at (d + 1) cs)
      else if c = CHR ''}'' then
        (if d - 1 = 0 then Some 0 else map_option Suc (close_at (d - 1) cs))
      else map_option Suc (close_at d cs))"

definition match_body :: "string \<Rightarrow> nat \<Rightarrow> string" where
  "match_body source open_idx =
     (case close_at 0 (drop open_idx source) of
        Some k \<Rightarrow> substr source (open_idx + 1) (open_idx + k)
      | None \<Rightarrow> drop (open_idx + 1) source)"

text \<open>\<open>source.find(x, start)\<close> and \<open>source.count("\n", 0, start)\<close>.\<close>

definition find_from :: "string \<Rightarrow> string \<Rightarrow> nat \<Rightarrow> nat option" where
  "find_from needle source start = map_option ((+) start) (py_find needle (drop start source))"

definition line_at :: "string \<Rightarrow> nat \<Rightarrow> nat" where
  "line_at source start = length (filter (\<lambda>c. c = CHR 0x0A) (take start source)) + 1"

definition extract_function :: "string \<Rightarrow> re_match \<Rightarrow> (string \<times> string \<times> nat) option" where
  "extract_function source m =
     (let name = m_group source 1 m; start = m_start m;
          semi = find_from '';'' source start; brace = find_from ''{'' source start
      in case brace of
           None \<Rightarrow> None
         | Some b \<Rightarrow>
             if (case semi of Some s \<Rightarrow> s < b | None \<Rightarrow> False) then None
             else Some (name, match_body source b, line_at source start))"

definition extract_functions :: "string \<Rightarrow> (string \<times> string \<times> nat) list" where
  "extract_functions source = List.map_filter (extract_function source) (re_finditer FUNC_RE source)"

subsection \<open>Bodies are brace-balanced\<close>

definition brace_depth :: "string \<Rightarrow> int" where
  "brace_depth s = int (count_list s (CHR ''{'')) - int (count_list s (CHR ''}''))"

lemma brace_depth_simps [simp]:
  "brace_depth [] = 0"
  "brace_depth (c # cs) = (if c = CHR ''{'' then 1 else if c = CHR ''}'' then - 1 else 0) + brace_depth cs"
  by (auto simp: brace_depth_def)

lemma close_at_Some:
  "close_at d s = Some k \<Longrightarrow>
   k < length s \<and> s ! k = CHR ''}'' \<and> d + brace_depth (take k s) = 1"
proof (induction d s arbitrary: k rule: close_at.induct)
  case (2 d c cs)
  show ?case
  proof (cases "c = CHR ''{''")
    case True
    with "2.prems" obtain j where "close_at (d + 1) cs = Some j" "k = Suc j" by auto
    with "2.IH"(1) True show ?thesis by force
  next
    case nb: False
    show ?thesis
    proof (cases "c = CHR ''}'' \<and> d - 1 = 0")
      case True
      with nb "2.prems" show ?thesis by auto
    next
      case False
      define d' where "d' = (if c = CHR ''}'' then d - 1 else d)"
      from nb False "2.prems" obtain j where j: "close_at d' cs = Some j" "k = Suc j"
        by (auto simp: d'_def split: if_splits)
      have IH: "j < length cs \<and> cs ! j = CHR ''}'' \<and> d' + brace_depth (take j cs) = 1"
        using "2.IH"(2,3) [of j] nb False j(1) by (auto simp: d'_def split: if_splits)
      with nb j(2) show ?thesis by (auto simp: d'_def)
    qed
  qed
qed simp

lemma close_at_None: "close_at d s = None \<Longrightarrow> k \<le> length s \<Longrightarrow> 0 < d \<Longrightarrow> 0 < d + brace_depth (take k s)"
proof (induction d s arbitrary: k rule: close_at.induct)
  case (2 d c cs)
  show ?case
  proof (cases k)
    case (Suc j)
    define d' where "d' = (if c = CHR ''{'' then d + 1 else if c = CHR ''}'' then d - 1 else d)"
    have "close_at d' cs = None" and "0 < d'"
      using "2.prems" by (auto simp: d'_def split: if_splits)
    then have "0 < d' + brace_depth (take j cs)"
      using "2.IH" [of j] "2.prems" Suc by (auto simp: d'_def split: if_splits)
    then show ?thesis using Suc by (auto simp: d'_def)
  qed (use "2.prems" in simp)
qed simp

lemma match_body_closed:
  assumes at_open: "drop i source = CHR ''{'' # rest" and at_close: "close_at 0 (drop i source) = Some k"
  shows "drop i source = ''{'' @ match_body source i @ ''}'' @ drop (i + k + 1) source"
    and "brace_depth (match_body source i) = 0"
proof -
  from at_close at_open obtain j where j: "close_at 1 rest = Some j" and k: "k = Suc j" by auto
  from close_at_Some [OF j] have jl: "j < length rest" "rest ! j = CHR ''}''"
    and bal: "brace_depth (take j rest) = 0" by auto
  have "drop (Suc i) source = rest" using at_open by (metis drop_Suc drop_eq_Nil2 list.sel(3) tl_drop)
  then have body: "match_body source i = take j rest"
    using at_close k by (simp add: match_body_def substr_def)
  have "rest = take j rest @ ''}'' @ drop (Suc j) rest"
    using jl by (simp add: Cons_nth_drop_Suc append_take_drop_id flip: jl(2))
  moreover have "drop (i + k + 1) source = drop (Suc j) rest"
    using \<open>drop (Suc i) source = rest\<close> k by (metis add.commute add_Suc_shift drop_drop plus_1_eq_Suc)
  ultimately show "drop i source = ''{'' @ match_body source i @ ''}'' @ drop (i + k + 1) source"
    using at_open body by simp
  show "brace_depth (match_body source i) = 0" using body bal by simp
qed

section \<open>Red-flag score\<close>

definition RED_FLAGS :: "(string \<times> string \<times> nat) list" where
  "RED_FLAGS =
    [(''delegatecall'', ''delegatecall'', 6),
     (''selfdestruct'', ''selfdestruct'', 6),
     (''.call{value'', ''low_level_call_value'', 5),
     (''.call('', ''low_level_call'', 3),
     (''tx.origin'', ''tx_origin_auth'', 4),
     (''assembly'', ''inline_assembly'', 3),
     (''blockhash'', ''weak_randomness'', 2),
     (''.transfer('', ''native_transfer'', 2),
     (''.send('', ''native_send'', 2),
     (''block.timestamp'', ''timestamp_dependence'', 1)]"

text \<open>An external call followed by something of the shape of an assignment.\<close>

definition reentrancy_shape :: "string \<Rightarrow> bool" where
  "reentrancy_shape body =
     (case py_find ''.call'' body of
        None \<Rightarrow> False
      | Some i \<Rightarrow> re_search ASSIGN_RE (drop i body) \<noteq> None)"

definition score_function :: "string \<Rightarrow> nat \<times> string list" where
  "score_function body =
     (let hits = filter (\<lambda>(needle, label, weight). py_in needle body) RED_FLAGS;
          score = sum_list (map (snd \<circ> snd) hits);
          flags = map (fst \<circ> snd) hits
      in if reentrancy_shape body then (score + 5, flags @ [''external_call_before_state_write''])
         else (score, flags))"

lemma score_zero_iff: "fst (score_function body) = 0 \<longleftrightarrow> snd (score_function body) = []"
proof -
  define hits where "hits = filter (\<lambda>(needle, label, weight). py_in needle body) RED_FLAGS"
  have pos: "\<forall>h \<in> set hits. 0 < snd (snd h)" by (auto simp: hits_def RED_FLAGS_def)
  then have "sum_list (map (snd \<circ> snd) hits) = 0 \<longleftrightarrow> hits = []" by (cases hits) auto
  then show ?thesis by (simp add: score_function_def Let_def hits_def [symmetric])
qed

lemma score_flag_iff:
  "fst (score_function body) > 0 \<longleftrightarrow>
   (\<exists>(needle, label, weight) \<in> set RED_FLAGS. py_in needle body) \<or> reentrancy_shape body"
proof -
  have "snd (score_function body) \<noteq> [] \<longleftrightarrow>
      (\<exists>(needle, label, weight) \<in> set RED_FLAGS. py_in needle body) \<or> reentrancy_shape body"
    by (auto simp: score_function_def Let_def filter_empty_conv split: if_splits)
  then show ?thesis by (simp only: score_zero_iff [symmetric] neq0_conv)
qed

section \<open>The report\<close>

record function_target =
  t_target :: string
  t_score :: nat
  t_flags :: "string list"

record stage1_report =
  s1_priority_targets :: "string list"
  s1_skipped_targets :: "string list"
  s1_notes :: string

text \<open>\<open>sorted\<close> over paths compares their parts.\<close>

definition path_key :: "string \<Rightarrow> string list" where
  "path_key p = py_split (CHR ''/'') p"

definition is_absolute :: "string \<Rightarrow> bool" where
  "is_absolute p = py_startswith p ''/''"

definition collect_sol_files ::
  "(string \<Rightarrow> string) \<Rightarrow> string list \<Rightarrow> string \<Rightarrow> string list \<Rightarrow> string list \<Rightarrow> string list" where
  "collect_sol_files resolve listing audit_root exclude focus =
     (if focus \<noteq> [] then map (\<lambda>f. if is_absolute f then f else audit_root @ ''/'' @ f) focus
      else filter (\<lambda>p. \<not> (\<exists>e \<in> set exclude. py_startswith (resolve p) (resolve e)))
             (sort_key path_key listing))"

text \<open>\<open>path.relative_to(audit_root)\<close> for a path below the root, the path itself otherwise.\<close>

definition rel_to :: "string \<Rightarrow> string \<Rightarrow> string" where
  "rel_to audit_root p =
     (if py_startswith p (audit_root @ ''/'') then drop (length audit_root + 1) p else p)"

definition file_targets :: "string \<Rightarrow> string \<Rightarrow> string \<Rightarrow> function_target list" where
  "file_targets audit_root path source =
     map (\<lambda>(name, body, line).
            let (score, flags) = score_function body
            in \<lparr>t_target = rel_to audit_root path @ '':'' @ name, t_score = score, t_flags = flags\<rparr>)
         (extract_functions source)"

definition all_targets ::
  "(string \<Rightarrow> string option) \<Rightarrow> string \<Rightarrow> string list \<Rightarrow> function_target list" where
  "all_targets read audit_root paths =
     concat (map (\<lambda>p. case read p of None \<Rightarrow> [] | Some source \<Rightarrow> file_targets audit_root p source) paths)"

definition sort_targets :: "function_target list \<Rightarrow> function_target list" where
  "sort_targets ts = sort_key (\<lambda>t. (- int (t_score t), t_target t)) ts"

definition target_note :: "function_target \<Rightarrow> string" where
  "target_note t = t_target t @ '' (score='' @ nat_str (t_score t) @ '': '' @ py_join '', '' (t_flags t) @ '')''"

definition stage1_notes :: "function_target list \<Rightarrow> string" where
  "stage1_notes targets =
     (let lines = map target_note (take 10 targets)
      in if lines \<noteq> [] then ''Top red-flag targets:'' @ nl @ py_join nl lines
         else ''No red-flag functions found.'')"

definition run_stage1 ::
  "(string \<Rightarrow> string) \<Rightarrow> string list \<Rightarrow> (string \<Rightarrow> string option) \<Rightarrow>
   string \<Rightarrow> string list \<Rightarrow> string list \<Rightarrow> stage1_report" where
  "run_stage1 resolve listing read audit_root exclude focus =
     (let ts = all_targets read audit_root (collect_sol_files resolve listing audit_root exclude focus);
          targets = sort_targets (filter (\<lambda>t. t_score t > 0) ts);
          skipped = map t_target (filter (\<lambda>t. \<not> t_score t > 0) ts)
      in \<lparr>s1_priority_targets = map t_target targets, s1_skipped_targets = skipped,
          s1_notes = stage1_notes targets\<rparr>)"

lemma mset_sort_targets [simp]: "mset (sort_targets ts) = mset ts"
  by (simp add: sort_targets_def)

lemma sort_targets_sorted:
  "sorted_wrt (\<lambda>a b. t_score b < t_score a \<or> (t_score a = t_score b \<and> t_target a \<le> t_target b))
     (sort_targets ts)"
proof -
  have "sorted_wrt (\<lambda>a b. (- int (t_score a), t_target a) \<le> (- int (t_score b), t_target b)) (sort_targets ts)"
    using sorted_sort_key [of "\<lambda>t. (- int (t_score t), t_target t)" ts]
    by (simp add: sort_targets_def sorted_map)
  then show ?thesis by (rule sorted_wrt_mono_rel [rotated]) auto
qed

lemma run_stage1_partition:
  "mset (s1_priority_targets (run_stage1 rs ls rd root ex fo)) + mset (s1_skipped_targets (run_stage1 rs ls rd root ex fo))
   = mset (map t_target (all_targets rd root (collect_sol_files rs ls root ex fo)))"
proof -
  have "filter_mset P (mset xs) + filter_mset (\<lambda>x. \<not> P x) (mset xs) = mset xs" for P and xs :: "function_target list"
    by (rule multiset_partition [symmetric])
  then have part: "image_mset t_target (filter_mset P (mset xs)) + image_mset t_target (filter_mset (\<lambda>x. \<not> P x) (mset xs))
      = image_mset t_target (mset xs)" for P and xs :: "function_target list"
    by (metis image_mset_union)
  show ?thesis by (simp add: run_stage1_def Let_def mset_map part del: not_gr_zero)
qed

text \<open>Paths below an excluded directory are excluded; so is a sibling whose name extends it.\<close>

lemma collect_excludes:
  "e \<in> set exclude \<Longrightarrow> py_startswith (resolve p) (resolve e) \<Longrightarrow>
   p \<notin> set (collect_sol_files resolve listing root exclude [])"
  by (auto simp: collect_sol_files_def)

lemma collect_focus:
  "focus \<noteq> [] \<Longrightarrow> length (collect_sol_files rs ls root ex focus) = length focus"
  by (simp add: collect_sol_files_def)

section \<open>Properties\<close>

definition red_flagged :: "function_target \<Rightarrow> bool" where
  "red_flagged t \<longleftrightarrow> t_score t > 0"

text \<open>The stage 1 report loses and invents no function. Its two lists are a partition of the targets
  of the collected files; the priority list is the red-flagged ones, by falling score and then by
  name, the skipped list the others in file order.\<close>

lemma stage1_report_complete:
  "\<exists>ts. s1_priority_targets (run_stage1 rs ls rd root ex fo) = map t_target ts \<and>
     mset ts = filter_mset red_flagged (mset (all_targets rd root (collect_sol_files rs ls root ex fo))) \<and>
     sorted_wrt (\<lambda>a b. t_score b < t_score a \<or> (t_score a = t_score b \<and> t_target a \<le> t_target b)) ts \<and>
     s1_skipped_targets (run_stage1 rs ls rd root ex fo) =
       map t_target (filter (\<lambda>t. \<not> red_flagged t) (all_targets rd root (collect_sol_files rs ls root ex fo)))"
  unfolding run_stage1_def Let_def red_flagged_def
  by (intro exI [of _ "sort_targets (filter (\<lambda>t. t_score t > 0)
        (all_targets rd root (collect_sol_files rs ls root ex fo)))"])
    (simp add: sort_targets_sorted del: not_gr_zero)

text \<open>A function body is a target exactly when a red-flag substring or the call-before-write shape
  occurs in it, and then the report names a flag.\<close>

lemma score_positive_iff:
  "(fst (score_function body) > 0 \<longleftrightarrow>
     (\<exists>(needle, label, weight) \<in> set RED_FLAGS. py_in needle body) \<or> reentrancy_shape body) \<and>
   (fst (score_function body) = 0 \<longleftrightarrow> snd (score_function body) = [])"
  using score_flag_iff score_zero_iff by blast

text \<open>The body matcher returns the text between a brace and the brace that closes it: the body is
  balanced, and the source from the opening brace on is the brace, the body, the closing brace and
  the rest.\<close>

lemma match_body_balanced:
  assumes "drop i source = CHR ''{'' # tail" "close_at 0 (drop i source) = Some k"
  shows "drop i source = ''{'' @ match_body source i @ ''}'' @ drop (i + k + 1) source \<and>
    brace_depth (match_body source i) = 0"
  using match_body_closed [OF assms] by blast

lemma match_body_balanced_witness:
  "drop 4 ''f() {a{b}c}d'' = ''{'' @ match_body ''f() {a{b}c}d'' 4 @ ''}'' @ drop (4 + 6 + 1) ''f() {a{b}c}d'' \<and>
   brace_depth (match_body ''f() {a{b}c}d'' 4) = 0"
  by (rule match_body_balanced [of 4 "''f() {a{b}c}d''" "''a{b}c}d''" 6]) (simp_all add: eval_nat_numeral)

text \<open>Exclusion compares path strings by prefix, so a sibling directory whose name extends an
  excluded directory's name is dropped from the audit with it.\<close>

lemma sibling_directory_excluded:
  "collect_sol_files (\<lambda>p. p) [''/a/lib2/V.sol'', ''/a/src/V.sol''] ''/a'' [''/a/lib''] [] = [''/a/src/V.sol'']"
  by code_simp

end
