(* ===== verification/Py_Json.thy ===== *)
theory Py_Json
  imports Py_Prelude
begin

text \<open>
  Dynamically typed values: what \<open>json.loads\<close> yields and what action parameters and memory
  bodies hold. Floating point numbers are left out, no field the model reads carries one. With
  them come Python's truth test, \<open>str\<close> and \<open>repr\<close>, \<open>dict.get\<close> and iteration, each raising
  where Python does.
\<close>

datatype json =
    JNull
  | JBool bool
  | JInt int
  | JStr string
  | JList "json list"
  | JObj "(string \<times> json) list"

type_synonym json_obj = "(string \<times> json) list"

fun truthy :: "json \<Rightarrow> bool" where
  "truthy JNull = False"
| "truthy (JBool b) = b"
| "truthy (JInt i) = (i \<noteq> 0)"
| "truthy (JStr s) = (s \<noteq> [])"
| "truthy (JList xs) = (xs \<noteq> [])"
| "truthy (JObj kvs) = (kvs \<noteq> [])"

fun is_obj :: "json \<Rightarrow> bool" where
  "is_obj (JObj kvs) = True"
| "is_obj _ = False"

fun is_str :: "json \<Rightarrow> bool" where
  "is_str (JStr s) = True"
| "is_str _ = False"

section \<open>repr and str\<close>

definition hex_digit :: "nat \<Rightarrow> char" where
  "hex_digit n = (if n < 10 then char_of (48 + n) else char_of (87 + n))"

definition repr_char :: "char \<Rightarrow> char \<Rightarrow> string" where
  "repr_char q c =
     (let n = of_char c :: nat in
      if c = q \<or> n = 92 then [char_of (92::nat), c]
      else if n = 10 then [char_of (92::nat), CHR ''n'']
      else if n = 13 then [char_of (92::nat), CHR ''r'']
      else if n = 9 then [char_of (92::nat), CHR ''t'']
      else if n < 32 \<or> n = 127 then [char_of (92::nat), CHR ''x'', hex_digit (n div 16), hex_digit (n mod 16)]
      else [c])"

definition py_repr_str :: "string \<Rightarrow> string" where
  "py_repr_str s =
     (let q = (if CHR 0x27 \<in> set s \<and> CHR 0x22 \<notin> set s then CHR 0x22 else CHR 0x27)
      in [q] @ concat (map (repr_char q) s) @ [q])"

fun py_repr :: "json \<Rightarrow> string" where
  "py_repr JNull = ''None''"
| "py_repr (JBool b) = (if b then ''True'' else ''False'')"
| "py_repr (JInt i) = int_str i"
| "py_repr (JStr s) = py_repr_str s"
| "py_repr (JList xs) = ''['' @ py_join '', '' (map py_repr xs) @ '']''"
| "py_repr (JObj kvs) =
     ''{'' @ py_join '', '' (map (\<lambda>kv. py_repr_str (fst kv) @ '': '' @ py_repr (snd kv)) kvs) @ ''}''"

definition py_str :: "json \<Rightarrow> string" where
  "py_str v = (case v of JStr s \<Rightarrow> s | _ \<Rightarrow> py_repr v)"

lemma py_str_JStr [simp]: "py_str (JStr s) = s"
  by (simp add: py_str_def)

section \<open>Access\<close>

definition type_name :: "json \<Rightarrow> string" where
  "type_name v = (case v of JNull \<Rightarrow> ''NoneType'' | JBool _ \<Rightarrow> ''bool'' | JInt _ \<Rightarrow> ''int''
     | JStr _ \<Rightarrow> ''str'' | JList _ \<Rightarrow> ''list'' | JObj _ \<Rightarrow> ''dict'')"

definition no_attr :: "json \<Rightarrow> string \<Rightarrow> 'a py" where
  "no_attr v name = raise ''AttributeError''
     ([CHR 0x27] @ type_name v @ [CHR 0x27] @ '' object has no attribute '' @ [CHR 0x27] @ name @ [CHR 0x27])"

text \<open>\<open>v.get(k, d)\<close> and iteration over a value.\<close>

definition jget :: "json \<Rightarrow> string \<Rightarrow> json \<Rightarrow> json py" where
  "jget v k d = (case v of JObj kvs \<Rightarrow> Inr (dict_getd kvs k d) | _ \<Rightarrow> no_attr v ''get'')"

definition jiter :: "json \<Rightarrow> json list py" where
  "jiter v = (case v of
       JList xs \<Rightarrow> Inr xs
     | JObj kvs \<Rightarrow> Inr (map (JStr \<circ> fst) kvs)
     | JStr s \<Rightarrow> Inr (map (\<lambda>c. JStr [c]) s)
     | _ \<Rightarrow> raise ''TypeError'' ([CHR 0x27] @ type_name v @ [CHR 0x27] @ '' object is not iterable''))"

text \<open>\<open>a or b\<close>.\<close>

definition por :: "json \<Rightarrow> json \<Rightarrow> json" where
  "por a b = (if truthy a then a else b)"

lemma jget_JObj [simp]: "jget (JObj kvs) k d = Inr (dict_getd kvs k d)"
  by (simp add: jget_def)

lemma jiter_JList [simp]: "jiter (JList xs) = Inr xs"
  by (simp add: jiter_def)

lemma py_repr_str_quoted: "py_repr_str s \<noteq> []"
  by (simp add: py_repr_str_def Let_def)

end
