(* ===== verification/Planner_Sig.thy ===== *)
theory Planner_Sig
  imports Planner_Stage1 Py_Json
begin

text \<open>
  The state interference graph (\<open>planner/sig.py\<close>): read and write sets of every function, built
  either from one source file with regular expressions or from the edges of a SmartGraphical graph,
  whose calls propagate the callees' sets to the callers. The lemmas: the sets of the first builder
  are disjoint sets of state variables, interference is symmetric, and the second builder computes
  exactly the union over the functions reachable by calls, whatever the order of processing.
\<close>

section \<open>The graph\<close>

record function_node =
  n_name :: string
  n_reads :: "string set"
  n_writes :: "string set"
  n_external :: bool

type_synonym sig_graph = "(string, function_node) dict"

definition new_node :: "string \<Rightarrow> function_node" where
  "new_node name = \<lparr>n_name = name, n_reads = {}, n_writes = {}, n_external = False\<rparr>"

definition interferes :: "sig_graph \<Rightarrow> string \<Rightarrow> string \<Rightarrow> bool" where
  "interferes sig a b =
     (case (dict_get sig a, dict_get sig b) of
        (Some fa, Some fb) \<Rightarrow>
          n_writes fa \<inter> (n_reads fb \<union> n_writes fb) \<noteq> {} \<or> n_writes fb \<inter> (n_reads fa \<union> n_writes fa) \<noteq> {}
      | _ \<Rightarrow> False)"

definition can_reenter :: "sig_graph \<Rightarrow> string \<Rightarrow> string \<Rightarrow> bool" where
  "can_reenter sig a b =
     (case dict_get sig a of None \<Rightarrow> False | Some fa \<Rightarrow> n_external fa \<and> interferes sig a b)"

lemma interferes_sym: "interferes sig a b = interferes sig b a"
  by (auto simp: interferes_def split: option.splits)

lemma interferes_unknown: "dict_get sig a = None \<Longrightarrow> \<not> interferes sig a b"
  by (simp add: interferes_def)

text \<open>Two readers never interfere; a writer interferes with itself.\<close>

lemma interferes_iff_shared_write:
  "interferes sig a b \<longleftrightarrow> (\<exists>fa fb v. dict_get sig a = Some fa \<and> dict_get sig b = Some fb \<and>
     v \<in> n_reads fa \<union> n_writes fa \<and> v \<in> n_reads fb \<union> n_writes fb \<and> v \<in> n_writes fa \<union> n_writes fb)"
  by (auto simp: interferes_def split: option.splits)

section \<open>From one source file\<close>

definition WRITE_RE :: regex where
  "WRITE_RE = rseq [RWordB, RGrp 1 rident, rws0,
     RStar True (rseq [rlit ''['', RStar True (RChr (\<lambda>c. c \<noteq> CHR '']'')), rlit '']'']),
     rws0,
     ralts [RSeq (rlit ''='') (RAhead False (RChr (\<lambda>c. c \<in> set ''=>''))),
            rlit ''+='', rlit ''-='', rlit ''*='', rlit ''/='']]"

definition EXTERNAL_CALL :: "string list" where
  "EXTERNAL_CALL = [''.call'', ''.delegatecall'', ''.transfer('', ''.send('', ''.staticcall'']"

definition DECL_SKIP :: "string list" where
  "DECL_SKIP = [''function'', ''modifier'', ''event'', ''struct'', ''enum'', ''constructor'',
     ''using'', ''import'', ''pragma'', ''error'', ''receive'', ''fallback'', ''return'']"

definition decl_var_name :: "string \<Rightarrow> string option" where
  "decl_var_name stmt0 =
     (let stmt = py_strip stmt0 in
      if stmt = [] then None
      else if (case re_match_start rident stmt of
                 None \<Rightarrow> False | Some m \<Rightarrow> m_span stmt m \<in> set DECL_SKIP) then None
      else let decl = hd (py_split (CHR ''='') (py_replace ''=>'' '' '' stmt));
               ids = map (m_span decl) (re_finditer rident decl)
           in if ids = [] then None else Some (last ids))"

record var_scan =
  vs_vars :: "string set"
  vs_depth :: int
  vs_buf :: string

definition scan_char :: "char \<Rightarrow> var_scan \<Rightarrow> var_scan" where
  "scan_char ch st =
     (if ch = CHR ''{'' then st\<lparr>vs_depth := vs_depth st + 1, vs_buf := []\<rparr>
      else if ch = CHR ''}'' then st\<lparr>vs_depth := vs_depth st - 1, vs_buf := []\<rparr>
      else if ch = CHR '';'' then
        (if vs_depth st = 1
         then (case decl_var_name (vs_buf st) of
                 None \<Rightarrow> st\<lparr>vs_buf := []\<rparr>
               | Some name \<Rightarrow> st\<lparr>vs_vars := insert name (vs_vars st), vs_buf := []\<rparr>)
         else st\<lparr>vs_buf := []\<rparr>)
      else if vs_depth st = 1 then st\<lparr>vs_buf := vs_buf st @ [ch]\<rparr>
      else st)"

definition extract_state_vars :: "string \<Rightarrow> string set" where
  "extract_state_vars source = vs_vars (fold scan_char source \<lparr>vs_vars = {}, vs_depth = 0, vs_buf = []\<rparr>)"

definition source_node :: "string set \<Rightarrow> string \<Rightarrow> string \<Rightarrow> function_node" where
  "source_node state_vars name body =
     (let written = {v \<in> set (map (m_group body 1) (re_finditer WRITE_RE body)). v \<in> state_vars};
          referenced = {v \<in> set (map (m_span body) (re_finditer rident body)). v \<in> state_vars}
      in \<lparr>n_name = name, n_reads = referenced - written, n_writes = written,
          n_external = (\<exists>tok \<in> set EXTERNAL_CALL. py_in tok body)\<rparr>)"

definition build_sig :: "string \<Rightarrow> sig_graph" where
  "build_sig source =
     fold (\<lambda>(name, body, line) sig. dict_set name (source_node (extract_state_vars source) name body) sig)
       (extract_functions source) []"

definition node_wf :: "string set \<Rightarrow> function_node \<Rightarrow> bool" where
  "node_wf vars nd \<longleftrightarrow> n_reads nd \<inter> n_writes nd = {} \<and> n_reads nd \<subseteq> vars \<and> n_writes nd \<subseteq> vars"

lemma source_node_wf: "node_wf vars (source_node vars name body)"
  by (auto simp: node_wf_def source_node_def Let_def)

lemma source_node_name [simp]: "n_name (source_node vars name body) = name"
  by (simp add: source_node_def Let_def)

lemma build_sig_wf:
  "dict_get (build_sig source) f = Some nd \<Longrightarrow> node_wf (extract_state_vars source) nd \<and> n_name nd = f"
proof -
  have "dict_get (fold (\<lambda>(name, body, line) sig. dict_set name (source_node vars name body) sig) fns sig) f = Some nd
      \<Longrightarrow> (\<forall>f nd. dict_get sig f = Some nd \<longrightarrow> node_wf vars nd \<and> n_name nd = f) \<Longrightarrow> node_wf vars nd \<and> n_name nd = f"
    for fns vars sig
  proof (induction fns arbitrary: sig)
    case (Cons fn fns)
    obtain name body line where fn: "fn = (name, body, line)" by (cases fn) auto
    show ?case
      by (rule Cons.IH [of "dict_set name (source_node vars name body) sig"])
        (use Cons.prems in \<open>auto simp: fn source_node_wf split: if_splits\<close>)
  qed simp
  note run = this
  assume "dict_get (build_sig source) f = Some nd"
  from run [OF this [unfolded build_sig_def]]
  show "node_wf (extract_state_vars source) nd \<and> n_name nd = f" by simp
qed

definition get_filtered_pairs :: "string list \<Rightarrow> sig_graph \<Rightarrow> (string \<times> string) list" where
  "get_filtered_pairs locs sig =
     concat (map (\<lambda>i. List.map_filter
         (\<lambda>j. if interferes sig (fn_of (locs ! i)) (fn_of (locs ! j)) then Some (locs ! i, locs ! j) else None)
         [i + 1 ..< length locs]) [0 ..< length locs])"

lemma get_filtered_pairs_iff:
  "(a, b) \<in> set (get_filtered_pairs locs sig) \<longleftrightarrow>
   (\<exists>i j. i < j \<and> j < length locs \<and> a = locs ! i \<and> b = locs ! j \<and> interferes sig (fn_of a) (fn_of b))"
proof -
  have "(a, b) \<in> set (get_filtered_pairs locs sig) \<longleftrightarrow>
      (\<exists>i \<in> {0 ..< length locs}. \<exists>j \<in> {i + 1 ..< length locs}.
        interferes sig (fn_of (locs ! i)) (fn_of (locs ! j)) \<and> a = locs ! i \<and> b = locs ! j)"
    unfolding get_filtered_pairs_def set_concat set_map set_upt set_map_filter_iff UN_iff bex_simps
    by (intro bex_cong refl) (auto simp: set_map_filter_iff split: if_splits)
  also have "\<dots> \<longleftrightarrow> (\<exists>i j. i < j \<and> j < length locs \<and> a = locs ! i \<and> b = locs ! j \<and> interferes sig (fn_of a) (fn_of b))"
    (is "?L \<longleftrightarrow> ?R")
  proof
    assume ?L
    then obtain i j where "i \<in> {0 ..< length locs}" "j \<in> {i + 1 ..< length locs}"
      "interferes sig (fn_of (locs ! i)) (fn_of (locs ! j))" "a = locs ! i" "b = locs ! j" by blast
    then show ?R by (intro exI [of _ i] exI [of _ j]) auto
  next
    assume ?R
    then obtain i j where "i < j" "j < length locs" "a = locs ! i" "b = locs ! j"
      "interferes sig (fn_of a) (fn_of b)" by blast
    then show ?L by (intro bexI [of _ i] bexI [of _ j]) auto
  qed
  finally show ?thesis .
qed

section \<open>From a SmartGraphical graph\<close>

definition node_short_name :: "json \<Rightarrow> string option py" where
  "node_short_name node_id = (case node_id of
       JStr s \<Rightarrow>
         if CHR '':'' \<notin> set s then Inr None
         else Inr (Some (last (py_split (CHR ''.'') (drop (length (file_of s) + 1) s))))
     | JList xs \<Rightarrow> if JStr '':'' \<in> set xs then no_attr node_id ''split'' else Inr None
     | JObj kvs \<Rightarrow> if '':'' \<in> fst ` set kvs then no_attr node_id ''split'' else Inr None
     | _ \<Rightarrow> raise ''TypeError'' (''argument of type '' @ [CHR 0x27] @ type_name node_id @ [CHR 0x27] @ '' is not iterable''))"

definition parse_sg_graph :: "json \<Rightarrow> (json \<times> json) py" where
  "parse_sg_graph graph =
     (case graph of
        JObj kvs \<Rightarrow>
          if ''nodes'' \<in> fst ` set kvs \<and> ''edges'' \<in> fst ` set kvs
          then Inr (dict_getd kvs ''nodes'' (JList []), dict_getd kvs ''edges'' (JList []))
          else let ms = dict_getd kvs ''model_summary'' (JObj []) in
            bindE (if is_obj ms then jget ms ''graph'' (JObj []) else Inr (JObj [])) (\<lambda>inner.
            bindE (jget inner ''nodes'' (JList [])) (\<lambda>nodes.
            bindE (jget inner ''edges'' (JList [])) (\<lambda>edgs. Inr (nodes, edgs))))
      | _ \<Rightarrow> Inr (JList [], JList []))"

definition add_sg_node :: "json \<Rightarrow> sig_graph \<Rightarrow> sig_graph py" where
  "add_sg_node node sig =
     bindE (jget node ''group'' JNull) (\<lambda>group.
     if group = JStr ''function'' then
       bindE (jget node ''id'' (JStr [])) (\<lambda>nid.
       bindE (node_short_name nid) (\<lambda>nm.
       case nm of None \<Rightarrow> Inr sig
       | Some name \<Rightarrow> Inr (if name = [] then sig else dict_setdefault name (new_node name) sig)))
     else Inr sig)"

type_synonym call_graph = "(string, string list) dict"

definition update_node :: "string \<Rightarrow> (function_node \<Rightarrow> function_node) \<Rightarrow> sig_graph \<Rightarrow> sig_graph" where
  "update_node f upd sig = (case dict_get sig f of None \<Rightarrow> sig | Some nd \<Rightarrow> dict_set f (upd nd) sig)"

definition add_call :: "string \<Rightarrow> string \<Rightarrow> call_graph \<Rightarrow> call_graph" where
  "add_call src tgt calls =
     (let cs = dict_getd calls src [] in dict_set src (if tgt \<in> set cs then cs else cs @ [tgt]) calls)"

definition nonempty_name :: "string option \<Rightarrow> string option" where
  "nonempty_name n = (case n of Some (c # cs) \<Rightarrow> Some (c # cs) | _ \<Rightarrow> None)"

text \<open>One edge. A name that is \<open>None\<close> or empty is falsy, and no function has the name \<open>None\<close>.\<close>

definition apply_edge ::
  "json \<Rightarrow> string option \<Rightarrow> string option \<Rightarrow> sig_graph \<times> call_graph \<Rightarrow> sig_graph \<times> call_graph" where
  "apply_edge kind src tgt sc =
     (let sig = fst sc; calls = snd sc in
      if kind \<in> {JStr ''state_to_function_read'', JStr ''cross_type_state_read''} then
        (case (tgt, nonempty_name src) of
           (Some t, Some s) \<Rightarrow> (update_node t (\<lambda>nd. nd\<lparr>n_reads := insert s (n_reads nd)\<rparr>) sig, calls)
         | _ \<Rightarrow> sc)
      else if kind \<in> {JStr ''state_to_function_write'', JStr ''cross_type_state_write''} then
        (case (tgt, nonempty_name src) of
           (Some t, Some s) \<Rightarrow> (update_node t (\<lambda>nd. nd\<lparr>n_writes := insert s (n_writes nd)\<rparr>) sig, calls)
         | _ \<Rightarrow> sc)
      else if kind \<in> {JStr ''function_to_function'', JStr ''cross_type_call''} then
        (case (src, nonempty_name tgt) of
           (Some s, Some t) \<Rightarrow> if s \<in> set (dict_keys sig) then (sig, add_call s t calls) else sc
         | _ \<Rightarrow> sc)
      else if kind \<in> {JStr ''function_to_system'', JStr ''function_to_object''} then
        (case src of
           Some s \<Rightarrow> (update_node s (\<lambda>nd. nd\<lparr>n_external := True\<rparr>) sig, calls)
         | None \<Rightarrow> sc)
      else sc)"

definition add_sg_edge :: "json \<Rightarrow> sig_graph \<times> call_graph \<Rightarrow> (sig_graph \<times> call_graph) py" where
  "add_sg_edge edge sc =
     bindE (jget edge ''kind'' (JStr [])) (\<lambda>kind.
     bindE (jget edge ''source'' (JStr [])) (\<lambda>s.
     bindE (node_short_name (por s (JStr []))) (\<lambda>src.
     bindE (jget edge ''target'' (JStr [])) (\<lambda>t.
     bindE (node_short_name (por t (JStr []))) (\<lambda>tgt.
     Inr (apply_edge kind src tgt sc))))))"

text \<open>\<open>_reachable(start)\<close>: the seen set of the worklist started with the callees.\<close>

definition sg_reachable :: "call_graph \<Rightarrow> string \<Rightarrow> string list" where
  "sg_reachable calls start = dfs calls (rev (succs calls start)) []"

definition inherit_from :: "string \<Rightarrow> string \<Rightarrow> sig_graph \<Rightarrow> sig_graph" where
  "inherit_from name callee sig =
     (case dict_get sig callee of
        None \<Rightarrow> sig
      | Some other \<Rightarrow>
          if callee = name then sig
          else update_node name
            (\<lambda>nd. nd\<lparr>n_reads := n_reads nd \<union> n_reads other, n_writes := n_writes nd \<union> n_writes other\<rparr>) sig)"

definition propagate :: "call_graph \<Rightarrow> sig_graph \<Rightarrow> sig_graph" where
  "propagate calls sig =
     fold (\<lambda>name. fold (inherit_from name) (sg_reachable calls name)) (dict_keys sig) sig"

definition build_sig_from_smartgraphical :: "json \<Rightarrow> sig_graph py" where
  "build_sig_from_smartgraphical graph =
     bindE (parse_sg_graph graph) (\<lambda>(nodes, edgs).
     bindE (jiter nodes) (\<lambda>ns.
     bindE (foldE add_sg_node ns []) (\<lambda>sig.
     bindE (jiter edgs) (\<lambda>es.
     bindE (foldE add_sg_edge es (sig, [])) (\<lambda>(sig', calls). Inr (propagate calls sig'))))))"

subsection \<open>Propagation is the union over reachable callees\<close>

text \<open>The two sets of a function, both accessed through one selector.\<close>

definition node_sets :: "sig_graph \<Rightarrow> string \<Rightarrow> string set \<times> string set" where
  "node_sets sig f = (case dict_get sig f of None \<Rightarrow> ({}, {}) | Some nd \<Rightarrow> (n_reads nd, n_writes nd))"

definition reads_of :: "sig_graph \<Rightarrow> string \<Rightarrow> string set" where
  "reads_of sig f = fst (node_sets sig f)"

definition writes_of :: "sig_graph \<Rightarrow> string \<Rightarrow> string set" where
  "writes_of sig f = snd (node_sets sig f)"

lemma inherit_keys [simp]: "dict_keys (inherit_from name callee sig) = dict_keys sig"
  by (auto simp: inherit_from_def update_node_def dict_keys_set split: option.splits)
    (metis dict_get_None option.distinct(1))+

lemma inherit_sets:
  "name \<in> set (dict_keys sig) \<Longrightarrow>
   node_sets (inherit_from name callee sig) f =
     (if f = name then (reads_of sig name \<union> reads_of sig callee, writes_of sig name \<union> writes_of sig callee)
      else node_sets sig f)"
proof -
  assume "name \<in> set (dict_keys sig)"
  then obtain nd where "dict_get sig name = Some nd" using dict_get_None [of sig name] by auto
  then show ?thesis
    by (auto simp: inherit_from_def update_node_def node_sets_def reads_of_def writes_of_def split: option.splits)
qed

lemma inherit_fold_sets:
  "name \<in> set (dict_keys sig) \<Longrightarrow>
   (f \<noteq> name \<longrightarrow> node_sets (fold (inherit_from name) cs sig) f = node_sets sig f) \<and>
   node_sets (fold (inherit_from name) cs sig) name =
     (reads_of sig name \<union> (\<Union>c \<in> set cs. reads_of sig c), writes_of sig name \<union> (\<Union>c \<in> set cs. writes_of sig c)) \<and>
   dict_keys (fold (inherit_from name) cs sig) = dict_keys sig"
proof (induction cs arbitrary: sig)
  case Nil
  then show ?case by (simp add: reads_of_def writes_of_def)
next
  case (Cons c cs)
  let ?s = "inherit_from name c sig"
  have "name \<in> set (dict_keys ?s)" using Cons.prems by simp
  note IH = Cons.IH [OF this]
  have r: "reads_of ?s g = (if g = name then reads_of sig name \<union> reads_of sig c else reads_of sig g)"
    and w: "writes_of ?s g = (if g = name then writes_of sig name \<union> writes_of sig c else writes_of sig g)" for g
    using inherit_sets [OF Cons.prems, of c g] by (auto simp: reads_of_def writes_of_def)
  show ?case using IH inherit_sets [OF Cons.prems, of c] by (auto simp: r w)
qed

definition reach :: "call_graph \<Rightarrow> string \<Rightarrow> string set" where
  "reach calls f = (edges calls)\<^sup>* `` {f}"

lemma reach_refl: "f \<in> reach calls f" by (simp add: reach_def)

lemma reach_trans: "g \<in> reach calls f \<Longrightarrow> reach calls g \<subseteq> reach calls f"
  by (auto simp: reach_def intro: rtrancl_trans)

lemma sg_reachable_set: "insert f (set (sg_reachable calls f)) = reach calls f"
proof -
  have "set (sg_reachable calls f) = (edges calls)\<^sup>* `` set (succs calls f)"
    by (simp add: sg_reachable_def dfs_correct)
  moreover have "x = f \<or> x \<in> (edges calls)\<^sup>* `` set (succs calls f)" if "(f, x) \<in> (edges calls)\<^sup>*" for x
    using that by (rule converse_rtranclE) auto
  moreover have "(f, x) \<in> (edges calls)\<^sup>*" if "x \<in> (edges calls)\<^sup>* `` set (succs calls f)" for x
    using that by (auto intro: converse_rtrancl_into_rtrancl)
  ultimately show ?thesis by (auto simp: reach_def)
qed

text \<open>The invariant of the loop: every set lies between the original one and the union over the
  reachable functions, and is that union once its function has been processed.\<close>

definition prop_inv :: "call_graph \<Rightarrow> sig_graph \<Rightarrow> string set \<Rightarrow> sig_graph \<Rightarrow> bool" where
  "prop_inv calls s0 done_set s \<longleftrightarrow> dict_keys s = dict_keys s0 \<and>
     (\<forall>f. reads_of s0 f \<subseteq> reads_of s f \<and> reads_of s f \<subseteq> (\<Union>g \<in> reach calls f. reads_of s0 g) \<and>
          writes_of s0 f \<subseteq> writes_of s f \<and> writes_of s f \<subseteq> (\<Union>g \<in> reach calls f. writes_of s0 g)) \<and>
     (\<forall>f \<in> done_set. reads_of s f = (\<Union>g \<in> reach calls f. reads_of s0 g) \<and>
          writes_of s f = (\<Union>g \<in> reach calls f. writes_of s0 g))"

lemma reads_of_known: "reads_of s f \<noteq> {} \<or> writes_of s f \<noteq> {} \<Longrightarrow> f \<in> set (dict_keys s)"
  using dict_get_None [of s f] by (auto simp: reads_of_def writes_of_def node_sets_def split: option.splits)

lemma closure_squeeze:
  assumes "\<And>c. lo c \<subseteq> cur c" and "\<And>c. cur c \<subseteq> (\<Union>g \<in> reach calls c. lo g)"
  shows "(\<Union>c \<in> reach calls f. cur c) = (\<Union>c \<in> reach calls f. lo c)"
proof
  show "(\<Union>c \<in> reach calls f. cur c) \<subseteq> (\<Union>c \<in> reach calls f. lo c)"
  proof (rule UN_least)
    fix c
    assume "c \<in> reach calls f"
    then have "(\<Union>g \<in> reach calls c. lo g) \<subseteq> (\<Union>g \<in> reach calls f. lo g)"
      by (intro UN_mono reach_trans subset_refl)
    with assms(2) [of c] show "cur c \<subseteq> (\<Union>g \<in> reach calls f. lo g)" by (rule subset_trans)
  qed
  show "(\<Union>c \<in> reach calls f. lo c) \<subseteq> (\<Union>c \<in> reach calls f. cur c)"
    by (intro UN_mono subset_refl assms(1))
qed

lemma prop_step:
  assumes inv: "prop_inv calls s0 done_set s" and name: "name \<in> set (dict_keys s0)"
  shows "prop_inv calls s0 (insert name done_set) (fold (inherit_from name) (sg_reachable calls name) s)"
proof -
  let ?t = "fold (inherit_from name) (sg_reachable calls name) s"
  have known: "name \<in> set (dict_keys s)" using inv name by (simp add: prop_inv_def)
  note f = inherit_fold_sets [OF known, of _ "sg_reachable calls name"]
  have other: "reads_of ?t g = reads_of s g \<and> writes_of ?t g = writes_of s g" if "g \<noteq> name" for g
    using f [of g] that by (simp add: reads_of_def writes_of_def)
  have split: "(\<Union>c \<in> reach calls name. h c) = h name \<union> (\<Union>c \<in> set (sg_reachable calls name). h c)"
    for h :: "string \<Rightarrow> string set"
    using sg_reachable_set [of name calls, symmetric] by auto
  have self: "reads_of ?t name = (\<Union>c \<in> reach calls name. reads_of s c)"
    "writes_of ?t name = (\<Union>c \<in> reach calls name. writes_of s c)"
    using f [of name] unfolding split by (simp_all add: reads_of_def writes_of_def)
  have low: "reads_of s0 c \<subseteq> reads_of s c" "writes_of s0 c \<subseteq> writes_of s c"
    and up: "reads_of s c \<subseteq> (\<Union>g \<in> reach calls c. reads_of s0 g)" "writes_of s c \<subseteq> (\<Union>g \<in> reach calls c. writes_of s0 g)"
    for c using inv by (auto simp: prop_inv_def)
  have eq: "reads_of ?t name = (\<Union>g \<in> reach calls name. reads_of s0 g)"
    "writes_of ?t name = (\<Union>g \<in> reach calls name. writes_of s0 g)"
    unfolding self by (rule closure_squeeze; rule low up)+
  have own: "reads_of s0 name \<subseteq> (\<Union>g \<in> reach calls name. reads_of s0 g)"
    "writes_of s0 name \<subseteq> (\<Union>g \<in> reach calls name. writes_of s0 g)"
    using reach_refl [of name calls] by blast+
  have r: "reads_of ?t g = (if g = name then (\<Union>g \<in> reach calls name. reads_of s0 g) else reads_of s g)"
    and w: "writes_of ?t g = (if g = name then (\<Union>g \<in> reach calls name. writes_of s0 g) else writes_of s g)" for g
    using eq other by auto
  have keys: "dict_keys ?t = dict_keys s0" using f inv by (simp add: prop_inv_def)
  have bounds: "reads_of s0 g \<subseteq> reads_of ?t g \<and> reads_of ?t g \<subseteq> (\<Union>h \<in> reach calls g. reads_of s0 h) \<and>
      writes_of s0 g \<subseteq> writes_of ?t g \<and> writes_of ?t g \<subseteq> (\<Union>h \<in> reach calls g. writes_of s0 h)" for g
    using own low [of g] up [of g] by (cases "g = name") (simp_all add: r w)
  have "reads_of ?t g = (\<Union>h \<in> reach calls g. reads_of s0 h) \<and>
      writes_of ?t g = (\<Union>h \<in> reach calls g. writes_of s0 h)" if "g \<in> insert name done_set" for g
    using that inv by (cases "g = name") (simp_all add: r w prop_inv_def)
  with bounds keys show ?thesis by (simp add: prop_inv_def)
qed

theorem propagate_closure:
  assumes "f \<in> set (dict_keys sig)"
  shows "reads_of (propagate calls sig) f = (\<Union>g \<in> reach calls f. reads_of sig g)"
    and "writes_of (propagate calls sig) f = (\<Union>g \<in> reach calls f. writes_of sig g)"
proof -
  have "prop_inv calls sig (set names \<union> D)
      (fold (\<lambda>name. fold (inherit_from name) (sg_reachable calls name)) names s)"
    if "prop_inv calls sig D s" "set names \<subseteq> set (dict_keys sig)" for names D s
    using that
  proof (induction names arbitrary: D s)
    case (Cons n names)
    from Cons.IH [OF prop_step [OF Cons.prems(1)]] Cons.prems(2) show ?case by simp
  qed simp
  note run = this
  have "reads_of sig f \<subseteq> (\<Union>g \<in> reach calls f. reads_of sig g)"
    "writes_of sig f \<subseteq> (\<Union>g \<in> reach calls f. writes_of sig g)" for f
    using reach_refl [of f calls] by blast+
  then have "prop_inv calls sig {} sig" by (simp add: prop_inv_def)
  from run [OF this, of "dict_keys sig"]
  have "prop_inv calls sig (set (dict_keys sig)) (propagate calls sig)"
    by (simp add: propagate_def)
  with assms show "reads_of (propagate calls sig) f = (\<Union>g \<in> reach calls f. reads_of sig g)"
    and "writes_of (propagate calls sig) f = (\<Union>g \<in> reach calls f. writes_of sig g)"
    by (auto simp: prop_inv_def)
qed

section \<open>Properties\<close>

text \<open>Two functions interfere exactly when they share a state variable that one of them writes;
  interference is symmetric, and re-entrancy asks for an external call of the first as well.\<close>

lemma interference_spec:
  "(interferes sig a b \<longleftrightarrow> (\<exists>fa fb v. dict_get sig a = Some fa \<and> dict_get sig b = Some fb \<and>
     v \<in> n_reads fa \<union> n_writes fa \<and> v \<in> n_reads fb \<union> n_writes fb \<and> v \<in> n_writes fa \<union> n_writes fb)) \<and>
   interferes sig a b = interferes sig b a \<and>
   (can_reenter sig a b \<longleftrightarrow> interferes sig a b \<and> (\<exists>fa. dict_get sig a = Some fa \<and> n_external fa))"
  by (intro conjI, rule interferes_iff_shared_write, rule interferes_sym)
    (auto simp: can_reenter_def split: option.splits)

text \<open>C24: propagation along call edges is the least fixed point the docstring promises. Although the loop
  updates the nodes in place, in dictionary order and through cycles, every function ends with
  exactly the reads and writes of the functions reachable from it.\<close>

theorem callers_inherit_state:
  assumes "f \<in> set (dict_keys sig)"
  shows "reads_of (propagate calls sig) f = (\<Union>g \<in> reach calls f. reads_of sig g) \<and>
    writes_of (propagate calls sig) f = (\<Union>g \<in> reach calls f. writes_of sig g)"
  by (simp only: propagate_closure [OF assms] simp_thms)

lemma callers_inherit_state_witness:
  "reads_of (propagate [(''a'', [''b'']), (''b'', [''a''])] [(''a'', new_node ''a''), (''b'', new_node ''b'')]) ''a'' =
     (\<Union>g \<in> reach [(''a'', [''b'']), (''b'', [''a''])] ''a''.
        reads_of [(''a'', new_node ''a''), (''b'', new_node ''b'')] g)"
proof -
  have "''a'' \<in> set (dict_keys [(''a'', new_node ''a''), (''b'', new_node ''b'')])" by (simp add: dict_keys_def)
  from callers_inherit_state [OF this, of "[(''a'', [''b'']), (''b'', [''a''])]"] show ?thesis by (rule conjunct1)
qed

end
