(* ===== verification/Planner_Stage3.thy ===== *)
theory Planner_Stage3
  imports Guardrails Planner_Sig
begin

text \<open>
  Stage 3, the deterministic synthesis (\<open>planner/stage3.py\<close>). The finding objects the code mutates
  are the positions of a list, so object identity (\<open>a is b\<close>) is equality of positions; the
  lists of its callers hold distinct objects. Pass 1 corrects severities, pass 2 groups by source file, links and
  elevates. The main lemma gives every field of every finding after both passes.
\<close>

record stage3_result =
  s3_findings :: "finding list"
  s3_corrections :: "string list"
  s3_combinations :: "string list"

section \<open>Pass 1\<close>

definition correct_finding :: "finding \<Rightarrow> finding" where
  "correct_finding f =
     (let verdict = check_severity f
      in if was_corrected verdict then f\<lparr>f_severity := v_final verdict\<rparr> else f)"

definition correction_notes :: "finding list \<Rightarrow> string list" where
  "correction_notes fs =
     map (\<lambda>v. case v_reason v of Some r \<Rightarrow> r | None \<Rightarrow> []) (filter was_corrected (map check_severity fs))"

lemma correct_finding_eq: "correct_finding f = f\<lparr>f_severity := v_final (check_severity f)\<rparr>"
  by (auto simp: correct_finding_def Let_def was_corrected_iff)

lemma correct_finding_severity [simp]: "f_severity (correct_finding f) = severity_clamp f"
  by (simp add: correct_finding_eq v_final_clamp)

lemma correct_finding_frame [simp]:
  "f_location (correct_finding f) = f_location f"
  "f_finding_id (correct_finding f) = f_finding_id f"
  "f_mitigations_present (correct_finding f) = f_mitigations_present f"
  "f_preconditions (correct_finding f) = f_preconditions f"
  by (simp_all add: correct_finding_eq)

section \<open>Pass 2\<close>

definition add_to_group :: "finding list \<Rightarrow> nat \<Rightarrow> (string, nat list) dict \<Rightarrow> (string, nat list) dict" where
  "add_to_group fs i d =
     (let k = file_of (f_location (fs ! i)) in dict_set k (dict_getd d k [] @ [i]) d)"

definition group_findings :: "finding list \<Rightarrow> (string, nat list) dict" where
  "group_findings fs = fold (add_to_group fs) [0 ..< length fs] []"

definition interacts :: "sig_graph option \<Rightarrow> finding list \<Rightarrow> nat \<Rightarrow> nat \<Rightarrow> bool" where
  "interacts sig fs a b =
     (if a = b then False
      else case sig of None \<Rightarrow> True
        | Some g \<Rightarrow> interferes g (fn_of (f_location (fs ! a))) (fn_of (f_location (fs ! b))))"

definition linked_ids :: "sig_graph option \<Rightarrow> finding list \<Rightarrow> nat list \<Rightarrow> nat \<Rightarrow> string list" where
  "linked_ids sig fs grp i = map (\<lambda>j. f_finding_id (fs ! j)) (filter (interacts sig fs i) grp)"

definition link_group :: "sig_graph option \<Rightarrow> nat list \<Rightarrow> finding list \<Rightarrow> finding list" where
  "link_group sig grp fs =
     fold (\<lambda>i a. a[i := (a ! i)\<lparr>f_combined_with := linked_ids sig a grp i\<rparr>]) grp fs"

definition severe_of :: "finding list \<Rightarrow> nat list \<Rightarrow> nat list" where
  "severe_of fs grp =
     filter (\<lambda>i. severity_rank (f_severity (fs ! i)) \<ge> severity_rank High \<and> \<not> mitigated (fs ! i)) grp"

definition elevate_of :: "sig_graph option \<Rightarrow> finding list \<Rightarrow> nat list \<Rightarrow> nat list" where
  "elevate_of sig fs grp =
     filter (\<lambda>i. \<exists>j \<in> set (severe_of fs grp). interacts sig fs i j) (severe_of fs grp)"

definition make_critical :: "nat list \<Rightarrow> finding list \<Rightarrow> finding list" where
  "make_critical is fs = fold (\<lambda>i a. a[i := (a ! i)\<lparr>f_severity := Critical\<rparr>]) is fs"

definition chain_note :: "string \<Rightarrow> finding list \<Rightarrow> nat list \<Rightarrow> string" where
  "chain_note source_file fs elevate =
     source_file @ '': '' @ nat_str (length elevate) @ '' interacting unmitigated high+ findings '' @
     u_arrow @ '' critical chain ('' @ py_join '', '' (map (\<lambda>i. f_finding_id (fs ! i)) elevate) @ '')''"

definition synth_group ::
  "(string, sig_graph) dict \<Rightarrow> string \<times> nat list \<Rightarrow> finding list \<times> string list \<Rightarrow> finding list \<times> string list" where
  "synth_group sigs fg st =
     (let source_file = fst fg; grp = snd fg; fs = fst st; combos = snd st in
      if length grp < 2 then st
      else
        let sig = dict_get sigs source_file;
            fs1 = link_group sig grp fs;
            elevate = elevate_of sig fs1 grp
        in if length elevate \<ge> 2
           then (make_critical elevate fs1, combos @ [chain_note source_file fs1 elevate])
           else (fs1, combos))"

definition run_stage3 :: "finding list \<Rightarrow> (string, sig_graph) dict option \<Rightarrow> stage3_result" where
  "run_stage3 findings sigs =
     (let fs = map correct_finding findings;
          res = fold (synth_group (case sigs of None \<Rightarrow> [] | Some d \<Rightarrow> d)) (group_findings fs) (fs, [])
      in \<lparr>s3_findings = fst res, s3_corrections = correction_notes findings, s3_combinations = snd res\<rparr>)"

section \<open>What a grp does to its members\<close>

lemma interacts_sym: "interacts sig fs a b = interacts sig fs b a"
  by (auto simp: interacts_def interferes_sym split: option.splits)

text \<open>Two finding lists that agree on what pass 2 reads.\<close>

definition agree_on :: "nat set \<Rightarrow> finding list \<Rightarrow> finding list \<Rightarrow> bool" where
  "agree_on I a b \<longleftrightarrow> (\<forall>i \<in> I. f_location (a ! i) = f_location (b ! i) \<and> f_finding_id (a ! i) = f_finding_id (b ! i) \<and>
     f_severity (a ! i) = f_severity (b ! i) \<and> f_mitigations_present (a ! i) = f_mitigations_present (b ! i))"

lemma agree_on_refl [simp]: "agree_on I a a" by (simp add: agree_on_def)

lemma interacts_agree:
  "agree_on I a b \<Longrightarrow> i \<in> I \<Longrightarrow> j \<in> I \<Longrightarrow> interacts sig a i j = interacts sig b i j"
  by (auto simp: interacts_def agree_on_def split: option.splits)

lemma linked_ids_agree:
  "agree_on (set grp) a b \<Longrightarrow> i \<in> set grp \<Longrightarrow> linked_ids sig a grp i = linked_ids sig b grp i"
  unfolding linked_ids_def
  by (rule map_cong) (auto simp: interacts_agree agree_on_def intro!: filter_cong)

lemma severe_of_agree: "agree_on (set grp) a b \<Longrightarrow> severe_of a grp = severe_of b grp"
  unfolding severe_of_def by (rule filter_cong) (auto simp: agree_on_def)

lemma elevate_of_agree: "agree_on (set grp) a b \<Longrightarrow> elevate_of sig a grp = elevate_of sig b grp"
proof -
  assume ag: "agree_on (set grp) a b"
  have "set (severe_of b grp) \<subseteq> set grp" by (auto simp: severe_of_def)
  then show ?thesis
    unfolding elevate_of_def severe_of_agree [OF ag]
    by (intro filter_cong refl bex_cong) (auto simp: interacts_agree [OF ag] subset_iff)
qed

lemma link_fold:
  "distinct is \<Longrightarrow> set is \<subseteq> set grp \<Longrightarrow> \<forall>i \<in> set is. i < length fs \<Longrightarrow>
   let r = fold (\<lambda>i a. a[i := (a ! i)\<lparr>f_combined_with := linked_ids sig a grp i\<rparr>]) is fs in
   length r = length fs \<and>
   (\<forall>k. r ! k = (if k \<in> set is then (fs ! k)\<lparr>f_combined_with := linked_ids sig fs grp k\<rparr> else fs ! k))"
proof (induction "is" arbitrary: fs)
  case (Cons i "is")
  let ?a = "fs[i := (fs ! i)\<lparr>f_combined_with := linked_ids sig fs grp i\<rparr>]"
  have il: "i < length fs" using Cons.prems(3) by simp
  have ag: "agree_on (set grp) ?a fs"
    using il by (auto simp: agree_on_def nth_list_update)
  have IH: "let r = fold (\<lambda>i a. a[i := (a ! i)\<lparr>f_combined_with := linked_ids sig a grp i\<rparr>]) is ?a in
      length r = length ?a \<and>
      (\<forall>k. r ! k = (if k \<in> set is then (?a ! k)\<lparr>f_combined_with := linked_ids sig ?a grp k\<rparr> else ?a ! k))"
    by (rule Cons.IH) (use Cons.prems in auto)
  have "linked_ids sig ?a grp k = linked_ids sig fs grp k" if "k \<in> set is" for k
    by (rule linked_ids_agree [OF ag]) (use that Cons.prems in auto)
  with IH il Cons.prems(1) show ?case by (auto simp: Let_def nth_list_update)
qed simp

lemma link_group_nth:
  assumes "distinct grp" and "\<forall>i \<in> set grp. i < length fs"
  shows "length (link_group sig grp fs) = length fs"
    and "link_group sig grp fs ! k =
      (if k \<in> set grp then (fs ! k)\<lparr>f_combined_with := linked_ids sig fs grp k\<rparr> else fs ! k)"
  using link_fold [of grp grp fs sig] assms by (simp_all add: link_group_def Let_def)

lemma make_critical_nth:
  "\<forall>i \<in> set is. i < length fs \<Longrightarrow>
   length (make_critical is fs) = length fs \<and>
   (\<forall>k. make_critical is fs ! k = (if k \<in> set is then (fs ! k)\<lparr>f_severity := Critical\<rparr> else fs ! k))"
proof (induction "is" arbitrary: fs)
  case (Cons i "is")
  let ?a = "fs[i := (fs ! i)\<lparr>f_severity := Critical\<rparr>]"
  have "length (make_critical is ?a) = length ?a \<and>
    (\<forall>k. make_critical is ?a ! k = (if k \<in> set is then (?a ! k)\<lparr>f_severity := Critical\<rparr> else ?a ! k))"
    by (rule Cons.IH) (use Cons.prems in auto)
  with Cons.prems show ?case by (auto simp: make_critical_def nth_list_update)
qed (simp add: make_critical_def)

text \<open>A group member after its group was synthesised.\<close>

definition group_member :: "sig_graph option \<Rightarrow> finding list \<Rightarrow> nat list \<Rightarrow> nat \<Rightarrow> finding" where
  "group_member sig fs grp i =
     (let f = (fs ! i)\<lparr>f_combined_with := linked_ids sig fs grp i\<rparr>
      in if i \<in> set (elevate_of sig fs grp) then f\<lparr>f_severity := Critical\<rparr> else f)"

text \<open>Interaction is symmetric, so one elevated finding comes with another.\<close>

lemma elevate_two: "i \<in> set (elevate_of sig fs grp) \<Longrightarrow> length (elevate_of sig fs grp) \<ge> 2"
proof -
  assume i: "i \<in> set (elevate_of sig fs grp)"
  then obtain j where j: "j \<in> set (severe_of fs grp)" "interacts sig fs i j"
    and s: "i \<in> set (severe_of fs grp)" by (auto simp: elevate_of_def)
  then have "j \<in> set (elevate_of sig fs grp)"
    using interacts_sym by (auto simp: elevate_of_def)
  moreover have "i \<noteq> j" using j by (auto simp: interacts_def)
  ultimately have "card {i, j} \<le> length (elevate_of sig fs grp)"
    using i by (intro card_mono [THEN order_trans, OF _ _ card_length]) auto
  with \<open>i \<noteq> j\<close> show ?thesis by simp
qed

lemma synth_group_nth:
  assumes "distinct grp" and "\<forall>i \<in> set grp. i < length fs"
  shows "length (fst (synth_group sigs (f, grp) (fs, c))) = length fs"
    and "fst (synth_group sigs (f, grp) (fs, c)) ! k =
      (if k \<in> set grp \<and> length grp \<ge> 2 then group_member (dict_get sigs f) fs grp k else fs ! k)"
proof -
  let ?sig = "dict_get sigs f"
  let ?fs1 = "link_group ?sig grp fs"
  note lg = link_group_nth [OF assms, of ?sig]
  have ag: "agree_on (set grp) ?fs1 fs" by (simp add: agree_on_def lg)
  note el = elevate_of_agree [OF ag, of ?sig]
  have bound: "\<forall>i \<in> set (elevate_of ?sig fs grp). i < length ?fs1"
    using assms(2) by (simp add: lg(1) elevate_of_def severe_of_def)
  note mc = make_critical_nth [OF bound]
  have sub: "set (elevate_of ?sig fs grp) \<subseteq> set grp"
    by (auto simp: elevate_of_def severe_of_def)
  show "length (fst (synth_group sigs (f, grp) (fs, c))) = length fs"
    using mc by (simp add: synth_group_def Let_def el lg(1))
  show "fst (synth_group sigs (f, grp) (fs, c)) ! k =
      (if k \<in> set grp \<and> length grp \<ge> 2 then group_member ?sig fs grp k else fs ! k)"
    using mc sub elevate_two [of k ?sig fs grp]
    by (auto simp: synth_group_def Let_def el lg(2) group_member_def)
qed

section \<open>The groups\<close>

lemma add_to_group_step:
  "dict_getd (add_to_group fs n d) k [] =
     dict_getd d k [] @ (if file_of (f_location (fs ! n)) = k then [n] else [])"
  "distinct (dict_keys d) \<Longrightarrow> distinct (dict_keys (add_to_group fs n d))"
  by (auto simp: add_to_group_def Let_def dict_keys_set_distinct dict_getd_def)

lemma add_groups:
  "let d = fold (add_to_group fs) [0 ..< n] [] in
   distinct (dict_keys d) \<and>
   (\<forall>k. dict_getd d k [] = filter (\<lambda>i. file_of (f_location (fs ! i)) = k) [0 ..< n])"
proof (induction n)
  case (Suc n)
  define d where "d = fold (add_to_group fs) [0 ..< n] []"
  have "fold (add_to_group fs) [0 ..< Suc n] [] = add_to_group fs n d" by (simp add: d_def)
  moreover from Suc have "distinct (dict_keys d)"
    "\<forall>k. dict_getd d k [] = filter (\<lambda>i. file_of (f_location (fs ! i)) = k) [0 ..< n]"
    by (simp_all add: d_def Let_def)
  ultimately show ?case
    by (simp add: add_to_group_step Let_def)
qed (simp add: dict_keys_def dict_getd_def)

lemma group_findings_mem:
  assumes "(k, grp) \<in> set (group_findings fs)"
  shows "grp = filter (\<lambda>i. file_of (f_location (fs ! i)) = k) [0 ..< length fs]"
proof -
  from add_groups [of fs "length fs"] have dk: "distinct (dict_keys (group_findings fs))"
    and g: "dict_getd (group_findings fs) k [] = filter (\<lambda>i. file_of (f_location (fs ! i)) = k) [0 ..< length fs]"
    by (simp_all add: group_findings_def Let_def)
  from dk assms have "dict_get (group_findings fs) k = Some grp"
    by (simp add: dict_keys_def map_of_is_SomeI)
  with g show ?thesis by (simp add: dict_getd_def)
qed

lemma group_findings_distinct: "distinct (map fst (group_findings fs))"
  using add_groups [of fs "length fs"] by (simp add: group_findings_def Let_def dict_keys_def)

lemma group_findings_ex:
  assumes "i < length fs"
  shows "\<exists>grp. (file_of (f_location (fs ! i)), grp) \<in> set (group_findings fs)"
proof -
  let ?k = "file_of (f_location (fs ! i))"
  have "dict_getd (group_findings fs) ?k [] = filter (\<lambda>j. file_of (f_location (fs ! j)) = ?k) [0 ..< length fs]"
    using add_groups [of fs "length fs"] by (simp add: group_findings_def Let_def)
  moreover have "filter (\<lambda>j. file_of (f_location (fs ! j)) = ?k) [0 ..< length fs] \<noteq> []"
    using assms by (auto simp: filter_empty_conv)
  ultimately have "dict_get (group_findings fs) ?k \<noteq> None"
    by (auto simp: dict_getd_def split: option.splits)
  then show ?thesis by (auto dest: map_of_SomeD)
qed

text \<open>All groups in turn: each finding is changed by the group of its own file only.\<close>

definition groups_of :: "finding list \<Rightarrow> (string, nat list) dict \<Rightarrow> bool" where
  "groups_of fs gs \<longleftrightarrow> distinct (map fst gs) \<and>
     (\<forall>k grp. (k, grp) \<in> set gs \<longrightarrow> grp = filter (\<lambda>i. file_of (f_location (fs ! i)) = k) [0 ..< length fs])"

definition same_file :: "finding list \<Rightarrow> nat \<Rightarrow> nat list" where
  "same_file fs i = filter (\<lambda>j. file_of (f_location (fs ! j)) = file_of (f_location (fs ! i))) [0 ..< length fs]"

definition after_groups ::
  "(string, sig_graph) dict \<Rightarrow> finding list \<Rightarrow> (string, nat list) dict \<Rightarrow> finding list \<Rightarrow> nat \<Rightarrow> finding" where
  "after_groups sigs fs gs a i =
     (if file_of (f_location (fs ! i)) \<in> fst ` set gs \<and> length (same_file fs i) \<ge> 2
      then group_member (dict_get sigs (file_of (f_location (fs ! i)))) fs (same_file fs i) i else a ! i)"

lemma synth_groups_nth:
  assumes "groups_of fs gs" and "length a = length fs"
    and "\<forall>i < length fs. file_of (f_location (fs ! i)) \<in> fst ` set gs \<longrightarrow> a ! i = fs ! i"
  shows "length (fst (fold (synth_group sigs) gs (a, c))) = length fs \<and>
    (\<forall>i < length fs. fst (fold (synth_group sigs) gs (a, c)) ! i = after_groups sigs fs gs a i)"
  using assms
proof (induction gs arbitrary: a c)
  case Nil
  then show ?case by (simp add: after_groups_def)
next
  case (Cons g gs)
  obtain k grp where g: "g = (k, grp)" by (cases g)
  have grp: "grp = filter (\<lambda>i. file_of (f_location (fs ! i)) = k) [0 ..< length fs]"
    and k: "k \<notin> fst ` set gs" and gs: "groups_of fs gs"
    using Cons.prems(1) by (auto simp: groups_of_def g)
  define r where "r = synth_group sigs (k, grp) (a, c)"
  have d: "distinct grp" and b: "\<forall>i \<in> set grp. i < length a" using grp Cons.prems(2) by auto
  have same: "\<forall>i \<in> set grp. a ! i = fs ! i" using grp Cons.prems(3) g by auto
  then have ag: "agree_on (set grp) a fs" by (simp add: agree_on_def)
  have "group_member (dict_get sigs k) a grp j = group_member (dict_get sigs k) fs grp j"
    if "j \<in> set grp" for j
    using that same by (simp add: group_member_def elevate_of_agree [OF ag] linked_ids_agree [OF ag])
  with synth_group_nth [OF d b] Cons.prems(2) have len: "length (fst r) = length fs"
    and nth: "fst r ! j = (if j \<in> set grp \<and> length grp \<ge> 2
        then group_member (dict_get sigs k) fs grp j else a ! j)" for j
    by (auto simp: r_def)
  have "fst r ! j = fs ! j" if j: "j < length fs" and m: "file_of (f_location (fs ! j)) \<in> fst ` set gs" for j
  proof -
    have "j \<notin> set grp" using m k grp by auto
    with nth Cons.prems(3) j m show ?thesis by simp
  qed
  then have IH: "length (fst (fold (synth_group sigs) gs (fst r, snd r))) = length fs \<and>
    (\<forall>i < length fs. fst (fold (synth_group sigs) gs (fst r, snd r)) ! i = after_groups sigs fs gs (fst r) i)"
    by (intro Cons.IH gs len) blast
  have "after_groups sigs fs gs (fst r) i = after_groups sigs fs (g # gs) a i" if "i < length fs" for i
  proof (cases "file_of (f_location (fs ! i)) = k")
    case True
    with grp have "same_file fs i = grp" by (simp add: same_file_def)
    with True that k show ?thesis by (auto simp: after_groups_def g nth grp)
  next
    case False
    with grp have "i \<notin> set grp" by simp
    with False show ?thesis by (auto simp: after_groups_def g nth)
  qed
  with IH show ?case by (simp add: g r_def)
qed

section \<open>Stage 3\<close>

definition stage3_sig :: "(string, sig_graph) dict option \<Rightarrow> finding \<Rightarrow> sig_graph option" where
  "stage3_sig sigs f = (case sigs of None \<Rightarrow> None | Some d \<Rightarrow> dict_get d (file_of (f_location f)))"

lemma synth_all:
  defines "r \<equiv> \<lambda>sigs fs. fst (fold (synth_group sigs) (group_findings fs) (fs, []))"
  shows "length (r sigs fs) = length fs"
    and "i < length fs \<Longrightarrow> r sigs fs ! i =
      (if length (same_file fs i) \<ge> 2
       then group_member (dict_get sigs (file_of (f_location (fs ! i)))) fs (same_file fs i) i else fs ! i)"
proof -
  have gs: "groups_of fs (group_findings fs)"
    using group_findings_distinct group_findings_mem by (auto simp: groups_of_def)
  note main = synth_groups_nth [OF gs refl, of sigs "[]"]
  show "length (r sigs fs) = length fs"
    using main by (simp add: r_def)
  assume i: "i < length fs"
  have "file_of (f_location (fs ! i)) \<in> fst ` set (group_findings fs)"
    using group_findings_ex [OF i] by force
  with main i show "r sigs fs ! i = (if length (same_file fs i) \<ge> 2
       then group_member (dict_get sigs (file_of (f_location (fs ! i)))) fs (same_file fs i) i else fs ! i)"
    by (simp add: r_def after_groups_def)
qed

lemma stage3_length: "length (s3_findings (run_stage3 fs sigs)) = length fs"
  by (simp add: run_stage3_def Let_def synth_all(1))

theorem stage3_nth:
  assumes "i < length fs"
  shows "s3_findings (run_stage3 fs sigs) ! i =
    (let fs1 = map correct_finding fs; grp = same_file fs1 i in
     if length grp \<ge> 2 then group_member (stage3_sig sigs (fs ! i)) fs1 grp i else fs1 ! i)"
proof -
  have "dict_get (case sigs of None \<Rightarrow> [] | Some d \<Rightarrow> d) (file_of (f_location (fs ! i))) = stage3_sig sigs (fs ! i)"
    by (cases sigs) (simp_all add: stage3_sig_def)
  then show ?thesis
    using synth_all(2) [of i "map correct_finding fs" "case sigs of None \<Rightarrow> [] | Some d \<Rightarrow> d"] assms
    by (simp add: run_stage3_def Let_def)
qed

lemma stage3_severity:
  assumes "i < length fs"
  defines "fs1 \<equiv> map correct_finding fs"
  shows "f_severity (s3_findings (run_stage3 fs sigs) ! i) =
    (if i \<in> set (elevate_of (stage3_sig sigs (fs ! i)) fs1 (same_file fs1 i)) then Critical
     else severity_clamp (fs ! i))"
proof -
  have "i \<notin> set (elevate_of sg fs1 (same_file fs1 i))" if "\<not> length (same_file fs1 i) \<ge> 2" for sg
  proof
    assume "i \<in> set (elevate_of sg fs1 (same_file fs1 i))"
    then have "2 \<le> length (elevate_of sg fs1 (same_file fs1 i))" by (rule elevate_two)
    also have "\<dots> \<le> length (same_file fs1 i)"
      unfolding elevate_of_def severe_of_def by (meson length_filter_le order_trans)
    finally show False using that by simp
  qed
  then show ?thesis
    using stage3_nth [OF assms(1), of sigs] assms(1)
    by (auto simp: Let_def group_member_def fs1_def)
qed

lemma elevated_unmitigated:
  "i \<in> set (elevate_of sg fs grp) \<Longrightarrow> \<not> mitigated (fs ! i) \<and> High \<le> f_severity (fs ! i)"
  by (auto simp: elevate_of_def severe_of_def severity_ord)

section \<open>Properties\<close>

text \<open>C14: synthesis keeps the findings, in order, and decides each severity. A finding ends critical when
  it is an elevated member of its file's group, and with the guardrail's severity otherwise; only an
  unmitigated finding already at high is elevated, and never alone: another elevated finding of the
  same file interacts with it.\<close>

theorem synthesis_severity:
  assumes "i < length fs"
  shows "length (s3_findings (run_stage3 fs sigs)) = length fs \<and>
    f_severity (s3_findings (run_stage3 fs sigs) ! i) =
      (if i \<in> set (elevate_of (stage3_sig sigs (fs ! i)) (map correct_finding fs) (same_file (map correct_finding fs) i))
       then Critical else v_final (check_severity (fs ! i))) \<and>
    (i \<in> set (elevate_of (stage3_sig sigs (fs ! i)) (map correct_finding fs) (same_file (map correct_finding fs) i)) \<longrightarrow>
      \<not> mitigated (fs ! i) \<and> High \<le> v_final (check_severity (fs ! i)) \<and>
      (\<exists>j < length fs. j \<noteq> i \<and> file_of (f_location (fs ! j)) = file_of (f_location (fs ! i)) \<and>
         interacts (stage3_sig sigs (fs ! i)) (map correct_finding fs) i j \<and>
         j \<in> set (elevate_of (stage3_sig sigs (fs ! i)) (map correct_finding fs) (same_file (map correct_finding fs) i))))"
  (is "?len \<and> ?sev \<and> (?el \<longrightarrow> ?rest)")
proof (intro conjI impI)
  show ?len by (rule stage3_length)
  show ?sev using stage3_severity [OF assms, of sigs] by (simp add: v_final_clamp)
  let ?sg = "stage3_sig sigs (fs ! i)" and ?fs = "map correct_finding fs"
  assume el: ?el
  from elevated_unmitigated [OF this] assms
  show "\<not> mitigated (fs ! i)" and "High \<le> v_final (check_severity (fs ! i))"
    by (simp_all add: v_final_clamp)
  from el obtain j where j: "j \<in> set (severe_of ?fs (same_file ?fs i))" "interacts ?sg ?fs i j"
    and i: "i \<in> set (severe_of ?fs (same_file ?fs i))" by (auto simp: elevate_of_def)
  have "j \<in> set (elevate_of ?sg ?fs (same_file ?fs i))"
    using i j interacts_sym by (auto simp: elevate_of_def)
  moreover have "j < length fs" "file_of (f_location (fs ! j)) = file_of (f_location (fs ! i))"
    using j(1) assms by (auto simp: severe_of_def same_file_def)
  moreover have "j \<noteq> i" using j(2) by (auto simp: interacts_def)
  ultimately show "\<exists>j < length fs. j \<noteq> i \<and> file_of (f_location (fs ! j)) = file_of (f_location (fs ! i)) \<and>
         interacts ?sg ?fs i j \<and> j \<in> set (elevate_of ?sg ?fs (same_file ?fs i))"
    using j(2) by blast
qed

definition witness_findings :: "finding list" where
  "witness_findings = [mk_finding ''F-1'' ''A.sol:f'' ''f'' High, mk_finding ''F-2'' ''A.sol:g'' ''g'' High]"

lemma synthesis_severity_witness:
  "f_severity (s3_findings (run_stage3 witness_findings None) ! 0) = Critical"
proof -
  have "0 < length witness_findings" by code_simp
  moreover have "0 \<in> set (elevate_of (stage3_sig None (witness_findings ! 0)) (map correct_finding witness_findings)
      (same_file (map correct_finding witness_findings) 0))" by code_simp
  ultimately show ?thesis using synthesis_severity [of 0 witness_findings None] by simp
qed

end
