(* ===== verification/Methodology_Cursor.thy ===== *)
theory Methodology_Cursor
  imports Py_Prelude
begin

text \<open>
  Deterministic discovery chunks (\<open>methodology/cursor.py\<close>). The SHA-256 digest of the canonical
  payload is a parameter of the revision and the sorted paths. The lemmas: the chunks partition the
  sorted listing, do not depend on the listing's order, and committing the first uncommitted chunk
  again and again visits every chunk once and then stops, provided the digest separates the
  chunks of this listing.
\<close>

definition CHUNK_SIZE :: nat where
  "CHUNK_SIZE = 32"

definition norm_path :: "string \<Rightarrow> string" where
  "norm_path p = map (\<lambda>c. if c = char_of (92::nat) then CHR ''/'' else c) p"

definition sorted_paths :: "string list \<Rightarrow> string list" where
  "sorted_paths relpaths = sort (map norm_path relpaths)"

definition chunk_id_for :: "(int \<Rightarrow> string list \<Rightarrow> string) \<Rightarrow> int \<Rightarrow> string list \<Rightarrow> string" where
  "chunk_id_for digest revision relpaths = digest revision (sorted_paths relpaths)"

text \<open>The slices \<open>ordered[i : i + sz]\<close> for \<open>i\<close> in \<open>range(0, len(ordered), sz)\<close>.\<close>

definition slices :: "nat \<Rightarrow> 'a list \<Rightarrow> 'a list list" where
  "slices sz xs = map (\<lambda>k. take sz (drop (k * sz) xs)) [0 ..< (length xs + sz - 1) div sz]"

definition partition_chunks ::
  "(int \<Rightarrow> string list \<Rightarrow> string) \<Rightarrow> string list \<Rightarrow> int \<Rightarrow> (string \<times> string list) list" where
  "partition_chunks digest relpaths revision =
     map (\<lambda>grp. (chunk_id_for digest revision grp, grp)) (slices CHUNK_SIZE (sorted_paths relpaths))"

definition first_uncommitted_chunk ::
  "(int \<Rightarrow> string list \<Rightarrow> string) \<Rightarrow> string list \<Rightarrow> string list \<Rightarrow> int \<Rightarrow> (string \<times> string list) option" where
  "first_uncommitted_chunk digest relpaths committed revision =
     find (\<lambda>(cid, grp). cid \<notin> set committed) (partition_chunks digest relpaths revision)"

section \<open>The chunks partition the listing\<close>

lemma concat_slices_upto:
  "concat (map (\<lambda>k. take sz (drop (k * sz) xs)) [0 ..< n]) = take (n * sz) xs"
proof (induction n)
  case (Suc n)
  have "take (n * sz) xs @ take sz (drop (n * sz) xs) = take (n * sz + sz) xs"
    by (rule take_add [symmetric])
  with Suc show ?case by (simp add: add.commute)
qed simp

lemma concat_slices: "0 < sz \<Longrightarrow> concat (slices sz xs) = xs"
proof -
  assume "0 < sz"
  then have "length xs \<le> ((length xs + sz - 1) div sz) * sz"
  proof -
    have "(length xs + sz - 1) div sz * sz = length xs + sz - 1 - (length xs + sz - 1) mod sz"
      by (simp add: minus_mod_eq_div_mult)
    moreover have "(length xs + sz - 1) mod sz \<le> sz - 1"
      using \<open>0 < sz\<close> by (metis Suc_pred' less_Suc_eq_le mod_less_divisor)
    ultimately show ?thesis using \<open>0 < sz\<close> by linarith
  qed
  then show ?thesis by (simp add: slices_def concat_slices_upto)
qed

lemma slices_bounds: "0 < sz \<Longrightarrow> grp \<in> set (slices sz xs) \<Longrightarrow> grp \<noteq> [] \<and> length grp \<le> sz"
proof -
  assume sz: "0 < sz" and "grp \<in> set (slices sz xs)"
  then obtain k where k: "k < (length xs + sz - 1) div sz" and g: "grp = take sz (drop (k * sz) xs)"
    by (auto simp: slices_def)
  from k have "Suc k * sz \<le> length xs + sz - 1"
    by (metis Suc_leI div_times_less_eq_dividend le_trans mult_le_mono1)
  then have "k * sz < length xs" using sz by simp
  with g sz show ?thesis by simp
qed

theorem partition_covers:
  "concat (map snd (partition_chunks digest relpaths revision)) = sorted_paths relpaths"
  by (simp add: partition_chunks_def comp_def concat_slices CHUNK_SIZE_def)

lemma partition_bounds:
  "(cid, grp) \<in> set (partition_chunks digest relpaths revision) \<Longrightarrow>
   cid = chunk_id_for digest revision grp \<and> grp \<noteq> [] \<and> length grp \<le> CHUNK_SIZE"
  using slices_bounds [of CHUNK_SIZE grp "sorted_paths relpaths"]
  by (auto simp: partition_chunks_def CHUNK_SIZE_def)

lemma sorted_paths_perm:
  assumes "mset xs = mset ys"
  shows "sorted_paths xs = sorted_paths ys"
proof -
  have "sorted_list_of_multiset (mset (map norm_path xs)) = sorted_list_of_multiset (mset (map norm_path ys))"
    by (simp only: mset_map assms)
  then show ?thesis by (simp only: sorted_list_of_multiset_mset sorted_paths_def)
qed

theorem partition_deterministic:
  "mset xs = mset ys \<Longrightarrow> partition_chunks digest xs revision = partition_chunks digest ys revision"
  by (simp add: partition_chunks_def sorted_paths_perm [of xs ys])

lemma first_uncommitted_None:
  "first_uncommitted_chunk digest relpaths committed revision = None \<longleftrightarrow>
   fst ` set (partition_chunks digest relpaths revision) \<subseteq> set committed"
  by (auto simp: first_uncommitted_chunk_def find_None_iff)

section \<open>Progress of discovery\<close>

text \<open>One discovery round commits the chunk the cursor offers.\<close>

definition discovery_round ::
  "(int \<Rightarrow> string list \<Rightarrow> string) \<Rightarrow> string list \<Rightarrow> int \<Rightarrow> string list \<Rightarrow> string list" where
  "discovery_round digest relpaths revision committed =
     (case first_uncommitted_chunk digest relpaths committed revision of
        None \<Rightarrow> committed
      | Some (cid, grp) \<Rightarrow> committed @ [cid])"

lemma find_first_unmarked:
  "distinct (map fst cs) \<Longrightarrow> k < length cs \<Longrightarrow>
   find (\<lambda>(cid, grp). cid \<notin> set (map fst (take k cs))) cs = Some (cs ! k)"
proof (induction cs arbitrary: k)
  case (Cons c cs)
  show ?case
  proof (cases k)
    case 0
    then show ?thesis by (simp split: prod.splits)
  next
    case (Suc j)
    have "find (\<lambda>(cid, grp). cid \<notin> set (map fst (take k (c # cs)))) (c # cs)
        = find (\<lambda>(cid, grp). cid \<notin> set (map fst (take k (c # cs)))) cs"
      by (cases c) (simp add: Suc)
    also have "\<dots> = find (\<lambda>(cid, grp). cid \<notin> set (map fst (take j cs))) cs"
      by (rule find_cong) (use Cons.prems in \<open>auto simp: Suc rev_image_eqI\<close>)
    also have "\<dots> = Some (cs ! j)" using Cons Suc by simp
    finally show ?thesis by (simp add: Suc)
  qed
qed simp

theorem discovery_progress:
  assumes "distinct (map fst (partition_chunks digest relpaths revision))"
  shows "((discovery_round digest relpaths revision) ^^ n) [] =
    take n (map fst (partition_chunks digest relpaths revision))"
proof (induction n)
  case (Suc n)
  let ?cs = "partition_chunks digest relpaths revision"
  show ?case
  proof (cases "n < length ?cs")
    case True
    have "first_uncommitted_chunk digest relpaths (take n (map fst ?cs)) revision = Some (?cs ! n)"
      using find_first_unmarked [OF assms True] by (simp add: first_uncommitted_chunk_def take_map)
    with Suc True show ?thesis
      by (simp add: discovery_round_def take_Suc_conv_app_nth split: prod.splits)
  next
    case False
    then have "first_uncommitted_chunk digest relpaths (take n (map fst ?cs)) revision = None"
      by (simp add: first_uncommitted_None)
    with Suc False show ?thesis by (simp add: discovery_round_def)
  qed
qed simp

section \<open>Properties\<close>

text \<open>The discovery chunks are non-empty groups of at most 32 paths that, put one after another, are
  the sorted listing; they do not depend on the order in which the files were listed.\<close>

lemma chunks_partition:
  "concat (map snd (partition_chunks digest relpaths revision)) = sorted_paths relpaths \<and>
   (\<forall>(cid, grp) \<in> set (partition_chunks digest relpaths revision).
      cid = chunk_id_for digest revision grp \<and> grp \<noteq> [] \<and> length grp \<le> CHUNK_SIZE) \<and>
   partition_chunks digest (rev relpaths) revision = partition_chunks digest relpaths revision"
  using partition_covers [of digest relpaths revision] partition_bounds [of _ _ digest relpaths revision]
    partition_deterministic [of "rev relpaths" relpaths digest revision] by auto

lemma chunks_partition_witness:
  "concat (map snd (partition_chunks (\<lambda>r ps. hd ps) [''b'', ''a''] 0)) = [''a'', ''b''] \<and>
   length (snd (hd (partition_chunks (\<lambda>r ps. hd ps) [''b'', ''a''] 0))) \<le> CHUNK_SIZE"
proof -
  have s: "sorted_paths [''b'', ''a''] = [''a'', ''b'']" by code_simp
  have "(''a'', [''a'', ''b'']) \<in> set (partition_chunks (\<lambda>r ps. hd ps) [''b'', ''a''] 0)" by code_simp
  then have "length [''a'', ''b''] \<le> CHUNK_SIZE"
    using chunks_partition [of "\<lambda>r ps. hd ps" "[''b'', ''a'']" 0] by blast
  moreover have "snd (hd (partition_chunks (\<lambda>r ps. hd ps) [''b'', ''a''] 0)) = [''a'', ''b'']" by code_simp
  ultimately show ?thesis
    using chunks_partition [of "\<lambda>r ps. hd ps" "[''b'', ''a'']" 0] s by simp
qed



end
