(* ===== verification/Methodology_Models.thy ===== *)
theory Methodology_Models
  imports Audit_Finding Py_Json
begin

text \<open>
  The payload shapes of \<open>methodology/models.py\<close>, with the field validator of \<open>StageEvent\<close>, and the
  shapes of the kernel's memory snapshot the reducer reads. Dumping a model to JSON and validating
  JSON against it is pydantic's work: \<open>payload_codec\<close> is the parameter that stands for it, and
  \<open>codec_ok\<close> states what its documentation promises, the round trip of valid payloads, the
  literal \<open>kind\<close> fields and each field dumped under its own name. \<open>plain_codec\<close> is a concrete codec that satisfies it.
\<close>

section \<open>Payloads\<close>

datatype transition_type = Discover | Check | Synthesize | Skip | Gap
datatype stage_outcome = Ran | Did_not_run | Timeout | Skipped | Empty
datatype analyzer_outcome = A_ran | A_did_not_run | A_timeout
datatype roadmap_state = Pending | Analysed | Row_skipped | Row_gap

primrec transition_value :: "transition_type \<Rightarrow> string" where
  "transition_value Discover = ''discover''"
| "transition_value Check = ''check''"
| "transition_value Synthesize = ''synthesize''"
| "transition_value Skip = ''skip''"
| "transition_value Gap = ''gap''"

primrec outcome_value :: "stage_outcome \<Rightarrow> string" where
  "outcome_value Ran = ''ran''"
| "outcome_value Did_not_run = ''did_not_run''"
| "outcome_value Timeout = ''timeout''"
| "outcome_value Skipped = ''skipped''"
| "outcome_value Empty = ''empty''"

primrec analyzer_outcome_value :: "analyzer_outcome \<Rightarrow> string" where
  "analyzer_outcome_value A_ran = ''ran''"
| "analyzer_outcome_value A_did_not_run = ''did_not_run''"
| "analyzer_outcome_value A_timeout = ''timeout''"

primrec roadmap_state_value :: "roadmap_state \<Rightarrow> string" where
  "roadmap_state_value Pending = ''pending''"
| "roadmap_state_value Analysed = ''analysed''"
| "roadmap_state_value Row_skipped = ''skipped''"
| "roadmap_state_value Row_gap = ''gap''"

record stage_event =
  ev_transition :: transition_type
  ev_revision :: int
  ev_chunk_id :: "string option"
  ev_target :: "string option"
  ev_outcome :: stage_outcome
  ev_reason :: "string option"
  ev_as_of :: int
  ev_targets :: "string list"
  ev_skipped :: "string list"

text \<open>A field that is \<open>None\<close> or the empty string is falsy.\<close>

definition falsy :: "string option \<Rightarrow> bool" where
  "falsy s = (s = None \<or> s = Some [])"

definition opt_or :: "string option \<Rightarrow> string \<Rightarrow> string" where
  "opt_or s d = (case s of Some (c # cs) \<Rightarrow> c # cs | _ \<Rightarrow> d)"

lemma falsy_simps [simp]: "falsy None" "falsy (Some s) \<longleftrightarrow> s = []"
  by (auto simp: falsy_def)

text \<open>Constructing a \<open>StageEvent\<close> runs its \<open>_required_fields\<close> validator.\<close>

definition required_fields :: "stage_event \<Rightarrow> stage_event py" where
  "required_fields e =
     (if ev_transition e = Discover \<and> falsy (ev_chunk_id e)
      then raise ''ValidationError'' ''discover requires chunk_id''
      else if ev_transition e \<in> {Check, Skip, Gap} \<and> falsy (ev_target e)
      then raise ''ValidationError'' (transition_value (ev_transition e) @ '' requires target'')
      else if ev_transition e \<in> {Skip, Gap} \<and> py_strip (opt_or (ev_reason e) []) = []
      then raise ''ValidationError'' (transition_value (ev_transition e) @ '' requires a non-empty reason'')
      else Inr e)"

definition event_valid :: "stage_event \<Rightarrow> bool" where
  "event_valid e \<longleftrightarrow> (ev_transition e = Discover \<longrightarrow> \<not> falsy (ev_chunk_id e)) \<and>
     (ev_transition e \<in> {Check, Skip, Gap} \<longrightarrow> \<not> falsy (ev_target e)) \<and>
     (ev_transition e \<in> {Skip, Gap} \<longrightarrow> py_strip (opt_or (ev_reason e) []) \<noteq> [])"

lemma required_fields_Inr: "required_fields e = Inr e' \<longleftrightarrow> e' = e \<and> event_valid e"
  by (auto simp: required_fields_def event_valid_def)

record analyzer_execution =
  ax_analyzer_id :: string
  ax_version :: string
  ax_target :: string
  ax_digest :: string
  ax_outcome :: analyzer_outcome
  ax_result :: string
  ax_finding_ids :: "string list"

record roadmap_row =
  row_target :: string
  row_state :: roadmap_state
  row_reason :: "string option"
  row_chunk_id :: "string option"

record projected_finding =
  pf_finding_id :: string
  pf_location :: string
  pf_severity :: string
  pf_tags :: "string list"
  pf_preconditions :: "(int, bool) dict"
  pf_notes :: string
  pf_grounded :: bool
  pf_analyzer_id :: "string option"

record roadmap_projection =
  rp_as_of :: int
  rp_targets :: "roadmap_row list"
  rp_findings :: "projected_finding list"
  rp_empty_label :: "string option"

record parity_record =
  pr_transition :: "string option"
  pr_chunk_id :: "string option"
  pr_analyzer_id :: "string option"
  pr_target :: "string option"
  pr_outcome :: "string option"
  pr_grounded :: bool
  pr_location :: string
  pr_severity :: string
  pr_tags :: "string list"
  pr_preconditions :: "(int, bool) dict"
  pr_notes :: string

record methodology_transition =
  tr_event :: stage_event
  tr_executions :: "analyzer_execution list"
  tr_findings :: "finding list"
  tr_projection :: roadmap_projection

section \<open>Snapshots\<close>

record snapshot_item =
  it_record_id :: string
  it_log_sequence :: int
  it_kind :: string
  it_source_type :: string
  it_timestamp :: string
  it_operation_id :: "string option"
  it_body :: "json_obj option"

record memory_snapshot =
  sn_session_id :: string
  sn_as_of :: int
  sn_measured_bytes :: int
  sn_items :: "snapshot_item list"

text \<open>An optional string field as JSON.\<close>

definition jopt :: "string option \<Rightarrow> json" where
  "jopt s = (case s of None \<Rightarrow> JNull | Some t \<Rightarrow> JStr t)"

record payload_codec =
  cd_dump_event :: "stage_event \<Rightarrow> json_obj"
  cd_load_event :: "json_obj \<Rightarrow> stage_event option"
  cd_dump_exec :: "analyzer_execution \<Rightarrow> json_obj"
  cd_load_exec :: "json_obj \<Rightarrow> analyzer_execution option"
  cd_load_finding :: "json_obj \<Rightarrow> finding option"

definition codec_ok :: "payload_codec \<Rightarrow> bool" where
  "codec_ok c \<longleftrightarrow>
     (\<forall>e. event_valid e \<longrightarrow> cd_load_event c (cd_dump_event c e) = Some e) \<and>
     (\<forall>e. dict_get (cd_dump_event c e) ''kind'' = Some (JStr ''stage_event'')) \<and>
     (\<forall>e. dict_get (cd_dump_event c e) ''transition_type'' = Some (JStr (transition_value (ev_transition e)))) \<and>
     (\<forall>e. dict_get (cd_dump_event c e) ''chunk_id'' = Some (jopt (ev_chunk_id e))) \<and>
     (\<forall>x. cd_load_exec c (cd_dump_exec c x) = Some x) \<and>
     (\<forall>x. dict_get (cd_dump_exec c x) ''kind'' = Some (JStr ''analyzer_execution''))"

section \<open>A concrete codec\<close>

definition enum_find :: "('a \<Rightarrow> string) \<Rightarrow> 'a list \<Rightarrow> json option \<Rightarrow> 'a option" where
  "enum_find val xs j = (case j of Some (JStr s) \<Rightarrow> find (\<lambda>x. val x = s) xs | _ \<Rightarrow> None)"

fun load_opt :: "json option \<Rightarrow> string option option" where
  "load_opt (Some JNull) = Some None"
| "load_opt (Some (JStr s)) = Some (Some s)"
| "load_opt _ = None"

fun load_str :: "json option \<Rightarrow> string option" where
  "load_str (Some (JStr s)) = Some s"
| "load_str _ = None"

fun load_int :: "json option \<Rightarrow> int option" where
  "load_int (Some (JInt i)) = Some i"
| "load_int _ = None"

fun load_strs :: "json option \<Rightarrow> string list option" where
  "load_strs (Some (JList xs)) = those (map (\<lambda>j. load_str (Some j)) xs)"
| "load_strs _ = None"

lemma load_opt_jopt [simp]: "load_opt (Some (jopt s)) = Some s"
  by (cases s) (simp_all add: jopt_def)

lemma load_strs_JStr [simp]: "load_strs (Some (JList (map JStr xs))) = Some xs"
  by (induction xs) auto

definition plain_dump_event :: "stage_event \<Rightarrow> json_obj" where
  "plain_dump_event e =
     [(''kind'', JStr ''stage_event''), (''transition_type'', JStr (transition_value (ev_transition e))),
      (''roadmap_revision'', JInt (ev_revision e)), (''chunk_id'', jopt (ev_chunk_id e)),
      (''target'', jopt (ev_target e)), (''outcome'', JStr (outcome_value (ev_outcome e))),
      (''reason'', jopt (ev_reason e)), (''as_of_sequence'', JInt (ev_as_of e)),
      (''targets'', JList (map JStr (ev_targets e))), (''skipped_targets'', JList (map JStr (ev_skipped e)))]"

definition plain_load_event :: "json_obj \<Rightarrow> stage_event option" where
  "plain_load_event b =
     (case (enum_find transition_value [Discover, Check, Synthesize, Skip, Gap] (dict_get b ''transition_type''),
            load_int (dict_get b ''roadmap_revision''), load_opt (dict_get b ''chunk_id''),
            load_opt (dict_get b ''target''),
            enum_find outcome_value [Ran, Did_not_run, Timeout, Skipped, Empty] (dict_get b ''outcome'')) of
        (Some t, Some r, Some c, Some g, Some out) \<Rightarrow>
          (case (load_opt (dict_get b ''reason''), load_int (dict_get b ''as_of_sequence''),
                 load_strs (dict_get b ''targets''), load_strs (dict_get b ''skipped_targets'')) of
             (Some re, Some a, Some ts, Some sk) \<Rightarrow>
               (let e = \<lparr>ev_transition = t, ev_revision = r, ev_chunk_id = c, ev_target = g, ev_outcome = out,
                         ev_reason = re, ev_as_of = a, ev_targets = ts, ev_skipped = sk\<rparr>
                in if event_valid e then Some e else None)
           | _ \<Rightarrow> None)
      | _ \<Rightarrow> None)"

definition plain_dump_exec :: "analyzer_execution \<Rightarrow> json_obj" where
  "plain_dump_exec x =
     [(''kind'', JStr ''analyzer_execution''), (''analyzer_id'', JStr (ax_analyzer_id x)),
      (''analyzer_version'', JStr (ax_version x)), (''target'', JStr (ax_target x)),
      (''target_digest'', JStr (ax_digest x)),
      (''analyzer_outcome'', JStr (analyzer_outcome_value (ax_outcome x))),
      (''result_truncated'', JStr (ax_result x)), (''finding_ids'', JList (map JStr (ax_finding_ids x)))]"

definition plain_load_exec :: "json_obj \<Rightarrow> analyzer_execution option" where
  "plain_load_exec b =
     (case (load_str (dict_get b ''analyzer_id''), load_str (dict_get b ''analyzer_version''),
            load_str (dict_get b ''target''), load_str (dict_get b ''target_digest'')) of
        (Some i, Some v, Some t, Some d) \<Rightarrow>
          (case (enum_find analyzer_outcome_value [A_ran, A_did_not_run, A_timeout] (dict_get b ''analyzer_outcome''),
                 load_str (dict_get b ''result_truncated''), load_strs (dict_get b ''finding_ids'')) of
             (Some out, Some r, Some ids) \<Rightarrow>
               Some \<lparr>ax_analyzer_id = i, ax_version = v, ax_target = t, ax_digest = d, ax_outcome = out,
                     ax_result = r, ax_finding_ids = ids\<rparr>
           | _ \<Rightarrow> None)
      | _ \<Rightarrow> None)"

definition plain_load_finding :: "json_obj \<Rightarrow> finding option" where
  "plain_load_finding b =
     (case (load_str (dict_get b ''finding_id''), load_str (dict_get b ''location''),
            load_str (dict_get b ''function_name''),
            enum_find severity_value all_severities (dict_get b ''severity'')) of
        (Some i, Some l, Some f, Some s) \<Rightarrow> Some (mk_finding i l f s)
      | _ \<Rightarrow> None)"

definition plain_codec :: payload_codec where
  "plain_codec = \<lparr>cd_dump_event = plain_dump_event, cd_load_event = plain_load_event,
     cd_dump_exec = plain_dump_exec, cd_load_exec = plain_load_exec, cd_load_finding = plain_load_finding\<rparr>"

lemma enum_find_transition [simp]:
  "enum_find transition_value [Discover, Check, Synthesize, Skip, Gap] (Some (JStr (transition_value t))) = Some t"
  by (cases t) (simp_all add: enum_find_def)

lemma enum_find_outcome [simp]:
  "enum_find outcome_value [Ran, Did_not_run, Timeout, Skipped, Empty] (Some (JStr (outcome_value t))) = Some t"
  by (cases t) (simp_all add: enum_find_def)

lemma enum_find_analyzer [simp]:
  "enum_find analyzer_outcome_value [A_ran, A_did_not_run, A_timeout] (Some (JStr (analyzer_outcome_value t))) = Some t"
  by (cases t) (simp_all add: enum_find_def)

lemma plain_event_roundtrip: "event_valid e \<Longrightarrow> plain_load_event (plain_dump_event e) = Some e"
  by (cases e) (simp add: plain_load_event_def plain_dump_event_def Let_def del: load_strs.simps)

lemma plain_exec_roundtrip: "plain_load_exec (plain_dump_exec x) = Some x"
  by (simp add: plain_load_exec_def plain_dump_exec_def del: load_strs.simps)

lemma plain_codec_ok: "codec_ok plain_codec"
  by (simp add: codec_ok_def plain_codec_def plain_event_roundtrip plain_exec_roundtrip)
    (simp add: plain_dump_event_def plain_dump_exec_def)

end
