(* ===== verification/Methodology_Service.thy ===== *)
theory Methodology_Service
  imports Methodology_Models Planner_Stage3
begin

text \<open>
  The reducer of \<open>methodology/service.py\<close>: it reads a memory snapshot (events, analyzer executions and
  findings, in log order), projects the roadmap from it, and turns an action into the event to
  commit together with the projection the commit will lead to. Raised exceptions are left sums:
  \<open>SnapshotRejected\<close>, the validation errors of stored payloads, the validator of the new event.

  The lemmas: the roadmap rows have one row per target, in first-seen order, and each row is the
  target's last decision (\<open>row_spec\<close>); discovery never reopens a decided target; a transition's
  projection is the projection of any snapshot with the transition's payloads committed; a finding
  is grounded exactly when an analyzer that ran on its own file reported it.
\<close>

section \<open>Reading a snapshot\<close>

definition payload_list :: "json_obj \<Rightarrow> json list option" where
  "payload_list body = (case dict_get body ''payloads'' of Some (JList ps) \<Rightarrow> Some ps | _ \<Rightarrow> None)"

definition payload_bodies :: "snapshot_item \<Rightarrow> json_obj list" where
  "payload_bodies it =
     (let body = (case it_body it of None \<Rightarrow> [] | Some b \<Rightarrow> b);
          tagged = (if dict_getd body ''kind'' JNull \<in> {JStr ''stage_event'', JStr ''analyzer_execution''}
                    then [body] else [])
      in if it_kind it = ''dispatch_commit''
         then (case payload_list body of
                 Some ps \<Rightarrow> List.map_filter (\<lambda>p. case p of JObj kvs \<Rightarrow> Some kvs | _ \<Rightarrow> None) ps
               | None \<Rightarrow> if truthy (dict_getd body ''kind'' JNull) then [body] else tagged)
         else tagged)"

definition reject_bad_snapshot :: "memory_snapshot \<Rightarrow> unit py" where
  "reject_bad_snapshot sn =
     (if \<exists>it \<in> set (sn_items sn). it_log_sequence it > sn_as_of sn
      then raise ''SnapshotRejected''
        (''snapshot names a future watermark: as_of_sequence='' @ int_str (sn_as_of sn) @ '' but an item is above it'')
      else Inr ())"

type_synonym unpacked = "stage_event list \<times> analyzer_execution list"

definition unpack_body :: "payload_codec \<Rightarrow> json_obj \<Rightarrow> unpacked \<Rightarrow> unpacked py" where
  "unpack_body cd body acc =
     (if dict_get body ''kind'' = Some (JStr ''stage_event'')
      then (case cd_load_event cd body of
              Some e \<Rightarrow> Inr (fst acc @ [e], snd acc)
            | None \<Rightarrow> raise ''ValidationError'' ''StageEvent'')
      else if dict_get body ''kind'' = Some (JStr ''analyzer_execution'')
      then (case cd_load_exec cd body of
              Some x \<Rightarrow> Inr (fst acc, snd acc @ [x])
            | None \<Rightarrow> raise ''ValidationError'' ''AnalyzerExecution'')
      else Inr acc)"

definition unpack :: "payload_codec \<Rightarrow> memory_snapshot \<Rightarrow> unpacked py" where
  "unpack cd sn = foldE (unpack_body cd) (concat (map payload_bodies (sn_items sn))) ([], [])"

definition item_finding :: "payload_codec \<Rightarrow> snapshot_item \<Rightarrow> finding option" where
  "item_finding cd it =
     (case it_body it of
        Some (kv # kvs) \<Rightarrow> if it_kind it = ''finding'' then cd_load_finding cd (kv # kvs) else None
      | _ \<Rightarrow> None)"

definition svc_findings :: "payload_codec \<Rightarrow> memory_snapshot \<Rightarrow> finding list" where
  "svc_findings cd sn = List.map_filter (item_finding cd) (sn_items sn)"

definition svc_revision :: "payload_codec \<Rightarrow> memory_snapshot \<Rightarrow> int py" where
  "svc_revision cd sn = bindE (unpack cd sn) (\<lambda>(events, execs). Inr (int (length events)))"

section \<open>The roadmap rows\<close>

type_synonym row_state = "string list \<times> (string, roadmap_row) dict"

definition touch :: "string \<Rightarrow> roadmap_row \<Rightarrow> row_state \<Rightarrow> row_state" where
  "touch target row st =
     (if dict_get (snd st) target = None then fst st @ [target] else fst st,
      dict_set target row (snd st))"

definition touch_new :: "string option \<Rightarrow> string \<Rightarrow> row_state \<Rightarrow> row_state" where
  "touch_new chunk target st =
     (if dict_get (snd st) target = None
      then touch target \<lparr>row_target = target, row_state = Pending, row_reason = None, row_chunk_id = chunk\<rparr> st
      else st)"

definition row_step :: "stage_event \<Rightarrow> row_state \<Rightarrow> row_state" where
  "row_step e st =
     (case ev_transition e of
        Discover \<Rightarrow> fold (touch_new (ev_chunk_id e)) (ev_targets e) st
      | Check \<Rightarrow> (if falsy (ev_target e) then st
          else touch (the (ev_target e)) \<lparr>row_target = the (ev_target e), row_state = Analysed, row_reason = None,
                 row_chunk_id = ev_chunk_id e\<rparr> st)
      | Skip \<Rightarrow> (if falsy (ev_target e) then st
          else touch (the (ev_target e)) \<lparr>row_target = the (ev_target e), row_state = Row_skipped,
                 row_reason = ev_reason e, row_chunk_id = ev_chunk_id e\<rparr> st)
      | Gap \<Rightarrow> (if falsy (ev_target e) then st
          else touch (the (ev_target e)) \<lparr>row_target = the (ev_target e), row_state = Row_gap,
                 row_reason = ev_reason e, row_chunk_id = ev_chunk_id e\<rparr> st)
      | Synthesize \<Rightarrow> st)"

definition rows_of :: "stage_event list \<Rightarrow> roadmap_row list" where
  "rows_of events = (let st = fold row_step events ([], []) in map (\<lambda>t. the (dict_get (snd st) t)) (fst st))"

section \<open>Grounding\<close>

definition ground_id :: "(string, finding) dict \<Rightarrow> string \<Rightarrow> string \<Rightarrow> (string, bool) dict \<Rightarrow> (string, bool) dict" where
  "ground_id by_id target fid g =
     (case dict_get by_id fid of
        None \<Rightarrow> g
      | Some f \<Rightarrow> if target \<noteq> file_of (f_location f) then g else dict_set fid True g)"

definition ground_exec ::
  "(string, finding) dict \<Rightarrow> analyzer_execution \<Rightarrow> (string, bool) dict \<Rightarrow> (string, bool) dict" where
  "ground_exec by_id x g =
     (if ax_outcome x \<noteq> A_ran then g else fold (ground_id by_id (ax_target x)) (ax_finding_ids x) g)"

definition grounding_map :: "finding list \<Rightarrow> analyzer_execution list \<Rightarrow> (string, bool) dict" where
  "grounding_map findings execs =
     (let grounded = fold (\<lambda>f. dict_set (f_finding_id f) False) findings [];
          by_id = fold (\<lambda>f. dict_set (f_finding_id f) f) findings []
      in fold (ground_exec by_id) execs grounded)"

section \<open>The projection\<close>

definition tag_values :: "finding \<Rightarrow> string list" where
  "tag_values f = (case f_bastet_tag f of None \<Rightarrow> [] | Some t \<Rightarrow> [tag_value t])"

definition project_finding ::
  "(string, bool) dict \<Rightarrow> analyzer_execution list \<Rightarrow> finding \<Rightarrow> projected_finding" where
  "project_finding grounded execs f =
     \<lparr>pf_finding_id = f_finding_id f, pf_location = f_location f, pf_severity = severity_value (f_severity f),
      pf_tags = tag_values f, pf_preconditions = f_preconditions f, pf_notes = [],
      pf_grounded = dict_getd grounded (f_finding_id f) False,
      pf_analyzer_id = map_option ax_analyzer_id
        (find (\<lambda>x. f_finding_id f \<in> set (ax_finding_ids x) \<and> ax_outcome x = A_ran) execs)\<rparr>"

definition empty_synthesis_label :: string where
  "empty_synthesis_label = ''empty: no findings to synthesize''"

definition build_projection ::
  "int \<Rightarrow> stage_event list \<Rightarrow> analyzer_execution list \<Rightarrow> finding list \<Rightarrow> roadmap_projection" where
  "build_projection as_of events execs findings =
     \<lparr>rp_as_of = as_of, rp_targets = rows_of events,
      rp_findings = map (project_finding (grounding_map findings execs) execs) findings,
      rp_empty_label = (if \<exists>e \<in> set events. ev_transition e = Synthesize \<and> ev_outcome e = Empty
                        then Some empty_synthesis_label else None)\<rparr>"

definition project :: "payload_codec \<Rightarrow> memory_snapshot \<Rightarrow> roadmap_projection py" where
  "project cd sn =
     bindE (reject_bad_snapshot sn) (\<lambda>_.
     bindE (unpack cd sn) (\<lambda>(events, execs).
       Inr (build_projection (sn_as_of sn) events execs (svc_findings cd sn))))"

section \<open>Applying an action\<close>

record action =
  ac_type :: string
  ac_params :: json_obj

record apply_args =
  ap_report :: "stage1_report option"
  ap_executions :: "analyzer_execution list"
  ap_extra :: "finding list"
  ap_chunk_id :: "string option"
  ap_outcome :: "stage_outcome option"
  ap_reason :: "string option"
  ap_gap_target :: "string option"

definition no_args :: apply_args where
  "no_args = \<lparr>ap_report = None, ap_executions = [], ap_extra = [], ap_chunk_id = None, ap_outcome = None,
     ap_reason = None, ap_gap_target = None\<rparr>"

text \<open>\<open>str(params.get(k) or "")\<close>, and \<open>a or params.get(k) or d\<close> for an optional string \<open>a\<close>.\<close>

definition param_str :: "json_obj \<Rightarrow> string \<Rightarrow> string" where
  "param_str ps k = (let v = dict_getd ps k JNull in if truthy v then py_str v else [])"

definition no_chunk :: string where
  "no_chunk = replicate 64 (CHR ''0'')"

definition base_event :: "transition_type \<Rightarrow> int \<Rightarrow> stage_outcome \<Rightarrow> int \<Rightarrow> stage_event" where
  "base_event t rv out as_of =
     \<lparr>ev_transition = t, ev_revision = rv, ev_chunk_id = None, ev_target = None, ev_outcome = out,
      ev_reason = None, ev_as_of = as_of, ev_targets = [], ev_skipped = []\<rparr>"

definition discover_chunk :: "apply_args \<Rightarrow> json_obj \<Rightarrow> string" where
  "discover_chunk args ps =
     opt_or (ap_chunk_id args)
       (if truthy (dict_getd ps ''chunk_id'' JNull) then py_str (dict_getd ps ''chunk_id'' JNull) else no_chunk)"

definition skip_reason :: "apply_args \<Rightarrow> json_obj \<Rightarrow> string" where
  "skip_reason args ps =
     py_strip (if truthy (dict_getd ps ''reason'' JNull) then py_str (dict_getd ps ''reason'' JNull)
               else opt_or (ap_reason args) [])"

definition synth_of :: "payload_codec \<Rightarrow> memory_snapshot \<Rightarrow> apply_args \<Rightarrow> finding list" where
  "synth_of cd sn args =
     (let fs = svc_findings cd sn @ ap_extra args in if fs = [] then [] else s3_findings (run_stage3 fs None))"

text \<open>The event and the findings of the transition, by action type.\<close>

definition event_for ::
  "payload_codec \<Rightarrow> memory_snapshot \<Rightarrow> action \<Rightarrow> apply_args \<Rightarrow> int \<Rightarrow> (stage_event \<times> finding list) py" where
  "event_for cd sn act args rv =
     (let at = ac_type act; ps = ac_params act; as_of = sn_as_of sn in
      if at = ''run_discovery'' then
        bindE (required_fields ((base_event Discover rv Ran as_of)
            \<lparr>ev_chunk_id := Some (discover_chunk args ps),
             ev_targets := (case ap_report args of None \<Rightarrow> [] | Some r \<Rightarrow> s1_priority_targets r),
             ev_skipped := (case ap_report args of None \<Rightarrow> [] | Some r \<Rightarrow> s1_skipped_targets r)\<rparr>))
          (\<lambda>e. Inr (e, ap_extra args))
      else if at = ''run_check'' then
        bindE (required_fields ((base_event Check rv (case ap_outcome args of None \<Rightarrow> Ran | Some out \<Rightarrow> out) as_of)
            \<lparr>ev_target := Some (param_str ps ''target'')\<rparr>))
          (\<lambda>e. Inr (e, ap_extra args))
      else if at = ''skip_target'' then
        bindE (required_fields ((base_event Skip rv Skipped as_of)
            \<lparr>ev_target := Some (param_str ps ''target''), ev_reason := Some (skip_reason args ps)\<rparr>))
          (\<lambda>e. Inr (e, ap_extra args))
      else if at = ''run_synthesis'' then
        bindE (required_fields (base_event Synthesize rv
            (if svc_findings cd sn @ ap_extra args = [] then Empty else Ran) as_of))
          (\<lambda>e. Inr (e, synth_of cd sn args))
      else if at = ''gap'' \<or> \<not> falsy (ap_gap_target args) then
        bindE (required_fields ((base_event Gap rv Did_not_run as_of)
            \<lparr>ev_target := Some (opt_or (ap_gap_target args) (param_str ps ''target'')),
             ev_reason := Some (opt_or (ap_reason args) ''path is outside the bound include set'')\<rparr>))
          (\<lambda>e. Inr (e, ap_extra args))
      else raise ''ValueError'' (''unsupported methodology action '' @ py_repr_str at))"

text \<open>The snapshot with the transition's payloads committed at the next sequence number.\<close>

definition commit_body :: "payload_codec \<Rightarrow> stage_event \<Rightarrow> analyzer_execution list \<Rightarrow> json_obj" where
  "commit_body cd e execs =
     [(''payloads'', JList (JObj (cd_dump_event cd e) # map (\<lambda>x. JObj (cd_dump_exec cd x)) execs))]"

definition imagine :: "payload_codec \<Rightarrow> memory_snapshot \<Rightarrow> stage_event \<Rightarrow> analyzer_execution list \<Rightarrow> memory_snapshot" where
  "imagine cd sn e execs =
     (let sq = sn_as_of sn + 1 in
      sn\<lparr>sn_as_of := sq, sn_items := sn_items sn @
         [\<lparr>it_record_id = ''imagined'', it_log_sequence = sq, it_kind = ''dispatch_commit'',
           it_source_type = ''tool_output'', it_timestamp = ''0'', it_operation_id = None,
           it_body = Some (commit_body cd e execs)\<rparr>]\<rparr>)"

definition apply_action ::
  "payload_codec \<Rightarrow> memory_snapshot \<Rightarrow> action \<Rightarrow> apply_args \<Rightarrow> methodology_transition py" where
  "apply_action cd sn act args =
     bindE (reject_bad_snapshot sn) (\<lambda>_.
     bindE (svc_revision cd sn) (\<lambda>rv.
     bindE (event_for cd sn act args rv) (\<lambda>(e, extra).
     bindE (project cd (imagine cd sn e (ap_executions args))) (\<lambda>proj.
       Inr \<lparr>tr_event = e, tr_executions = ap_executions args, tr_findings = extra,
            tr_projection =
              (if ev_transition e = Synthesize \<and> ev_outcome e = Empty
               then proj\<lparr>rp_empty_label := Some empty_synthesis_label\<rparr> else proj)\<rparr>))))"

section \<open>Parity records and grounding queries\<close>

definition event_parity :: "stage_event \<Rightarrow> parity_record" where
  "event_parity e =
     \<lparr>pr_transition = Some (transition_value (ev_transition e)), pr_chunk_id = ev_chunk_id e, pr_analyzer_id = None,
      pr_target = ev_target e, pr_outcome = None, pr_grounded = False, pr_location = [], pr_severity = [],
      pr_tags = [], pr_preconditions = [], pr_notes = []\<rparr>"

definition exec_parity :: "analyzer_execution \<Rightarrow> parity_record" where
  "exec_parity x =
     \<lparr>pr_transition = None, pr_chunk_id = None, pr_analyzer_id = Some (ax_analyzer_id x),
      pr_target = Some (ax_target x), pr_outcome = Some (analyzer_outcome_value (ax_outcome x)),
      pr_grounded = False, pr_location = [], pr_severity = [], pr_tags = [], pr_preconditions = [], pr_notes = []\<rparr>"

definition finding_parity :: "projected_finding \<Rightarrow> parity_record" where
  "finding_parity p =
     \<lparr>pr_transition = None, pr_chunk_id = None, pr_analyzer_id = pf_analyzer_id p,
      pr_target = (if pf_location p = [] then None else Some (file_of (pf_location p))),
      pr_outcome = None, pr_grounded = pf_grounded p, pr_location = pf_location p, pr_severity = pf_severity p,
      pr_tags = pf_tags p, pr_preconditions = pf_preconditions p, pr_notes = pf_notes p\<rparr>"

definition parity_key :: "parity_record \<Rightarrow> string list" where
  "parity_key r = [opt_or (pr_transition r) [], opt_or (pr_chunk_id r) [], opt_or (pr_target r) [],
     opt_or (pr_analyzer_id r) []]"

definition parity :: "payload_codec \<Rightarrow> memory_snapshot \<Rightarrow> parity_record list py" where
  "parity cd sn =
     bindE (project cd sn) (\<lambda>proj.
     bindE (unpack cd sn) (\<lambda>(events, execs).
       Inr (sort_key parity_key
         (map event_parity events @ map exec_parity execs @ map finding_parity (rp_findings proj)))))"

definition is_grounded ::
  "payload_codec \<Rightarrow> memory_snapshot \<Rightarrow> string \<Rightarrow> string option \<Rightarrow> string option \<Rightarrow> bool py" where
  "is_grounded cd sn fid target digest =
     bindE (reject_bad_snapshot sn) (\<lambda>_.
     bindE (unpack cd sn) (\<lambda>(events, execs).
       Inr (case find (\<lambda>f. f_finding_id f = fid) (svc_findings cd sn) of
              None \<Rightarrow> False
            | Some f \<Rightarrow> (\<exists>x \<in> set execs. fid \<in> set (ax_finding_ids x) \<and> ax_outcome x = A_ran \<and>
                ax_target x = opt_or target (file_of (f_location f)) \<and>
                (digest = None \<or> digest = Some (ax_digest x))))))"

section \<open>Snapshots and watermarks\<close>

definition within_watermark :: "memory_snapshot \<Rightarrow> bool" where
  "within_watermark sn \<longleftrightarrow> (\<forall>it \<in> set (sn_items sn). it_log_sequence it \<le> sn_as_of sn)"

lemma reject_Inr: "reject_bad_snapshot sn = Inr u \<longleftrightarrow> within_watermark sn"
  by (auto simp: reject_bad_snapshot_def within_watermark_def not_le)

lemma rejected_above_watermark:
  assumes "\<not> within_watermark sn"
  shows "\<exists>m. apply_action cd sn act args = raise ''SnapshotRejected'' m \<and>
     project cd sn = raise ''SnapshotRejected'' m \<and> is_grounded cd sn fid t d = raise ''SnapshotRejected'' m"
proof -
  have "\<exists>it \<in> set (sn_items sn). it_log_sequence it > sn_as_of sn"
    using assms by (auto simp: within_watermark_def not_le)
  then obtain m where "reject_bad_snapshot sn = raise ''SnapshotRejected'' m"
    by (simp add: reject_bad_snapshot_def)
  then show ?thesis by (simp add: apply_action_def project_def is_grounded_def)
qed

section \<open>Committing a transition\<close>

lemma payload_bodies_commit:
  "it_kind it = ''dispatch_commit'' \<Longrightarrow> it_body it = Some (commit_body cd e xs) \<Longrightarrow>
   payload_bodies it = cd_dump_event cd e # map (cd_dump_exec cd) xs"
  by (simp add: payload_bodies_def payload_list_def commit_body_def List.map_filter_def comp_def)

lemma unpack_execs:
  "codec_ok cd \<Longrightarrow> foldE (unpack_body cd) (map (cd_dump_exec cd) xs) (es, ys) = Inr (es, ys @ xs)"
  by (induction xs arbitrary: ys) (simp_all add: unpack_body_def codec_ok_def)

text \<open>\<open>sn'\<close> is the snapshot \<open>sn\<close> after a commit of the event and its executions.\<close>

definition committed :: "payload_codec \<Rightarrow> memory_snapshot \<Rightarrow> stage_event \<Rightarrow> analyzer_execution list \<Rightarrow>
    memory_snapshot \<Rightarrow> bool" where
  "committed cd sn e xs sn' \<longleftrightarrow>
     sn_as_of sn' = sn_as_of sn + 1 \<and> sn_items sn' \<noteq> [] \<and>
     butlast (sn_items sn') = sn_items sn \<and> it_kind (last (sn_items sn')) = ''dispatch_commit'' \<and>
     it_log_sequence (last (sn_items sn')) \<le> sn_as_of sn + 1 \<and>
     it_body (last (sn_items sn')) = Some (commit_body cd e xs)"

lemma committed_items:
  assumes "committed cd sn e xs sn'"
  obtains it where "sn_items sn' = sn_items sn @ [it]" "it_kind it = ''dispatch_commit''"
    "it_log_sequence it \<le> sn_as_of sn + 1" "it_body it = Some (commit_body cd e xs)" "sn_as_of sn' = sn_as_of sn + 1"
proof (rule that [of "last (sn_items sn')"])
  show "sn_items sn' = sn_items sn @ [last (sn_items sn')]"
    using assms unfolding committed_def by (metis append_butlast_last_id)
qed (use assms in \<open>simp_all add: committed_def\<close>)

lemma committed_imagine: "committed cd sn e xs (imagine cd sn e xs)"
  by (simp add: committed_def imagine_def Let_def)

lemma unpack_committed:
  assumes "codec_ok cd" "event_valid e" "committed cd sn e xs sn'" "unpack cd sn = Inr (es, ys)"
  shows "unpack cd sn' = Inr (es @ [e], ys @ xs)"
proof -
  obtain it where "sn_items sn' = sn_items sn @ [it]" "it_kind it = ''dispatch_commit''"
    "it_body it = Some (commit_body cd e xs)"
    using committed_items [OF assms(3)] by metis
  with assms(4) have "unpack cd sn' = foldE (unpack_body cd) (cd_dump_event cd e # map (cd_dump_exec cd) xs) (es, ys)"
    by (simp add: unpack_def foldE_append payload_bodies_commit)
  also have "\<dots> = Inr (es @ [e], ys @ xs)"
    using assms(1,2) unpack_execs [OF assms(1)] by (simp add: unpack_body_def codec_ok_def)
  finally show ?thesis .
qed

lemma unpack_committed_Inr:
  assumes "committed cd sn e xs sn'" "unpack cd sn' = Inr r"
  shows "\<exists>r'. unpack cd sn = Inr r'"
proof -
  obtain it where "sn_items sn' = sn_items sn @ [it]"
    using committed_items [OF assms(1)] by metis
  with assms(2) show ?thesis by (auto simp: unpack_def foldE_append bindE_Inr)
qed

lemma findings_committed: "committed cd sn e xs sn' \<Longrightarrow> svc_findings cd sn' = svc_findings cd sn"
  by (erule committed_items) (simp add: svc_findings_def List.map_filter_def item_finding_def commit_body_def)

lemma watermark_committed: "committed cd sn e xs sn' \<Longrightarrow> within_watermark sn \<Longrightarrow> within_watermark sn'"
  by (erule committed_items) (auto simp: within_watermark_def dest: bspec)

lemma project_committed:
  assumes "codec_ok cd" "event_valid e" "committed cd sn e xs sn'" "within_watermark sn" "unpack cd sn = Inr (es, ys)"
  shows "project cd sn' =
    Inr (build_projection (sn_as_of sn + 1) (es @ [e]) (ys @ xs) (svc_findings cd sn))"
proof -
  have "reject_bad_snapshot sn' = Inr ()"
    using watermark_committed [OF assms(3,4)] by (simp add: reject_Inr)
  moreover have "sn_as_of sn' = sn_as_of sn + 1" using assms(3) by (simp add: committed_def)
  ultimately show ?thesis
    by (simp add: project_def unpack_committed [OF assms(1-3,5)] findings_committed [OF assms(3)])
qed

lemma event_for_cases:
  assumes "event_for cd sn act args rv = Inr (e, extra)"
  shows "event_valid e \<and> ev_revision e = rv \<and> ev_as_of e = sn_as_of sn"
  using assms by (auto simp: event_for_def Let_def bindE_Inr required_fields_Inr base_event_def split: if_splits)

lemma apply_Inr:
  assumes "codec_ok cd" "apply_action cd sn act args = Inr tr"
  obtains es ys where "within_watermark sn" "unpack cd sn = Inr (es, ys)"
    "event_for cd sn act args (int (length es)) = Inr (tr_event tr, tr_findings tr)"
    "tr_executions tr = ap_executions args"
    "tr_projection tr = build_projection (sn_as_of sn + 1) (es @ [tr_event tr]) (ys @ ap_executions args) (svc_findings cd sn)"
proof -
  from assms(2) obtain es ys e extra proj where
    w: "within_watermark sn" and u: "unpack cd sn = Inr (es, ys)"
    and ev: "event_for cd sn act args (int (length es)) = Inr (e, extra)"
    and pr: "project cd (imagine cd sn e (ap_executions args)) = Inr proj"
    and tr: "tr = \<lparr>tr_event = e, tr_executions = ap_executions args, tr_findings = extra,
            tr_projection =
              (if ev_transition e = Synthesize \<and> ev_outcome e = Empty
               then proj\<lparr>rp_empty_label := Some empty_synthesis_label\<rparr> else proj)\<rparr>"
    unfolding apply_action_def svc_revision_def by (auto simp: bindE_Inr reject_Inr)
  have "event_valid e" using event_for_cases [OF ev] by simp
  with pr have proj: "proj = build_projection (sn_as_of sn + 1) (es @ [e]) (ys @ ap_executions args) (svc_findings cd sn)"
    using project_committed [OF assms(1) _ committed_imagine w u] by simp
  have "proj\<lparr>rp_empty_label := Some empty_synthesis_label\<rparr> = proj" if "ev_transition e = Synthesize \<and> ev_outcome e = Empty"
    using that by (simp add: proj build_projection_def)
  then have "tr_projection tr = proj" by (simp add: tr)
  with proj show thesis using that [OF w u] ev by (simp add: tr)
qed

lemma event_for_Inl_class:
  "event_for cd sn act args rv = Inl ex \<Longrightarrow> exc_class ex \<in> {''ValidationError'', ''ValueError''}"
  by (auto simp: event_for_def Let_def bindE_Inl required_fields_def split: if_splits)

section \<open>The roadmap\<close>

definition decision_of :: "string \<Rightarrow> stage_event \<Rightarrow> roadmap_row option" where
  "decision_of t e =
     (if ev_transition e \<in> {Check, Skip, Gap} \<and> ev_target e = Some t \<and> t \<noteq> []
      then Some \<lparr>row_target = t,
                 row_state = (case ev_transition e of Check \<Rightarrow> Analysed | Skip \<Rightarrow> Row_skipped | _ \<Rightarrow> Row_gap),
                 row_reason = (if ev_transition e = Check then None else ev_reason e),
                 row_chunk_id = ev_chunk_id e\<rparr>
      else None)"

definition discovers :: "string \<Rightarrow> stage_event \<Rightarrow> bool" where
  "discovers t e \<longleftrightarrow> ev_transition e = Discover \<and> t \<in> set (ev_targets e)"

text \<open>What the roadmap promises of a target: its last check, skip or gap decides; a target with no
  decision is pending since the first event that mentions it.\<close>

definition row_spec :: "string \<Rightarrow> stage_event list \<Rightarrow> roadmap_row option" where
  "row_spec t events =
     (case rev (List.map_filter (decision_of t) events) of
        r # rs \<Rightarrow> Some r
      | [] \<Rightarrow> map_option (\<lambda>e. \<lparr>row_target = t, row_state = Pending, row_reason = None,
                row_chunk_id = ev_chunk_id e\<rparr>) (find (discovers t) events))"

definition rows_ok :: "row_state \<Rightarrow> bool" where
  "rows_ok st \<longleftrightarrow> distinct (fst st) \<and> (\<forall>t. t \<in> set (fst st) \<longleftrightarrow> dict_get (snd st) t \<noteq> None)"

lemma touch_ok: "rows_ok st \<Longrightarrow> rows_ok (touch t r st)"
  by (auto simp: rows_ok_def touch_def)

lemma touch_new_ok: "rows_ok st \<Longrightarrow> rows_ok (touch_new c t st)"
  by (simp add: touch_new_def touch_ok)

lemma touch_news_ok: "rows_ok st \<Longrightarrow> rows_ok (fold (touch_new c) ts st)"
  by (induction ts arbitrary: st) (auto simp: touch_new_ok)

lemma row_step_ok: "rows_ok st \<Longrightarrow> rows_ok (row_step e st)"
  by (simp add: row_step_def touch_ok touch_news_ok split: transition_type.splits)

lemma rows_fold_ok: "rows_ok st \<Longrightarrow> rows_ok (fold row_step es st)"
  by (induction es arbitrary: st) (auto simp: row_step_ok)

lemma touch_news_get:
  "dict_get (snd (fold (touch_new c) ts st)) t =
     (case dict_get (snd st) t of
        Some r \<Rightarrow> Some r
      | None \<Rightarrow> if t \<in> set ts then Some \<lparr>row_target = t, row_state = Pending, row_reason = None, row_chunk_id = c\<rparr>
               else None)"
  by (induction ts arbitrary: st) (auto simp: touch_new_def touch_def split: option.splits)

lemma row_step_get:
  "dict_get (snd (row_step e st)) t =
     (case decision_of t e of
        Some r \<Rightarrow> Some r
      | None \<Rightarrow> (case dict_get (snd st) t of
                  Some r \<Rightarrow> Some r
                | None \<Rightarrow> if discovers t e
                    then Some \<lparr>row_target = t, row_state = Pending, row_reason = None, row_chunk_id = ev_chunk_id e\<rparr>
                    else None))"
  by (cases "ev_transition e"; cases "ev_target e")
    (auto simp: row_step_def decision_of_def discovers_def touch_def touch_news_get split: option.splits)

lemma rows_get: "dict_get (snd (fold row_step es ([], []))) t = row_spec t es"
proof (induction es rule: rev_induct)
  case Nil
  show ?case by (simp add: row_spec_def List.map_filter_def)
next
  case (snoc e es)
  show ?case
  proof (cases "decision_of t e")
    case None
    then show ?thesis
      by (cases "rev (List.map_filter (decision_of t) es)"; cases "find (discovers t) es")
        (simp_all add: row_step_get snoc.IH row_spec_def map_filter_snoc find_append)
  next
    case (Some r)
    then show ?thesis by (simp add: row_step_get row_spec_def map_filter_snoc)
  qed
qed

lemma decision_row:
  "decision_of t e = Some r \<Longrightarrow> row_target r = t \<and> row_state r \<noteq> Pending \<and> ev_target e = Some t"
  by (auto simp: decision_of_def split: if_splits transition_type.splits)

lemma last_decision:
  assumes "rev (List.map_filter (decision_of t) es) = r # rs"
  shows "\<exists>e \<in> set es. decision_of t e = Some r"
proof -
  have "r \<in> set (List.map_filter (decision_of t) es)" using assms by (metis list.set_intros(1) set_rev)
  then show ?thesis by (simp add: set_map_filter_iff)
qed

lemma row_spec_target: "row_spec t es = Some r \<Longrightarrow> row_target r = t"
proof (cases "rev (List.map_filter (decision_of t) es)")
  case (Cons x xs)
  moreover assume "row_spec t es = Some r"
  ultimately show ?thesis using last_decision [OF Cons] by (auto simp: row_spec_def dest: decision_row)
qed (auto simp: row_spec_def)

lemma rows_of_iff: "r \<in> set (rows_of es) \<longleftrightarrow> row_spec (row_target r) es = Some r"
proof -
  let ?st = "fold row_step es ([], [])"
  have ok: "rows_ok ?st" by (rule rows_fold_ok) (simp add: rows_ok_def)
  have "r \<in> set (rows_of es) \<longleftrightarrow> (\<exists>t. row_spec t es = Some r)"
    using ok by (auto simp: rows_of_def Let_def rows_ok_def rows_get) force
  then show ?thesis using row_spec_target by metis
qed

lemma rows_of_distinct: "distinct (map row_target (rows_of es))"
proof -
  let ?st = "fold row_step es ([], [])"
  have ok: "rows_ok ?st" by (rule rows_fold_ok) (simp add: rows_ok_def)
  have "map row_target (rows_of es) = map (\<lambda>t. t) (fst ?st)"
    unfolding rows_of_def Let_def map_map
    by (rule map_cong) (use ok in \<open>auto simp: rows_ok_def rows_get row_spec_target\<close>)
  with ok show ?thesis by (simp add: rows_ok_def)
qed

lemma decided_row:
  assumes "e \<in> set es" "decision_of t e \<noteq> None"
  shows "\<exists>r e'. row_spec t es = Some r \<and> e' \<in> set es \<and> decision_of t e' = Some r"
proof -
  have "List.map_filter (decision_of t) es \<noteq> []"
    using assms set_map_filter_iff [of _ "decision_of t" es] by (metis empty_iff list.set(1) option.exhaust)
  then obtain x xs where x: "rev (List.map_filter (decision_of t) es) = x # xs"
    by (metis neq_Nil_conv rev_is_Nil_conv)
  then have "row_spec t es = Some x" by (simp add: row_spec_def)
  with last_decision [OF x] show ?thesis by auto
qed

lemma decided_not_pending:
  assumes "e \<in> set es" "decision_of t e \<noteq> None" "r \<in> set (rows_of es)" "row_target r = t"
  shows "row_state r \<noteq> Pending"
  using decided_row [OF assms(1,2)] assms(3,4) by (auto simp: rows_of_iff dest: decision_row)

section \<open>Grounding\<close>

definition finding_by_id :: "finding list \<Rightarrow> string \<Rightarrow> finding option" where
  "finding_by_id fs fid = find (\<lambda>f. f_finding_id f = fid) (rev fs)"

lemma by_id_get:
  "dict_get (fold (\<lambda>f. dict_set (f_finding_id f) f) fs d) fid =
     (case finding_by_id fs fid of Some f \<Rightarrow> Some f | None \<Rightarrow> dict_get d fid)"
  by (induction fs arbitrary: d) (auto simp: finding_by_id_def find_append split: option.splits)

lemma dict_getd_False: "dict_getd g k False \<longleftrightarrow> dict_get g k = Some True"
  by (auto simp: dict_getd_def split: option.splits)

lemma grounded0_get:
  "dict_get d fid \<noteq> Some True \<Longrightarrow> dict_get (fold (\<lambda>f. dict_set (f_finding_id f) False) fs d) fid \<noteq> Some True"
  by (induction fs arbitrary: d) auto

lemma grounded0: "\<not> dict_getd (fold (\<lambda>f. dict_set (f_finding_id f) False) fs []) fid False"
  using grounded0_get [of "[]" fid fs] by (simp add: dict_getd_False)

lemma ground_ids_get:
  "dict_getd (fold (ground_id by_id tg) ids g) fid False \<longleftrightarrow> dict_getd g fid False \<or>
     fid \<in> set ids \<and> (\<exists>f. dict_get by_id fid = Some f \<and> tg = file_of (f_location f))"
  by (induction ids arbitrary: g) (auto simp: ground_id_def dict_getd_def split: option.splits if_splits)

lemma ground_execs_get:
  "dict_getd (fold (ground_exec by_id) xs g) fid False \<longleftrightarrow> dict_getd g fid False \<or>
     (\<exists>x \<in> set xs. ax_outcome x = A_ran \<and> fid \<in> set (ax_finding_ids x) \<and>
        (\<exists>f. dict_get by_id fid = Some f \<and> ax_target x = file_of (f_location f)))"
  by (induction xs arbitrary: g) (auto simp: ground_exec_def ground_ids_get)

lemma grounding_map_iff:
  "dict_getd (grounding_map fs xs) fid False \<longleftrightarrow>
     (\<exists>x \<in> set xs. ax_outcome x = A_ran \<and> fid \<in> set (ax_finding_ids x) \<and>
        (\<exists>f. finding_by_id fs fid = Some f \<and> ax_target x = file_of (f_location f)))"
  by (auto simp: grounding_map_def Let_def ground_execs_get grounded0 by_id_get split: option.splits)

lemma finding_by_id_distinct:
  "distinct (map f_finding_id fs) \<Longrightarrow> f \<in> set fs \<Longrightarrow> finding_by_id fs (f_finding_id f) = Some f"
  unfolding finding_by_id_def by (rule find_unique) (auto simp: distinct_map inj_on_def)


section \<open>Properties\<close>

text \<open>C1: a transition promises what a later reader will see. When \<open>apply_action\<close> succeeds, the
  projection it returns is the projection of every snapshot in which the event and its executions
  were committed at the next sequence number, and the revision counter has grown by one.\<close>

theorem transition_projection:
  assumes "codec_ok cd" "apply_action cd sn act args = Inr tr"
    "committed cd sn (tr_event tr) (tr_executions tr) sn'"
  shows "project cd sn' = Inr (tr_projection tr) \<and>
    svc_revision cd sn' = Inr (ev_revision (tr_event tr) + 1)"
proof -
  obtain es ys where w: "within_watermark sn" and u: "unpack cd sn = Inr (es, ys)"
    and ev: "event_for cd sn act args (int (length es)) = Inr (tr_event tr, tr_findings tr)"
    and ex: "tr_executions tr = ap_executions args"
    and pr: "tr_projection tr = build_projection (sn_as_of sn + 1) (es @ [tr_event tr])
               (ys @ ap_executions args) (svc_findings cd sn)"
    using apply_Inr [OF assms(1,2)] .
  have v: "event_valid (tr_event tr)" and r: "ev_revision (tr_event tr) = int (length es)"
    using event_for_cases [OF ev] by auto
  show ?thesis
    using project_committed [OF assms(1) v assms(3) w u] unpack_committed [OF assms(1) v assms(3) u]
    by (simp add: pr ex svc_revision_def r)
qed

definition witness_snapshot :: memory_snapshot where
  "witness_snapshot = \<lparr>sn_session_id = ''s'', sn_as_of = 4, sn_measured_bytes = 0, sn_items = []\<rparr>"

definition witness_skip :: action where
  "witness_skip = \<lparr>ac_type = ''skip_target'',
     ac_params = [(''target'', JStr ''A.sol:f''), (''reason'', JStr ''library'')]\<rparr>"

definition witness_transition :: methodology_transition where
  "witness_transition = projr (apply_action plain_codec witness_snapshot witness_skip no_args)"

lemma witness_apply: "apply_action plain_codec witness_snapshot witness_skip no_args = Inr witness_transition"
proof -
  have "isl (apply_action plain_codec witness_snapshot witness_skip no_args) = False" by code_simp
  then show ?thesis unfolding witness_transition_def by (metis sum.collapse(2))
qed

lemma transition_projection_witness:
  "project plain_codec (imagine plain_codec witness_snapshot (tr_event witness_transition) (tr_executions witness_transition)) =
     Inr (tr_projection witness_transition) \<and>
   svc_revision plain_codec (imagine plain_codec witness_snapshot (tr_event witness_transition)
     (tr_executions witness_transition)) = Inr (ev_revision (tr_event witness_transition) + 1)"
  by (rule transition_projection [OF plain_codec_ok witness_apply committed_imagine])

text \<open>C2: the roadmap has one row per target, and a row is the target's last decision: the last
  check, skip or gap event with that target, or a pending row since the first discovery of it.\<close>

theorem roadmap_rows:
  "distinct (map row_target (rows_of events)) \<and>
   (\<forall>r. r \<in> set (rows_of events) \<longleftrightarrow> row_spec (row_target r) events = Some r)"
  using rows_of_distinct rows_of_iff by blast

text \<open>C3: discovery never reopens a decided target. Once an event has checked, skipped or gapped a
  target, no continuation of the log shows it as pending.\<close>

theorem decided_never_reopens:
  assumes "e \<in> set events" "decision_of t e \<noteq> None" "r \<in> set (rows_of (events @ later))" "row_target r = t"
  shows "row_state r \<noteq> Pending"
  using assms decided_not_pending [of e "events @ later" t r] by simp

definition witness_checked :: stage_event where
  "witness_checked = (base_event Check 0 Ran 1)\<lparr>ev_target := Some ''A.sol:f''\<rparr>"

definition witness_rediscover :: stage_event where
  "witness_rediscover = (base_event Discover 1 Ran 2)\<lparr>ev_chunk_id := Some ''c'', ev_targets := [''A.sol:f'']\<rparr>"

lemma decided_never_reopens_witness:
  "row_state (hd (rows_of ([witness_checked] @ [witness_rediscover]))) \<noteq> Pending"
  by (rule decided_never_reopens [of witness_checked "[witness_checked]" "''A.sol:f''" _ "[witness_rediscover]"])
    (simp_all add: witness_checked_def witness_rediscover_def base_event_def decision_of_def rows_of_def
      row_step_def touch_def touch_new_def)

text \<open>C7: a projected finding is marked grounded exactly when the grounding query says so, as long
  as finding ids are distinct: some analyzer that ran, on the file of the finding's location,
  reported its id.\<close>

theorem projected_grounding:
  assumes "project cd sn = Inr p" "distinct (map f_finding_id (svc_findings cd sn))" "pf \<in> set (rp_findings p)"
  shows "is_grounded cd sn (pf_finding_id pf) None None = Inr (pf_grounded pf)"
proof -
  from assms(1) obtain es xs where w: "within_watermark sn" and u: "unpack cd sn = Inr (es, xs)"
    and p: "p = build_projection (sn_as_of sn) es xs (svc_findings cd sn)"
    by (auto simp: project_def bindE_Inr reject_Inr)
  from assms(3) obtain f where f: "f \<in> set (svc_findings cd sn)"
    and pf: "pf = project_finding (grounding_map (svc_findings cd sn) xs) xs f"
    by (auto simp: p build_projection_def)
  have one: "find (\<lambda>g. f_finding_id g = f_finding_id f) (svc_findings cd sn) = Some f"
    using assms(2) f by (intro find_unique) (auto simp: distinct_map inj_on_def)
  have "reject_bad_snapshot sn = Inr ()" using w by (simp add: reject_Inr)
  then show ?thesis
    by (simp add: is_grounded_def u pf project_finding_def one opt_or_def grounding_map_iff
        finding_by_id_distinct [OF assms(2) f]) blast
qed

definition witness_finding_item :: snapshot_item where
  "witness_finding_item =
     \<lparr>it_record_id = ''r1'', it_log_sequence = 1, it_kind = ''finding'', it_source_type = ''tool_output'',
      it_timestamp = ''0'', it_operation_id = None,
      it_body = Some [(''finding_id'', JStr ''F-1''), (''location'', JStr ''A.sol:f''),
                      (''function_name'', JStr ''f''), (''severity'', JStr ''high'')]\<rparr>"

definition witness_execution :: analyzer_execution where
  "witness_execution = \<lparr>ax_analyzer_id = ''run_slither'', ax_version = ''v'', ax_target = ''A.sol'', ax_digest = ''d'',
     ax_outcome = A_ran, ax_result = [], ax_finding_ids = [''F-1'']\<rparr>"

definition witness_log :: memory_snapshot where
  "witness_log = imagine plain_codec
     (witness_snapshot\<lparr>sn_items := [witness_finding_item]\<rparr>) witness_checked [witness_execution]"

lemma projected_grounding_witness:
  "is_grounded plain_codec witness_log ''F-1'' None None = Inr True"
proof -
  let ?p = "projr (project plain_codec witness_log)"
  have "isl (project plain_codec witness_log) = False" by code_simp
  then have p: "project plain_codec witness_log = Inr ?p" by (metis sum.collapse(2))
  have d: "distinct (map f_finding_id (svc_findings plain_codec witness_log))" by code_simp
  have "rp_findings ?p \<noteq> [] \<and> pf_finding_id (hd (rp_findings ?p)) = ''F-1'' \<and> pf_grounded (hd (rp_findings ?p))"
    by code_simp
  with projected_grounding [OF p d, of "hd (rp_findings ?p)"] show ?thesis by simp
qed

text \<open>A snapshot with an item above its watermark is rejected by every entry point before any
  payload is read, and nothing else is rejected this way.\<close>

lemma future_watermark_rejected:
  "(\<not> within_watermark sn \<longrightarrow> (\<exists>m. apply_action cd sn act args = raise ''SnapshotRejected'' m \<and>
      project cd sn = raise ''SnapshotRejected'' m \<and> is_grounded cd sn fid t d = raise ''SnapshotRejected'' m)) \<and>
   (within_watermark sn \<longrightarrow> (\<forall>m. project cd sn \<noteq> raise ''SnapshotRejected'' m))"
proof -
  have "exc_class ex \<noteq> ''SnapshotRejected''" if "foldE (unpack_body cd) bs acc = Inl ex" for bs acc ex
    using that
    by (induction bs arbitrary: acc) (auto simp: bindE_Inl unpack_body_def split: if_splits option.splits)
  then have "unpack cd sn \<noteq> raise ''SnapshotRejected'' m" for m
    unfolding unpack_def by (metis py_exc.sel(1))
  then have "within_watermark sn \<Longrightarrow> project cd sn \<noteq> raise ''SnapshotRejected'' m" for m
    using reject_Inr [of sn "()"] by (auto simp: project_def bindE_Inl)
  then show ?thesis using rejected_above_watermark by blast
qed


lemma future_watermark_rejected_witness:
  "\<exists>m. project plain_codec (witness_snapshot\<lparr>sn_items := [witness_finding_item], sn_as_of := 0\<rparr>) =
     raise ''SnapshotRejected'' m"
  using future_watermark_rejected [of "witness_snapshot\<lparr>sn_items := [witness_finding_item], sn_as_of := 0\<rparr>"
      plain_codec witness_skip no_args "[]" None None]
  by (auto simp: within_watermark_def witness_finding_item_def)

end
