(* ===== verification/Tools_Static.thy ===== *)
theory Tools_Static
  imports Audit_Finding Py_Json
begin

text \<open>
  Slither and Mythril (\<open>tools/static_analysis.py\<close>): the parsers of the tools' JSON, the conversion of
  Slither's findings to audit findings and the two runs. The sandbox, \<open>Path.resolve\<close> and
  \<open>json.loads\<close> are parameters. The fields of a tool finding are the untyped values the tool's
  JSON holds, so every access raises where Python does.

  The lemmas: a conversion keeps number and order, its ids are distinct within one file, every
  location lies in the analysed file; a target outside the audit root is refused before the sandbox
  is started; a failed Mythril analysis is never an empty result.
\<close>

section \<open>Slither\<close>

definition SLITHER_IMPACT_TO_SEVERITY :: "(string \<times> string) list" where
  "SLITHER_IMPACT_TO_SEVERITY =
     [(''High'', ''high''), (''Medium'', ''medium''), (''Low'', ''low''),
      (''Informational'', ''informational''), (''Optimization'', ''informational'')]"

definition SLITHER_CHECK_TO_TAG :: "(string \<times> bastet_tag) list" where
  "SLITHER_CHECK_TO_TAG =
     [(''reentrancy-eth'', Tag_reentrancy), (''reentrancy-no-eth'', Tag_reentrancy),
      (''reentrancy-benign'', Tag_reentrancy), (''reentrancy-events'', Tag_reentrancy),
      (''arbitrary-send-eth'', Tag_arbitrary_external_call),
      (''unchecked-transfer'', Tag_unchecked_return_value),
      (''unchecked-lowlevel'', Tag_unchecked_return_value), (''unchecked-send'', Tag_unchecked_return_value),
      (''tx-origin'', Tag_access_control), (''suicidal'', Tag_access_control),
      (''controlled-delegatecall'', Tag_delegatecall_injection),
      (''delegatecall-loop'', Tag_delegatecall_injection),
      (''weak-prng'', Tag_timestamp_dependence), (''timestamp'', Tag_timestamp_dependence),
      (''incorrect-equality'', Tag_logic_error), (''missing-zero-check'', Tag_missing_check)]"

record slither_finding =
  sf_check :: json
  sf_impact :: json
  sf_confidence :: json
  sf_description :: string
  sf_function :: json
  sf_line :: json

text \<open>\<open>d.get(v)\<close> for a dictionary with string keys: an unhashable \<open>v\<close> raises.\<close>

definition str_table_get :: "(string \<times> 'a) list \<Rightarrow> json \<Rightarrow> 'a option py" where
  "str_table_get d v =
     (case v of
        JStr s \<Rightarrow> Inr (dict_get d s)
      | JList _ \<Rightarrow> raise ''TypeError'' ''unhashable type: list''
      | JObj _ \<Rightarrow> raise ''TypeError'' ''unhashable type: dict''
      | _ \<Rightarrow> Inr None)"

definition sf_severity :: "slither_finding \<Rightarrow> string py" where
  "sf_severity sf =
     bindE (str_table_get SLITHER_IMPACT_TO_SEVERITY (sf_impact sf))
       (\<lambda>s. Inr (case s of Some v \<Rightarrow> v | None \<Rightarrow> ''informational''))"

fun first_function :: "json list \<Rightarrow> json option py" where
  "first_function [] = Inr None"
| "first_function (e # es) =
     bindE (jget e ''type'' JNull)
       (\<lambda>t. if t = JStr ''function'' then Inr (Some e) else first_function es)"

text \<open>\<open>v[0]\<close> of a truthy value.\<close>

definition index0 :: "json \<Rightarrow> json py" where
  "index0 v = (case v of
       JList (x # xs) \<Rightarrow> Inr x
     | JStr (c # cs) \<Rightarrow> Inr (JStr [c])
     | JObj _ \<Rightarrow> raise ''KeyError'' ''0''
     | _ \<Rightarrow> raise ''TypeError'' (type_name v @ '' object is not subscriptable''))"

definition element_function_line :: "json list \<Rightarrow> (json \<times> json) py" where
  "element_function_line elements =
     bindE (first_function elements) (\<lambda>func_el.
       let el = (case func_el of Some f \<Rightarrow> f | None \<Rightarrow> (if elements = [] then JNull else hd elements)) in
       if \<not> truthy el then Inr (JStr [], JNull)
       else
         bindE (jget el ''source_mapping'' JNull) (\<lambda>sm.
         bindE (jget (por sm (JObj [])) ''lines'' JNull) (\<lambda>ls.
         bindE (jget (case func_el of Some f \<Rightarrow> f | None \<Rightarrow> JObj []) ''name'' (JStr [])) (\<lambda>name.
         bindE (if truthy ls then index0 ls else Inr JNull) (\<lambda>line. Inr (name, line))))))"

text \<open>\<open>(v or "").strip()\<close>.\<close>

definition strip_or_empty :: "json \<Rightarrow> string py" where
  "strip_or_empty v = (if truthy v then (case v of JStr s \<Rightarrow> Inr (py_strip s) | _ \<Rightarrow> no_attr v ''strip'') else Inr [])"

definition slither_detector :: "json \<Rightarrow> slither_finding py" where
  "slither_detector d =
     bindE (jget d ''elements'' JNull) (\<lambda>els.
     bindE (if truthy els then jiter els else Inr []) (\<lambda>elements.
     bindE (element_function_line elements) (\<lambda>(function, line).
     bindE (jget d ''check'' (JStr [])) (\<lambda>check.
     bindE (jget d ''impact'' (JStr [])) (\<lambda>impact.
     bindE (jget d ''confidence'' (JStr [])) (\<lambda>confidence.
     bindE (jget d ''description'' (JStr [])) (\<lambda>description.
     bindE (strip_or_empty description) (\<lambda>desc.
       Inr \<lparr>sf_check = check, sf_impact = impact, sf_confidence = confidence, sf_description = desc,
            sf_function = function, sf_line = line\<rparr>))))))))"

definition parse_slither_json :: "(string \<Rightarrow> json option) \<Rightarrow> string \<Rightarrow> slither_finding list py" where
  "parse_slither_json loads stdout =
     (case loads stdout of
        None \<Rightarrow> raise ''SlitherError'' ''could not parse slither JSON''
      | Some data \<Rightarrow>
          bindE (jget data ''results'' JNull) (\<lambda>results.
          bindE (jget (por results (JObj [])) ''detectors'' JNull) (\<lambda>detectors.
          bindE (if truthy detectors then jiter detectors else Inr []) (\<lambda>ds.
            mapE slither_detector ds))))"

section \<open>Conversion to findings\<close>

text \<open>The \<open>i\<close>-th finding, counted from one.\<close>

definition slither_finding_to :: "string \<Rightarrow> string \<Rightarrow> nat \<Rightarrow> slither_finding \<Rightarrow> finding py" where
  "slither_finding_to file_rel id_prefix i sf =
     (let loc = (if truthy (sf_line sf) then file_rel @ '':'' @ py_str (sf_line sf) else file_rel);
          fname = por (sf_function sf) (JStr ''unknown'') in
      bindE (sf_severity sf) (\<lambda>sv.
      bindE (case severity_of sv of Some s \<Rightarrow> Inr s | None \<Rightarrow> raise ''ValueError'' sv) (\<lambda>s.
      bindE (str_table_get SLITHER_CHECK_TO_TAG (sf_check sf)) (\<lambda>tag.
        case fname of
          JStr name \<Rightarrow> Inr ((mk_finding (id_prefix @ ''-'' @ nat_str03 i) loc name s)\<lparr>f_bastet_tag := tag\<rparr>)
        | _ \<Rightarrow> raise ''ValidationError'' ''function_name''))))"

definition slither_to_findings :: "slither_finding list \<Rightarrow> string \<Rightarrow> string \<Rightarrow> finding list py" where
  "slither_to_findings sfs file_rel id_prefix =
     mapE (\<lambda>(i, sf). slither_finding_to file_rel id_prefix i sf) (List.enumerate 1 sfs)"

section \<open>Running the tools\<close>

record sandbox_result =
  sr_stdout :: string
  sr_stderr :: string

text \<open>\<open>target.relative_to(root)\<close> of resolved paths; raising is the empty option.\<close>

definition relative_to :: "string \<Rightarrow> string \<Rightarrow> string option" where
  "relative_to target root =
     (if target = root then Some ''.''
      else if root = ''/'' \<and> py_startswith target ''/'' then Some (drop 1 target)
      else if py_startswith target (root @ ''/'') then Some (drop (length root + 1) target)
      else None)"

definition CONTAINER_MOUNT :: string where
  "CONTAINER_MOUNT = ''/audit/contracts''"

type_synonym sandbox_run = "string \<Rightarrow> string list \<Rightarrow> string \<Rightarrow> sandbox_result py"

text \<open>The sandbox takes the image, the command and the host path it mounts read-only.\<close>

definition run_slither ::
  "(string \<Rightarrow> string) \<Rightarrow> (string \<Rightarrow> json option) \<Rightarrow> sandbox_run \<Rightarrow> string \<Rightarrow> string \<Rightarrow> string \<Rightarrow> string list \<Rightarrow>
   slither_finding list py" where
  "run_slither resolve loads sandbox target audit_root img detectors =
     (case relative_to (resolve target) (resolve audit_root) of
        None \<Rightarrow> raise ''SlitherError''
          (''target '' @ resolve target @ '' is outside audit root '' @ resolve audit_root)
      | Some rel \<Rightarrow>
          bindE (sandbox img
              ([CONTAINER_MOUNT @ ''/'' @ rel, ''--json'', ''-''] @
               (if detectors \<noteq> [] then [''--detect'', py_join '','' detectors] else []))
              (resolve audit_root))
            (\<lambda>r. if py_strip (sr_stdout r) = []
                  then raise ''SlitherError'' (''slither produced no JSON output (stderr: '' @ take 300 (sr_stderr r) @ '')'')
                  else parse_slither_json loads (sr_stdout r)))"

section \<open>Mythril\<close>

record mythril_finding =
  mf_title :: json
  mf_swc_id :: string
  mf_severity :: json
  mf_function :: json
  mf_description :: string

definition mf_severity_norm :: "mythril_finding \<Rightarrow> string py" where
  "mf_severity_norm m =
     (case por (mf_severity m) (JStr ''informational'') of
        JStr s \<Rightarrow> Inr (py_lower s)
      | v \<Rightarrow> no_attr v ''lower'')"

definition join_parts :: "json list \<Rightarrow> string py" where
  "join_parts ps =
     bindE (mapE (\<lambda>p. case p of JStr s \<Rightarrow> Inr s
                     | v \<Rightarrow> raise ''TypeError'' (''sequence item: expected str instance, '' @ type_name v @ '' found''))
              (filter truthy ps))
       (\<lambda>ss. Inr (py_join '' '' ss))"

definition issue_description :: "json \<Rightarrow> string py" where
  "issue_description i =
     bindE (jget i ''description'' JNull) (\<lambda>d.
       if truthy d then (case d of JStr s \<Rightarrow> Inr s | v \<Rightarrow> no_attr v ''strip'')
       else bindE (jget i ''description_head'' (JStr [])) (\<lambda>h.
            bindE (jget i ''description_tail'' (JStr [])) (\<lambda>t. join_parts [h, t])))"

definition mythril_issue :: "json \<Rightarrow> mythril_finding py" where
  "mythril_issue i =
     bindE (issue_description i) (\<lambda>description.
     bindE (jget i ''title'' (JStr [])) (\<lambda>title.
     bindE (jget i ''swc-id'' (JStr [])) (\<lambda>swc.
     bindE (jget i ''severity'' (JStr [])) (\<lambda>sev.
     bindE (jget i ''function'' (JStr [])) (\<lambda>fn.
       Inr \<lparr>mf_title = title, mf_swc_id = py_str swc, mf_severity = sev, mf_function = fn,
            mf_description = py_strip description\<rparr>)))))"

definition parse_mythril_json :: "(string \<Rightarrow> json option) \<Rightarrow> string \<Rightarrow> mythril_finding list py" where
  "parse_mythril_json loads stdout =
     (case loads stdout of
        None \<Rightarrow> raise ''MythrilError'' ''could not parse mythril JSON''
      | Some data \<Rightarrow>
          bindE (jget data ''success'' JNull) (\<lambda>success.
          bindE (jget data ''error'' JNull) (\<lambda>err.
            if success = JBool False \<or> truthy err
            then raise ''MythrilError'' (''mythril analysis failed: '' @ take 200 (py_str err))
            else bindE (jget data ''issues'' JNull) (\<lambda>iss.
                 bindE (if truthy iss then jiter iss else Inr []) (mapE mythril_issue)))))"

definition run_mythril ::
  "(string \<Rightarrow> string) \<Rightarrow> (string \<Rightarrow> json option) \<Rightarrow> sandbox_run \<Rightarrow> string \<Rightarrow> string \<Rightarrow> string \<Rightarrow>
   string option \<Rightarrow> int option \<Rightarrow> mythril_finding list py" where
  "run_mythril resolve loads sandbox target audit_root img solc_version max_depth =
     (case relative_to (resolve target) (resolve audit_root) of
        None \<Rightarrow> raise ''MythrilError''
          (''target '' @ resolve target @ '' is outside audit root '' @ resolve audit_root)
      | Some rel \<Rightarrow>
          bindE (sandbox img
              ([''analyze'', CONTAINER_MOUNT @ ''/'' @ rel, ''-o'', ''json''] @
               (case solc_version of Some (c # cs) \<Rightarrow> [''--solv'', c # cs] | _ \<Rightarrow> []) @
               (case max_depth of Some d \<Rightarrow> if d \<noteq> 0 then [''--max-depth'', int_str d] else [] | None \<Rightarrow> []))
              (resolve audit_root))
            (\<lambda>r. if py_strip (sr_stdout r) = []
                  then raise ''MythrilError'' (''mythril produced no JSON output (stderr: '' @ take 300 (sr_stderr r) @ '')'')
                  else parse_mythril_json loads (sr_stdout r)))"

section \<open>Facts\<close>

lemma nat_str03_inj: "nat_str03 m = nat_str03 n \<Longrightarrow> m = n"
  unfolding nat_str03_def Let_def by (metis dec_val_nat_str dec_val_zeros)

lemma mapE_Inr_nth:
  "mapE f xs = Inr ys \<Longrightarrow> i < length xs \<Longrightarrow> f (xs ! i) = Inr (ys ! i)"
proof (induction xs arbitrary: ys i)
  case (Cons x xs)
  then show ?case by (cases i) (auto simp: bindE_Inr)
qed simp

lemma slither_to_findings_nth:
  assumes "slither_to_findings sfs file_rel pre = Inr fs" "i < length sfs"
  shows "slither_finding_to file_rel pre (i + 1) (sfs ! i) = Inr (fs ! i)"
  using mapE_Inr_nth [OF assms(1) [unfolded slither_to_findings_def], of i] assms(2)
  by (simp add: nth_enumerate_eq)

lemma slither_finding_fields:
  assumes "slither_finding_to file_rel pre i sf = Inr f"
  shows "f_finding_id f = pre @ ''-'' @ nat_str03 i \<and>
    (f_location f = file_rel \<or> (\<exists>s. f_location f = file_rel @ '':'' @ s)) \<and>
    f_status f = Open \<and> f_mitigations_present f = []"
  using assms by (cases "por (sf_function sf) (JStr ''unknown'')")
    (auto simp: slither_finding_to_def Let_def bindE_Inr mk_finding_def)

lemma slither_to_findings_length: "slither_to_findings sfs file_rel pre = Inr fs \<Longrightarrow> length fs = length sfs"
  unfolding slither_to_findings_def by (drule mapE_Inr_length) simp

section \<open>Properties\<close>

text \<open>Converting Slither's findings keeps their number and order, gives them distinct ids, leaves
  them open, and places every one in the file that was analysed.\<close>

lemma slither_conversion:
  assumes "slither_to_findings sfs file_rel pre = Inr fs" "CHR '':'' \<notin> set file_rel"
  shows "length fs = length sfs \<and> distinct (map f_finding_id fs) \<and>
    (\<forall>f \<in> set fs. file_of (f_location f) = file_rel \<and> f_status f = Open)"
proof -
  have len: "length fs = length sfs" by (rule slither_to_findings_length [OF assms(1)])
  note nth = slither_finding_fields [OF slither_to_findings_nth [OF assms(1)]]
  have "distinct (map f_finding_id fs)"
    unfolding distinct_conv_nth
    using nth by (auto simp: len dest!: nat_str03_inj)
  moreover have "file_of (f_location f) = file_rel \<and> f_status f = Open" if "f \<in> set fs" for f
  proof -
    from that obtain i where "i < length sfs" "fs ! i = f" by (auto simp: in_set_conv_nth len)
    then show ?thesis
      using nth [of i] file_of_target [OF assms(2)] assms(2) by (auto simp: file_of_def py_split_id)
  qed
  ultimately show ?thesis using len by blast
qed

definition witness_slither :: slither_finding where
  "witness_slither = \<lparr>sf_check = JStr ''tx-origin'', sf_impact = JStr ''Medium'', sf_confidence = JStr ''High'',
     sf_description = [], sf_function = JStr ''f'', sf_line = JInt 7\<rparr>"

lemma slither_conversion_witness:
  "distinct (map f_finding_id (projr (slither_to_findings [witness_slither, witness_slither] ''A.sol'' ''SLITHER'')))"
proof -
  let ?r = "slither_to_findings [witness_slither, witness_slither] ''A.sol'' ''SLITHER''"
  have "isl ?r = False" by code_simp
  then have "?r = Inr (projr ?r)" by (metis sum.collapse(2))
  from slither_conversion [OF this] show ?thesis by simp
qed

text \<open>A target outside the audit root never reaches the sandbox, for both tools: the run raises the
  tool's error whatever the sandbox would do.\<close>

lemma outside_root_refused:
  assumes "relative_to (resolve target) (resolve root) = None"
  shows "(\<exists>m. run_slither resolve loads sb target root img ds = raise ''SlitherError'' m) \<and>
    (\<exists>m. run_mythril resolve loads sb target root img sv md = raise ''MythrilError'' m)"
  using assms by (simp add: run_slither_def run_mythril_def)

lemma outside_root_refused_witness:
  "\<exists>m. run_slither (\<lambda>p. p) (\<lambda>s. None) (\<lambda>i c m. Inr \<lparr>sr_stdout = [], sr_stderr = []\<rparr>) ''/etc/passwd'' ''/audit'' ''img'' [] =
     raise ''SlitherError'' m"
proof -
  have "relative_to ''/etc/passwd'' ''/audit'' = None" by code_simp
  then show ?thesis using outside_root_refused [of "\<lambda>p. p" "''/etc/passwd''" "''/audit''"] by simp
qed

text \<open>A Mythril answer that reports failure is an error, never an empty list of issues.\<close>

lemma mythril_failure_surfaces:
  assumes "loads stdout = Some (JObj kvs)"
    "dict_get kvs ''success'' = Some (JBool False) \<or> truthy (dict_getd kvs ''error'' JNull)"
  shows "parse_mythril_json loads stdout =
    raise ''MythrilError'' (''mythril analysis failed: '' @ take 200 (py_str (dict_getd kvs ''error'' JNull)))"
  using assms by (auto simp: parse_mythril_json_def dict_getd_def)

lemma mythril_failure_surfaces_witness:
  "parse_mythril_json (\<lambda>s. Some (JObj [(''success'', JBool False), (''error'', JStr ''solc'')])) ''x'' =
     raise ''MythrilError'' ''mythril analysis failed: solc''"
  by (subst mythril_failure_surfaces [of _ _ "[(''success'', JBool False), (''error'', JStr ''solc'')]"])
    (simp_all add: dict_getd_def)

end
