(* ===== verification/Methodology_Adapters.thy ===== *)
theory Methodology_Adapters
  imports Methodology_Service Methodology_Cursor Planner_Stage1 Tools_Static
begin

text \<open>
  The executor-facing ports (\<open>methodology/adapters.py\<close>): discovery, check, synthesis and skip, each a
  function from the action and the pack context to a dispatch result. The module's two globals, the
  snapshot factory and the relay directory, are the record \<open>ports\<close>. The kernel functions and the
  machine the ports call (scope tests, listings, the file system, hashing, the sandbox, the relay
  transport) are the fields of \<open>host\<close>; the analyzers are the modelled \<open>run_slither\<close> and
  \<open>run_mythril\<close> over that sandbox. Paths are taken normalised, as \<open>pathlib\<close> keeps them.

  The lemmas: what each port commits; an outside target never reaches the sandbox; a pending relay
  commits nothing; the reported outcome of a check is ``ran'' exactly when every analyzer ran; and
  discovery, committed round after round, moves the cursor through the chunks.
\<close>

section \<open>Context, host and results\<close>

definition AUDIT_INCLUDE :: "string list" where
  "AUDIT_INCLUDE = [''contracts/**'', ''src/**'', ''lib/**'', ''foundry.toml'', ''remappings.txt'',
     ''hardhat.config.js'', ''hardhat.config.ts'']"

definition SLITHER_VERSION :: string where
  "SLITHER_VERSION = ''slither-sandbox''"

definition MYTHRL_VERSION :: string where
  "MYTHRL_VERSION = ''mythril-sandbox''"

record ports =
  po_factory :: "memory_snapshot option"
  po_relay_dir :: "string option"

record pack_ctx =
  cx_scope_root :: string
  cx_policy :: "string list option"
  cx_operation_id :: "string option"
  cx_wrap :: "string \<Rightarrow> string \<Rightarrow> string \<Rightarrow> string"
  cx_sandbox :: "sandbox_run option"

record host =
  ho_codec :: payload_codec
  ho_chunk_digest :: "int \<Rightarrow> string list \<Rightarrow> string"
  ho_sha256 :: "string \<Rightarrow> string"
  ho_is_included :: "string \<Rightarrow> string list \<Rightarrow> bool"
  ho_policy_files :: "string list"
  ho_files :: "string list"
  ho_exists :: "string \<Rightarrow> bool"
  ho_read :: "string \<Rightarrow> string option"
  ho_bytes :: "string \<Rightarrow> string option"
  ho_resolve :: "string \<Rightarrow> string"
  ho_loads :: "string \<Rightarrow> json option"
  ho_executor :: "string \<Rightarrow> bool"
  ho_needs_resend :: "string \<Rightarrow> string \<Rightarrow> bool"

datatype dispatch_status = Dispatch_ran | Dispatch_pending | Dispatch_error

record dispatch_result =
  dr_status :: dispatch_status
  dr_body :: string
  dr_payloads :: "json_obj list"
  dr_pending :: "string option"

definition set_snapshot_factory :: "memory_snapshot option \<Rightarrow> ports \<Rightarrow> ports" where
  "set_snapshot_factory factory po = po\<lparr>po_factory := factory\<rparr>"

definition set_relay_dir :: "string option \<Rightarrow> ports \<Rightarrow> ports" where
  "set_relay_dir path po = po\<lparr>po_relay_dir := path\<rparr>"

definition empty_snapshot :: memory_snapshot where
  "empty_snapshot = \<lparr>sn_session_id = [], sn_as_of = 0, sn_measured_bytes = 0, sn_items = []\<rparr>"

definition current_snapshot :: "ports \<Rightarrow> memory_snapshot" where
  "current_snapshot po = (case po_factory po of None \<Rightarrow> empty_snapshot | Some sn \<Rightarrow> sn)"

section \<open>Rendering a transition\<close>

definition opt_line :: "string \<Rightarrow> string option \<Rightarrow> string list" where
  "opt_line label v = (if falsy v then [] else [label @ the v])"

definition row_line :: "roadmap_row \<Rightarrow> string" where
  "row_line r = ''  '' @ row_target r @ '' ['' @ roadmap_state_value (row_state r) @ '']'' @
     (if falsy (row_reason r) then [] else '' ('' @ the (row_reason r) @ '')'')"

definition render_body :: "methodology_transition \<Rightarrow> string" where
  "render_body tr =
     (let event = tr_event tr; proj = tr_projection tr in
      py_join nl
        ([''stage='' @ transition_value (ev_transition event) @ '' outcome='' @ outcome_value (ev_outcome event),
          ''as_of_sequence='' @ int_str (rp_as_of proj)] @
         opt_line ''chunk_id='' (ev_chunk_id event) @
         opt_line ''target='' (ev_target event) @
         opt_line ''reason='' (ev_reason event) @
         (if ev_targets event = [] then []
          else ''priority_targets:'' # map (\<lambda>t. ''  '' @ t) (ev_targets event)) @
         opt_line [] (rp_empty_label proj) @
         (if rp_targets proj = [] then [] else ''roadmap:'' # map row_line (rp_targets proj))))"

definition result_from_transition ::
  "payload_codec \<Rightarrow> pack_ctx \<Rightarrow> string option \<Rightarrow> methodology_transition \<Rightarrow> dispatch_result" where
  "result_from_transition cd cx pending tr =
     (let tool = transition_value (ev_transition (tr_event tr)) in
      case pending of
        Some corr \<Rightarrow> \<lparr>dr_status = Dispatch_pending, dr_body = cx_wrap cx ''awaiting external_response'' tool [],
                    dr_payloads = [], dr_pending = Some corr\<rparr>
      | None \<Rightarrow> \<lparr>dr_status = Dispatch_ran, dr_body = cx_wrap cx (render_body tr) tool [],
                 dr_payloads = cd_dump_event cd (tr_event tr) # map (cd_dump_exec cd) (tr_executions tr),
                 dr_pending = None\<rparr>)"

definition error_result :: "pack_ctx \<Rightarrow> string \<Rightarrow> string \<Rightarrow> dispatch_result" where
  "error_result cx msg tool = \<lparr>dr_status = Dispatch_error, dr_body = cx_wrap cx msg tool [], dr_payloads = [],
     dr_pending = None\<rparr>"

section \<open>Scope and files\<close>

definition include_of :: "pack_ctx \<Rightarrow> string list" where
  "include_of cx = (case cx_policy cx of Some (p # ps) \<Rightarrow> p # ps | _ \<Rightarrow> AUDIT_INCLUDE)"

definition included_relpaths :: "host \<Rightarrow> pack_ctx \<Rightarrow> string list" where
  "included_relpaths ho cx =
     (case cx_policy cx of
        Some inc \<Rightarrow> ho_policy_files ho
      | None \<Rightarrow> filter (\<lambda>rel. ho_is_included ho rel AUDIT_INCLUDE) (ho_files ho))"

definition outside_include :: "host \<Rightarrow> pack_ctx \<Rightarrow> string \<Rightarrow> bool" where
  "outside_include ho cx rel = (\<not> ho_is_included ho rel (include_of cx))"

definition event_chunk :: "json \<Rightarrow> string option" where
  "event_chunk body =
     (case body of
        JObj kvs \<Rightarrow>
          (if dict_get kvs ''kind'' = Some (JStr ''stage_event'') \<and>
              dict_get kvs ''transition_type'' = Some (JStr ''discover'') \<and>
              truthy (dict_getd kvs ''chunk_id'' JNull)
           then Some (py_str (dict_getd kvs ''chunk_id'' JNull)) else None)
      | _ \<Rightarrow> None)"

definition item_bodies :: "snapshot_item \<Rightarrow> json list" where
  "item_bodies it =
     (case (if it_kind it = ''dispatch_commit''
            then payload_list (case it_body it of None \<Rightarrow> [] | Some b \<Rightarrow> b) else None) of
        Some ps \<Rightarrow> ps
      | None \<Rightarrow> (case it_body it of Some b \<Rightarrow> [JObj b] | None \<Rightarrow> []))"

definition committed_chunk_ids :: "memory_snapshot \<Rightarrow> string list" where
  "committed_chunk_ids sn = concat (map (\<lambda>it. List.map_filter event_chunk (item_bodies it)) (sn_items sn))"

definition path_join :: "string \<Rightarrow> string \<Rightarrow> string" where
  "path_join root rel = (if is_absolute rel then rel else if rel = [] then root else root @ ''/'' @ rel)"

definition target_digest :: "host \<Rightarrow> string \<Rightarrow> string \<Rightarrow> string" where
  "target_digest ho path rel =
     (let z = [CHR 0x00]; rel_posix = norm_path rel in
      ho_sha256 ho (case ho_bytes ho path of
          Some data \<Rightarrow> rel_posix @ z @ nat_str (length data) @ z @ data
        | None \<Rightarrow> rel_posix @ z @ ''0'' @ z))"

section \<open>Discovery\<close>

definition EMPTY_CHUNK :: string where
  "EMPTY_CHUNK = ''e3b0c44298fc1c149afbf4c8996fb92427ae41e4649b934ca495991b7852b855''"

definition choose_chunk ::
  "host \<Rightarrow> memory_snapshot \<Rightarrow> string list \<Rightarrow> json \<Rightarrow> (string \<times> string list) option" where
  "choose_chunk ho sn relpaths requested =
     (let cs = partition_chunks (ho_chunk_digest ho) relpaths 0 in
      if truthy requested then find (\<lambda>(cid, grp). JStr cid = requested) cs
      else case first_uncommitted_chunk (ho_chunk_digest ho) relpaths (committed_chunk_ids sn) 0 of
             Some c \<Rightarrow> Some c
           | None \<Rightarrow> Some (case cs of [] \<Rightarrow> (EMPTY_CHUNK, []) | c # _ \<Rightarrow> c))"

definition gap_action :: "string \<Rightarrow> action" where
  "gap_action rel = \<lparr>ac_type = ''gap'', ac_params = [(''target'', JStr rel)]\<rparr>"

definition gap_transition :: "host \<Rightarrow> memory_snapshot \<Rightarrow> string \<Rightarrow> methodology_transition py" where
  "gap_transition ho sn rel =
     apply_action (ho_codec ho) sn (gap_action rel)
       (no_args\<lparr>ap_gap_target := Some rel, ap_reason := Some ''path is outside the bound include set''\<rparr>)"

definition chunk_report :: "host \<Rightarrow> string \<Rightarrow> string list \<Rightarrow> stage1_report" where
  "chunk_report ho root grp =
     (let focus = filter (ho_exists ho) (map (path_join root) grp) in
      if focus \<noteq> [] then run_stage1 (ho_resolve ho) [] (ho_read ho) root [] focus
      else \<lparr>s1_priority_targets = [], s1_skipped_targets = [], s1_notes = ''No files in chunk.''\<rparr>)"

definition run_discovery :: "host \<Rightarrow> ports \<Rightarrow> action \<Rightarrow> pack_ctx \<Rightarrow> dispatch_result py" where
  "run_discovery ho po act cx =
     (let sn = current_snapshot po; relpaths = included_relpaths ho cx;
          requested = dict_getd (ac_params act) ''chunk_id'' JNull in
      case choose_chunk ho sn relpaths requested of
        None \<Rightarrow> Inr (error_result cx (''unknown chunk_id '' @ py_str requested) ''run_discovery'')
      | Some (cid, grp) \<Rightarrow>
          (case find (outside_include ho cx) grp of
             Some rel \<Rightarrow> bindE (gap_transition ho sn rel)
                            (\<lambda>tr. Inr (result_from_transition (ho_codec ho) cx None tr))
           | None \<Rightarrow>
               bindE (apply_action (ho_codec ho) sn act
                   (no_args\<lparr>ap_report := Some (chunk_report ho (cx_scope_root cx) grp), ap_chunk_id := Some cid\<rparr>))
                 (\<lambda>tr. Inr (result_from_transition (ho_codec ho) cx None tr))))"

section \<open>Analyzers\<close>

text \<open>\<open>str\<close> of a tool finding is the \<open>repr\<close> of its dataclass.\<close>

definition slither_repr :: "slither_finding \<Rightarrow> string" where
  "slither_repr s = ''SlitherFinding(check='' @ py_repr (sf_check s) @ '', impact='' @ py_repr (sf_impact s) @
     '', confidence='' @ py_repr (sf_confidence s) @ '', description='' @ py_repr_str (sf_description s) @
     '', function='' @ py_repr (sf_function s) @ '', line='' @ py_repr (sf_line s) @ '')''"

definition mythril_repr :: "mythril_finding \<Rightarrow> string" where
  "mythril_repr m = ''MythrilFinding(title='' @ py_repr (mf_title m) @ '', swc_id='' @ py_repr_str (mf_swc_id m) @
     '', severity='' @ py_repr (mf_severity m) @ '', function='' @ py_repr (mf_function m) @
     '', description='' @ py_repr_str (mf_description m) @ '')''"

definition findings_body :: "string list \<Rightarrow> string" where
  "findings_body reprs = (let b = py_join nl reprs in if b = [] then ''(no findings)'' else b)"

type_synonym analyzer = "sandbox_run \<Rightarrow> (string \<times> finding list) py"

definition slither_runner :: "host \<Rightarrow> pack_ctx \<Rightarrow> string \<Rightarrow> string \<Rightarrow> analyzer" where
  "slither_runner ho cx file_rel target sb =
     bindE (run_slither (ho_resolve ho) (ho_loads ho) sb target (cx_scope_root cx) ''slither-sandbox'' []) (\<lambda>raw.
     bindE (slither_to_findings raw file_rel ''SLITHER'') (\<lambda>fs.
       Inr (findings_body (map slither_repr raw), fs)))"

definition mythril_runner :: "host \<Rightarrow> pack_ctx \<Rightarrow> string \<Rightarrow> analyzer" where
  "mythril_runner ho cx target sb =
     bindE (run_mythril (ho_resolve ho) (ho_loads ho) sb target (cx_scope_root cx) ''mythril-sandbox''
              (Some ''0.8.20'') None)
       (\<lambda>raw. Inr (findings_body (map mythril_repr raw), []))"

text \<open>One turn of the loop: the executions and findings so far and the worst outcome.\<close>

type_synonym analyzer_state = "analyzer_execution list \<times> finding list \<times> stage_outcome"

definition mk_execution ::
  "string \<Rightarrow> string \<Rightarrow> string \<Rightarrow> string \<Rightarrow> analyzer_outcome \<Rightarrow> string \<Rightarrow> string list \<Rightarrow> analyzer_execution" where
  "mk_execution aid version file_rel digest out body ids =
     \<lparr>ax_analyzer_id = aid, ax_version = version, ax_target = file_rel, ax_digest = digest, ax_outcome = out,
      ax_result = body, ax_finding_ids = ids\<rparr>"

definition stage_of :: "analyzer_outcome \<Rightarrow> stage_outcome" where
  "stage_of out = (case out of A_ran \<Rightarrow> Ran | A_did_not_run \<Rightarrow> Did_not_run | A_timeout \<Rightarrow> Timeout)"

definition caught :: "string \<Rightarrow> py_exc \<Rightarrow> bool" where
  "caught err_cls ex = (exc_class ex \<in> {err_cls, ''SandboxError'', ''KeyError''})"

definition analyzer_step ::
  "host \<Rightarrow> pack_ctx \<Rightarrow> string \<Rightarrow> string \<Rightarrow> string \<times> string \<times> string \<times> analyzer \<Rightarrow>
   analyzer_state \<Rightarrow> analyzer_state py" where
  "analyzer_step ho cx file_rel digest an st =
     (case an of (aid, version, err_cls, runner) \<Rightarrow>
      case st of (execs, findings, worst) \<Rightarrow>
      let mk = mk_execution aid version file_rel digest in
      if \<not> ho_executor ho aid
      then Inr (execs @ [mk A_did_not_run ''executor missing'' []], findings, Did_not_run)
      else case cx_sandbox cx of
        None \<Rightarrow> Inr (execs @ [mk A_did_not_run ''sandbox has no run()'' []], findings, Did_not_run)
      | Some sb \<Rightarrow>
          (let done = (\<lambda>out body ids fs.
                 Inr (execs @ [mk out (take 512 body) ids], findings @ fs,
                      if out \<noteq> A_ran \<and> worst = Ran then stage_of out else worst)) in
           case runner sb of
             Inr (body, fs) \<Rightarrow> done A_ran body (map f_finding_id fs) fs
           | Inl ex \<Rightarrow>
               if exc_class ex = ''SandboxTimeout'' then done A_timeout (exc_msg ex) [] []
               else if caught err_cls ex then done A_did_not_run (exc_msg ex) [] []
               else Inl ex))"

definition analyzers :: "host \<Rightarrow> pack_ctx \<Rightarrow> string \<Rightarrow> (string \<times> string \<times> string \<times> analyzer) list" where
  "analyzers ho cx file_rel =
     (let path = path_join (cx_scope_root cx) file_rel;
          target = (if ho_exists ho path then path else file_rel)
      in [(''run_slither'', SLITHER_VERSION, ''SlitherError'', slither_runner ho cx file_rel target),
          (''run_mythril'', MYTHRL_VERSION, ''MythrilError'', mythril_runner ho cx target)])"

definition run_analyzers :: "host \<Rightarrow> pack_ctx \<Rightarrow> string \<Rightarrow> analyzer_state py" where
  "run_analyzers ho cx file_rel =
     (let root = cx_scope_root cx; path = path_join root file_rel;
          digest = (if ho_exists ho path then target_digest ho path file_rel else target_digest ho root file_rel)
      in foldE (analyzer_step ho cx file_rel digest) (analyzers ho cx file_rel) ([], [], Ran))"

section \<open>Check, synthesis and skip\<close>

definition maybe_relay :: "host \<Rightarrow> pack_ctx \<Rightarrow> string \<Rightarrow> string option" where
  "maybe_relay ho cx target =
     (case cx_operation_id cx of
        Some op \<Rightarrow> if ho_needs_resend ho op target then Some op else None
      | None \<Rightarrow> None)"

definition run_check :: "host \<Rightarrow> ports \<Rightarrow> action \<Rightarrow> pack_ctx \<Rightarrow> dispatch_result py" where
  "run_check ho po act cx =
     (let sn = current_snapshot po; cd = ho_codec ho;
          target = param_str (ac_params act) ''target''; file_rel = file_of target;
          pending = (if po_relay_dir po \<noteq> None \<and> \<not> falsy (cx_operation_id cx) then maybe_relay ho cx target else None)
      in if outside_include ho cx file_rel
         then bindE (gap_transition ho sn file_rel) (\<lambda>tr. Inr (result_from_transition cd cx None tr))
         else if pending \<noteq> None
         then bindE (apply_action cd sn act (no_args\<lparr>ap_outcome := Some Ran\<rparr>))
                (\<lambda>tr. Inr (result_from_transition cd cx pending tr))
         else bindE (run_analyzers ho cx file_rel) (\<lambda>(execs, findings, out).
              bindE (apply_action cd sn act
                  (no_args\<lparr>ap_executions := execs, ap_extra := findings, ap_outcome := Some out\<rparr>))
                (\<lambda>tr. Inr (result_from_transition cd cx None tr))))"

definition run_synthesis :: "host \<Rightarrow> ports \<Rightarrow> action \<Rightarrow> pack_ctx \<Rightarrow> dispatch_result py" where
  "run_synthesis ho po act cx =
     bindE (apply_action (ho_codec ho) (current_snapshot po) act no_args)
       (\<lambda>tr. Inr (result_from_transition (ho_codec ho) cx None tr))"

definition skip_target :: "host \<Rightarrow> ports \<Rightarrow> action \<Rightarrow> pack_ctx \<Rightarrow> dispatch_result py" where
  "skip_target ho po act cx =
     (if py_strip (param_str (ac_params act) ''target'') = [] \<or> py_strip (param_str (ac_params act) ''reason'') = []
      then Inr (error_result cx ''skip_target requires non-empty target and reason'' ''skip_target'')
      else bindE (apply_action (ho_codec ho) (current_snapshot po) act no_args)
             (\<lambda>tr. Inr (result_from_transition (ho_codec ho) cx None tr)))"

section \<open>Reading an outcome out of text\<close>

definition outcome_from_body :: "string \<Rightarrow> stage_outcome" where
  "outcome_from_body body =
     (if py_in ''status=timeout'' body then Timeout
      else if py_in ''status=did_not_run'' body \<or> py_in ''status=unavailable'' body then Did_not_run
      else if py_in ''status=error'' body then Did_not_run else Ran)"

text \<open>\<open>body.rfind("}")\<close>.\<close>

definition rfind_char :: "char \<Rightarrow> string \<Rightarrow> nat option" where
  "rfind_char c s = (case find (\<lambda>i. s ! i = c) (rev [0 ..< length s]) of None \<Rightarrow> None | Some i \<Rightarrow> Some i)"

definition extract_json :: "string \<Rightarrow> string option" where
  "extract_json body =
     (case (py_find ''{'' body, rfind_char (CHR 0x7D) body) of
        (Some start, Some fin) \<Rightarrow> if fin \<le> start then None else Some (take (fin + 1 - start) (drop start body))
      | _ \<Rightarrow> None)"

section \<open>Invariant of the analyzer loop\<close>

definition executions_ok :: "string \<Rightarrow> analyzer_state \<Rightarrow> bool" where
  "executions_ok file_rel st =
     (case st of (execs, fs, worst) \<Rightarrow>
        (\<forall>x \<in> set execs. ax_target x = file_rel \<and> length (ax_result x) \<le> 512) \<and>
        (worst = Ran \<longleftrightarrow> (\<forall>x \<in> set execs. ax_outcome x = A_ran)) \<and>
        (\<forall>f \<in> set fs. \<exists>x \<in> set execs. ax_outcome x = A_ran \<and> f_finding_id f \<in> set (ax_finding_ids x)))"

lemma stage_of_ran [simp]: "stage_of out = Ran \<longleftrightarrow> out = A_ran"
  by (cases out) (simp_all add: stage_of_def)

lemma mk_execution_simps [simp]:
  "ax_target (mk_execution aid v t d out b ids) = t" "ax_result (mk_execution aid v t d out b ids) = b"
  "ax_outcome (mk_execution aid v t d out b ids) = out" "ax_finding_ids (mk_execution aid v t d out b ids) = ids"
  "ax_analyzer_id (mk_execution aid v t d out b ids) = aid"
  by (simp_all add: mk_execution_def)

lemma analyzer_step_ok:
  assumes step: "analyzer_step ho cx file_rel digest an st = Inr st'" and ok: "executions_ok file_rel st"
  shows "executions_ok file_rel st' \<and>
    map ax_analyzer_id (fst st') = map ax_analyzer_id (fst st) @ [fst an]"
proof -
  obtain aid v err runner where an: "an = (aid, v, err, runner)" by (cases an)
  obtain execs fs worst where st: "st = (execs, fs, worst)" by (cases st)
  have extend: "executions_ok file_rel (execs @ [x], fs @ new, w)"
    if "ax_target x = file_rel" "length (ax_result x) \<le> 512" "w = Ran \<longleftrightarrow> worst = Ran \<and> ax_outcome x = A_ran"
      "ax_outcome x = A_ran \<and> f_finding_id ` set new \<subseteq> set (ax_finding_ids x) \<or> new = []" for x new w
    using ok that by (auto simp: executions_ok_def st)
  show ?thesis
    using step extend [where new = "[]"] extend
    by (auto simp: analyzer_step_def an st Let_def split: if_splits option.splits sum.splits)
qed

lemma run_analyzers_ok:
  assumes "run_analyzers ho cx file_rel = Inr st"
  shows "executions_ok file_rel st \<and> map ax_analyzer_id (fst st) = [''run_slither'', ''run_mythril'']"
proof -
  have "executions_ok file_rel s' \<and> map ax_analyzer_id (fst s') = map ax_analyzer_id (fst s) @ map fst ans"
    if "foldE (analyzer_step ho cx file_rel d) ans s = Inr s'" "executions_ok file_rel s" for ans s s' d
    using that
  proof (induction ans arbitrary: s)
    case (Cons an ans)
    then obtain s1 where s1: "analyzer_step ho cx file_rel d an s = Inr s1"
      and rest: "foldE (analyzer_step ho cx file_rel d) ans s1 = Inr s'" by (auto simp: bindE_Inr)
    from analyzer_step_ok [OF s1 Cons.prems(2)] Cons.IH [OF rest] show ?case by simp
  qed simp
  from this [of _ "analyzers ho cx file_rel" "([], [], Ran)" st] assms show ?thesis
    by (simp add: run_analyzers_def Let_def analyzers_def executions_ok_def)
qed

section \<open>The cursor after a commit\<close>

lemma event_chunk_dump:
  "codec_ok cd \<Longrightarrow> event_chunk (JObj (cd_dump_event cd e)) =
     (if ev_transition e = Discover \<and> \<not> falsy (ev_chunk_id e) then ev_chunk_id e else None)"
proof -
  assume ok: "codec_ok cd"
  have "transition_value t = ''discover'' \<longleftrightarrow> t = Discover" for t by (cases t) simp_all
  with ok show ?thesis
    by (cases "ev_chunk_id e") (auto simp: event_chunk_def codec_ok_def dict_getd_def jopt_def)
qed

lemma event_chunk_exec: "codec_ok cd \<Longrightarrow> event_chunk (JObj (cd_dump_exec cd x)) = None"
  by (simp add: event_chunk_def codec_ok_def)

lemma committed_chunk_ids_committed:
  assumes "codec_ok cd" "committed cd sn e xs sn'"
  shows "committed_chunk_ids sn' = committed_chunk_ids sn @
    (if ev_transition e = Discover \<and> \<not> falsy (ev_chunk_id e) then [the (ev_chunk_id e)] else [])"
proof -
  obtain it where it: "sn_items sn' = sn_items sn @ [it]" "it_kind it = ''dispatch_commit''"
    "it_body it = Some (commit_body cd e xs)"
    using committed_items [OF assms(2)] by metis
  have "item_bodies it = JObj (cd_dump_event cd e) # map (\<lambda>x. JObj (cd_dump_exec cd x)) xs"
    by (simp add: item_bodies_def it payload_list_def commit_body_def)
  moreover have "List.map_filter event_chunk (map (\<lambda>x. JObj (cd_dump_exec cd x)) xs) = []"
    using event_chunk_exec [OF assms(1)] by (simp add: List.map_filter_def filter_empty_conv)
  ultimately have "List.map_filter event_chunk (item_bodies it) =
      (if ev_transition e = Discover \<and> \<not> falsy (ev_chunk_id e) then [the (ev_chunk_id e)] else [])"
    using event_chunk_dump [OF assms(1), of e] by (cases "ev_chunk_id e") (simp_all add: List.map_filter_def)
  then show ?thesis by (simp add: committed_chunk_ids_def it(1))
qed

lemma result_ran [simp]:
  "dr_payloads (result_from_transition cd cx None tr) =
     cd_dump_event cd (tr_event tr) # map (cd_dump_exec cd) (tr_executions tr)"
  "dr_status (result_from_transition cd cx None tr) = Dispatch_ran"
  by (simp_all add: result_from_transition_def Let_def)

lemma event_for_discovery:
  assumes "event_for cd sn act args rv = Inr (e, extra)" "ac_type act = ''run_discovery''"
    "ap_chunk_id args = Some cid" "cid \<noteq> []"
  shows "ev_transition e = Discover \<and> ev_chunk_id e = Some cid"
  using assms
  by (cases cid) (auto simp: event_for_def Let_def bindE_Inr required_fields_Inr base_event_def discover_chunk_def opt_or_def)

lemma event_for_gap:
  assumes "event_for cd sn (gap_action f)
    (no_args\<lparr>ap_gap_target := Some f, ap_reason := Some ''path is outside the bound include set''\<rparr>) rv = Inr (e, extra)"
  shows "ev_transition e = Gap \<and> ev_target e = Some f \<and> ev_reason e = Some ''path is outside the bound include set''"
proof (cases f)
  case Nil
  with assms show ?thesis
    by (auto simp: event_for_def Let_def gap_action_def bindE_Inr required_fields_Inr base_event_def
        opt_or_def event_valid_def param_str_def dict_getd_def)
next
  case (Cons c cs)
  with assms show ?thesis
    by (auto simp: event_for_def Let_def gap_action_def bindE_Inr required_fields_Inr base_event_def opt_or_def)
qed

section \<open>Properties\<close>

text \<open>A check reports the worst of its analyzers. The loop records one execution per analyzer, on the
  checked file, with at most 512 characters of output; its outcome is ``ran'' exactly when both
  analyzers ran; and every finding it hands on is listed by an analyzer that ran.\<close>

lemma check_executions:
  assumes "run_analyzers ho cx file_rel = Inr (execs, fs, out)"
  shows "map ax_analyzer_id execs = [''run_slither'', ''run_mythril''] \<and>
    (\<forall>x \<in> set execs. ax_target x = file_rel \<and> length (ax_result x) \<le> 512) \<and>
    (out = Ran \<longleftrightarrow> (\<forall>x \<in> set execs. ax_outcome x = A_ran)) \<and>
    (\<forall>f \<in> set fs. \<exists>x \<in> set execs. ax_outcome x = A_ran \<and> f_finding_id f \<in> set (ax_finding_ids x))"
  using run_analyzers_ok [OF assms] by (simp add: executions_ok_def)

definition witness_host :: host where
  "witness_host = \<lparr>ho_codec = plain_codec, ho_chunk_digest = (\<lambda>r ps. concat ps), ho_sha256 = (\<lambda>s. s),
     ho_is_included = (\<lambda>rel inc. py_startswith rel ''src/''), ho_policy_files = [],
     ho_files = [''src/A.sol'', ''test/B.sol''], ho_exists = (\<lambda>p. p = ''/a/src/A.sol''),
     ho_read = (\<lambda>p. Some ''function f() { x.call(); }''), ho_bytes = (\<lambda>p. Some ''code''), ho_resolve = (\<lambda>p. p),
     ho_loads = (\<lambda>s. None), ho_executor = (\<lambda>a. True), ho_needs_resend = (\<lambda>op t. True)\<rparr>"

definition witness_ctx :: pack_ctx where
  "witness_ctx = \<lparr>cx_scope_root = ''/a'', cx_policy = None, cx_operation_id = None,
     cx_wrap = (\<lambda>text tool path. text), cx_sandbox = None\<rparr>"

lemma check_executions_witness:
  "snd (snd (projr (run_analyzers witness_host witness_ctx ''src/A.sol''))) \<noteq> Ran"
proof -
  let ?r = "run_analyzers witness_host witness_ctx ''src/A.sol''"
  have "isl ?r = False" by code_simp
  then have r: "?r = Inr (fst (projr ?r), fst (snd (projr ?r)), snd (snd (projr ?r)))" by (metis prod.collapse sum.collapse(2))
  have "\<not> list_all (\<lambda>x. ax_outcome x = A_ran) (fst (projr ?r))" by code_simp
  then have "\<not> (\<forall>x \<in> set (fst (projr ?r)). ax_outcome x = A_ran)" unfolding list_all_iff .
  with check_executions [OF r] show ?thesis by blast
qed

text \<open>A target outside the bound include set is isolated. The check neither runs an analyzer nor asks
  the relay: it commits one gap event with the file and the reason, whatever the sandbox would do.\<close>

lemma outside_target_is_gap:
  assumes "outside_include ho cx (file_of (param_str (ac_params act) ''target''))"
    "run_check ho po act cx = Inr r"
  shows "run_check ho po act (cx\<lparr>cx_sandbox := sb\<rparr>) = Inr r \<and> dr_status r = Dispatch_ran \<and>
    (\<exists>e. dr_payloads r = [cd_dump_event (ho_codec ho) e] \<and> ev_transition e = Gap \<and>
       ev_target e = Some (file_of (param_str (ac_params act) ''target'')) \<and>
       ev_reason e = Some ''path is outside the bound include set'')"
proof -
  let ?f = "file_of (param_str (ac_params act) ''target'')"
  have out: "outside_include ho (cx\<lparr>cx_sandbox := sb\<rparr>) ?f"
    using assms(1) by (simp add: outside_include_def include_of_def)
  from assms obtain tr where g: "gap_transition ho (current_snapshot po) ?f = Inr tr"
    and r: "r = result_from_transition (ho_codec ho) cx None tr"
    by (auto simp: run_check_def Let_def bindE_Inr)
  from g obtain rv extra proj where
    ev: "event_for (ho_codec ho) (current_snapshot po) (gap_action ?f)
      (no_args\<lparr>ap_gap_target := Some ?f, ap_reason := Some ''path is outside the bound include set''\<rparr>) rv = Inr (tr_event tr, extra)"
    and ex: "tr_executions tr = []"
    by (auto simp: gap_transition_def apply_action_def bindE_Inr no_args_def)
  note event_for_gap [OF ev]
  moreover have "run_check ho po act (cx\<lparr>cx_sandbox := sb\<rparr>) = Inr r"
    using out g by (simp add: run_check_def Let_def r result_from_transition_def)
  ultimately show ?thesis by (auto simp: r ex)
qed

definition witness_ports :: ports where
  "witness_ports = \<lparr>po_factory = None, po_relay_dir = None\<rparr>"

definition witness_outside :: action where
  "witness_outside = \<lparr>ac_type = ''run_check'', ac_params = [(''target'', JStr ''test/B.sol:g'')]\<rparr>"

lemma outside_target_is_gap_witness:
  "dr_status (projr (run_check witness_host witness_ports witness_outside witness_ctx)) = Dispatch_ran"
proof -
  have o: "outside_include witness_host witness_ctx (file_of (param_str (ac_params witness_outside) ''target''))" by code_simp
  have "isl (run_check witness_host witness_ports witness_outside witness_ctx) = False" by code_simp
  then have "run_check witness_host witness_ports witness_outside witness_ctx =
      Inr (projr (run_check witness_host witness_ports witness_outside witness_ctx))" by (metis sum.collapse(2))
  from outside_target_is_gap [OF o this] show ?thesis by blast
qed

text \<open>The gap a check records for an outside target names the file, not the target, so the target's
  own row is not decided by it: a pending row for file and function stays pending in the log that
  holds the gap.\<close>

lemma gap_leaves_target_pending:
  assumes "CHR '':'' \<in> set t" "ev_transition e = Gap" "ev_target e = Some (file_of t)"
  shows "row_spec t (events @ [e]) = row_spec t events"
proof -
  have "file_of t \<noteq> t" using assms(1) file_of_no_colon [of t] by metis
  then have "decision_of t e = None" using assms by (auto simp: decision_of_def)
  moreover have "\<not> discovers t e" using assms by (simp add: discovers_def)
  ultimately show ?thesis by (simp add: row_spec_def map_filter_snoc find_append split: list.splits option.splits)
qed

lemma gap_leaves_target_pending_witness:
  "row_spec ''B.sol:g'' ([witness_rediscover] @ [(base_event Gap 1 Did_not_run 2)\<lparr>ev_target := Some ''B.sol'', ev_reason := Some ''r''\<rparr>]) =
   row_spec ''B.sol:g'' [witness_rediscover]"
proof -
  have "file_of ''B.sol:g'' = ''B.sol''" by code_simp
  then show ?thesis by (intro gap_leaves_target_pending) (simp_all add: base_event_def)
qed

text \<open>Discovery moves the cursor. When a discovery without a requested chunk runs and nothing listed is
  outside the include set, it commits one discover event for the first uncommitted chunk, and in
  every snapshot with that event committed the list of committed chunks has grown by exactly it.\<close>

lemma discovery_commits_next_chunk:
  assumes codec: "codec_ok (ho_codec ho)"
    and run: "run_discovery ho po act cx = Inr r" and act: "ac_type act = ''run_discovery''"
    and free: "\<not> truthy (dict_getd (ac_params act) ''chunk_id'' JNull)"
    and nxt: "first_uncommitted_chunk (ho_chunk_digest ho) (included_relpaths ho cx)
        (committed_chunk_ids (current_snapshot po)) 0 = Some (cid, grp)"
    and inside: "\<forall>rel \<in> set grp. \<not> outside_include ho cx rel" and cid: "cid \<noteq> []"
  shows "\<exists>e. dr_payloads r = [cd_dump_event (ho_codec ho) e] \<and> ev_transition e = Discover \<and> ev_chunk_id e = Some cid \<and>
    (\<forall>sn'. committed (ho_codec ho) (current_snapshot po) e [] sn' \<longrightarrow>
       committed_chunk_ids sn' = committed_chunk_ids (current_snapshot po) @ [cid])"
proof -
  let ?args = "no_args\<lparr>ap_report := Some (chunk_report ho (cx_scope_root cx) grp), ap_chunk_id := Some cid\<rparr>"
  have "choose_chunk ho (current_snapshot po) (included_relpaths ho cx) (dict_getd (ac_params act) ''chunk_id'' JNull)
      = Some (cid, grp)"
    using free nxt by (simp add: choose_chunk_def Let_def)
  moreover have "find (outside_include ho cx) grp = None" using inside by (simp add: find_None_iff)
  ultimately obtain tr where tr: "apply_action (ho_codec ho) (current_snapshot po) act ?args = Inr tr"
    and r: "r = result_from_transition (ho_codec ho) cx None tr"
    using run by (auto simp: run_discovery_def Let_def bindE_Inr)
  obtain es where "event_for (ho_codec ho) (current_snapshot po) act ?args (int (length (es :: stage_event list))) =
      Inr (tr_event tr, tr_findings tr)" and ex: "tr_executions tr = []"
    using apply_Inr [OF codec tr] by (metis (no_types) apply_args.select_convs(2) apply_args.surjective apply_args.update_convs(1,4) no_args_def)
  from event_for_discovery [OF this(1) act _ cid] have "ev_transition (tr_event tr) = Discover \<and> ev_chunk_id (tr_event tr) = Some cid"
    by simp
  with committed_chunk_ids_committed [OF codec] cid show ?thesis
    by (intro exI [of _ "tr_event tr"]) (simp add: r ex)
qed

definition witness_discovery :: action where
  "witness_discovery = \<lparr>ac_type = ''run_discovery'', ac_params = []\<rparr>"

lemma discovery_commits_next_chunk_witness:
  "\<exists>e. dr_payloads (projr (run_discovery witness_host witness_ports witness_discovery witness_ctx)) =
     [cd_dump_event plain_codec e] \<and> ev_chunk_id e = Some ''src/A.sol''"
proof -
  let ?r = "run_discovery witness_host witness_ports witness_discovery witness_ctx"
  have "isl ?r = False" by code_simp
  then have r: "?r = Inr (projr ?r)" by (metis sum.collapse(2))
  have c: "codec_ok (ho_codec witness_host)" by (simp add: witness_host_def plain_codec_ok)
  have n: "first_uncommitted_chunk (ho_chunk_digest witness_host) (included_relpaths witness_host witness_ctx)
        (committed_chunk_ids (current_snapshot witness_ports)) 0 = Some (''src/A.sol'', [''src/A.sol''])" by code_simp
  have i: "\<forall>rel \<in> set [''src/A.sol'']. \<not> outside_include witness_host witness_ctx rel" by code_simp
  from discovery_commits_next_chunk [OF c r _ _ n i] show ?thesis
    by (auto simp: witness_discovery_def dict_getd_def witness_host_def)
qed

text \<open>A check whose relay answer is still missing is pending and commits nothing; it is pending only
  when a relay directory and an operation id are bound and the transport asks for a resend.\<close>

lemma pending_commits_nothing:
  assumes "run_check ho po act cx = Inr r" "dr_status r = Dispatch_pending"
  shows "dr_payloads r = [] \<and> dr_pending r = cx_operation_id cx \<and> po_relay_dir po \<noteq> None \<and>
    (\<exists>op. cx_operation_id cx = Some op \<and> op \<noteq> [] \<and> ho_needs_resend ho op (param_str (ac_params act) ''target''))"
  using assms
  by (auto simp: run_check_def Let_def bindE_Inr result_from_transition_def maybe_relay_def split: if_splits option.splits)

definition witness_relay_ctx :: pack_ctx where
  "witness_relay_ctx = witness_ctx\<lparr>cx_operation_id := Some ''op1''\<rparr>"

lemma pending_commits_nothing_witness:
  "dr_payloads (projr (run_check witness_host (set_relay_dir (Some ''/relay'') witness_ports)
     \<lparr>ac_type = ''run_check'', ac_params = [(''target'', JStr ''src/A.sol:f'')]\<rparr> witness_relay_ctx)) = []"
proof -
  let ?r = "run_check witness_host (set_relay_dir (Some ''/relay'') witness_ports)
     \<lparr>ac_type = ''run_check'', ac_params = [(''target'', JStr ''src/A.sol:f'')]\<rparr> witness_relay_ctx"
  have "isl ?r = False" by code_simp
  then have r: "?r = Inr (projr ?r)" by (metis sum.collapse(2))
  have "dr_status (projr ?r) = Dispatch_pending" by code_simp
  from pending_commits_nothing [OF r this] show ?thesis by blast
qed

end
