(* ===== verification/Tools_Chain.thy ===== *)
theory Tools_Chain
  imports Tools_Static Py_Regex
begin

text \<open>
  The guarded on-chain tools (\<open>tools/onchain.py\<close>) and the input gate of an audit
  (\<open>input_val.py\<close>, \<open>AuditInput\<close> in \<open>session.py\<close>). The node (\<open>get_block\<close>), the decompiler, the
  checksum function and the file system are parameters.

  The lemmas: no fetch happens for a malformed address, an inverted or an oversized range; every
  fetched transaction goes to the contract and lies in the range; an input that passes the gate
  stays below the root.
\<close>

section \<open>Addresses\<close>

definition MAX_BLOCKS :: int where
  "MAX_BLOCKS = 10000"

definition is_hex :: "char \<Rightarrow> bool" where
  "is_hex c = (py_digit c \<or> (let n = of_char c :: nat in (65 \<le> n \<and> n \<le> 70) \<or> (97 \<le> n \<and> n \<le> 102)))"

definition ADDRESS_RE :: regex where
  "ADDRESS_RE = rseq ([RBol False, rlit ''0x''] @ replicate 40 (RChr is_hex) @ [REol False])"

definition valid_address :: "string \<Rightarrow> bool" where
  "valid_address address = (re_match_start ADDRESS_RE address \<noteq> None)"

section \<open>Transactions\<close>

record tx_analysis =
  ta_address :: string
  ta_from :: int
  ta_to :: int
  ta_count :: nat
  ta_notes :: "string list"
  ta_transactions :: "json list"

text \<open>\<open>int(v)\<close> of a JSON value; digit grouping by underscores is left out.\<close>

definition int_of_digits :: "string \<Rightarrow> int py" where
  "int_of_digits s =
     (if s \<noteq> [] \<and> list_all py_digit s then Inr (int (dec_val s))
      else raise ''ValueError'' (''invalid literal for int() with base 10: '' @ py_repr_str s))"

definition py_int :: "json \<Rightarrow> int py" where
  "py_int v =
     (case v of
        JInt i \<Rightarrow> Inr i
      | JBool b \<Rightarrow> Inr (if b then 1 else 0)
      | JStr s \<Rightarrow>
          (case py_strip s of
             c # cs \<Rightarrow> if c = CHR ''-'' then bindE (int_of_digits cs) (\<lambda>i. Inr (- i))
                      else if c = CHR ''+'' then int_of_digits cs else int_of_digits (c # cs)
           | [] \<Rightarrow> int_of_digits [])
      | _ \<Rightarrow> raise ''TypeError'' (''int() argument must be a string or a number, not '' @ type_name v))"

definition method_skipped :: "string list \<Rightarrow> json \<Rightarrow> bool py" where
  "method_skipped focus_set method =
     (if focus_set \<noteq> [] \<and> truthy method
      then (case method of JStr s \<Rightarrow> Inr (py_lower s \<notin> set focus_set) | _ \<Rightarrow> no_attr method ''lower'')
      else Inr False)"

definition tx_notes :: "string list \<Rightarrow> json \<Rightarrow> string list py" where
  "tx_notes focus_set tx =
     bindE (jget tx ''input'' (JStr [])) (\<lambda>inp.
     bindE (jget tx ''method'' (JStr [])) (\<lambda>method.
     let selector = take 10 (py_str inp);
         call = (if truthy method then py_str method else selector) in
     bindE (method_skipped focus_set method) (\<lambda>skipped.
     if skipped then Inr []
     else
       bindE (jget tx ''value'' (JInt 0)) (\<lambda>value.
       bindE (if truthy value then py_int value else Inr 0) (\<lambda>n.
       bindE (jget tx ''hash'' (JStr ''?'')) (\<lambda>hash.
       bindE (jget tx ''from'' (JStr ''?'')) (\<lambda>sender.
         Inr ((if truthy value \<and> n > 0
               then [''value transfer '' @ py_str value @ '' in '' @ py_str hash @ '' ('' @ call @ '')''] else []) @
              (if selector \<noteq> [] \<and> selector \<noteq> ''0x''
               then [''call '' @ call @ '' from '' @ py_str sender] else [])))))))))"

type_synonym tx_fetcher = "string \<Rightarrow> int \<Rightarrow> int \<Rightarrow> json list py"

text \<open>The focus is read after the fetch, so a malformed one raises only then.\<close>

definition analyze_transactions ::
  "string \<Rightarrow> int \<Rightarrow> int \<Rightarrow> tx_fetcher \<Rightarrow> string list py \<Rightarrow> tx_analysis py" where
  "analyze_transactions address from_block to_block fetcher focus =
     (if \<not> valid_address address then raise ''OnChainError'' (''invalid address: '' @ py_repr_str address)
      else if to_block < from_block
      then raise ''OnChainError'' (''to_block '' @ int_str to_block @ '' < from_block '' @ int_str from_block)
      else if to_block - from_block > MAX_BLOCKS
      then raise ''OnChainError''
        (''block range '' @ int_str (to_block - from_block) @ '' exceeds limit '' @ int_str MAX_BLOCKS)
      else bindE (fetcher address from_block to_block) (\<lambda>txs.
           bindE focus (\<lambda>fs.
           bindE (mapE (tx_notes (map py_lower fs)) txs) (\<lambda>notes.
             Inr \<lparr>ta_address = address, ta_from = from_block, ta_to = to_block, ta_count = length txs,
                  ta_notes = concat notes, ta_transactions = txs\<rparr>))))"

text \<open>The live fetcher; the node gives the transactions of a block, \<open>hex_of\<close> renders a hash.\<close>

definition fetch_tx :: "(json \<Rightarrow> json) \<Rightarrow> string \<Rightarrow> int \<Rightarrow> json \<Rightarrow> json list py" where
  "fetch_tx hex_of target bn tx =
     bindE (jget tx ''to'' JNull) (\<lambda>to.
     bindE (case por to (JStr []) of JStr s \<Rightarrow> Inr (py_lower s) | v \<Rightarrow> no_attr v ''lower'') (\<lambda>lto.
     if lto \<noteq> target then Inr []
     else
       bindE (jget tx ''hash'' JNull) (\<lambda>hash.
       bindE (jget tx ''from'' (JStr [])) (\<lambda>sender.
       bindE (jget tx ''to'' (JStr [])) (\<lambda>dest.
       bindE (jget tx ''value'' (JInt 0)) (\<lambda>v. bindE (py_int v) (\<lambda>value.
       bindE (jget tx ''input'' (JStr [])) (\<lambda>inp.
         Inr [JObj [(''hash'', if truthy hash then hex_of hash else JStr []), (''from'', sender), (''to'', dest),
                    (''value'', JInt value), (''input'', inp), (''block'', JInt bn)]]))))))))"

definition fetch_block :: "(int \<Rightarrow> json list) \<Rightarrow> (json \<Rightarrow> json) \<Rightarrow> string \<Rightarrow> int \<Rightarrow> json list py" where
  "fetch_block get_block hex_of target bn =
     bindE (mapE (fetch_tx hex_of target bn) (get_block bn)) (\<lambda>ts. Inr (concat ts))"

definition alchemy_fetch :: "(int \<Rightarrow> json list) \<Rightarrow> (json \<Rightarrow> json) \<Rightarrow> tx_fetcher" where
  "alchemy_fetch get_block hex_of address from_block to_block =
     bindE (mapE (fetch_block get_block hex_of (py_lower address)) [from_block .. to_block]) (\<lambda>bs. Inr (concat bs))"

definition make_alchemy_fetcher ::
  "bool \<Rightarrow> (int \<Rightarrow> json list) \<Rightarrow> (json \<Rightarrow> json) \<Rightarrow> string \<Rightarrow> tx_fetcher py" where
  "make_alchemy_fetcher has_web3 get_block hex_of api_key =
     (if api_key = [] then raise ''OnChainError'' ''no ALCHEMY_API_KEY configured''
      else if \<not> has_web3 then raise ''OnChainError'' ''web3 unavailable''
      else Inr (alchemy_fetch get_block hex_of))"

section \<open>Decompilation\<close>

record decompilation =
  dc_address :: string
  dc_tool :: string
  dc_success :: bool
  dc_output :: string

definition decompile_bytecode ::
  "string \<Rightarrow> string \<Rightarrow> (string \<Rightarrow> string \<Rightarrow> decompilation) option \<Rightarrow> decompilation py" where
  "decompile_bytecode address tool runner =
     (if \<not> valid_address address then raise ''OnChainError'' (''invalid address: '' @ py_repr_str address)
      else if tool \<notin> {''heimdall'', ''panoramix''}
      then raise ''OnChainError'' (''unsupported decompiler: '' @ py_repr_str tool)
      else case runner of
        None \<Rightarrow> Inr \<lparr>dc_address = address, dc_tool = tool, dc_success = False,
                  dc_output = ''no decompiler runner configured (dry run)''\<rparr>
      | Some run \<Rightarrow> Inr (run address tool))"

section \<open>The input gate\<close>

record audit_input =
  ai_path :: "string option"
  ai_address :: "string option"
  ai_exclude_paths :: "string list"
  ai_focus_files :: "string list"

definition source_present :: "audit_input \<Rightarrow> audit_input py" where
  "source_present ai =
     (if ai_path ai = None \<and> ai_address ai = None
      then raise ''ValidationError'' ''At least one of path or address must be provided'' else Inr ai)"

record path_env =
  pe_resolve :: "string \<Rightarrow> string option"
  pe_exists :: "string \<Rightarrow> bool"
  pe_sol_files :: "string \<Rightarrow> string list"
  pe_checksum :: "string \<Rightarrow> string option"

definition validate_filepath :: "path_env \<Rightarrow> string \<Rightarrow> string \<Rightarrow> string py" where
  "validate_filepath env path root_dir =
     (case (pe_resolve env path, pe_resolve env root_dir) of
        (Some resolved, Some root) \<Rightarrow>
          (if \<not> pe_exists env resolved then raise ''InputValidationError'' (''Path does not exist: '' @ path)
           else if relative_to resolved root = None
           then raise ''InputValidationError'' (''Path '' @ path @ '' escapes allowed root '' @ root_dir)
           else Inr resolved)
      | _ \<Rightarrow> raise ''InputValidationError'' (''Cannot resolve path '' @ path))"

definition validate_eip55 :: "path_env \<Rightarrow> string \<Rightarrow> string py" where
  "validate_eip55 env address =
     (if \<not> valid_address address
      then raise ''InputValidationError'' (''Not a valid Ethereum address: '' @ py_repr_str address)
      else case pe_checksum env address of
        None \<Rightarrow> raise ''InputValidationError'' ''Invalid EIP-55 address''
      | Some checksummed \<Rightarrow>
          if checksummed \<noteq> address \<and> address \<noteq> py_lower address
          then raise ''InputValidationError'' (''Address fails EIP-55 checksum. Did you mean '' @ checksummed @ ''?'')
          else Inr checksummed)"

definition validate_exclude :: "audit_input \<Rightarrow> string \<Rightarrow> unit \<Rightarrow> unit py" where
  "validate_exclude ai excl u =
     (case ai_path ai of
        None \<Rightarrow> Inr ()
      | Some p \<Rightarrow> if relative_to excl p = None
                  then raise ''InputValidationError'' (''exclude_path '' @ excl @ '' is not under audit path '' @ p)
                  else Inr ())"

definition validate_audit_input :: "path_env \<Rightarrow> audit_input \<Rightarrow> string \<Rightarrow> unit py" where
  "validate_audit_input env ai audit_root =
     bindE (case ai_path ai of
              None \<Rightarrow> Inr ()
            | Some p \<Rightarrow> bindE (validate_filepath env p audit_root)
                (\<lambda>resolved. if pe_sol_files env resolved = []
                            then raise ''InputValidationError'' (''No .sol files found under '' @ p) else Inr ())) (\<lambda>_.
     bindE (case ai_address ai of None \<Rightarrow> Inr () | Some a \<Rightarrow> bindE (validate_eip55 env a) (\<lambda>_. Inr ())) (\<lambda>_.
       foldE (validate_exclude ai) (ai_exclude_paths ai) ()))"

section \<open>Facts\<close>

lemma concat_mapE:
  "mapE f xs = Inr ys \<Longrightarrow> z \<in> set (concat ys) \<Longrightarrow> \<exists>x \<in> set xs. \<exists>y. f x = Inr y \<and> z \<in> set y"
  by (auto dest!: mapE_Inr_set)

lemma fetch_tx_block:
  "fetch_tx hex_of target bn tx = Inr ts \<Longrightarrow> t \<in> set ts \<Longrightarrow> jget t ''block'' JNull = Inr (JInt bn)"
  by (auto simp: fetch_tx_def bindE_Inr dict_getd_def split: if_splits)

lemma alchemy_fetch_range:
  assumes "alchemy_fetch get_block hex_of address a b = Inr txs" "t \<in> set txs"
  shows "\<exists>bn. a \<le> bn \<and> bn \<le> b \<and> jget t ''block'' JNull = Inr (JInt bn)"
proof -
  from assms obtain bn ts where bn: "bn \<in> {a..b}"
    and ts: "fetch_block get_block hex_of (py_lower address) bn = Inr ts" "t \<in> set ts"
    unfolding alchemy_fetch_def by (auto simp: bindE_Inr dest!: concat_mapE)
  from ts obtain tx t' where "fetch_tx hex_of (py_lower address) bn tx = Inr t'" "t \<in> set t'"
    unfolding fetch_block_def by (auto simp: bindE_Inr dest!: concat_mapE)
  with bn fetch_tx_block show ?thesis by fastforce
qed

section \<open>Properties\<close>

text \<open>The on-chain guards come before the node. A malformed address, an inverted range or a span
  above the limit raises \<open>OnChainError\<close> whatever the fetcher does, and otherwise the fetcher is
  asked for exactly the given range.\<close>

lemma onchain_guards:
  "(\<not> valid_address address \<or> to_block < from_block \<or> to_block - from_block > MAX_BLOCKS \<longrightarrow>
      (\<exists>m. \<forall>fetcher. analyze_transactions address from_block to_block fetcher focus = raise ''OnChainError'' m)) \<and>
   (analyze_transactions address from_block to_block fetcher focus = Inr r \<longrightarrow>
      (\<exists>txs. fetcher address from_block to_block = Inr txs \<and> ta_transactions r = txs \<and> ta_count r = length txs))"
  by (auto simp: analyze_transactions_def bindE_Inr split: if_splits)

lemma onchain_guards_witness:
  "\<exists>m. \<forall>fetcher. analyze_transactions ''0x12'' 0 5 fetcher (Inr []) = raise ''OnChainError'' m"
proof -
  have "\<not> valid_address ''0x12''" by code_simp
  with onchain_guards [of "''0x12''" 5 0 "Inr []"] show ?thesis by blast
qed

text \<open>The live fetcher asks for the blocks of the range, both ends included, and hands on only
  transactions of these blocks: a range whose span is the limit takes one block more than the
  limit says.\<close>

lemma fetch_covers_range:
  assumes "alchemy_fetch get_block hex_of address a b = Inr txs"
  shows "(\<forall>t \<in> set txs. \<exists>bn. a \<le> bn \<and> bn \<le> b \<and> jget t ''block'' JNull = Inr (JInt bn)) \<and>
    (\<forall>bn. a \<le> bn \<and> bn \<le> b \<longrightarrow>
       (\<exists>ts. fetch_block get_block hex_of (py_lower address) bn = Inr ts \<and> set ts \<subseteq> set txs)) \<and>
    (b - a = MAX_BLOCKS \<longrightarrow> length [a .. b] = nat MAX_BLOCKS + 1)"
proof -
  obtain bs where bs: "mapE (fetch_block get_block hex_of (py_lower address)) [a .. b] = Inr bs" "txs = concat bs"
    using assms by (auto simp: alchemy_fetch_def bindE_Inr)
  have "\<exists>ts. fetch_block get_block hex_of (py_lower address) bn = Inr ts \<and> set ts \<subseteq> set txs"
    if "a \<le> bn" "bn \<le> b" for bn
    using mapE_Inr_in [OF bs(1), of bn] that by (auto simp: bs(2))
  then show ?thesis using alchemy_fetch_range [OF assms] by (auto simp: MAX_BLOCKS_def)
qed

lemma fetch_covers_range_witness:
  "length [0 .. 10000 :: int] = 10001"
proof -
  have "mapE (fetch_block (\<lambda>bn. []) (\<lambda>h. h) t) xs = Inr (map (\<lambda>x. []) xs)" for t xs
    by (induction xs) (simp_all add: fetch_block_def)
  then have "alchemy_fetch (\<lambda>bn. []) (\<lambda>h. h) [] 0 10000 = Inr []"
    by (simp add: alchemy_fetch_def)
  from fetch_covers_range [OF this] show ?thesis by (simp add: MAX_BLOCKS_def)
qed

text \<open>The address pattern ends in a dollar sign, which also matches before a final line feed, so an
  address followed by a line feed passes the guard.\<close>

lemma newline_address_accepted:
  "valid_address (''0x'' @ replicate 40 (CHR ''a'') @ nl)"
  by code_simp

text \<open>An audit input that passes the gate keeps to its bounds: the path resolves below the audit root
  and holds a Solidity file, an address has the address form, and every exclusion lies under the path.\<close>

lemma audit_input_gate:
  assumes "validate_audit_input env ai root = Inr u" "ai_path ai = Some p"
  shows "(\<exists>resolved r rel. pe_resolve env p = Some resolved \<and> pe_resolve env root = Some r \<and>
      relative_to resolved r = Some rel \<and> pe_sol_files env resolved \<noteq> []) \<and>
    (\<forall>a. ai_address ai = Some a \<longrightarrow> valid_address a) \<and>
    (\<forall>e \<in> set (ai_exclude_paths ai). relative_to e p \<noteq> None)"
proof -
  have excl: "foldE (validate_exclude ai) es u = Inr u' \<Longrightarrow> \<forall>e \<in> set es. relative_to e p \<noteq> None" for es u u'
    using assms(2) by (induction es) (auto simp: bindE_Inr validate_exclude_def split: if_splits)
  show ?thesis
    using assms excl
    by (auto simp: validate_audit_input_def bindE_Inr validate_filepath_def validate_eip55_def
        split: option.splits if_splits)
qed

definition witness_env :: path_env where
  "witness_env = \<lparr>pe_resolve = Some, pe_exists = (\<lambda>p. True), pe_sol_files = (\<lambda>p. [''A.sol'']), pe_checksum = Some\<rparr>"

definition witness_input :: audit_input where
  "witness_input = \<lparr>ai_path = Some ''/a/src'', ai_address = None, ai_exclude_paths = [''/a/src/lib''], ai_focus_files = []\<rparr>"

lemma audit_input_gate_witness:
  "relative_to ''/a/src/lib'' ''/a/src'' \<noteq> None"
proof -
  have "isl (validate_audit_input witness_env witness_input ''/a'') = False" by code_simp
  then have "validate_audit_input witness_env witness_input ''/a'' = Inr ()" by (metis sum.collapse(2) unit.exhaust)
  from audit_input_gate [OF this, of "''/a/src''"] show ?thesis by (simp add: witness_input_def)
qed

end
