(* ===== verification/Tools_Poc.thy ===== *)
theory Tools_Poc
  imports Planner_Stage2
begin

text \<open>
  The confirmed, executing tools (\<open>tools/write_execute.py\<close>): the PoC stub, the sandboxed test run and
  the deploy guard. The sandbox and the deployer are parameters; writing the stub yields the path
  and the content to write.

  The lemmas: a PoC is written directly inside its directory whatever the finding id holds; a run
  without a fork url is offline and without network; nothing but a local network is deployed to.
\<close>

definition ALLOWED_DEPLOY_NETWORKS :: "string list" where
  "ALLOWED_DEPLOY_NETWORKS = [''anvil'', ''localhost'']"

definition FOUNDRY_IMAGE :: string where
  "FOUNDRY_IMAGE = ''ghcr.io/foundry-rs/foundry:latest''"

record poc_result =
  pr_finding_id :: string
  pr_path :: string
  pr_framework :: string

record test_result =
  te_passed :: bool
  te_exit_code :: int
  te_stdout :: string
  te_stderr :: string

record deploy_result =
  de_network :: string
  de_address :: "string option"
  de_success :: bool
  de_detail :: string

section \<open>The stub\<close>

definition FOUNDRY_STUB :: string where
  \<open>FOUNDRY_STUB =
     ''// SPDX-License-Identifier: MIT'' @ nl @
     ''pragma solidity ^0.8.20;'' @ nl @ nl @
     ''import {{Test}} from "forge-std/Test.sol";'' @ nl @ nl @
     ''/// @notice PoC for finding {finding_id}'' @ nl @
     ''/// Auto-generated stub '' @ u_emdash @ '' fill in the exploit path, then run via the sandbox.'' @ nl @
     ''contract PoC_{ident} is Test {{'' @ nl @
     ''    function setUp() public {{}}'' @ nl @ nl @
     ''    function test_exploit_{ident}() public {{'' @ nl @
     ''        // TODO: reproduce finding {finding_id}'' @ nl @
     ''        // 1. set up the vulnerable state'' @ nl @
     ''        // 2. execute the attacker-controlled path'' @ nl @
     ''        // 3. assert the broken invariant'' @ nl @
     ''        revert("PoC not implemented");'' @ nl @
     ''    }}'' @ nl @ ''}}'' @ nl\<close>

definition ident :: "string \<Rightarrow> string" where
  "ident finding_id = map (\<lambda>c. if py_isalnum c then c else CHR ''_'') finding_id"

definition poc_path :: "string \<Rightarrow> string \<Rightarrow> string" where
  "poc_path poc_dir finding_id = poc_dir @ ''/'' @ ident finding_id @ ''.t.sol''"

text \<open>The result and the content written at its path.\<close>

definition write_poc ::
  "string \<Rightarrow> string \<Rightarrow> string \<Rightarrow> (string \<Rightarrow> string py) option \<Rightarrow> (poc_result \<times> string) py" where
  "write_poc finding_id poc_dir framework generator =
     (if framework \<noteq> ''foundry'' then raise ''ValueError'' (''Unsupported framework: '' @ py_repr_str framework)
      else bindE (case generator of
                    Some g \<Rightarrow> g finding_id
                  | None \<Rightarrow> py_format [(''finding_id'', finding_id), (''ident'', ident finding_id)] FOUNDRY_STUB)
             (\<lambda>content. Inr (\<lparr>pr_finding_id = finding_id, pr_path = poc_path poc_dir finding_id,
                               pr_framework = framework\<rparr>, content)))"

section \<open>The test run\<close>

record mount =
  mo_host :: string
  mo_container :: string
  mo_read_only :: bool

record sandbox_call =
  sc_image :: string
  sc_command :: "string list"
  sc_mounts :: "mount list"
  sc_workdir :: string
  sc_network :: string
  sc_env :: "(string \<times> string) list option"

record run_options =
  ro_test_path :: "string option"
  ro_image :: string
  ro_foundry_test_dir :: "string option"
  ro_fork_rpc :: "string option"
  ro_extra_mounts :: "mount list"
  ro_trace :: bool

definition default_options :: run_options where
  "default_options = \<lparr>ro_test_path = None, ro_image = FOUNDRY_IMAGE, ro_foundry_test_dir = None,
     ro_fork_rpc = None, ro_extra_mounts = [], ro_trace = False\<rparr>"

definition set_str :: "string option \<Rightarrow> bool" where
  "set_str s = (\<exists>c \<in> set_option s. c \<noteq> [])"

definition forking :: "run_options \<Rightarrow> bool" where
  "forking opts = set_str (ro_fork_rpc opts)"

definition forge_command :: "run_options \<Rightarrow> string" where
  "forge_command opts =
     (let inner0 = (if forking opts then ''forge test'' else ''forge test --offline'');
          inner1 = (if ro_trace opts then inner0 @ '' -vvv'' else inner0);
          inner2 = (if set_str (ro_test_path opts) then inner1 @ '' --match-path '' @ the (ro_test_path opts) else inner1)
      in if set_str (ro_foundry_test_dir opts)
         then ''FOUNDRY_TEST='' @ the (ro_foundry_test_dir opts) @ '' '' @ inner2 else inner2)"

definition test_call :: "string \<Rightarrow> run_options \<Rightarrow> sandbox_call" where
  "test_call project_dir opts =
     \<lparr>sc_image = ro_image opts, sc_command = [forge_command opts],
      sc_mounts = \<lparr>mo_host = project_dir, mo_container = ''/work'', mo_read_only = False\<rparr> # ro_extra_mounts opts,
      sc_workdir = ''/work'', sc_network = (if forking opts then ''bridge'' else ''none''),
      sc_env = (if forking opts then Some [(''MAINNET_RPC_URL'', the (ro_fork_rpc opts))] else None)\<rparr>"

definition run_tests :: "string \<Rightarrow> (sandbox_call \<Rightarrow> test_result py) \<Rightarrow> run_options \<Rightarrow> test_result py" where
  "run_tests project_dir sandbox opts = sandbox (test_call project_dir opts)"

section \<open>Deployment\<close>

definition deploy_test_contract :: "string \<Rightarrow> deploy_result option \<Rightarrow> deploy_result py" where
  "deploy_test_contract network deployer =
     (if network \<notin> set ALLOWED_DEPLOY_NETWORKS
      then raise ''DeployTargetError''
        (''deploy_test_contract only allowed on '' @ py_repr (JList (map JStr ALLOWED_DEPLOY_NETWORKS)) @
         '', got '' @ py_repr_str network)
      else case deployer of
        None \<Rightarrow> Inr \<lparr>de_network = network, de_address = None, de_success = False,
                  de_detail = ''no deployer configured (dry run)''\<rparr>
      | Some d \<Rightarrow> Inr d)"

section \<open>Facts\<close>

text \<open>Whether formatting raises depends on the names of the fields only.\<close>

lemma py_format_isl:
  "(\<forall>k. dict_get a k = None \<longleftrightarrow> dict_get b k = None) \<Longrightarrow> isl (py_format a s) = isl (py_format b s)"
proof (induction a s rule: py_format.induct)
  case (2 args c cs)
  have isl_bind: "isl (bindE m (\<lambda>t. Inr (f t))) = isl m" for m :: "string py" and f :: "string \<Rightarrow> string"
    by (cases m) auto
  note dom = "2.prems" [rule_format]
  consider (open_brace) "c = CHR ''{''" | (close_brace) "c \<noteq> CHR ''{''" "c = CHR 0x7D" | (other) "c \<noteq> CHR ''{''" "c \<noteq> CHR 0x7D"
    by blast
  then show ?case
  proof cases
    case open_brace
    show ?thesis
    proof (cases cs)
      case (Cons d ds)
      show ?thesis
      proof (cases "d = CHR ''{''")
        case True
        with open_brace Cons "2.IH"(1) [OF open_brace Cons True "2.prems"] show ?thesis by (simp add: isl_bind)
      next
        case False
        let ?k = "takeWhile (\<lambda>x. x \<noteq> CHR 0x7D) cs"
        show ?thesis
        proof (cases "dict_get args ?k")
          case None
          with dom [of ?k] open_brace Cons False show ?thesis by simp
        next
          case (Some v)
          then obtain w where w: "dict_get b ?k = Some w" using dom [of ?k] by (cases "dict_get b ?k") auto
          show ?thesis
          proof (cases "dropWhile (\<lambda>x. x \<noteq> CHR 0x7D) cs")
            case Nil
            with open_brace Cons False Some w show ?thesis by simp
          next
            case (Cons e es)
            note IH = "2.IH"(2) [OF open_brace \<open>cs = d # ds\<close> False Some Cons "2.prems"]
            from open_brace \<open>cs = d # ds\<close> False Some w Cons IH show ?thesis by (simp add: isl_bind)
          qed
        qed
      qed
    qed (simp add: open_brace)
  next
    case close_brace
    show ?thesis
    proof (cases cs)
      case (Cons d ds)
      show ?thesis
      proof (cases "d = CHR 0x7D")
        case True
        with close_brace Cons "2.IH"(3) [OF _ _ Cons True "2.prems"] show ?thesis by (simp add: isl_bind)
      qed (use close_brace Cons in simp)
    qed (use close_brace in simp)
  next
    case other
    with "2.IH"(4) [OF other "2.prems"] show ?thesis by (simp add: isl_bind)
  qed
qed simp

lemma stub_formats: "\<not> isl (py_format [(''finding_id'', fid), (''ident'', ident fid)] FOUNDRY_STUB)"
proof -
  have "\<not> isl (py_format [(''finding_id'', []), (''ident'', [])] FOUNDRY_STUB)" by code_simp
  then show ?thesis
    using py_format_isl [of "[(''finding_id'', []), (''ident'', [])]" "[(''finding_id'', fid), (''ident'', ident fid)]" FOUNDRY_STUB]
    by simp
qed

section \<open>Properties\<close>

text \<open>Writing a stub always succeeds, and the file stays in its directory. Whatever the finding id
  holds, the file name is a single path component, of letters, digits and underscores before the
  suffix; ids that differ in other characters only share the file.\<close>

lemma poc_path_confined:
  "(\<exists>content. write_poc fid dir ''foundry'' None =
      Inr (\<lparr>pr_finding_id = fid, pr_path = dir @ ''/'' @ ident fid @ ''.t.sol'', pr_framework = ''foundry''\<rparr>, content)) \<and>
   list_all py_word (ident fid) \<and> CHR ''/'' \<notin> set (ident fid) \<and> CHR ''.'' \<notin> set (ident fid) \<and>
   poc_path dir ''HIGH-001'' = poc_path dir ''HIGH_001''"
proof -
  have w: "list_all py_word (ident fid)"
    by (auto simp: ident_def list_all_iff py_word_def)
  have "\<not> py_word (CHR ''/'')" "\<not> py_word (CHR ''.'')" by code_simp+
  with w have "CHR ''/'' \<notin> set (ident fid)" "CHR ''.'' \<notin> set (ident fid)"
    unfolding list_all_iff by metis+
  moreover have "ident ''HIGH-001'' = ident ''HIGH_001''" by code_simp
  moreover obtain content where "py_format [(''finding_id'', fid), (''ident'', ident fid)] FOUNDRY_STUB = Inr content"
    using stub_formats [of fid] by (cases "py_format [(''finding_id'', fid), (''ident'', ident fid)] FOUNDRY_STUB") auto
  ultimately show ?thesis using w by (auto simp: write_poc_def poc_path_def)
qed

text \<open>The test run is offline unless a fork url is given: without one the sandbox gets no network and
  no environment, and the forge command carries the offline flag; with one it gets the bridge and
  exactly that url. The test path is passed to the shell command as it is.\<close>

lemma run_tests_isolation:
  "(\<not> set_str (ro_fork_rpc opts) \<longrightarrow>
      sc_network (test_call dir opts) = ''none'' \<and> sc_env (test_call dir opts) = None \<and>
      py_in ''forge test --offline'' (hd (sc_command (test_call dir opts)))) \<and>
   (ro_fork_rpc opts = Some url \<and> url \<noteq> [] \<longrightarrow>
      sc_network (test_call dir opts) = ''bridge'' \<and> sc_env (test_call dir opts) = Some [(''MAINNET_RPC_URL'', url)]) \<and>
   (ro_test_path opts = Some p \<and> p \<noteq> [] \<longrightarrow> py_in ('' --match-path '' @ p) (hd (sc_command (test_call dir opts)))) \<and>
   length (sc_command (test_call dir opts)) = 1 \<and> hd (sc_mounts (test_call dir opts)) = \<lparr>mo_host = dir, mo_container = ''/work'', mo_read_only = False\<rparr>"
proof -
  have off: "py_in ''forge test --offline'' (forge_command opts)" if "\<not> set_str (ro_fork_rpc opts)"
  proof -
    define d where "d = (if set_str (ro_foundry_test_dir opts) then ''FOUNDRY_TEST='' @ the (ro_foundry_test_dir opts) @ '' '' else [])"
    define v where "v = (if ro_trace opts then '' -vvv'' else [])"
    define m where "m = (if set_str (ro_test_path opts) then '' --match-path '' @ the (ro_test_path opts) else [])"
    have "forge_command opts = d @ ''forge test --offline'' @ v @ m"
      using that by (simp add: forge_command_def Let_def forking_def d_def v_def m_def)
    then show ?thesis unfolding py_in_iff by metis
  qed
  have mp: "py_in ('' --match-path '' @ p) (forge_command opts)" if "ro_test_path opts = Some p" "p \<noteq> []"
  proof -
    have "\<exists>a. forge_command opts = a @ ('' --match-path '' @ p)"
      using that by (auto simp: forge_command_def Let_def set_str_def)
    then show ?thesis unfolding py_in_iff by (metis append.right_neutral)
  qed
  show ?thesis using off mp by (auto simp: test_call_def forking_def set_str_def)
qed

lemma run_tests_isolation_witness:
  "sc_network (test_call ''/p'' (default_options\<lparr>ro_test_path := Some ''a; id''\<rparr>)) = ''none''"
proof -
  have "\<not> set_str (ro_fork_rpc (default_options\<lparr>ro_test_path := Some ''a; id''\<rparr>))"
    by (simp add: default_options_def set_str_def)
  with run_tests_isolation [of "default_options\<lparr>ro_test_path := Some ''a; id''\<rparr>" "''/p''" "''u''" "''a; id''"]
  show ?thesis by blast
qed

end
