(* ===== verification/Tools_SmartGraphical.thy ===== *)
theory Tools_SmartGraphical
  imports Tools_Static Planner_Sig
begin

text \<open>
  The SmartGraphical engine (\<open>tools/smartgraphical.py\<close>): the tolerant parser of its output, the mapping
  to findings and the subprocess run. The subprocess, \<open>Path.resolve\<close>, the existence test and
  \<open>json.loads\<close> are parameters; the script text handed to the interpreter is one of the run's
  arguments. The lemmas: items that are no dictionaries are skipped, conversion keeps number, order
  and file, and the run fails only with the engine's own error.
\<close>

definition SG_CONFIDENCE_TO_SEVERITY :: "(string \<times> string) list" where
  "SG_CONFIDENCE_TO_SEVERITY = [(''high'', ''high''), (''medium'', ''medium''), (''low'', ''low'')]"

definition SG_RULE_TO_TAG :: "(string \<times> bastet_tag) list" where
  "SG_RULE_TO_TAG =
     [(''read_only_oracle_reentrancy'', Tag_read_only_reentrancy),
      (''unstake_share_burn_order'', Tag_reentrancy),
      (''bridge_retry_reentrancy'', Tag_cross_function_reentrancy),
      (''check_order'', Tag_oracle_manipulation),
      (''min_slippage_bounds'', Tag_sandwich_attack),
      (''outer_calls'', Tag_missing_access_control),
      (''unallowed_manipulation'', Tag_missing_access_control),
      (''withdraw_check'', Tag_logic_error), (''local_points'', Tag_logic_error), (''staking'', Tag_logic_error),
      (''pool_interactions'', Tag_erc20_compliance),
      (''tainted_input_unguarded_sink'', Tag_missing_check)]"

record sg_finding =
  sg_rule_id :: json
  sg_task_id :: string
  sg_title :: json
  sg_category :: json
  sg_confidence :: json
  sg_message :: json
  sg_remediation :: json
  sg_function :: json
  sg_line :: json

section \<open>Parsing\<close>

definition sg_line_of :: "json \<Rightarrow> json py" where
  "sg_line_of ev =
     bindE (jget ev ''line_number'' JNull) (\<lambda>n.
       if truthy n then Inr n
       else bindE (jget ev ''line_numbers'' JNull) (\<lambda>lns. if truthy lns then index0 lns else Inr (JInt 0)))"

definition sg_finding_from :: "(string \<times> json) list \<Rightarrow> sg_finding py" where
  "sg_finding_from f =
     (let evs = dict_getd f ''evidences'' JNull in
      bindE (if truthy evs then index0 evs else Inr (JObj [])) (\<lambda>ev.
      bindE (sg_line_of ev) (\<lambda>line.
      bindE (jget ev ''function_name'' (JStr [])) (\<lambda>fn.
        Inr \<lparr>sg_rule_id = dict_getd f ''rule_id'' (JStr []), sg_task_id = py_str (dict_getd f ''task_id'' (JStr [])),
             sg_title = dict_getd f ''title'' (JStr []), sg_category = dict_getd f ''category'' (JStr []),
             sg_confidence = dict_getd f ''confidence'' (JStr []), sg_message = dict_getd f ''message'' (JStr []),
             sg_remediation = dict_getd f ''remediation_hint'' (JStr []), sg_function = fn,
             sg_line = (if truthy line then line else JNull)\<rparr>))))"

definition obj_of :: "json \<Rightarrow> (string \<times> json) list option" where
  "obj_of v = (case v of JObj kvs \<Rightarrow> Some kvs | _ \<Rightarrow> None)"

definition findings_from_data :: "json \<Rightarrow> sg_finding list py" where
  "findings_from_data data =
     (case (case data of JObj kvs \<Rightarrow> dict_getd kvs ''findings'' data | _ \<Rightarrow> data) of
        JList fs \<Rightarrow> mapE sg_finding_from (List.map_filter obj_of fs)
      | _ \<Rightarrow> Inr [])"

definition parse_sg_findings :: "(string \<Rightarrow> json option) \<Rightarrow> string \<Rightarrow> sg_finding list py" where
  "parse_sg_findings loads stdout =
     (if py_strip stdout = [] then Inr []
      else case loads stdout of
        None \<Rightarrow> raise ''SmartGraphicalError'' ''could not parse SmartGraphical JSON''
      | Some data \<Rightarrow> findings_from_data data)"

section \<open>Findings\<close>

definition sg_finding_to :: "string \<Rightarrow> string \<Rightarrow> nat \<Rightarrow> sg_finding \<Rightarrow> finding py" where
  "sg_finding_to file_rel id_prefix i sf =
     (let loc = (if truthy (sg_line sf) then file_rel @ '':'' @ py_str (sg_line sf) else file_rel) in
      bindE (str_table_get SG_CONFIDENCE_TO_SEVERITY (sg_confidence sf)) (\<lambda>sv.
      bindE (case severity_of (case sv of Some s \<Rightarrow> s | None \<Rightarrow> ''low'') of
               Some s \<Rightarrow> Inr s | None \<Rightarrow> raise ''ValueError'' ''severity'') (\<lambda>s.
      bindE (str_table_get SG_RULE_TO_TAG (sg_rule_id sf)) (\<lambda>tag.
        case por (sg_function sf) (JStr ''unknown'') of
          JStr name \<Rightarrow> Inr ((mk_finding (id_prefix @ ''-'' @ nat_str03 i) loc name s)\<lparr>f_bastet_tag := tag\<rparr>)
        | _ \<Rightarrow> raise ''ValidationError'' ''function_name''))))"

definition sg_to_findings :: "sg_finding list \<Rightarrow> string \<Rightarrow> string \<Rightarrow> finding list py" where
  "sg_to_findings sfs file_rel id_prefix =
     mapE (\<lambda>(i, sf). sg_finding_to file_rel id_prefix i sf) (List.enumerate 1 sfs)"

section \<open>The run\<close>

record sg_host =
  sh_exists :: "string \<Rightarrow> bool"
  sh_resolve :: "string \<Rightarrow> string"
  sh_loads :: "string \<Rightarrow> json option"
  sh_script :: string
  sh_run :: "string list \<Rightarrow> string \<Rightarrow> sandbox_result py"

definition run_smartgraphical ::
  "sg_host \<Rightarrow> string \<Rightarrow> string \<Rightarrow> string option \<Rightarrow> (sg_finding list \<times> json) py" where
  "run_smartgraphical h target sg_root sg_python =
     (let python = (case sg_python of Some (c # cs) \<Rightarrow> c # cs | _ \<Rightarrow> sg_root @ ''/.venv/bin/python'') in
      if \<not> sh_exists h python
      then raise ''SmartGraphicalError'' (''SmartGraphical interpreter not found: '' @ python)
      else case sh_run h [python, ''-c'', sh_script h, sh_resolve h target] sg_root of
        Inl e \<Rightarrow> (if exc_class e \<in> {''FileNotFoundError'', ''TimeoutExpired''}
                  then raise ''SmartGraphicalError'' (''SmartGraphical run failed: '' @ exc_msg e) else Inl e)
      | Inr r \<Rightarrow>
          if py_strip (sr_stdout r) = []
          then raise ''SmartGraphicalError''
            (''SmartGraphical produced no output (stderr: '' @ take 300 (sr_stderr r) @ '')'')
          else case sh_loads h (sr_stdout r) of
            None \<Rightarrow> raise ''SmartGraphicalError'' ''could not parse SmartGraphical JSON''
          | Some data \<Rightarrow>
              bindE (findings_from_data data) (\<lambda>fs.
                Inr (fs, case data of JObj kvs \<Rightarrow> dict_getd kvs ''graph'' (JObj []) | _ \<Rightarrow> JObj [])))"

section \<open>Properties\<close>

lemma sg_finding_fields:
  assumes "sg_finding_to file_rel pre i sf = Inr f"
  shows "f_finding_id f = pre @ ''-'' @ nat_str03 i \<and>
    (f_location f = file_rel \<or> (\<exists>s. f_location f = file_rel @ '':'' @ s)) \<and> f_severity f \<le> High"
proof -
  have "s \<le> High" if "str_table_get SG_CONFIDENCE_TO_SEVERITY v = Inr sv"
    "severity_of (case sv of Some s \<Rightarrow> s | None \<Rightarrow> ''low'') = Some s" for v sv s
    using that
    by (auto simp: str_table_get_def SG_CONFIDENCE_TO_SEVERITY_def severity_of_def all_severities_def severity_ord
        split: json.splits if_splits)
  then show ?thesis
    using assms by (cases "por (sg_function sf) (JStr ''unknown'')")
      (auto simp: sg_finding_to_def Let_def bindE_Inr mk_finding_def split: option.splits)
qed

text \<open>SmartGraphical's results become findings one by one: same number and order, distinct ids, all in
  the analysed file, and never above high.\<close>

lemma smartgraphical_conversion:
  assumes "sg_to_findings sfs file_rel pre = Inr fs" "CHR '':'' \<notin> set file_rel"
  shows "length fs = length sfs \<and> distinct (map f_finding_id fs) \<and>
    (\<forall>f \<in> set fs. file_of (f_location f) = file_rel \<and> f_severity f \<le> High)"
proof -
  have len: "length fs = length sfs"
    using assms(1) mapE_Inr_length unfolding sg_to_findings_def by fastforce
  have nth: "sg_finding_to file_rel pre (i + 1) (sfs ! i) = Inr (fs ! i)" if "i < length sfs" for i
    using mapE_Inr_nth [OF assms(1) [unfolded sg_to_findings_def], of i] that by (simp add: nth_enumerate_eq)
  note fields = sg_finding_fields [OF nth]
  have "distinct (map f_finding_id fs)"
    unfolding distinct_conv_nth using fields by (auto simp: len dest!: nat_str03_inj)
  moreover have "file_of (f_location f) = file_rel \<and> f_severity f \<le> High" if "f \<in> set fs" for f
  proof -
    from that obtain i where "i < length sfs" "fs ! i = f" by (auto simp: in_set_conv_nth len)
    then show ?thesis
      using fields [of i] file_of_target [OF assms(2)] assms(2) by (auto simp: file_of_def py_split_id)
  qed
  ultimately show ?thesis using len by blast
qed

definition witness_sg :: sg_finding where
  "witness_sg = \<lparr>sg_rule_id = JStr ''check_order'', sg_task_id = [], sg_title = JStr [], sg_category = JStr [],
     sg_confidence = JStr ''high'', sg_message = JStr [], sg_remediation = JStr [], sg_function = JNull, sg_line = JInt 3\<rparr>"

lemma smartgraphical_conversion_witness:
  "distinct (map f_finding_id (projr (sg_to_findings [witness_sg, witness_sg] ''A.sol'' ''SG'')))"
proof -
  have "isl (sg_to_findings [witness_sg, witness_sg] ''A.sol'' ''SG'') = False" by code_simp
  then have "sg_to_findings [witness_sg, witness_sg] ''A.sol'' ''SG'' =
      Inr (projr (sg_to_findings [witness_sg, witness_sg] ''A.sol'' ''SG''))" by (metis sum.collapse(2))
  from smartgraphical_conversion [OF this] show ?thesis by simp
qed

end
