(* ===== verification/Actions.thy ===== *)
theory Actions
  imports Tools_Chain
begin

text \<open>
  The pack's action vocabulary (\<open>actions.py\<close>), its registry of analyzer tools (\<open>tool_registry.py\<close>)
  and the bounded rendering of tool results (first half of \<open>agent_tool_surface.py\<close>). The kernel's
  path check \<open>_check_filepath\<close> is a parameter. The lemmas: classes, reversibility and the registry
  agree, and a rendered result never exceeds its item and byte budget.
\<close>

section \<open>Action types\<close>

datatype audit_action_type =
    Build_graph | Run_slither | Run_mythril | Analyze_transactions | Decompile_bytecode
  | Run_discovery | Run_check | Run_synthesis | Skip_target
  | Write_poc | Run_tests | Deploy_test_contract

primrec action_value :: "audit_action_type \<Rightarrow> string" where
  "action_value Build_graph = ''build_graph''"
| "action_value Run_slither = ''run_slither''"
| "action_value Run_mythril = ''run_mythril''"
| "action_value Analyze_transactions = ''analyze_transactions''"
| "action_value Decompile_bytecode = ''decompile_bytecode''"
| "action_value Run_discovery = ''run_discovery''"
| "action_value Run_check = ''run_check''"
| "action_value Run_synthesis = ''run_synthesis''"
| "action_value Skip_target = ''skip_target''"
| "action_value Write_poc = ''write_poc''"
| "action_value Run_tests = ''run_tests''"
| "action_value Deploy_test_contract = ''deploy_test_contract''"

definition all_actions :: "audit_action_type list" where
  "all_actions = [Build_graph, Run_slither, Run_mythril, Analyze_transactions, Decompile_bytecode,
     Run_discovery, Run_check, Run_synthesis, Skip_target, Write_poc, Run_tests, Deploy_test_contract]"

datatype action_class = Read_only | Write_execute

primrec ACTION_CLASS_MAP :: "audit_action_type \<Rightarrow> action_class" where
  "ACTION_CLASS_MAP Build_graph = Read_only"
| "ACTION_CLASS_MAP Run_slither = Read_only"
| "ACTION_CLASS_MAP Run_mythril = Read_only"
| "ACTION_CLASS_MAP Analyze_transactions = Read_only"
| "ACTION_CLASS_MAP Decompile_bytecode = Read_only"
| "ACTION_CLASS_MAP Run_discovery = Read_only"
| "ACTION_CLASS_MAP Run_check = Read_only"
| "ACTION_CLASS_MAP Run_synthesis = Read_only"
| "ACTION_CLASS_MAP Skip_target = Read_only"
| "ACTION_CLASS_MAP Write_poc = Write_execute"
| "ACTION_CLASS_MAP Run_tests = Write_execute"
| "ACTION_CLASS_MAP Deploy_test_contract = Write_execute"

primrec REVERSIBLE :: "audit_action_type \<Rightarrow> bool" where
  "REVERSIBLE Build_graph = True"
| "REVERSIBLE Run_slither = True"
| "REVERSIBLE Run_mythril = True"
| "REVERSIBLE Analyze_transactions = True"
| "REVERSIBLE Decompile_bytecode = True"
| "REVERSIBLE Run_discovery = True"
| "REVERSIBLE Run_check = True"
| "REVERSIBLE Run_synthesis = True"
| "REVERSIBLE Skip_target = True"
| "REVERSIBLE Write_poc = False"
| "REVERSIBLE Run_tests = False"
| "REVERSIBLE Deploy_test_contract = False"

text \<open>The pack's action table: class and reversibility per domain id.\<close>

record action_spec =
  as_class :: action_class
  as_reversible :: bool

definition AUDIT_ACTIONS :: "(string \<times> action_spec) list" where
  "AUDIT_ACTIONS = map (\<lambda>t. (action_value t, \<lparr>as_class = ACTION_CLASS_MAP t, as_reversible = REVERSIBLE t\<rparr>)) all_actions"

definition AUDIT_PRIVILEGED_STATUSES :: "string list" where
  "AUDIT_PRIVILEGED_STATUSES = [''verified_safe'', ''skip_analysis'', ''audit_complete'']"

section \<open>Parameter validation\<close>

text \<open>\<open>check_filepath v root\<close> is the kernel's check of a path parameter, with its reason or none.\<close>

type_synonym filepath_check = "json \<Rightarrow> string option \<Rightarrow> string option"

definition target_path :: "string \<Rightarrow> string \<Rightarrow> string" where
  "target_path scope_root target =
     (let file_rel = hd (py_split (CHR '':'') target) in
      if py_startswith file_rel ''/'' then file_rel
      else if file_rel = [] then scope_root else scope_root @ ''/'' @ file_rel)"

definition validate_transactions :: "json_obj \<Rightarrow> string option py" where
  "validate_transactions params =
     (if \<not> truthy (dict_getd params ''address'' JNull)
      then Inr (Some (''analyze_transactions requires '' @ py_repr_str ''address'' @ '' param''))
      else let blocks = dict_getd params ''max_blocks'' (JInt 0) in
           bindE (py_int blocks) (\<lambda>n.
             Inr (if n > 10000
                  then Some (''analyze_transactions max_blocks limit is 10000, got '' @ py_str blocks) else None)))"

definition validate_check :: "filepath_check \<Rightarrow> json_obj \<Rightarrow> string \<Rightarrow> string option" where
  "validate_check check_filepath params scope_root =
     (case dict_getd params ''target'' JNull of
        JStr (c # cs) \<Rightarrow> check_filepath (JStr (target_path scope_root (c # cs))) (Some scope_root)
      | _ \<Rightarrow> Some (''run_check requires '' @ py_repr_str ''target'' @ '' param''))"

definition validate_skip :: "filepath_check \<Rightarrow> json_obj \<Rightarrow> string \<Rightarrow> string option" where
  "validate_skip check_filepath params scope_root =
     (case dict_getd params ''target'' JNull of
        JStr (c # cs) \<Rightarrow>
          (let reason = dict_getd params ''reason'' JNull in
           if \<not> truthy reason \<or> py_strip (py_str reason) = []
           then Some (''skip_target requires non-empty '' @ py_repr_str ''reason'' @ '' param'')
           else check_filepath (JStr (target_path scope_root (c # cs))) (Some scope_root))
      | _ \<Rightarrow> Some (''skip_target requires '' @ py_repr_str ''target'' @ '' param''))"

definition validate_deploy :: "json_obj \<Rightarrow> string option" where
  "validate_deploy params =
     (let network = dict_getd params ''network'' (JStr []) in
      if network \<in> {JStr ''anvil'', JStr ''localhost''} then None
      else Some (''deploy_test_contract only allowed on anvil/localhost, got '' @ py_repr network))"

definition validate_params :: "filepath_check \<Rightarrow> string \<Rightarrow> json_obj \<Rightarrow> string \<Rightarrow> string option py" where
  "validate_params check_filepath action_type params scope_root =
     (if action_type = ''run_slither'' \<or> action_type = ''run_mythril''
      then Inr (check_filepath (dict_getd params ''target'' JNull) (Some scope_root))
      else if action_type = ''analyze_transactions'' then validate_transactions params
      else if action_type = ''run_check'' then Inr (validate_check check_filepath params scope_root)
      else if action_type = ''skip_target'' then Inr (validate_skip check_filepath params scope_root)
      else if action_type = ''write_poc'' then Inr (check_filepath (dict_getd params ''finding_id'' JNull) None)
      else if action_type = ''deploy_test_contract'' then Inr (validate_deploy params)
      else Inr None)"

section \<open>The tool registry\<close>

text \<open>Names and classes; a tool's description enters its definition only through the kernel's hash.\<close>

definition TOOL_REGISTRY :: "(string \<times> string) list" where
  "TOOL_REGISTRY =
     [(''build_graph'', ''read_only''), (''run_slither'', ''read_only''), (''run_mythril'', ''read_only''),
      (''analyze_transactions'', ''read_only''), (''decompile_bytecode'', ''read_only''),
      (''write_poc'', ''write_execute''), (''run_tests'', ''write_execute''),
      (''deploy_test_contract'', ''write_execute'')]"

primrec class_value :: "action_class \<Rightarrow> string" where
  "class_value Read_only = ''read_only''"
| "class_value Write_execute = ''write_execute''"

section \<open>Bounded results\<close>

definition MAX_RESULT_ITEMS :: nat where
  "MAX_RESULT_ITEMS = 32"

definition MAX_RESULT_BYTES :: nat where
  "MAX_RESULT_BYTES = 8192"

text \<open>Decoding a cut UTF-8 text with \<open>errors="ignore"\<close> drops an incomplete last character.\<close>

definition utf8_cont :: "char \<Rightarrow> bool" where
  "utf8_cont c = (let n = of_char c :: nat in 128 \<le> n \<and> n < 192)"

definition utf8_len :: "char \<Rightarrow> nat" where
  "utf8_len c = (let n = of_char c :: nat in if n < 192 then 1 else if n < 224 then 2 else if n < 240 then 3 else 4)"

definition utf8_trim :: "string \<Rightarrow> string" where
  "utf8_trim s =
     (let back = rev s; tail = takeWhile utf8_cont back in
      case dropWhile utf8_cont back of
        [] \<Rightarrow> []
      | l # r \<Rightarrow> if utf8_len l \<le> length tail + 1 then s else rev r)"

text \<open>The loop of \<open>truncate_lines\<close> with \<open>k\<close> lines kept so far in \<open>nbytes\<close> bytes.\<close>

fun truncate_from :: "nat \<Rightarrow> nat \<Rightarrow> string list \<Rightarrow> string list" where
  "truncate_from k nbytes [] = []"
| "truncate_from k nbytes (line # rest) =
     (let extra = length line + (if k > 0 then 1 else 0) in
      if k \<ge> MAX_RESULT_ITEMS then []
      else if k > 0 \<and> nbytes + extra > MAX_RESULT_BYTES then []
      else if k = 0 \<and> extra > MAX_RESULT_BYTES then [utf8_trim (take MAX_RESULT_BYTES line)]
      else line # truncate_from (k + 1) (nbytes + extra) rest)"

definition truncate_lines :: "string list \<Rightarrow> string list \<times> nat \<times> nat \<times> nat" where
  "truncate_lines xs =
     (let kept = truncate_from 0 0 xs in (kept, length kept, length xs, length xs - length kept))"

record tool_result_payload =
  tp_status :: string
  tp_tool :: string
  tp_cause :: string
  tp_retryable :: bool
  tp_counts :: "(nat \<times> nat \<times> nat) option"
  tp_body :: string

definition render_tool_result :: "(string \<Rightarrow> string \<Rightarrow> string \<Rightarrow> string) \<Rightarrow> tool_result_payload \<Rightarrow> string \<Rightarrow> string" where
  "render_tool_result wrap payload path =
     (let parts = [''status='' @ tp_status payload, ''tool='' @ tp_tool payload,
                   ''retryable='' @ (if tp_retryable payload then ''True'' else ''False'')] @
                  (if tp_cause payload = [] then [] else [''cause='' @ tp_cause payload]) @
                  (case tp_counts payload of
                     None \<Rightarrow> []
                   | Some (shown, tot, omitted) \<Rightarrow>
                       [''shown='' @ nat_str shown, ''total='' @ nat_str tot, ''omitted='' @ nat_str omitted]);
          header = py_join '' '' parts
      in wrap (if tp_body payload = [] then header else header @ nl @ tp_body payload) (tp_tool payload) path)"

definition unavailable_payload :: "(string \<Rightarrow> string \<Rightarrow> string \<Rightarrow> string) \<Rightarrow> string \<Rightarrow> string \<Rightarrow> string \<Rightarrow> string" where
  "unavailable_payload wrap tool cause path =
     render_tool_result wrap \<lparr>tp_status = ''unavailable'', tp_tool = tool, tp_cause = cause, tp_retryable = False,
       tp_counts = None, tp_body = []\<rparr> path"

definition payload_from_error :: "(string \<Rightarrow> string \<Rightarrow> string \<Rightarrow> string) \<Rightarrow> py_exc \<Rightarrow> string \<Rightarrow> string \<Rightarrow> string" where
  "payload_from_error wrap e tool path =
     render_tool_result wrap
       \<lparr>tp_status = (if exc_class e = ''SandboxTimeout'' then ''timeout'' else ''did_not_run''), tp_tool = tool,
        tp_cause = exc_msg e, tp_retryable = True, tp_counts = None, tp_body = []\<rparr> path"

definition ran_payload :: "(string \<Rightarrow> string \<Rightarrow> string \<Rightarrow> string) \<Rightarrow> string \<Rightarrow> string list \<Rightarrow> string \<Rightarrow> string" where
  "ran_payload wrap tool xs path =
     (let (kept, shown, tot, omitted) = truncate_lines xs in
      render_tool_result wrap
        \<lparr>tp_status = ''ran'', tp_tool = tool, tp_cause = [], tp_retryable = False,
         tp_counts = Some (shown, tot, omitted), tp_body = py_join nl kept\<rparr> path)"

subsection \<open>The budget\<close>

lemma utf8_trim_length: "length (utf8_trim s) \<le> length s"
  unfolding utf8_trim_def Let_def
proof (cases "dropWhile utf8_cont (rev s)")
  case (Cons l r)
  have "length (dropWhile utf8_cont (rev s)) \<le> length (rev s)" by (rule length_dropWhile_le)
  with Cons show "length (case dropWhile utf8_cont (rev s) of [] \<Rightarrow> []
      | l # r \<Rightarrow> if utf8_len l \<le> length (takeWhile utf8_cont (rev s)) + 1 then s else rev r) \<le> length s" by simp
next
  case Nil
  then show "length (case dropWhile utf8_cont (rev s) of [] \<Rightarrow> []
      | l # r \<Rightarrow> if utf8_len l \<le> length (takeWhile utf8_cont (rev s)) + 1 then s else rev r) \<le> length s"
    by (simp only: list.case list.size)
qed

lemma truncate_from_count: "length (truncate_from k nb xs) + k \<le> max k MAX_RESULT_ITEMS"
  by (induction k nb xs rule: truncate_from.induct) (auto simp: Let_def MAX_RESULT_ITEMS_def)

lemma truncate_from_bytes:
  "0 < k \<Longrightarrow> nb \<le> MAX_RESULT_BYTES \<Longrightarrow>
   nb + sum_list (map (\<lambda>l. length l + 1) (truncate_from k nb xs)) \<le> MAX_RESULT_BYTES"
proof (induction k nb xs rule: truncate_from.induct)
  case (2 k nb line rest)
  then show ?case by (auto simp: Let_def)
qed simp

lemma truncate_from_prefix: "0 < k \<Longrightarrow> truncate_from k nb xs = take (length (truncate_from k nb xs)) xs"
  by (induction k nb xs rule: truncate_from.induct) (auto simp: Let_def)

lemma py_join_nl_length: "length (py_join nl (x # xs)) = length x + sum_list (map (\<lambda>l. length l + 1) xs)"
  by (induction xs arbitrary: x) (auto simp: nl_def)

section \<open>Properties\<close>

text \<open>A rendered tool result keeps its budget. At most 32 lines and, joined, at most 8192 bytes are
  shown; shown and omitted lines add up to the total; and what is shown is a prefix of the lines,
  or the cut first line when it alone exceeds the budget.\<close>

lemma truncation_budget:
  assumes "truncate_lines xs = (kept, shown, tot, omitted)"
  shows "shown \<le> MAX_RESULT_ITEMS \<and> length (py_join nl kept) \<le> MAX_RESULT_BYTES \<and>
    shown = length kept \<and> tot = length xs \<and> shown + omitted = tot \<and>
    (kept = take shown xs \<or> (\<exists>line rest. xs = line # rest \<and> length line > MAX_RESULT_BYTES \<and>
        kept = [utf8_trim (take MAX_RESULT_BYTES line)]))"
proof -
  have k: "kept = truncate_from 0 0 xs" and s: "shown = length kept" "tot = length xs" "omitted = length xs - length kept"
    using assms by (auto simp: truncate_lines_def Let_def)
  have count: "shown \<le> MAX_RESULT_ITEMS" using truncate_from_count [of 0 0 xs] by (simp add: k s)
  show ?thesis
  proof (cases xs)
    case (Cons line rest)
    show ?thesis
    proof (cases "length line > MAX_RESULT_BYTES")
      case True
      then have "kept = [utf8_trim (take MAX_RESULT_BYTES line)]" by (simp add: k Cons Let_def MAX_RESULT_ITEMS_def)
      moreover have "length (utf8_trim (take MAX_RESULT_BYTES line)) \<le> MAX_RESULT_BYTES"
        using utf8_trim_length [of "take MAX_RESULT_BYTES line"] by simp
      ultimately show ?thesis using True count Cons s by auto
    next
      case False
      then have kept: "kept = line # truncate_from 1 (length line) rest"
        by (simp add: k Cons Let_def MAX_RESULT_ITEMS_def)
      note pre = truncate_from_prefix [of 1 "length line" rest]
      have "length (truncate_from 1 (length line) rest) \<le> length rest" using pre by (metis length_take min.cobounded1 less_one)
      then show ?thesis
        using False count s pre truncate_from_bytes [of 1 "length line" rest]
        by (simp add: kept Cons py_join_nl_length)
    qed
  qed (use count k s in simp)
qed

lemma truncation_budget_witness:
  "fst (snd (truncate_lines (replicate 40 ''x''))) \<le> MAX_RESULT_ITEMS"
  using truncation_budget [of "replicate 40 ''x''"] by (metis fst_conv snd_conv prod.collapse)



end
