(* ===== verification/Proof_Checkpoint.thy ===== *)
theory Proof_Checkpoint
  imports Py_Prelude
begin

text \<open>
  The compiled-attempt checkpoint (\<open>proof/compiled_checkpoint.py\<close>) and the attempt loop that drives it
  (\<open>scripts/poc_queue_runner.py\<close>, the block after the tested event and the safety net after the loop).
  An attempt is what the loop learns of a tested body: its source, the artifact it was kept in, whether
  forge compiled it, its defects and whether it passed. Between two attempts the loop asks the model
  for the next body, which is the source of the next attempt; the final state is that of a run that
  ends on a tested attempt (a pass, a compile-only success, or the last attempt).

  The lemmas: the two slots are the last compiled and the last really compiled attempt of the
  history, whatever the order of attempts; a refused attempt never stays on the active path; a run
  in which anything compiled ends on a body that compiled.
\<close>

section \<open>Slots\<close>

record checkpoint_slot =
  sl_source :: string
  sl_attempt :: nat
  sl_compiled_real :: bool
  sl_outcome :: string

record checkpoint_state =
  ck_non_vacuous :: "checkpoint_slot option"
  ck_any_compile :: "checkpoint_slot option"

definition empty_checkpoint :: checkpoint_state where
  "empty_checkpoint = \<lparr>ck_non_vacuous = None, ck_any_compile = None\<rparr>"

definition is_compiled_real :: "bool \<Rightarrow> string list \<Rightarrow> bool" where
  "is_compiled_real compiled defects = (compiled \<and> defects = [])"

definition restore_target :: "checkpoint_state \<Rightarrow> checkpoint_slot option" where
  "restore_target ck =
     (case ck_non_vacuous ck of Some s \<Rightarrow> Some s
      | None \<Rightarrow> (case ck_any_compile ck of Some s \<Rightarrow> Some s | None \<Rightarrow> None))"

definition restore_kind :: "checkpoint_state \<Rightarrow> string option" where
  "restore_kind ck =
     (if ck_non_vacuous ck \<noteq> None then Some ''non_vacuous''
      else if ck_any_compile ck \<noteq> None then Some ''any_compile'' else None)"

definition refresh_slots ::
  "checkpoint_state \<Rightarrow> string \<Rightarrow> nat \<Rightarrow> bool \<Rightarrow> bool \<Rightarrow> string \<Rightarrow> checkpoint_state" where
  "refresh_slots ck source att compiled compiled_real outcome =
     (if \<not> compiled then ck
      else let slot = \<lparr>sl_source = source, sl_attempt = att, sl_compiled_real = compiled_real, sl_outcome = outcome\<rparr>
           in \<lparr>ck_non_vacuous = (if compiled_real then Some slot else ck_non_vacuous ck), ck_any_compile = Some slot\<rparr>)"

definition should_refuse :: "bool \<Rightarrow> bool \<Rightarrow> bool" where
  "should_refuse compiled present = (\<not> compiled \<and> present)"

definition should_emit_adopt_refusal :: "bool \<Rightarrow> bool \<Rightarrow> bool \<Rightarrow> bool" where
  "should_emit_adopt_refusal verdict_available compiled present =
     (if \<not> verdict_available then False else should_refuse compiled present)"

definition should_end_restore :: "bool \<Rightarrow> bool \<Rightarrow> bool" where
  "should_end_restore compiled present = (\<not> compiled \<and> present)"

definition apply_refuse :: "string \<Rightarrow> checkpoint_state \<Rightarrow> string" where
  "apply_refuse working_body ck = (case restore_target ck of None \<Rightarrow> working_body | Some s \<Rightarrow> sl_source s)"

record refusal_fields =
  rf_attempt :: nat
  rf_artifact_path :: string
  rf_restore_attempt :: nat
  rf_restore_kind :: string

definition build_adopt_refusal_fields :: "checkpoint_state \<Rightarrow> nat \<Rightarrow> string \<Rightarrow> refusal_fields py" where
  "build_adopt_refusal_fields ck att artifact_path =
     (case (restore_target ck, restore_kind ck) of
        (Some s, Some kind) \<Rightarrow> Inr \<lparr>rf_attempt = att, rf_artifact_path = artifact_path,
           rf_restore_attempt = sl_attempt s, rf_restore_kind = kind\<rparr>
      | _ \<Rightarrow> raise ''ValueError'' ''build_adopt_refusal_fields requires a restore-target'')"

section \<open>The attempt loop\<close>

record attempt =
  at_source :: string
  at_number :: nat
  at_artifact :: string
  at_compiled :: bool
  at_defects :: "string list"
  at_passed :: bool

record loop_state =
  lo_code :: string
  lo_checkpoint :: checkpoint_state
  lo_last_compiled :: "bool option"
  lo_refusals :: "refusal_fields list"

definition loop_start :: loop_state where
  "loop_start = \<lparr>lo_code = [], lo_checkpoint = empty_checkpoint, lo_last_compiled = None, lo_refusals = []\<rparr>"

text \<open>From \<open>last_post_det_compiled\<close> and the tested event on: refuse and restore, or refresh the slots.\<close>

definition attempt_step :: "attempt \<Rightarrow> loop_state \<Rightarrow> loop_state" where
  "attempt_step a st =
     (let ck = lo_checkpoint st; tested = st\<lparr>lo_code := at_source a, lo_last_compiled := Some (at_compiled a)\<rparr> in
      if should_emit_adopt_refusal True (at_compiled a) (restore_target ck \<noteq> None)
      then (case build_adopt_refusal_fields ck (at_number a) (at_artifact a) of
              Inl e \<Rightarrow> tested
            | Inr r \<Rightarrow> tested\<lparr>lo_code := apply_refuse (at_source a) ck, lo_refusals := lo_refusals st @ [r]\<rparr>)
      else if at_compiled a
      then tested\<lparr>lo_checkpoint := refresh_slots ck (at_source a) (at_number a) True
             (is_compiled_real (at_compiled a) (at_defects a)) (if at_passed a then ''pass'' else ''fail'')\<rparr>
      else tested)"

definition end_restore :: "loop_state \<Rightarrow> loop_state" where
  "end_restore st =
     (case lo_last_compiled st of
        None \<Rightarrow> st
      | Some compiled \<Rightarrow>
          (if should_end_restore compiled (restore_target (lo_checkpoint st) \<noteq> None)
           then st\<lparr>lo_code := apply_refuse (lo_code st) (lo_checkpoint st)\<rparr> else st))"

section \<open>The slots as a function of the history\<close>

definition slot_of :: "attempt \<Rightarrow> checkpoint_slot" where
  "slot_of a = \<lparr>sl_source = at_source a, sl_attempt = at_number a,
     sl_compiled_real = is_compiled_real (at_compiled a) (at_defects a), sl_outcome = (if at_passed a then ''pass'' else ''fail'')\<rparr>"

definition last_such :: "(attempt \<Rightarrow> bool) \<Rightarrow> attempt list \<Rightarrow> checkpoint_slot option" where
  "last_such P as = map_option slot_of (find P (rev as))"

definition really :: "attempt \<Rightarrow> bool" where
  "really a = is_compiled_real (at_compiled a) (at_defects a)"

lemma really_compiled: "really a \<Longrightarrow> at_compiled a"
  by (simp add: really_def is_compiled_real_def)

lemma restore_kind_target: "restore_kind ck = None \<longleftrightarrow> restore_target ck = None"
  by (auto simp: restore_kind_def restore_target_def split: option.splits)

lemma attempt_step_checkpoint:
  "lo_checkpoint (attempt_step a st) =
     (if at_compiled a
      then \<lparr>ck_non_vacuous = (if really a then Some (slot_of a) else ck_non_vacuous (lo_checkpoint st)),
            ck_any_compile = Some (slot_of a)\<rparr>
      else lo_checkpoint st)"
  by (simp add: attempt_step_def Let_def should_emit_adopt_refusal_def should_refuse_def refresh_slots_def
      slot_of_def really_def split: sum.split)

lemma build_fields_total:
  "restore_target ck = Some s \<Longrightarrow> \<exists>r. build_adopt_refusal_fields ck att path = Inr r"
  using restore_kind_target [of ck] by (cases "restore_kind ck") (simp_all add: build_adopt_refusal_fields_def)

lemma attempt_step_code:
  "lo_code (attempt_step a st) =
     (if at_compiled a then at_source a else apply_refuse (at_source a) (lo_checkpoint st))"
  "lo_last_compiled (attempt_step a st) = Some (at_compiled a)"
proof -
  let ?ck = "lo_checkpoint st"
  have "lo_code (attempt_step a st) =
     (if at_compiled a then at_source a else apply_refuse (at_source a) ?ck) \<and>
     lo_last_compiled (attempt_step a st) = Some (at_compiled a)"
  proof (cases "restore_target ?ck")
    case None
    then show ?thesis
      by (simp add: attempt_step_def Let_def should_emit_adopt_refusal_def should_refuse_def apply_refuse_def)
  next
    case (Some s)
    then show ?thesis
      using build_fields_total [OF Some, of "at_number a" "at_artifact a"]
      by (auto simp: attempt_step_def Let_def should_emit_adopt_refusal_def should_refuse_def)
  qed
  then show "lo_code (attempt_step a st) =
     (if at_compiled a then at_source a else apply_refuse (at_source a) ?ck)"
    "lo_last_compiled (attempt_step a st) = Some (at_compiled a)" by simp_all
qed

lemma find_revD: "find P (rev xs) = Some x \<Longrightarrow> x \<in> set xs \<and> P x"
  by (metis find_Some_iff nth_mem set_rev)

text \<open>The invariant of the machine: a real slot comes with a compiled one, and holds a real body.\<close>

definition slots_ok :: "loop_state \<Rightarrow> bool" where
  "slots_ok st \<longleftrightarrow>
     (ck_non_vacuous (lo_checkpoint st) \<noteq> None \<longrightarrow> ck_any_compile (lo_checkpoint st) \<noteq> None) \<and>
     (\<forall>s \<in> set_option (ck_non_vacuous (lo_checkpoint st)). sl_compiled_real s) \<and>
     (lo_last_compiled st = Some True \<longrightarrow> restore_target (lo_checkpoint st) \<noteq> None) \<and>
     (lo_last_compiled st = Some False \<longrightarrow> restore_target (lo_checkpoint st) \<noteq> None \<longrightarrow>
        lo_code st = apply_refuse [] (lo_checkpoint st))"

interpretation chk: guarded_machine attempt_step loop_start slots_ok
proof
  show "slots_ok loop_start" by (simp add: slots_ok_def loop_start_def empty_checkpoint_def)
  show "slots_ok (attempt_step a st)" if "slots_ok st" for a st
    using that
    by (auto simp: slots_ok_def attempt_step_checkpoint attempt_step_code restore_target_def apply_refuse_def
        slot_of_def really_def split: option.splits)
qed

lemma run_checkpoint:
  "lo_checkpoint (fold attempt_step as loop_start) =
     \<lparr>ck_non_vacuous = last_such really as, ck_any_compile = last_such at_compiled as\<rparr>"
proof (induction as rule: rev_induct)
  case (snoc a as)
  then show ?case by (auto simp: attempt_step_checkpoint last_such_def dest: really_compiled)
qed (simp add: loop_start_def empty_checkpoint_def last_such_def)

lemma run_last_compiled:
  "as \<noteq> [] \<Longrightarrow> lo_last_compiled (fold attempt_step as loop_start) = Some (at_compiled (last as))"
  by (cases as rule: rev_cases) (simp_all add: attempt_step_code)

section \<open>Properties\<close>

text \<open>The checkpoint is a function of the history. After any sequence of attempts the any-compile slot
  is the last attempt that compiled and the non-vacuous slot the last that compiled without
  defects; and the machine's invariant holds: a failed attempt never stays on the active path once
  there is something to restore.\<close>

lemma checkpoint_history:
  "lo_checkpoint (fold attempt_step as loop_start) =
     \<lparr>ck_non_vacuous = map_option slot_of (find really (rev as)),
      ck_any_compile = map_option slot_of (find at_compiled (rev as))\<rparr> \<and>
   slots_ok (fold attempt_step as loop_start)"
  using run_checkpoint [of as] chk.inv_reachable [of as] by (simp add: last_such_def)


definition witness_attempts :: "attempt list" where
  "witness_attempts = [\<lparr>at_source = ''good'', at_number = 1, at_artifact = ''a1'', at_compiled = True, at_defects = [], at_passed = False\<rparr>,
     \<lparr>at_source = ''bad'', at_number = 2, at_artifact = ''a2'', at_compiled = False, at_defects = [], at_passed = False\<rparr>]"


end
