(* ===== verification/Proof_Patch.thy ===== *)
theory Proof_Patch
  imports Py_Regex Py_Json
begin

text \<open>
  Turning a report's illustrative diff into a patch (\<open>proof/patch_reconstruct.py\<close>). A parsed block is
  a list of files with hunks; a hunk is anchored at the one source line that equals its anchor up
  to surrounding space, its context and removal lines are compared with the source as they stand,
  and the outcome is a numbered hunk or the exception \<open>ReconstructionRefused\<close>. The source reader is
  a parameter.

  The specification is the meaning of a unified diff, \<open>apply_hunks\<close>: a strict reader of numbered hunks
  that checks both line numbers, both counts and every context and removal line. The lemmas: an
  emitted hunk is accepted at its position and replaces exactly the lines the illustrative hunk
  names, the numbers account for the hunks before it, and a hunk is emitted exactly when its anchor
  is unique and its old lines follow it verbatim.
\<close>

section \<open>Parsing an illustrative block\<close>

datatype line_kind = Context | Removal | Addition

record patch_hunk =
  hk_anchor :: string
  hk_body :: "(line_kind \<times> string) list"

record file_patch =
  fl_path :: string
  fl_hunks :: "patch_hunk list"

definition refuse :: "string \<Rightarrow> string \<Rightarrow> 'a py" where
  "refuse reason detail =
     raise ''ReconstructionRefused'' (if detail \<noteq> [] then reason @ '': '' @ detail else reason)"

definition HUNK_MARKER :: regex where
  "HUNK_MARKER = rseq [RBol False, rlit ''@@'', ropt rws, RGrp 1 (RStar False (RChr (\<lambda>c. c \<noteq> CHR 0x0A))), rws0,
     ropt (rlit ''@''), ropt (rlit ''@''), rws0, REol False]"

definition REAL_HUNK :: regex where
  "REAL_HUNK = rseq [RBol True, rlit ''@@ -'', rdigit1, ropt (rseq [rlit '','', rdigit1]), rlit '' +'', rdigit1,
     ropt (rseq [rlit '','', rdigit1]), rlit '' @@'']"

definition strip_ab :: "string \<Rightarrow> string" where
  "strip_ab path = (if take 2 path \<in> {''a/'', ''b/''} then drop 2 path else path)"

text \<open>The files so far, and whether a hunk of the last file is open: \<open>cur\<close> is the last file and
  \<open>hunk\<close> its last hunk.\<close>

record parse_state =
  ps_files :: "file_patch list"
  ps_open :: bool

definition map_last :: "('a \<Rightarrow> 'a) \<Rightarrow> 'a list \<Rightarrow> 'a list" where
  "map_last f xs = (if xs = [] then [] else butlast xs @ [f (last xs)])"

definition push_hunk :: "string \<Rightarrow> file_patch list \<Rightarrow> file_patch list" where
  "push_hunk anchor = map_last (\<lambda>f. f\<lparr>fl_hunks := fl_hunks f @ [\<lparr>hk_anchor = anchor, hk_body = []\<rparr>]\<rparr>)"

definition push_line :: "line_kind \<Rightarrow> string \<Rightarrow> file_patch list \<Rightarrow> file_patch list" where
  "push_line k t = map_last (\<lambda>f. f\<lparr>fl_hunks := map_last (\<lambda>h. h\<lparr>hk_body := hk_body h @ [(k, t)]\<rparr>) (fl_hunks f)\<rparr>)"

definition parse_line :: "string \<Rightarrow> parse_state \<Rightarrow> parse_state py" where
  "parse_line raw st =
     (if py_startswith raw ''--- '' then Inr st
      else if py_startswith raw ''+++ ''
      then Inr \<lparr>ps_files = ps_files st @ [\<lparr>fl_path = strip_ab (py_strip (drop 4 raw)), fl_hunks = []\<rparr>], ps_open = False\<rparr>
      else case (re_match_start HUNK_MARKER raw, py_startswith raw ''@@'') of
             (Some m, True) \<Rightarrow>
               if ps_files st = [] then refuse ''malformed'' ''hunk before any file header''
               else Inr \<lparr>ps_files = push_hunk (m_group raw 1 m) (ps_files st), ps_open = True\<rparr>
           | _ \<Rightarrow>
               if \<not> ps_open st then Inr st
               else if py_startswith raw ''+'' then Inr (st\<lparr>ps_files := push_line Addition (drop 1 raw) (ps_files st)\<rparr>)
               else if py_startswith raw ''-'' then Inr (st\<lparr>ps_files := push_line Removal (drop 1 raw) (ps_files st)\<rparr>)
               else Inr (st\<lparr>ps_files := push_line Context
                      (if py_startswith raw '' '' then drop 1 raw else raw) (ps_files st)\<rparr>))"

definition parse_illustrative :: "string \<Rightarrow> file_patch list py" where
  "parse_illustrative block =
     bindE (foldE parse_line (py_splitlines block) \<lparr>ps_files = [], ps_open = False\<rparr>) (\<lambda>st.
       if ps_files st = [] \<or> \<not> list_ex (\<lambda>f. fl_hunks f \<noteq> []) (ps_files st)
       then refuse ''malformed'' ''no file section or no hunk found'' else Inr (ps_files st))"

section \<open>Reconstructing a hunk\<close>

definition anchor_hits :: "string list \<Rightarrow> string \<Rightarrow> nat list" where
  "anchor_hits ls anchor = filter (\<lambda>i. py_strip (ls ! i) = py_strip anchor) [0..<length ls]"

definition locate_anchor :: "string list \<Rightarrow> string \<Rightarrow> nat py" where
  "locate_anchor ls anchor =
     (let hits = anchor_hits ls anchor in
      if hits = [] then refuse ''anchor_not_found'' anchor
      else if length hits > 1
      then refuse ''anchor_ambiguous'' (anchor @ '' ('' @ nat_str (length hits) @ '' matches)'')
      else Inr (hits ! 0))"

definition TRAILING_CONTEXT :: nat where "TRAILING_CONTEXT = 3"

record hunk_state =
  hs_out :: "string list"
  hs_old :: nat
  hs_new :: nat
  hs_si :: nat

text \<open>One line of a hunk's body, with the next source line at \<open>hs_si\<close>.\<close>

definition hunk_line :: "string list \<Rightarrow> line_kind \<times> string \<Rightarrow> hunk_state \<Rightarrow> hunk_state py" where
  "hunk_line ls kt st =
     (let (kind, text) = kt; si = hs_si st in
      if kind = Addition then Inr (st\<lparr>hs_out := hs_out st @ [''+'' @ text], hs_new := hs_new st + 1\<rparr>)
      else if length ls \<le> si \<or> ls ! si \<noteq> text
      then refuse ''context_mismatch'' (''expected '' @ py_repr_str text @ '' at source line '' @ nat_str (si + 1)
             @ '', found '' @ py_repr_str (if si < length ls then ls ! si else ''<EOF>''))
      else Inr \<lparr>hs_out = hs_out st @ [(if kind = Context then '' '' else ''-'') @ text], hs_old = hs_old st + 1,
                hs_new = (if kind = Context then hs_new st + 1 else hs_new st), hs_si = si + 1\<rparr>)"

definition trailing_lines :: "string list \<Rightarrow> (line_kind \<times> string) list \<Rightarrow> nat \<Rightarrow> string list" where
  "trailing_lines ls body si =
     (if body \<noteq> [] \<and> fst (last body) \<noteq> Context
      then let limit = (if ls \<noteq> [] \<and> last ls = [] then length ls - 1 else length ls)
           in map (\<lambda>j. ls ! j) [si..<min (si + TRAILING_CONTEXT) limit]
      else [])"

record numbered_hunk =
  uh_old_start :: nat
  uh_old_count :: nat
  uh_new_start :: int
  uh_new_count :: nat
  uh_lines :: "string list"

definition numbered :: "string list \<Rightarrow> patch_hunk \<Rightarrow> int \<Rightarrow> numbered_hunk py" where
  "numbered ls hunk delta =
     bindE (locate_anchor ls (hk_anchor hunk)) (\<lambda>i.
     bindE (foldE (hunk_line ls) (hk_body hunk)
              \<lparr>hs_out = ['' '' @ ls ! i], hs_old = 1, hs_new = 1, hs_si = i + 1\<rparr>) (\<lambda>st.
       let tr = trailing_lines ls (hk_body hunk) (hs_si st) in
       Inr \<lparr>uh_old_start = i + 1, uh_old_count = hs_old st + length tr, uh_new_start = int (i + 1) + delta,
            uh_new_count = hs_new st + length tr, uh_lines = hs_out st @ map (\<lambda>l. '' '' @ l) tr\<rparr>))"

definition hunk_header :: "numbered_hunk \<Rightarrow> string" where
  "hunk_header u = ''@@ -'' @ nat_str (uh_old_start u) @ '','' @ nat_str (uh_old_count u) @ '' +''
     @ int_str (uh_new_start u) @ '','' @ nat_str (uh_new_count u) @ '' @@''"

definition hunk_delta :: "numbered_hunk \<Rightarrow> int" where
  "hunk_delta u = int (uh_new_count u) - int (uh_old_count u)"

definition reconstruct_hunk :: "string list \<Rightarrow> patch_hunk \<Rightarrow> int \<Rightarrow> (string \<times> int) py" where
  "reconstruct_hunk ls hunk delta =
     bindE (numbered ls hunk delta) (\<lambda>u. Inr (py_join nl (hunk_header u # uh_lines u), hunk_delta u))"

text \<open>The hunks of a file, each with the line change of those before it.\<close>

fun reconstruct_hunks :: "string list \<Rightarrow> patch_hunk list \<Rightarrow> int \<Rightarrow> string list py" where
  "reconstruct_hunks ls [] delta = Inr []"
| "reconstruct_hunks ls (h # hs) delta =
     bindE (reconstruct_hunk ls h delta) (\<lambda>(text, d).
     bindE (reconstruct_hunks ls hs (delta + d)) (\<lambda>ts. Inr (text # ts)))"

definition reconstruct_file :: "(string \<Rightarrow> string option) \<Rightarrow> file_patch \<Rightarrow> string list py" where
  "reconstruct_file read_source fp =
     (case read_source (fl_path fp) of
        None \<Rightarrow> refuse ''file_not_found'' (fl_path fp)
      | Some src \<Rightarrow>
          bindE (reconstruct_hunks (py_split (CHR 0x0A) src) (fl_hunks fp) 0) (\<lambda>ts.
            Inr ([''--- a/'' @ fl_path fp, ''+++ b/'' @ fl_path fp] @ ts)))"

definition reconstruct :: "string \<Rightarrow> (string \<Rightarrow> string option) \<Rightarrow> string py" where
  "reconstruct block read_source =
     (if re_search REAL_HUNK block \<noteq> None
      then Inr (if drop (length block - 1) block = nl then block else block @ nl)
      else bindE (parse_illustrative block) (\<lambda>files.
           bindE (mapE (reconstruct_file read_source) files) (\<lambda>parts. Inr (py_join nl (concat parts) @ nl))))"

section \<open>The meaning of a numbered hunk\<close>

text \<open>The lines of a hunk against the old lines: what they become and what is left.\<close>

fun apply_lines :: "string list \<Rightarrow> string list \<Rightarrow> (string list \<times> string list) option" where
  "apply_lines [] old = Some ([], old)"
| "apply_lines ([] # ls) old = None"
| "apply_lines ((c # t) # ls) old =
     (if c = CHR ''+'' then map_option (\<lambda>(new, rest). (t # new, rest)) (apply_lines ls old)
      else case old of
             [] \<Rightarrow> None
           | l # old' \<Rightarrow>
               if l \<noteq> t then None
               else if c = CHR '' '' then map_option (\<lambda>(new, rest). (t # new, rest)) (apply_lines ls old')
               else if c = CHR ''-'' then apply_lines ls old' else None)"

text \<open>A strict reader of a file's hunks: \<open>p\<close> old lines and \<open>q\<close> new lines are done, \<open>old\<close> is what is
  left. A hunk has to start there or later on both sides, and its counts have to be right.\<close>

fun apply_hunks :: "numbered_hunk list \<Rightarrow> nat \<Rightarrow> nat \<Rightarrow> string list \<Rightarrow> string list option" where
  "apply_hunks [] p q old = Some old"
| "apply_hunks (u # us) p q old =
     (let skip = uh_old_start u - 1 - p in
      if p < uh_old_start u \<and> skip \<le> length old \<and> uh_new_start u = int (q + skip + 1)
      then case apply_lines (uh_lines u) (drop skip old) of
             None \<Rightarrow> None
           | Some (new, rest) \<Rightarrow>
               if length new = uh_new_count u \<and> length rest + uh_old_count u + skip = length old
               then map_option (\<lambda>tl. take skip old @ new @ tl)
                      (apply_hunks us (p + skip + uh_old_count u) (q + skip + uh_new_count u) rest)
               else None
      else None)"

text \<open>What an illustrative hunk asks for: its old lines and the lines that stand there afterwards.\<close>

definition old_side :: "(line_kind \<times> string) list \<Rightarrow> string list" where
  "old_side body = map snd (filter (\<lambda>kt. fst kt \<noteq> Addition) body)"

definition new_side :: "(line_kind \<times> string) list \<Rightarrow> string list" where
  "new_side body = map snd (filter (\<lambda>kt. fst kt \<noteq> Removal) body)"

lemma old_side_simps [simp]:
  "old_side [] = []" "old_side ((k, t) # body) = (if k = Addition then old_side body else t # old_side body)"
  by (simp_all add: old_side_def)

lemma new_side_simps [simp]:
  "new_side [] = []" "new_side ((k, t) # body) = (if k = Removal then new_side body else t # new_side body)"
  by (simp_all add: new_side_def)

lemma apply_lines_append:
  assumes "apply_lines as old = Some (new, rest)" "apply_lines bs rest = Some (new', rest')"
  shows "apply_lines (as @ bs) old = Some (new @ new', rest')"
  using assms
  by (induction as old arbitrary: new rule: apply_lines.induct) (auto split: if_splits list.splits)

lemma apply_lines_context: "apply_lines (map (\<lambda>l. '' '' @ l) ts) (ts @ rest) = Some (ts, rest)"
  by (induction ts) auto

lemma hunk_lines_ok:
  assumes "foldE (hunk_line ls) body st = Inr st'" "hs_si st \<le> length ls"
  obtains d where "hs_out st' = hs_out st @ d" "hs_si st' = hs_si st + length (old_side body)"
    "hs_old st' = hs_old st + length (old_side body)" "hs_new st' = hs_new st + length (new_side body)"
    "hs_si st' \<le> length ls" "take (length (old_side body)) (drop (hs_si st) ls) = old_side body"
    "apply_lines d (drop (hs_si st) ls) = Some (new_side body, drop (hs_si st') ls)"
  using assms
proof (induction body arbitrary: st thesis)
  case Nil
  then show ?case by simp
next
  case (Cons kt body)
  obtain k t where kt: "kt = (k, t)" by (cases kt)
  from Cons.prems(2) obtain st1 where st1: "hunk_line ls kt st = Inr st1"
    and rest: "foldE (hunk_line ls) body st1 = Inr st'" by (auto simp: bindE_Inr)
  have b: "hs_si st1 \<le> length ls"
    using st1 Cons.prems(3) by (auto simp: hunk_line_def kt refuse_def Let_def split: if_splits)
  obtain d where d: "hs_out st' = hs_out st1 @ d" "hs_si st' = hs_si st1 + length (old_side body)"
    "hs_old st' = hs_old st1 + length (old_side body)" "hs_new st' = hs_new st1 + length (new_side body)"
    "hs_si st' \<le> length ls" "take (length (old_side body)) (drop (hs_si st1) ls) = old_side body"
    "apply_lines d (drop (hs_si st1) ls) = Some (new_side body, drop (hs_si st') ls)"
    using Cons.IH [OF _ rest b] by blast
  show ?case
  proof (cases "k = Addition")
    case True
    with st1 have "st1 = st\<lparr>hs_out := hs_out st @ [''+'' @ t], hs_new := hs_new st + 1\<rparr>"
      by (simp add: hunk_line_def kt Let_def)
    with d True show ?thesis by (intro Cons.prems(1) [of "(''+'' @ t) # d"]) (simp_all add: kt)
  next
    case False
    with st1 have s: "hs_si st < length ls" "ls ! hs_si st = t"
      and st1': "st1 = \<lparr>hs_out = hs_out st @ [(if k = Context then '' '' else ''-'') @ t], hs_old = hs_old st + 1,
                hs_new = (if k = Context then hs_new st + 1 else hs_new st), hs_si = hs_si st + 1\<rparr>"
      by (auto simp: hunk_line_def kt refuse_def Let_def split: if_splits)
    from s have dr: "drop (hs_si st) ls = t # drop (hs_si st1) ls" by (simp add: st1' Cons_nth_drop_Suc [symmetric])
    from False have "k = Context \<or> k = Removal" by (cases k) auto
    with d show ?thesis
      by (intro Cons.prems(1) [of "((if k = Context then '' '' else ''-'') @ t) # d"])
        (auto simp: kt st1' dr simp del: drop_Suc)
  qed
qed

lemma hunk_lines_total:
  assumes "hs_si st \<le> length ls" "take (length (old_side body)) (drop (hs_si st) ls) = old_side body"
  shows "\<exists>st'. foldE (hunk_line ls) body st = Inr st'"
  using assms
proof (induction body arbitrary: st)
  case (Cons kt body)
  obtain k t where kt: "kt = (k, t)" by (cases kt)
  show ?case
  proof (cases "k = Addition")
    case True
    with Cons show ?thesis by (simp add: kt hunk_line_def Let_def)
  next
    case False
    with Cons.prems have "drop (hs_si st) ls \<noteq> []" by (cases "drop (hs_si st) ls") (simp_all add: kt)
    then have lt: "hs_si st < length ls" by simp
    then have dr: "drop (hs_si st) ls = ls ! hs_si st # drop (Suc (hs_si st)) ls" by (simp add: Cons_nth_drop_Suc)
    with Cons.prems(2) False have "ls ! hs_si st = t"
      and "take (length (old_side body)) (drop (Suc (hs_si st)) ls) = old_side body" by (simp_all add: kt)
    with lt False Cons.IH show ?thesis by (simp add: kt hunk_line_def Let_def)
  qed
qed simp

subsection \<open>An emitted hunk is accepted\<close>

lemma map_nth_upt_slice: "n \<le> length xs \<Longrightarrow> map (\<lambda>j. xs ! j) [m..<n] = take (n - m) (drop m xs)"
  by (rule nth_equalityI) simp_all

lemma trailing_take:
  "\<exists>k. trailing_lines ls body si = take k (drop si ls) \<and> (si \<le> length ls \<longrightarrow> si + k \<le> length ls) \<and>
     (si \<le> length ls \<longrightarrow> length (trailing_lines ls body si) = k)"
proof (cases "body \<noteq> [] \<and> fst (last body) \<noteq> Context")
  case True
  let ?m = "min (si + TRAILING_CONTEXT) (if ls \<noteq> [] \<and> last ls = [] then length ls - 1 else length ls)"
  have m: "?m \<le> length ls" by auto
  have "map (\<lambda>j. ls ! j) [si..<?m] = take (?m - si) (drop si ls)"
    by (rule map_nth_upt_slice [OF m])
  with True m show ?thesis
    by (intro exI [of _ "?m - si"]) (auto simp: trailing_lines_def Let_def)
qed (auto simp: trailing_lines_def)

lemma locate_anchor_iff: "locate_anchor ls anchor = Inr i \<longleftrightarrow> anchor_hits ls anchor = [i]"
  by (cases "anchor_hits ls anchor") (auto simp: locate_anchor_def refuse_def Let_def)

lemma anchor_hits_single: "anchor_hits ls anchor = [i] \<Longrightarrow> i < length ls \<and> py_strip (ls ! i) = py_strip anchor"
proof -
  assume "anchor_hits ls anchor = [i]"
  then have "i \<in> set (anchor_hits ls anchor)" by simp
  then show ?thesis by (simp add: anchor_hits_def)
qed

definition edit_of :: "string list \<Rightarrow> patch_hunk \<Rightarrow> nat \<times> nat \<times> string list" where
  "edit_of ls h = (hd (anchor_hits ls (hk_anchor h)) + 1, length (old_side (hk_body h)), new_side (hk_body h))"

lemma numbered_emit:
  assumes "numbered ls h delta = Inr u"
  obtains i k where "anchor_hits ls (hk_anchor h) = [i]" "i < length ls"
    "uh_old_start u = i + 1" "uh_new_start u = int (i + 1) + delta"
    "uh_old_count u = 1 + length (old_side (hk_body h)) + k"
    "uh_new_count u = 1 + length (new_side (hk_body h)) + k" "i + uh_old_count u \<le> length ls"
    "apply_lines (uh_lines u) (drop i ls) =
       Some (ls ! i # new_side (hk_body h) @ take k (drop (i + 1 + length (old_side (hk_body h))) ls),
             drop (i + uh_old_count u) ls)"
    "take (length (old_side (hk_body h))) (drop (i + 1) ls) = old_side (hk_body h)"
proof -
  let ?s0 = "\<lambda>i. \<lparr>hs_out = ['' '' @ ls ! i], hs_old = 1, hs_new = 1, hs_si = i + 1\<rparr>"
  let ?n = "length (old_side (hk_body h))"
  from assms obtain i st where i: "anchor_hits ls (hk_anchor h) = [i]"
    and st: "foldE (hunk_line ls) (hk_body h) (?s0 i) = Inr st"
    and u: "u = (let tr = trailing_lines ls (hk_body h) (hs_si st) in
       \<lparr>uh_old_start = i + 1, uh_old_count = hs_old st + length tr, uh_new_start = int (i + 1) + delta,
            uh_new_count = hs_new st + length tr, uh_lines = hs_out st @ map (\<lambda>l. '' '' @ l) tr\<rparr>)"
    by (auto simp: numbered_def bindE_Inr locate_anchor_iff Let_def)
  have lt: "i < length ls" using anchor_hits_single [OF i] ..
  obtain d where d: "hs_out st = ['' '' @ ls ! i] @ d" "hs_si st = i + 1 + ?n" "hs_old st = 1 + ?n"
    "hs_new st = 1 + length (new_side (hk_body h))" "hs_si st \<le> length ls"
    "take ?n (drop (i + 1) ls) = old_side (hk_body h)"
    "apply_lines d (drop (i + 1) ls) = Some (new_side (hk_body h), drop (hs_si st) ls)"
    by (rule hunk_lines_ok [OF st]) (use lt in auto)
  let ?tr = "trailing_lines ls (hk_body h) (hs_si st)"
  obtain k where k: "?tr = take k (drop (hs_si st) ls)" "hs_si st + k \<le> length ls" "length ?tr = k"
    using trailing_take [of ls "hk_body h" "hs_si st"] d(5) by auto
  have "drop (hs_si st) ls = ?tr @ drop (hs_si st + k) ls"
    using k by (metis append_take_drop_id drop_drop add.commute)
  then have t: "apply_lines (map (\<lambda>l. '' '' @ l) ?tr) (drop (hs_si st) ls) = Some (?tr, drop (hs_si st + k) ls)"
    using apply_lines_context by metis
  have dr: "drop i ls = ls ! i # drop (i + 1) ls" using lt by (simp add: Cons_nth_drop_Suc)
  have "apply_lines (uh_lines u) (drop i ls) = Some (ls ! i # new_side (hk_body h) @ ?tr, drop (hs_si st + k) ls)"
    using apply_lines_append [OF d(7) t] by (simp add: u Let_def d(1) dr)
  moreover have oc: "uh_old_count u = 1 + ?n + k" and nc: "uh_new_count u = 1 + length (new_side (hk_body h)) + k"
    using d(3,4) k(3) by (simp_all add: u Let_def)
  moreover have end_pos: "hs_si st + k = i + uh_old_count u" using d(2) oc by simp
  ultimately have ap: "apply_lines (uh_lines u) (drop i ls) =
      Some (ls ! i # new_side (hk_body h) @ take k (drop (i + 1 + ?n) ls), drop (i + uh_old_count u) ls)"
    by (simp only: d(2) k(1) [unfolded d(2)])
  have "i + uh_old_count u \<le> length ls" using k(2) end_pos by simp
  moreover have "uh_old_start u = i + 1" "uh_new_start u = int (i + 1) + delta" by (simp_all add: u Let_def)
  ultimately show thesis using that [OF i lt _ _ oc nc _ ap d(6)] by blast
qed

subsection \<open>A file's hunks\<close>

fun numbered_hunks :: "string list \<Rightarrow> patch_hunk list \<Rightarrow> int \<Rightarrow> numbered_hunk list py" where
  "numbered_hunks ls [] delta = Inr []"
| "numbered_hunks ls (h # hs) delta =
     bindE (numbered ls h delta) (\<lambda>u. bindE (numbered_hunks ls hs (delta + hunk_delta u)) (\<lambda>us. Inr (u # us)))"

lemma reconstruct_hunks_numbered:
  "reconstruct_hunks ls hs delta =
     bindE (numbered_hunks ls hs delta) (\<lambda>us. Inr (map (\<lambda>u. py_join nl (hunk_header u # uh_lines u)) us))"
  by (induction hs arbitrary: delta) (auto simp: reconstruct_hunk_def bindE_def split: sum.split)

text \<open>The hunks come in order and do not overlap.\<close>

fun in_order :: "nat \<Rightarrow> numbered_hunk list \<Rightarrow> bool" where
  "in_order p [] = True"
| "in_order p (u # us) = (p < uh_old_start u \<and> in_order (uh_old_start u - 1 + uh_old_count u) us)"

text \<open>The edits of the illustrative hunks, carried out in the source.\<close>

fun splice_edits :: "(nat \<times> nat \<times> string list) list \<Rightarrow> nat \<Rightarrow> string list \<Rightarrow> string list" where
  "splice_edits [] p ls = drop p ls"
| "splice_edits ((i, n, new) # es) p ls = take (i - p) (drop p ls) @ new @ splice_edits es (i + n) ls"

lemma splice_edits_shift:
  assumes "\<forall>e \<in> set es. p + k \<le> fst e" "p + k \<le> length ls"
  shows "splice_edits es p ls = take k (drop p ls) @ splice_edits es (p + k) ls"
proof (cases es)
  case Nil
  then show ?thesis by (simp add: add.commute) (metis append_take_drop_id drop_drop add.commute)
next
  case (Cons e es')
  obtain i n new where e: "e = (i, n, new)" by (cases e)
  with Cons assms have "p + k \<le> i" by simp
  then have "take (i - p) (drop p ls) = take k (drop p ls) @ take (i - (p + k)) (drop (p + k) ls)"
    by (metis add.commute drop_drop le_add_diff_inverse take_add diff_diff_left add_le_imp_le_diff)
  then show ?thesis by (simp add: Cons e)
qed

lemma apply_numbered:
  assumes "numbered_hunks ls hs delta = Inr us" "in_order p us" "delta = int q - int p" "p \<le> length ls"
  shows "apply_hunks us p q (drop p ls) = Some (splice_edits (map (edit_of ls) hs) p ls) \<and>
    (\<forall>e \<in> set (map (edit_of ls) hs). p < fst e)"
  using assms
proof (induction hs arbitrary: delta us p q)
  case (Cons h hs)
  from Cons.prems(1) obtain u us' where u: "numbered ls h delta = Inr u"
    and us': "numbered_hunks ls hs (delta + hunk_delta u) = Inr us'" and us: "us = u # us'"
    by (auto simp: bindE_Inr)
  obtain i k where e: "anchor_hits ls (hk_anchor h) = [i]" "i < length ls"
    "uh_old_start u = i + 1" "uh_new_start u = int (i + 1) + delta"
    "uh_old_count u = 1 + length (old_side (hk_body h)) + k"
    "uh_new_count u = 1 + length (new_side (hk_body h)) + k" "i + uh_old_count u \<le> length ls"
    "apply_lines (uh_lines u) (drop i ls) =
       Some (ls ! i # new_side (hk_body h) @ take k (drop (i + 1 + length (old_side (hk_body h))) ls),
             drop (i + uh_old_count u) ls)"
    by (rule numbered_emit [OF u])
  let ?p' = "i + uh_old_count u" and ?n = "length (old_side (hk_body h))"
  let ?q' = "q + (i - p) + uh_new_count u"
  from Cons.prems(2) have pi: "p \<le> i" and ord: "in_order ?p' us'" by (simp_all add: us e(3))
  have IH: "apply_hunks us' ?p' ?q' (drop ?p' ls) = Some (splice_edits (map (edit_of ls) hs) ?p' ls)"
    "\<forall>e \<in> set (map (edit_of ls) hs). ?p' < fst e"
    using Cons.IH [OF us' ord, of ?q'] e(7) pi Cons.prems(3) by (auto simp: hunk_delta_def of_nat_diff)
  have shift: "splice_edits (map (edit_of ls) hs) (i + 1 + ?n) ls =
      take k (drop (i + 1 + ?n) ls) @ splice_edits (map (edit_of ls) hs) ?p' ls"
    using splice_edits_shift [of "map (edit_of ls) hs" "i + 1 + ?n" k ls] IH(2) e(5,7) by (fastforce simp: add.assoc)
  have tk: "take (i + 1 - p) (drop p ls) = take (i - p) (drop p ls) @ [ls ! i]"
    using pi e(2) by (simp add: Suc_diff_le take_Suc_conv_app_nth)
  have edit: "edit_of ls h = (i + 1, ?n, new_side (hk_body h))" by (simp add: edit_of_def e(1))
  have lens: "p < length ls" "i - p \<le> length ls - p" "Suc (length ls - Suc p) = length ls - p" using pi e(2) by auto
  have "drop (i - p) (drop p ls) = drop i ls" using pi by simp
  then have "apply_hunks us p q (drop p ls) =
      Some (take (i - p) (drop p ls) @ (ls ! i # new_side (hk_body h) @ take k (drop (i + 1 + ?n) ls)) @
        splice_edits (map (edit_of ls) hs) ?p' ls)"
    using pi e Cons.prems(3) IH(1) lens by (simp add: us Let_def of_nat_diff add.assoc)
  then show ?case using IH(2) pi shift tk by (auto simp: edit e(5))
qed simp

section \<open>Properties\<close>

text \<open>C8: a reconstructed patch does what the report shows. The texts of a file's hunks are those of
  numbered hunks, and when these come in order without overlapping, a strict reader of unified diffs
  accepts all of them, line numbers, counts, context and removals, and what it produces is the
  source with each hunk's old lines below its anchor replaced by its new ones.\<close>

theorem patch_applies:
  assumes "reconstruct_hunks ls hs 0 = Inr texts"
  shows "\<exists>us. texts = map (\<lambda>u. py_join nl (hunk_header u # uh_lines u)) us \<and> length us = length hs \<and>
    (in_order 0 us \<longrightarrow> apply_hunks us 0 0 ls = Some (splice_edits (map (edit_of ls) hs) 0 ls))"
proof -
  from assms obtain us where us: "numbered_hunks ls hs 0 = Inr us"
    and t: "texts = map (\<lambda>u. py_join nl (hunk_header u # uh_lines u)) us"
    by (auto simp: reconstruct_hunks_numbered bindE_Inr)
  have "length us = length hs" if "numbered_hunks ls hs d = Inr us" for d
    using that by (induction hs arbitrary: us d) (auto simp: bindE_Inr)
  with us t apply_numbered [OF us, of 0 0] show ?thesis by auto
qed

text \<open>Reconstruction refuses whenever it is not certain. A hunk is emitted exactly when one source
  line, and no other, equals its anchor up to surrounding space and the context and removal lines
  follow that line verbatim; the two conditions do not depend on earlier hunks.\<close>

lemma hunk_emitted_iff:
  "(\<exists>r. reconstruct_hunk ls h delta = Inr r) \<longleftrightarrow>
     (\<exists>i. i < length ls \<and> py_strip (ls ! i) = py_strip (hk_anchor h) \<and>
        length (anchor_hits ls (hk_anchor h)) = 1 \<and>
        take (length (old_side (hk_body h))) (drop (i + 1) ls) = old_side (hk_body h))"
proof
  assume "\<exists>r. reconstruct_hunk ls h delta = Inr r"
  then obtain u where "numbered ls h delta = Inr u" by (auto simp: reconstruct_hunk_def bindE_Inr)
  then show "\<exists>i. i < length ls \<and> py_strip (ls ! i) = py_strip (hk_anchor h) \<and>
        length (anchor_hits ls (hk_anchor h)) = 1 \<and>
        take (length (old_side (hk_body h))) (drop (i + 1) ls) = old_side (hk_body h)"
  proof (rule numbered_emit)
    fix i
    assume "anchor_hits ls (hk_anchor h) = [i]"
      and "take (length (old_side (hk_body h))) (drop (i + 1) ls) = old_side (hk_body h)"
    with anchor_hits_single [of ls "hk_anchor h" i] show ?thesis by auto
  qed
next
  assume "\<exists>i. i < length ls \<and> py_strip (ls ! i) = py_strip (hk_anchor h) \<and>
        length (anchor_hits ls (hk_anchor h)) = 1 \<and>
        take (length (old_side (hk_body h))) (drop (i + 1) ls) = old_side (hk_body h)"
  then obtain i where i: "i < length ls" "py_strip (ls ! i) = py_strip (hk_anchor h)"
    "length (anchor_hits ls (hk_anchor h)) = 1"
    "take (length (old_side (hk_body h))) (drop (i + 1) ls) = old_side (hk_body h)" by blast
  then have "i \<in> set (anchor_hits ls (hk_anchor h))" by (simp add: anchor_hits_def)
  with i(3) have hits: "anchor_hits ls (hk_anchor h) = [i]"
    by (cases "anchor_hits ls (hk_anchor h)") auto
  have "\<exists>st'. foldE (hunk_line ls) (hk_body h)
      \<lparr>hs_out = ['' '' @ ls ! i], hs_old = 1, hs_new = 1, hs_si = i + 1\<rparr> = Inr st'"
    by (rule hunk_lines_total) (use i in auto)
  with hits show "\<exists>r. reconstruct_hunk ls h delta = Inr r"
    by (auto simp: reconstruct_hunk_def numbered_def locate_anchor_iff [THEN iffD2] Let_def)
qed

definition witness_source :: "string list" where
  "witness_source = [''contract A {'', ''  uint x;'', ''  function f() external {'', ''    x = 1;'', ''  }'', ''}'', '''']"

definition witness_hunks :: "patch_hunk list" where
  "witness_hunks = [\<lparr>hk_anchor = ''function f() external {'', hk_body = [(Removal, ''    x = 1;''), (Addition, ''    x = 2;''), (Addition, ''    g();'')]\<rparr>]"

lemma patch_applies_witness:
  "\<exists>us. reconstruct_hunks witness_source witness_hunks 0 = Inr (map (\<lambda>u. py_join nl (hunk_header u # uh_lines u)) us) \<and>
     length us = 1"
proof -
  obtain texts where t: "reconstruct_hunks witness_source witness_hunks 0 = Inr texts"
  proof -
    have "isl (reconstruct_hunks witness_source witness_hunks 0) = False" by code_simp
    then show thesis using that by (metis sum.collapse(2))
  qed
  from patch_applies [OF t] t show ?thesis by (auto simp: witness_hunks_def)
qed

text \<open>A block in the style of a report, and the patch it becomes.\<close>

lemma reconstruct_example:
  "reconstruct (py_join nl [''--- a/A.sol'', ''+++ b/A.sol'', ''@@ function f() external {'', ''-    x = 1;'', ''+    x = 2;''])
     (\<lambda>p. if p = ''A.sol'' then Some (py_join nl witness_source) else None) =
   Inr (py_join nl [''--- a/A.sol'', ''+++ b/A.sol'', ''@@ -3,4 +3,4 @@'', ''   function f() external {'', ''-    x = 1;'',
     ''+    x = 2;'', ''   }'', '' }'', ''''])"
  by code_simp

end
