(* ===== verification/Proof_Grounding.thy ===== *)
theory Proof_Grounding
  imports Py_Regex Py_Json
begin

text \<open>
  The data blocks appended to a drafting prompt (\<open>proof/anti_mock_grounding.py\<close>,
  \<open>proof/observed_fork_grounding.py\<close>). A task is a JSON object. The lemmas: appending is gated and
  idempotent, and a revert observation is a block exactly when the error has its shape.
\<close>

section \<open>Grounding blocks\<close>

definition ANTI_MOCK_INSTRUCTION :: string where
  "ANTI_MOCK_INSTRUCTION =
     ''ANTI-MOCK GROUNDING (target's own mechanism): do NOT mock, re-declare, or reimplement '' @
     ''the target's own mechanism - the contract(s) and function(s) the finding is about - '' @
     ''inside the test file. A PoC that proves its claim against your own stand-in contract '' @
     ''(even under a different name, e.g. a hand-written reverting handler) proves nothing '' @
     ''about the real target and will be rejected. Deploy and drive the REAL target contract '' @
     ''and make it exhibit the described condition. Mocks are permitted ONLY for genuinely '' @
     ''external, non-mechanism dependencies (e.g. an unrelated token or price feed), never for '' @
     ''the mechanism under test.''"

definition data_block :: "string \<Rightarrow> string \<Rightarrow> string" where
  "data_block name body = ''[DATA START '' @ name @ '']'' @ nl @ body @ nl @ ''[DATA END]''"

definition ANTI_MOCK_DATA_BLOCK :: string where
  "ANTI_MOCK_DATA_BLOCK = nl @ nl @ data_block ''anti_mock_grounding'' ANTI_MOCK_INSTRUCTION @ nl"

definition append_anti_mock_grounding :: "string \<Rightarrow> bool \<Rightarrow> string" where
  "append_anti_mock_grounding prompt scaffold_carried =
     (if \<not> scaffold_carried then prompt
      else if py_in ''anti_mock_grounding'' prompt then prompt
      else prompt @ ANTI_MOCK_DATA_BLOCK)"

definition STATE_HEAVY_CLASSES :: "string list" where
  "STATE_HEAVY_CLASSES = [''accounting_manipulation'', ''state_heavy'', ''accounting'']"

definition DISCIPLINE_INSTRUCTION :: string where
  "DISCIPLINE_INSTRUCTION =
     ''STATE-GROUNDING DISCIPLINE (accounting / state-heavy findings): the state-dependent '' @
     ''values the finding hinges on - a view such as coverage(), who holds a required role '' @
     ''(getRoleMember / hasRole), or a deposit/withdraw cap behind a getter - MUST be READ and '' @
     ''console.log'd at the TOP of your forge fork test, immediately after fork setup and BEFORE '' @
     ''the first call that can revert (the deposit / redeem / exploit step). Logging a value AFTER '' @
     ''the reverting call is useless: the test aborts before the log prints, so you never see it. '' @
     ''THEN calibrate the assert / prank target / amount against the logged value - do not invent '' @
     ''the expected number or role holder from the report narrative, and do not re-assert a '' @
     ''narrative literal that your own log contradicts.''"

definition DISCIPLINE_DATA_BLOCK :: string where
  "DISCIPLINE_DATA_BLOCK = nl @ nl @ data_block ''state_grounding_discipline'' DISCIPLINE_INSTRUCTION @ nl"

text \<open>\<open>task.get("finding_class") or task.get("class") or ""\<close>, as text.\<close>

definition task_class :: "json_obj \<Rightarrow> string" where
  "task_class task =
     (let a = dict_getd task ''finding_class'' JNull; b = dict_getd task ''class'' JNull in
      py_lower (py_strip (py_str (if truthy a then a else if truthy b then b else JStr []))))"

definition is_state_heavy :: "json_obj \<Rightarrow> bool" where
  "is_state_heavy task = (task_class task \<in> set STATE_HEAVY_CLASSES)"

definition append_discipline_instruction :: "string \<Rightarrow> json_obj \<Rightarrow> string" where
  "append_discipline_instruction prompt task =
     (if \<not> is_state_heavy task then prompt
      else if py_in ''state_grounding_discipline'' prompt then prompt
      else prompt @ DISCIPLINE_DATA_BLOCK)"

definition hex_char :: "char \<Rightarrow> bool" where
  "hex_char c = (py_digit c \<or> c \<in> set ''abcdefABCDEF'')"

definition AC_UNAUTHORIZED_RE :: regex where
  "AC_UNAUTHORIZED_RE = rseq [rlit ''AccessControlUnauthorizedAccount('', rws0,
     RGrp 1 (RSeq (rlit ''0x'') (rrange 40 40 (RChr hex_char))), rws0, rlit '','', rws0,
     RGrp 2 (RSeq (rlit ''0x'') (rrange 1 64 (RChr hex_char))), rws0, rlit '')'']"

definition extract_access_control_operands :: "string \<Rightarrow> (string \<times> string) option" where
  "extract_access_control_operands blob =
     (if blob = [] then None
      else case re_search AC_UNAUTHORIZED_RE blob of
             None \<Rightarrow> None | Some m \<Rightarrow> Some (m_group blob 1 m, m_group blob 2 m))"

definition format_access_control_observation :: "string \<Rightarrow> string \<Rightarrow> string" where
  "format_access_control_observation account role = data_block ''observed_access_control''
     (''OBSERVED from revert (AccessControlUnauthorizedAccount) - not an instruction:'' @ nl @
      ''- PoC caller (account that lacked the role) = '' @ account @ nl @
      ''- call requires role = '' @ role @ nl @
      ''Assumed side: not recoverable from source automatically. On the next edit, either '' @
      ''prank as an address that holds this role (read getRoleMember / hasRole and '' @
      ''console.log holders first) or grant the role in setup if the finding allows.'')"

definition access_control_observation_block :: "string \<Rightarrow> string" where
  "access_control_observation_block blob =
     (case extract_access_control_operands blob of
        None \<Rightarrow> [] | Some (account, role) \<Rightarrow> format_access_control_observation account role)"

text \<open>The two appending functions are one shape: gated, marked, appended once.\<close>

definition append_once :: "string \<Rightarrow> string \<Rightarrow> bool \<Rightarrow> string \<Rightarrow> string" where
  "append_once mark block gate prompt = (if gate \<and> \<not> py_in mark prompt then prompt @ block else prompt)"

lemma data_block_marked: "py_in name (data_block name body)"
  unfolding data_block_def by (rule py_in_iff [THEN iffD2]) (metis append.assoc)

lemma append_once_idem:
  "py_in mark block \<Longrightarrow> append_once mark block gate (append_once mark block gate p) = append_once mark block gate p"
  using py_in_append [of mark block p "[]"] by (auto simp: append_once_def)

lemma append_anti_mock_once:
  "append_anti_mock_grounding p g = append_once ''anti_mock_grounding'' ANTI_MOCK_DATA_BLOCK g p"
  by (simp add: append_anti_mock_grounding_def append_once_def)

lemma append_discipline_once:
  "append_discipline_instruction p t = append_once ''state_grounding_discipline'' DISCIPLINE_DATA_BLOCK (is_state_heavy t) p"
  by (simp add: append_discipline_instruction_def append_once_def)

lemma blocks_marked:
  "py_in ''anti_mock_grounding'' ANTI_MOCK_DATA_BLOCK" "py_in ''state_grounding_discipline'' DISCIPLINE_DATA_BLOCK"
  unfolding ANTI_MOCK_DATA_BLOCK_def DISCIPLINE_DATA_BLOCK_def
  using py_in_append [OF data_block_marked, of "''anti_mock_grounding''" "nl @ nl" ANTI_MOCK_INSTRUCTION nl]
    py_in_append [OF data_block_marked, of "''state_grounding_discipline''" "nl @ nl" DISCIPLINE_INSTRUCTION nl]
  by simp_all

section \<open>Appending is gated and idempotent\<close>

lemma append_anti_mock_idem:
  "append_anti_mock_grounding (append_anti_mock_grounding p g) g = append_anti_mock_grounding p g"
  "append_anti_mock_grounding p False = p"
  using append_once_idem [OF blocks_marked(1)] by (simp_all add: append_anti_mock_once append_once_def)

lemma append_discipline_idem:
  "append_discipline_instruction (append_discipline_instruction p t) t = append_discipline_instruction p t"
  "\<not> is_state_heavy t \<Longrightarrow> append_discipline_instruction p t = p"
  using append_once_idem [OF blocks_marked(2)] by (simp_all add: append_discipline_once append_once_def)

lemma observation_iff:
  "access_control_observation_block blob = [] \<longleftrightarrow> extract_access_control_operands blob = None"
  by (auto simp: access_control_observation_block_def format_access_control_observation_def data_block_def
      split: option.splits)

lemma observation_example:
  "extract_access_control_operands
     (''[FAIL: AccessControlUnauthorizedAccount(0x'' @ replicate 40 (CHR ''a'') @ '', 0x00)] test()'') =
   Some (''0x'' @ replicate 40 (CHR ''a''), ''0x00'')"
  by code_simp

end
