(* ===== verification/Proof_Causes.thy ===== *)
theory Proof_Causes
  imports Py_Json
begin

text \<open>
  The closed causes of a scaffold failure (\<open>proof/scaffold_causes.py\<close>) and their offline count
  (\<open>scripts/scaffold_taxonomy.py\<close>). A log line is a JSON object; a field used as a dictionary key
  must be hashable, or the count raises. A share is kept as its numerator and denominator, where
  the code divides them, and the models of a report are listed in the order they were met.

  The lemmas: every cause is a success, has one of three authors or is one of the three causes
  without one; the count takes every line once, as attributed, unattributed or passed over, and
  charges at most as many failures as it counts attempts.
\<close>

section \<open>Causes\<close>

definition SYNTHESIS_CAUSES :: "string list" where
  "SYNTHESIS_CAUSES = [''synthesized'', ''no_output:model'', ''no_output:crash'', ''no_build:path'',
     ''no_build:toolchain'', ''no_build:code'', ''no_build:infra'', ''repair_exhausted:resolvable'',
     ''repair_exhausted:unresolvable'']"

definition FINDING_CAUSES :: "string list" where
  "FINDING_CAUSES = [''proved'', ''base-insufficient'', ''lookup_failed'', ''model'', ''not_triggered'',
     ''not_attempted:budget'', ''unclassified'']"

definition NATURE :: "(string, string) dict" where
  "NATURE = [(''no_output:crash'', ''harness-infra''), (''no_build:path'', ''harness-infra''),
     (''no_build:toolchain'', ''harness-infra''), (''no_build:infra'', ''harness-infra''),
     (''repair_exhausted:resolvable'', ''harness-infra''), (''no_output:model'', ''synth-model''),
     (''no_build:code'', ''synth-model''), (''repair_exhausted:unresolvable'', ''synth-model''),
     (''base-insufficient'', ''harness-infra''), (''lookup_failed'', ''model''), (''model'', ''model'')]"

definition OK_CAUSES :: "string list" where
  "OK_CAUSES = [''synthesized'', ''proved'']"

definition NOT_IN_DENOM :: "string list" where
  "NOT_IN_DENOM = [''not_attempted:budget'']"

definition cause_nature :: "string \<Rightarrow> string option" where
  "cause_nature cause = dict_get NATURE cause"

definition is_ok :: "string \<Rightarrow> bool" where
  "is_ok cause = (cause \<in> set OK_CAUSES)"

definition in_denominator :: "string \<Rightarrow> bool" where
  "in_denominator cause = (cause \<notin> set NOT_IN_DENOM)"

definition classify_build_failure :: "string \<Rightarrow> string" where
  "classify_build_failure blob =
     (let b = py_lower blob in
      if (py_in ''no compiler versions'' b \<and> py_in ''available'' b) \<or> py_in ''no solc version'' b
      then ''no_build:toolchain''
      else if py_in ''not found'' b \<and> (py_in ''searched:'' b \<or> py_in ''source'' b)
      then ''no_build:path'' else ''no_build:code'')"

section \<open>The taxonomy\<close>

definition LEGACY_SCAFFOLD :: "string list" where
  "LEGACY_SCAFFOLD = [''scaffold_synthesis_failed'', ''scaffold_synthesized'', ''scaffold_insufficient'',
     ''scaffold_repair'', ''scaffold_repair_exhausted'']"

definition NATURES :: "string list" where
  "NATURES = [''harness-infra'', ''synth-model'', ''model'']"

definition fold_nature :: "string \<Rightarrow> string list \<Rightarrow> string option" where
  "fold_nature finding_cause synth_causes =
     (if is_ok finding_cause then None
      else let failed = filter (\<lambda>c. \<not> is_ok c) synth_causes in
           if failed \<noteq> [] then cause_nature (last failed) else cause_nature finding_cause)"

type_synonym 'k counter = "('k, nat) dict"

definition bump :: "'k \<Rightarrow> 'k counter \<Rightarrow> 'k counter" where
  "bump k c = dict_set k (dict_getd c k 0 + 1) c"

text \<open>\<open>d[k][x] += 1\<close> and \<open>d[k].append(x)\<close> in a \<open>defaultdict\<close>.\<close>

definition bump_in :: "'m \<Rightarrow> 'k \<Rightarrow> ('m, 'k counter) dict \<Rightarrow> ('m, 'k counter) dict" where
  "bump_in m k d = dict_set m (bump k (dict_getd d m [])) d"

definition append_in :: "'m \<Rightarrow> 'a \<Rightarrow> ('m, 'a list) dict \<Rightarrow> ('m, 'a list) dict" where
  "append_in m x d = dict_set m (dict_getd d m [] @ [x]) d"

record tax_state =
  ts_unattributed :: nat
  ts_synthesis :: "string counter"
  ts_finding :: "string counter"
  ts_model_synth :: "(json, string counter) dict"
  ts_model_find :: "(json, string counter) dict"
  ts_class_find :: "(json, string counter) dict"
  ts_synth_by_finding :: "(json \<times> json, string list) dict"
  ts_terminal :: "(json \<times> json, string) dict"

definition tax_start :: tax_state where
  "tax_start = \<lparr>ts_unattributed = 0, ts_synthesis = [], ts_finding = [], ts_model_synth = [], ts_model_find = [],
     ts_class_find = [], ts_synth_by_finding = [], ts_terminal = []\<rparr>"

definition hashable :: "json \<Rightarrow> bool" where
  "hashable v = (case v of JList _ \<Rightarrow> False | JObj _ \<Rightarrow> False | _ \<Rightarrow> True)"

definition need_hash :: "json \<Rightarrow> 'a py \<Rightarrow> 'a py" where
  "need_hash v k = (if hashable v then k else raise ''TypeError'' (''unhashable type: '' @ py_repr_str (type_name v)))"

text \<open>\<open>v in causes\<close>, or ``unclassified''.\<close>

definition known_cause :: "string list \<Rightarrow> json \<Rightarrow> string" where
  "known_cause causes v = (case v of JStr c \<Rightarrow> if c \<in> set causes then c else ''unclassified'' | _ \<Rightarrow> ''unclassified'')"

definition count_synthesis :: "json \<Rightarrow> json \<times> json \<Rightarrow> string \<Rightarrow> tax_state \<Rightarrow> tax_state" where
  "count_synthesis model key cause st =
     st\<lparr>ts_synthesis := bump cause (ts_synthesis st), ts_model_synth := bump_in model cause (ts_model_synth st),
        ts_synth_by_finding := append_in key cause (ts_synth_by_finding st)\<rparr>"

definition count_finding :: "json \<Rightarrow> json \<times> json \<Rightarrow> json \<Rightarrow> string \<Rightarrow> tax_state \<Rightarrow> tax_state" where
  "count_finding model key cls cause st =
     st\<lparr>ts_finding := bump cause (ts_finding st), ts_model_find := bump_in model cause (ts_model_find st),
        ts_class_find := (if truthy cls then bump_in cls cause (ts_class_find st) else ts_class_find st),
        ts_terminal := dict_set key cause (ts_terminal st)\<rparr>"

definition in_strings :: "string list \<Rightarrow> json \<Rightarrow> bool" where
  "in_strings xs v = (case v of JStr s \<Rightarrow> s \<in> set xs | _ \<Rightarrow> False)"

definition tax_event :: "json_obj \<Rightarrow> tax_state \<Rightarrow> tax_state py" where
  "tax_event e st =
     (let g = (\<lambda>k. dict_getd e k JNull); rid = g ''run_id''; model = g ''model'';
          bare = (\<not> truthy rid \<or> \<not> truthy model) in
      if \<not> truthy (g ''terminal'')
      then need_hash (g ''event'') (Inr
        (if in_strings LEGACY_SCAFFOLD (g ''event'') \<and> bare
         then st\<lparr>ts_unattributed := ts_unattributed st + 1\<rparr> else st))
      else if bare then Inr (st\<lparr>ts_unattributed := ts_unattributed st + 1\<rparr>)
      else let level = g ''level''; cause = g ''cause''; key = (rid, g ''finding_id'') in
        if level = JStr ''synthesis_attempt''
        then need_hash cause (need_hash model (need_hash rid (need_hash (g ''finding_id'')
               (Inr (count_synthesis model key (known_cause SYNTHESIS_CAUSES cause) st)))))
        else if level = JStr ''finding_attempt''
        then need_hash cause (need_hash model (need_hash (if truthy (g ''finding_class'') then g ''finding_class'' else JNull) (need_hash rid (need_hash (g ''finding_id'')
               (Inr (count_finding model key (g ''finding_class'') (known_cause FINDING_CAUSES cause) st))))))
        else Inr st)"

record tax_report =
  tr_queued :: nat
  tr_attempted :: nat
  tr_truncated :: bool
  tr_synthesis :: "string counter"
  tr_finding :: "string counter"
  tr_by_model :: "(json \<times> string counter \<times> string counter) list"
  tr_by_class :: "(json, string counter) dict"
  tr_nature_share :: "(string \<times> nat \<times> nat) list option"
  tr_unattributed :: nat

definition nature_count :: "tax_state \<Rightarrow> (json \<times> json) \<times> string \<Rightarrow> string counter \<Rightarrow> string counter" where
  "nature_count st kc c =
     (if \<not> in_denominator (snd kc) then c
      else case fold_nature (snd kc) (dict_getd (ts_synth_by_finding st) (fst kc) []) of
             None \<Rightarrow> c | Some n \<Rightarrow> bump n c)"

definition tax_result :: "tax_state \<Rightarrow> bool \<Rightarrow> tax_report" where
  "tax_result st allow_truncated =
     (let queued = length (ts_terminal st);
          attempted = length (filter (\<lambda>kc. in_denominator (snd kc)) (ts_terminal st));
          natures = fold (nature_count st) (ts_terminal st) [];
          denom = (if attempted = 0 then 1 else attempted) in
      \<lparr>tr_queued = queued, tr_attempted = attempted, tr_truncated = attempted < queued,
       tr_synthesis = ts_synthesis st, tr_finding = ts_finding st,
       tr_by_model = map (\<lambda>m. (m, dict_getd (ts_model_synth st) m [], dict_getd (ts_model_find st) m []))
         (remdups (dict_keys (ts_model_synth st) @ dict_keys (ts_model_find st))),
       tr_by_class = ts_class_find st,
       tr_nature_share = (if attempted < queued \<and> \<not> allow_truncated then None
         else Some (map (\<lambda>n. (n, dict_getd natures n 0, denom)) NATURES)),
       tr_unattributed = ts_unattributed st\<rparr>)"

definition classify :: "json_obj list \<Rightarrow> bool \<Rightarrow> tax_report py" where
  "classify events allow_truncated = bindE (foldE tax_event events tax_start) (\<lambda>st. Inr (tax_result st allow_truncated))"

section \<open>What the count counts\<close>

definition counter_total :: "'k counter \<Rightarrow> nat" where
  "counter_total c = sum_list (map snd c)"

lemma counter_total_bump [simp]: "counter_total (bump k c) = counter_total c + 1"
  by (induction c) (auto simp: counter_total_def bump_def dict_getd_def)

lemma bump_get: "dict_getd (bump k c) n 0 = dict_getd c n 0 + (if n = k then 1 else 0)"
  by (simp add: bump_def dict_getd_def)

text \<open>The places of an event.\<close>

definition ev_get :: "json_obj \<Rightarrow> string \<Rightarrow> json" where
  "ev_get e k = dict_getd e k JNull"

definition attributed :: "json_obj \<Rightarrow> bool" where
  "attributed e = (truthy (ev_get e ''run_id'') \<and> truthy (ev_get e ''model''))"

definition at_level :: "string \<Rightarrow> json_obj \<Rightarrow> bool" where
  "at_level l e = (truthy (ev_get e ''terminal'') \<and> attributed e \<and> ev_get e ''level'' = JStr l)"

definition unattributed :: "json_obj \<Rightarrow> bool" where
  "unattributed e = (\<not> attributed e \<and>
     (truthy (ev_get e ''terminal'') \<or> in_strings LEGACY_SCAFFOLD (ev_get e ''event'')))"

definition ev_key :: "json_obj \<Rightarrow> json \<times> json" where
  "ev_key e = (ev_get e ''run_id'', ev_get e ''finding_id'')"

definition synth_causes :: "json_obj list \<Rightarrow> json \<times> json \<Rightarrow> string list" where
  "synth_causes es k = map (\<lambda>e. known_cause SYNTHESIS_CAUSES (ev_get e ''cause''))
     (filter (\<lambda>e. at_level ''synthesis_attempt'' e \<and> ev_key e = k) es)"

definition final_cause :: "json_obj list \<Rightarrow> json \<times> json \<Rightarrow> string option" where
  "final_cause es k = map_option (\<lambda>e. known_cause FINDING_CAUSES (ev_get e ''cause''))
     (find (\<lambda>e. at_level ''finding_attempt'' e \<and> ev_key e = k) (rev es))"

lemma tax_event_state:
  assumes "tax_event e st = Inr st'"
  shows "st' = (if unattributed e then st\<lparr>ts_unattributed := ts_unattributed st + 1\<rparr>
     else if at_level ''synthesis_attempt'' e
     then count_synthesis (ev_get e ''model'') (ev_key e) (known_cause SYNTHESIS_CAUSES (ev_get e ''cause'')) st
     else if at_level ''finding_attempt'' e
     then count_finding (ev_get e ''model'') (ev_key e) (ev_get e ''finding_class'') (known_cause FINDING_CAUSES (ev_get e ''cause'')) st
     else st)"
  using assms
  by (auto simp: tax_event_def Let_def need_hash_def unattributed_def attributed_def at_level_def ev_get_def [abs_def] ev_key_def
      split: if_splits)

lemma append_in_get: "dict_getd (append_in m x d) k [] = dict_getd d k [] @ (if k = m then [x] else [])"
  by (simp add: append_in_def dict_getd_def)

definition tax_inv :: "json_obj list \<Rightarrow> tax_state \<Rightarrow> bool" where
  "tax_inv es st \<longleftrightarrow>
     ts_unattributed st = length (filter unattributed es) \<and>
     counter_total (ts_synthesis st) = length (filter (at_level ''synthesis_attempt'') es) \<and>
     counter_total (ts_finding st) = length (filter (at_level ''finding_attempt'') es) \<and>
     (\<forall>k. dict_getd (ts_synth_by_finding st) k [] = synth_causes es k) \<and>
     (\<forall>k. dict_get (ts_terminal st) k = final_cause es k) \<and>
     distinct (dict_keys (ts_terminal st))"

lemma level_unattributed: "at_level l e \<Longrightarrow> \<not> unattributed e"
  by (simp add: at_level_def unattributed_def)

lemma tax_inv_step:
  assumes "tax_inv es st" "tax_event e st = Inr st'"
  shows "tax_inv (es @ [e]) st'"
proof -
  have l: "at_level ''synthesis_attempt'' e \<Longrightarrow> \<not> at_level ''finding_attempt'' e" by (simp add: at_level_def)
  consider "unattributed e" "\<not> at_level ''synthesis_attempt'' e" "\<not> at_level ''finding_attempt'' e"
    | "at_level ''synthesis_attempt'' e" "\<not> unattributed e" "\<not> at_level ''finding_attempt'' e"
    | "at_level ''finding_attempt'' e" "\<not> unattributed e" "\<not> at_level ''synthesis_attempt'' e"
    | "\<not> unattributed e" "\<not> at_level ''synthesis_attempt'' e" "\<not> at_level ''finding_attempt'' e"
    using l level_unattributed [of _ e] by blast
  then show ?thesis
    by cases (use assms(1) in \<open>simp_all add: tax_event_state [OF assms(2)] tax_inv_def synth_causes_def final_cause_def
        count_synthesis_def count_finding_def append_in_get dict_keys_set_distinct\<close>)
qed

lemma tax_run: "foldE tax_event es tax_start = Inr st \<Longrightarrow> tax_inv es st"
proof (induction es arbitrary: st rule: rev_induct)
  case Nil
  then show ?case
    by (auto simp: tax_inv_def tax_start_def counter_total_def synth_causes_def final_cause_def dict_getd_def dict_keys_def)
next
  case (snoc e es)
  then obtain st1 where "foldE tax_event es tax_start = Inr st1" "tax_event e st1 = Inr st"
    by (auto simp: foldE_append bindE_Inr)
  with snoc.IH tax_inv_step show ?case by blast
qed

definition charged_to :: "tax_state \<Rightarrow> string \<Rightarrow> (json \<times> json) \<times> string \<Rightarrow> bool" where
  "charged_to st n kc = (in_denominator (snd kc) \<and>
     fold_nature (snd kc) (dict_getd (ts_synth_by_finding st) (fst kc) []) = Some n)"

lemma nature_counts:
  "dict_getd (fold (nature_count st) kcs c) n 0 = dict_getd c n 0 + length (filter (charged_to st n) kcs)"
  by (induction kcs arbitrary: c)
    (auto simp: nature_count_def charged_to_def bump_get split: option.splits)

lemma disjoint_filters:
  assumes "distinct ns" "\<And>x n m. P n x \<Longrightarrow> P m x \<Longrightarrow> n = m" "\<And>n x. P n x \<Longrightarrow> Q x"
  shows "sum_list (map (\<lambda>n. length (filter (P n) xs)) ns) \<le> length (filter Q xs)"
proof (induction xs)
  case (Cons x xs)
  have "sum_list (map (\<lambda>n. if P n x then 1 else 0) ns) \<le> (if Q x then 1 else 0 :: nat)"
    using assms(1)
  proof (induction ns)
    case (Cons m ms)
    show ?case
    proof (cases "P m x")
      case True
      then have "\<forall>n \<in> set ms. \<not> P n x" using assms(2) Cons.prems by fastforce
      then have "sum_list (map (\<lambda>n. if P n x then 1 else 0) ms) = (0 :: nat)" by (induction ms) auto
      with True assms(3) show ?thesis by simp
    qed (use Cons in simp)
  qed simp
  moreover have "length (filter Q (x # xs)) = (if Q x then 1 else 0) + length (filter Q xs)" by simp
  moreover have "sum_list (map (\<lambda>n. length (filter (P n) (x # xs))) ns) =
      sum_list (map (\<lambda>n. if P n x then 1 else 0) ns) + sum_list (map (\<lambda>n. length (filter (P n) xs)) ns)"
    by (induction ns) auto
  ultimately show ?case using Cons.IH by linarith
qed (induction ns, auto)

lemma dict_filter_card:
  assumes "distinct (dict_keys d)"
  shows "length (filter P d) = card {k. \<exists>v. dict_get d k = Some v \<and> P (k, v)}"
proof -
  have d: "distinct (map fst (filter P d))"
    using assms distinct_map_filter [of fst d P] by (simp add: dict_keys_def)
  have "set (map fst (filter P d)) = {k. \<exists>v. dict_get d k = Some v \<and> P (k, v)}"
    using assms by (force simp: dict_keys_def)
  with distinct_card [OF d] show ?thesis by simp
qed

section \<open>Properties\<close>

text \<open>The taxonomy counts every log line once. The synthesis and finding counts add up to the attributed
  terminal lines of each level, every terminal line without run or model and every such legacy line
  is unattributed, and the queue is the set of findings with a terminal line.\<close>

lemma taxonomy_counts_all:
  assumes "classify es allow = Inr r"
  shows "counter_total (tr_synthesis r) = length (filter (at_level ''synthesis_attempt'') es) \<and>
    counter_total (tr_finding r) = length (filter (at_level ''finding_attempt'') es) \<and>
    tr_unattributed r = length (filter unattributed es) \<and>
    tr_queued r = card {k. final_cause es k \<noteq> None}"
proof -
  from assms obtain st where st: "foldE tax_event es tax_start = Inr st" and r: "r = tax_result st allow"
    by (auto simp: classify_def bindE_Inr)
  note inv = tax_run [OF st, unfolded tax_inv_def]
  have "length (ts_terminal st) = card {k. \<exists>v. final_cause es k = Some v}"
    using dict_filter_card [of "ts_terminal st" "\<lambda>_. True"] inv by simp
  moreover have "{k. \<exists>v. final_cause es k = Some v} = {k. final_cause es k \<noteq> None}" by auto
  moreover have "tr_queued r = length (ts_terminal st)" by (simp add: r tax_result_def Let_def)
  ultimately have "tr_queued r = card {k. final_cause es k \<noteq> None}" by (simp only:)
  moreover have "tr_synthesis r = ts_synthesis st" "tr_finding r = ts_finding st" "tr_unattributed r = ts_unattributed st"
    by (simp_all add: r tax_result_def Let_def)
  ultimately show ?thesis using inv by metis
qed

text \<open>The confound shares charge each finding to its root author. A share is withheld exactly when the
  run was cut by its budget and truncation is not allowed; otherwise its numerator counts the
  findings, cut ones excluded, whose last failed synthesis has that author, or whose own last cause
  has it when no synthesis failed; and the three numerators add up to at most the attempts.\<close>

lemma nature_share_root_author:
  assumes "classify es allow = Inr r"
  shows "(tr_truncated r \<longleftrightarrow> (\<exists>k. final_cause es k = Some ''not_attempted:budget'')) \<and>
    tr_nature_share r = (if tr_truncated r \<and> \<not> allow then None else Some (map (\<lambda>n. (n,
        card {k. \<exists>c. final_cause es k = Some c \<and> c \<noteq> ''not_attempted:budget'' \<and> fold_nature c (synth_causes es k) = Some n},
        max 1 (tr_attempted r))) NATURES)) \<and>
    (\<Sum>n\<leftarrow>NATURES. card {k. \<exists>c. final_cause es k = Some c \<and> c \<noteq> ''not_attempted:budget'' \<and>
        fold_nature c (synth_causes es k) = Some n}) \<le> tr_attempted r"
proof -
  from assms obtain st where st: "foldE tax_event es tax_start = Inr st" and r: "r = tax_result st allow"
    by (auto simp: classify_def bindE_Inr)
  note inv = tax_run [OF st, unfolded tax_inv_def]
  have den: "in_denominator c \<longleftrightarrow> c \<noteq> ''not_attempted:budget''" for c
    by (simp add: in_denominator_def NOT_IN_DENOM_def)
  have e0: "dict_getd [] n 0 = (0 :: nat)" for n :: string by (simp add: dict_getd_def)
  have m1: "(if a = 0 then 1 else a) = max 1 a" for a :: nat by simp
  have num: "length (filter (charged_to st n) (ts_terminal st)) =
      card {k. \<exists>c. final_cause es k = Some c \<and> c \<noteq> ''not_attempted:budget'' \<and> fold_nature c (synth_causes es k) = Some n}" for n
    using dict_filter_card [of "ts_terminal st" "charged_to st n"] inv by (simp add: charged_to_def den)
  have sums: "(\<Sum>n\<leftarrow>NATURES. length (filter (charged_to st n) (ts_terminal st))) \<le>
      length (filter (\<lambda>kc. in_denominator (snd kc)) (ts_terminal st))"
    by (rule disjoint_filters) (auto simp: charged_to_def NATURES_def)
  have "length (filter (\<lambda>kc. in_denominator (snd kc)) (ts_terminal st)) < length (ts_terminal st) \<longleftrightarrow>
      (\<exists>kc \<in> set (ts_terminal st). \<not> in_denominator (snd kc))"
    by (metis (no_types, lifting) filter_id_conv length_filter_le length_filter_less le_neq_implies_less less_irrefl)
  also have "\<dots> \<longleftrightarrow> (\<exists>k. dict_get (ts_terminal st) k = Some ''not_attempted:budget'')"
    using inv by (auto simp: den dict_keys_def) (metis map_of_is_SomeI map_of_SomeD snd_conv)+
  finally have trunc: "tr_truncated r \<longleftrightarrow> (\<exists>k. final_cause es k = Some ''not_attempted:budget'')"
    using inv by (simp add: r tax_result_def Let_def)
  have "tr_nature_share r = (if tr_truncated r \<and> \<not> allow then None else Some (map (\<lambda>n. (n,
        length (filter (charged_to st n) (ts_terminal st)), max 1 (tr_attempted r))) NATURES))"
    by (simp add: r tax_result_def Let_def nature_counts e0 m1)
  moreover have "tr_attempted r = length (filter (\<lambda>kc. in_denominator (snd kc)) (ts_terminal st))"
    by (simp add: r tax_result_def Let_def)
  ultimately show ?thesis using trunc sums by (simp add: num)
qed

definition witness_event :: "string \<Rightarrow> string \<Rightarrow> string \<Rightarrow> json_obj" where
  "witness_event level fid cause = [(''terminal'', JBool True), (''run_id'', JStr ''r1''), (''model'', JStr ''m''),
     (''level'', JStr level), (''finding_id'', JStr fid), (''cause'', JStr cause)]"

definition witness_log :: "json_obj list" where
  "witness_log = [witness_event ''synthesis_attempt'' ''F-1'' ''no_build:code'', witness_event ''finding_attempt'' ''F-1'' ''model'',
     witness_event ''finding_attempt'' ''F-2'' ''proved'', [(''event'', JStr ''scaffold_repair'')]]"

lemma witness_log_classified: "\<exists>r. classify witness_log False = Inr r"
proof -
  have "isl (classify witness_log False) = False" by code_simp
  then show ?thesis by (metis sum.collapse(2))
qed

lemma taxonomy_counts_all_witness: "\<exists>r. classify witness_log False = Inr r \<and> tr_unattributed r = 1"
proof -
  obtain r where r: "classify witness_log False = Inr r" using witness_log_classified by blast
  have "length (filter unattributed witness_log) = 1" by code_simp
  with taxonomy_counts_all [OF r] r show ?thesis by auto
qed

lemma nature_share_root_author_witness:
  "\<exists>r. classify witness_log False = Inr r \<and> tr_nature_share r = Some [(''harness-infra'', 0, 2), (''synth-model'', 1, 2), (''model'', 0, 2)]"
proof -
  obtain r where r: "classify witness_log False = Inr r" using witness_log_classified by blast
  have "tr_nature_share (projr (classify witness_log False)) =
      Some [(''harness-infra'', 0, 2), (''synth-model'', 1, 2), (''model'', 0, 2)]" by code_simp
  with r nature_share_root_author [OF r] show ?thesis by auto
qed

end
