(* ===== verification/Proof_Index.thy ===== *)
theory Proof_Index
  imports Py_Regex Py_Json
begin

text \<open>
  The Solidity symbol index (\<open>proof/solidity_index.py\<close>). A node of the parse tree is a JSON object, and
  the parser is a parameter, from a path to a tree or an exception. The names of a tree are strings: a
  node whose name is anything else is rejected where the code would use it as a key. Resolving a path
  is a parameter, the listing of a project is given in the order \<open>sorted\<close> puts its paths, each with
  its parts below the root.

  The inheritance queries are the worklist searches of the prelude. The lemmas: an inheritance query
  is reachability over the base-contract edges, so subtyping is a preorder and state variables are
  inherited along it; the two tables of the index hold the same symbols, under their name and under
  their source; and a source that fails to parse costs no other one a symbol.
\<close>

section \<open>Rendering declarations\<close>

definition join_values :: "string \<Rightarrow> json list \<Rightarrow> string py" where
  "join_values sep vs =
     (if list_all is_str vs then Inr (py_join sep (map py_str vs))
      else raise ''TypeError'' ''sequence item: expected str instance'')"

lemma map_of_size [termination_simp]: "map_of kvs k = Some v \<Longrightarrow> size v < Suc (size_list (size_prod (\<lambda>_. 0) size) kvs)"
  by (induction kvs) (auto split: if_splits)

text \<open>\<open>_type_str\<close>: the source text of a type node. An elementary name is handed on as it is.\<close>

function type_str :: "json \<Rightarrow> json py" where
  "type_str (JObj kvs) =
     (let t = dict_getd kvs ''type'' JNull; g = (\<lambda>k. dict_getd kvs k JNull) in
      if t = JStr ''ElementaryTypeName'' then Inr (dict_getd kvs ''name'' (JStr ''?''))
      else if t = JStr ''UserDefinedTypeName'' then Inr (dict_getd kvs ''namePath'' (JStr ''?''))
      else if t = JStr ''ArrayTypeName''
      then bindE (case dict_get kvs ''baseTypeName'' of None \<Rightarrow> Inr (JStr ''?'') | Some b \<Rightarrow> type_str b) (\<lambda>base.
           let len = g ''length'' in
           Inr (JStr (py_str base @ ''['' @ (if len = JNull then [] else py_str len) @ '']'')))
      else if t = JStr ''Mapping''
      then bindE (case dict_get kvs ''keyType'' of None \<Rightarrow> Inr (JStr ''?'') | Some b \<Rightarrow> type_str b) (\<lambda>key.
           bindE (case dict_get kvs ''valueType'' of None \<Rightarrow> Inr (JStr ''?'') | Some b \<Rightarrow> type_str b) (\<lambda>val.
           Inr (JStr (''mapping('' @ py_str key @ '' => '' @ py_str val @ '')''))))
      else Inr (JStr (py_str (por (por (por (g ''name'') (g ''namePath'')) t) (JStr ''?'')))))"
| "type_str JNull = Inr (JStr ''?'')"
| "type_str (JBool b) = no_attr (JBool b) ''get''"
| "type_str (JInt i) = no_attr (JInt i) ''get''"
| "type_str (JStr s) = no_attr (JStr s) ''get''"
| "type_str (JList xs) = no_attr (JList xs) ''get''"
  by pat_completeness auto
termination by (relation "measure size") (auto dest: map_of_size)

definition opt_part :: "json \<Rightarrow> string \<Rightarrow> json list py" where
  "opt_part p k = bindE (jget p k JNull) (\<lambda>v. Inr (if truthy v then [v] else []))"

definition param_text :: "json \<Rightarrow> string py" where
  "param_text p =
     bindE (jget p ''typeName'' JNull) (\<lambda>tn. bindE (type_str tn) (\<lambda>ty.
     bindE (opt_part p ''storageLocation'') (\<lambda>loc. bindE (opt_part p ''name'') (\<lambda>nm.
       join_values '' '' ([ty] @ loc @ nm)))))"

definition params_text :: "json \<Rightarrow> string py" where
  "params_text pl =
     (if \<not> truthy pl then Inr []
      else bindE (jget pl ''parameters'' (JList [])) (\<lambda>ps. bindE (jiter ps) (\<lambda>xs.
           bindE (mapE param_text xs) (\<lambda>ss. Inr (py_join '', '' ss)))))"

definition modifier_arg :: "json \<Rightarrow> string py" where
  "modifier_arg a =
     bindE (jget a ''name'' JNull) (\<lambda>nm. if truthy nm then Inr (py_str nm) else
     bindE (jget a ''number'' JNull) (\<lambda>num. if truthy num then Inr (py_str num) else
     bindE (type_str a) (\<lambda>ty. Inr (py_str ty))))"

definition render_modifier :: "json \<Rightarrow> json py" where
  "render_modifier m =
     bindE (jget m ''name'' (JStr ''?'')) (\<lambda>mname. bindE (jget m ''arguments'' JNull) (\<lambda>margs.
       if truthy margs
       then bindE (jiter margs) (\<lambda>xs. bindE (mapE modifier_arg xs) (\<lambda>ss.
              Inr (JStr (py_str mname @ ''('' @ py_join '', '' ss @ '')''))))
       else Inr mname))"

definition render_function :: "json \<Rightarrow> (string \<times> string list \<times> string) py" where
  "render_function fn =
     bindE (jget fn ''name'' JNull) (\<lambda>nm. bindE (jget fn ''isConstructor'' JNull) (\<lambda>ctor.
     bindE (jget fn ''parameters'' JNull) (\<lambda>pl. bindE (params_text pl) (\<lambda>params.
     bindE (opt_part fn ''visibility'') (\<lambda>vis. bindE (opt_part fn ''stateMutability'') (\<lambda>mut.
     bindE (jget fn ''modifiers'' JNull) (\<lambda>ms. bindE (if truthy ms then jiter ms else Inr []) (\<lambda>ml.
     bindE (mapE render_modifier ml) (\<lambda>mods.
     bindE (jget fn ''returnParameters'' JNull) (\<lambda>rp. bindE (params_text rp) (\<lambda>ret.
     bindE (join_values '' '' (vis @ mut @ mods)) (\<lambda>tail.
       let name = (if truthy nm then py_str nm else if truthy ctor then ''constructor'' else ''<fallback/receive>'');
           sig = py_rstrip (''function '' @ name @ ''('' @ params @ '') '' @ tail)
       in Inr (sig @ (if ret \<noteq> [] then '' returns ('' @ ret @ '')'' else []) @ '';'', map py_str mods,
               concat (map py_str vis))))))))))))))"

definition render_struct :: "json \<Rightarrow> string py" where
  "render_struct node =
     bindE (jget node ''name'' (JStr ''?'')) (\<lambda>nm. bindE (jget node ''members'' (JList [])) (\<lambda>ms.
     bindE (jiter ms) (\<lambda>xs.
     bindE (mapE (\<lambda>m. bindE (jget m ''typeName'' JNull) (\<lambda>tn. bindE (type_str tn) (\<lambda>ty.
              bindE (jget m ''name'' (JStr ''?'')) (\<lambda>mn. Inr (''    '' @ py_str ty @ '' '' @ py_str mn @ '';''))))) xs) (\<lambda>ls.
       Inr (py_join nl ([''struct '' @ py_str nm @ '' {''] @ ls @ [''}'']))))))"

definition render_enum :: "json \<Rightarrow> string py" where
  "render_enum node =
     bindE (jget node ''members'' (JList [])) (\<lambda>ms. bindE (jiter ms) (\<lambda>xs.
     bindE (mapE (\<lambda>m. jget m ''name'' (JStr ''?'')) xs) (\<lambda>vs.
     bindE (jget node ''name'' (JStr ''?'')) (\<lambda>nm. bindE (join_values '', '' vs) (\<lambda>vals.
       Inr (''enum '' @ py_str nm @ '' { '' @ vals @ '' }''))))))"

definition render_state_var :: "json \<Rightarrow> string py" where
  "render_state_var node =
     bindE (jget node ''variables'' (JList [])) (\<lambda>vs. bindE (jiter vs) (\<lambda>xs.
     bindE (mapE (\<lambda>v. bindE (jget v ''visibility'' JNull) (\<lambda>vis.
              bindE (jget v ''typeName'' JNull) (\<lambda>tn. bindE (type_str tn) (\<lambda>ty.
              bindE (jget v ''name'' (JStr ''?'')) (\<lambda>nm.
              bindE (join_values '' '' ([ty] @ (if truthy vis \<and> vis \<noteq> JStr ''default'' then [vis] else []) @ [nm])) (\<lambda>s.
                Inr (s @ '';'')))))) ) xs) (\<lambda>parts.
       Inr (py_join nl parts))))"

section \<open>The index\<close>

record symbol =
  sy_name :: string
  sy_kind :: string
  sy_contract :: string
  sy_file :: string
  sy_definition :: string
  sy_modifiers :: "string list"
  sy_visibility :: string

definition mk_symbol :: "string \<Rightarrow> string \<Rightarrow> string \<Rightarrow> string \<Rightarrow> string \<Rightarrow> symbol" where
  "mk_symbol name kind contract fl def =
     \<lparr>sy_name = name, sy_kind = kind, sy_contract = contract, sy_file = fl, sy_definition = def,
      sy_modifiers = [], sy_visibility = []\<rparr>"

record symbol_index =
  si_symbols :: "(string, symbol list) dict"
  si_by_file :: "(string, symbol list) dict"
  si_bases :: "(string \<times> string list) list"
  si_svtypes :: "(string, string list) dict"
  si_unparsed :: "string list"

definition empty_index :: symbol_index where
  "empty_index = \<lparr>si_symbols = [], si_by_file = [], si_bases = [], si_svtypes = [], si_unparsed = []\<rparr>"

text \<open>\<open>d.setdefault(k, []).append(x)\<close>.\<close>

definition push :: "'k \<Rightarrow> 'a \<Rightarrow> ('k, 'a list) dict \<Rightarrow> ('k, 'a list) dict" where
  "push k x d = dict_set k (dict_getd d k [] @ [x]) d"

definition add_symbol :: "(string \<Rightarrow> string) \<Rightarrow> symbol \<Rightarrow> symbol_index \<Rightarrow> symbol_index" where
  "add_symbol resolve s idx = idx\<lparr>si_symbols := push (sy_name s) s (si_symbols idx),
     si_by_file := push (resolve (sy_file s)) s (si_by_file idx)\<rparr>"

definition add_svtype :: "string \<Rightarrow> string \<Rightarrow> symbol_index \<Rightarrow> symbol_index" where
  "add_svtype c t idx = idx\<lparr>si_svtypes := dict_set c (List.insert t (dict_getd (si_svtypes idx) c [])) (si_svtypes idx)\<rparr>"

definition node_name :: "json \<Rightarrow> string py" where
  "node_name v = (case v of JStr s \<Rightarrow> Inr s | _ \<Rightarrow> raise ''TypeError'' ''a name is no string'')"

text \<open>The variables of one declaration: each is stored, then its type; what was stored before an
  exception stays.\<close>

fun index_vars :: "(string \<Rightarrow> string) \<Rightarrow> string \<Rightarrow> string \<Rightarrow> string \<Rightarrow> json list \<Rightarrow> symbol_index \<Rightarrow> symbol_index" where
  "index_vars resolve cname fl decl [] idx = idx"
| "index_vars resolve cname fl decl (v # vs) idx =
     (case jget v ''name'' JNull of
        Inl e \<Rightarrow> idx
      | Inr nm \<Rightarrow>
          if \<not> truthy nm then index_vars resolve cname fl decl vs idx
          else case node_name nm of
                 Inl e \<Rightarrow> idx
               | Inr n \<Rightarrow>
                   let idx1 = add_symbol resolve (mk_symbol n ''state_var'' cname fl decl) idx in
                   case bindE (jget v ''typeName'' JNull) (\<lambda>tn. bindE (type_str tn) node_name) of
                     Inl e \<Rightarrow> idx1
                   | Inr t \<Rightarrow> index_vars resolve cname fl decl vs (add_svtype cname t idx1))"

text \<open>A declaration inside a contract; an exception leaves it out (and is logged).\<close>

definition add_rendered ::
  "(string \<Rightarrow> string) \<Rightarrow> symbol_index \<Rightarrow> symbol py \<Rightarrow> symbol_index" where
  "add_rendered resolve idx r = (case r of Inl e \<Rightarrow> idx | Inr s \<Rightarrow> add_symbol resolve s idx)"

definition function_symbol :: "string \<Rightarrow> string \<Rightarrow> json \<Rightarrow> json \<Rightarrow> symbol py" where
  "function_symbol cname fl sub nm =
     bindE (render_function sub) (\<lambda>(def, mods, vis). bindE (node_name nm) (\<lambda>n.
       Inr ((mk_symbol n ''function'' cname fl def)\<lparr>sy_modifiers := mods, sy_visibility := vis\<rparr>)))"

definition modifier_symbol :: "string \<Rightarrow> string \<Rightarrow> json \<Rightarrow> json \<Rightarrow> symbol py" where
  "modifier_symbol cname fl sub nm =
     bindE (jget sub ''parameters'' JNull) (\<lambda>pl. bindE (params_text pl) (\<lambda>ps. bindE (node_name nm) (\<lambda>n.
       Inr (mk_symbol n ''modifier'' cname fl (''modifier '' @ n @ ''('' @ ps @ '')'')))))"

definition typedef_symbol :: "string \<Rightarrow> string \<Rightarrow> string \<Rightarrow> (json \<Rightarrow> string py) \<Rightarrow> json \<Rightarrow> symbol py" where
  "typedef_symbol kind cname fl render sub =
     bindE (jget sub ''name'' (JStr ''?'')) (\<lambda>nm. bindE (node_name nm) (\<lambda>n. bindE (render sub) (\<lambda>def.
       Inr (mk_symbol n kind cname fl def))))"

definition index_sub ::
  "(string \<Rightarrow> string) \<Rightarrow> string \<Rightarrow> string \<Rightarrow> json_obj \<Rightarrow> symbol_index \<Rightarrow> symbol_index" where
  "index_sub resolve cname fl kvs idx =
     (let sub = JObj kvs; t = dict_getd kvs ''type'' JNull; nm = dict_getd kvs ''name'' JNull in
      if t = JStr ''FunctionDefinition'' \<and> truthy nm then add_rendered resolve idx (function_symbol cname fl sub nm)
      else if t = JStr ''StructDefinition'' then add_rendered resolve idx (typedef_symbol ''struct'' cname fl render_struct sub)
      else if t = JStr ''EnumDefinition'' then add_rendered resolve idx (typedef_symbol ''enum'' cname fl render_enum sub)
      else if t = JStr ''ModifierDefinition'' \<and> truthy nm then add_rendered resolve idx (modifier_symbol cname fl sub nm)
      else if t = JStr ''StateVariableDeclaration''
      then (case bindE (render_state_var sub) (\<lambda>text. bindE (jiter (dict_getd kvs ''variables'' (JList []))) (\<lambda>vs. Inr (text, vs))) of
              Inl e \<Rightarrow> idx
            | Inr (decl, vs) \<Rightarrow> index_vars resolve cname fl decl vs idx)
      else idx)"

text \<open>\<open>sub.get("type")\<close> stands outside the guarded part: a sub-node that is no object ends the contract.\<close>

fun index_subs ::
  "(string \<Rightarrow> string) \<Rightarrow> string \<Rightarrow> string \<Rightarrow> json list \<Rightarrow> symbol_index \<Rightarrow> symbol_index \<times> py_exc option" where
  "index_subs resolve cname fl [] idx = (idx, None)"
| "index_subs resolve cname fl (JObj kvs # subs) idx =
     index_subs resolve cname fl subs (index_sub resolve cname fl kvs idx)"
| "index_subs resolve cname fl (sub # subs) idx =
     (idx, (case (no_attr sub ''get'' :: json py) of Inl e \<Rightarrow> Some e | Inr _ \<Rightarrow> None))"

definition base_names :: "json \<Rightarrow> string list py" where
  "base_names node =
     bindE (jget node ''baseContracts'' (JList [])) (\<lambda>bs. bindE (jiter bs) (\<lambda>xs.
     bindE (mapE (\<lambda>b. bindE (jget b ''baseName'' (JObj [])) (\<lambda>bn. bindE (jget bn ''namePath'' JNull) (\<lambda>np.
              if truthy np then bindE (node_name np) (\<lambda>n. Inr [n]) else Inr []))) xs) (\<lambda>ns. Inr (concat ns))))"

definition index_contract ::
  "(string \<Rightarrow> string) \<Rightarrow> json_obj \<Rightarrow> string \<Rightarrow> symbol_index \<Rightarrow> symbol_index \<times> py_exc option" where
  "index_contract resolve kvs fl idx =
     (let node = JObj kvs; kind = dict_getd kvs ''kind'' (JStr ''contract'') in
      case node_name (dict_getd kvs ''name'' (JStr ''?'')) of
        Inl e \<Rightarrow> (idx, Some e)
      | Inr cname \<Rightarrow>
          let k = (if kind \<in> {JStr ''contract'', JStr ''interface'', JStr ''library''} then py_str kind else ''contract'');
              idx1 = add_symbol resolve (mk_symbol cname k [] fl (py_str kind @ '' '' @ cname)) idx in
          case base_names node of
            Inl e \<Rightarrow> (idx1, Some e)
          | Inr bases \<Rightarrow>
              let idx2 = (if bases \<noteq> [] then idx1\<lparr>si_bases := dict_set cname bases (si_bases idx1)\<rparr> else idx1) in
              case bindE (jget node ''subNodes'' (JList [])) jiter of
                Inl e \<Rightarrow> (idx2, Some e)
              | Inr subs \<Rightarrow> index_subs resolve cname fl subs idx2)"

text \<open>The top level of a tree, up to the first exception.\<close>

fun index_children :: "(string \<Rightarrow> string) \<Rightarrow> json list \<Rightarrow> string \<Rightarrow> symbol_index \<Rightarrow> symbol_index \<times> py_exc option" where
  "index_children resolve [] fl idx = (idx, None)"
| "index_children resolve (JObj kvs # cs) fl idx =
     (if dict_getd kvs ''type'' JNull = JStr ''ContractDefinition''
      then case index_contract resolve kvs fl idx of
             (idx1, Some e) \<Rightarrow> (idx1, Some e)
           | (idx1, None) \<Rightarrow> index_children resolve cs fl idx1
      else index_children resolve cs fl idx)"
| "index_children resolve (c # cs) fl idx =
     (idx, (case (no_attr c ''get'' :: json py) of Inl e \<Rightarrow> Some e | Inr _ \<Rightarrow> None))"

definition index_file ::
  "(string \<Rightarrow> string) \<Rightarrow> (string \<Rightarrow> json py) \<Rightarrow> string \<Rightarrow> symbol_index \<Rightarrow> symbol_index \<times> py_exc option" where
  "index_file resolve parse path idx =
     (case bindE (parse path) (\<lambda>ast. bindE (jget ast ''children'' (JList [])) jiter) of
        Inl e \<Rightarrow> (idx, Some e)
      | Inr cs \<Rightarrow> index_children resolve cs path idx)"

definition skip_dirs :: "string list" where
  "skip_dirs = [''out'', ''cache_forge'', ''node_modules'', ''lib'', ''artifacts'']"

definition build_step ::
  "(string \<Rightarrow> string) \<Rightarrow> (string \<Rightarrow> json py) \<Rightarrow> string \<times> string list \<Rightarrow> symbol_index \<Rightarrow> symbol_index" where
  "build_step resolve parse pp idx =
     (if set skip_dirs \<inter> set (snd pp) \<noteq> {} then idx
      else case index_file resolve parse (fst pp) idx of
             (idx1, None) \<Rightarrow> idx1
           | (idx1, Some e) \<Rightarrow> idx1\<lparr>si_unparsed := si_unparsed idx1 @ [fst pp]\<rparr>)"

definition build :: "(string \<Rightarrow> string) \<Rightarrow> (string \<Rightarrow> json py) \<Rightarrow> (string \<times> string list) list \<Rightarrow> symbol_index" where
  "build resolve parse listing = fold (build_step resolve parse) listing empty_index"

text \<open>\<open>build_from_source\<close>: a contract that raises is passed over, with what it stored.\<close>

fun index_source_children :: "(string \<Rightarrow> string) \<Rightarrow> json list \<Rightarrow> symbol_index \<Rightarrow> symbol_index py" where
  "index_source_children resolve [] idx = Inr idx"
| "index_source_children resolve (c # cs) idx =
     bindE (jget c ''type'' JNull) (\<lambda>t. index_source_children resolve cs
       (case c of JObj kvs \<Rightarrow> if t = JStr ''ContractDefinition'' then fst (index_contract resolve kvs ''<source>'' idx) else idx
        | _ \<Rightarrow> idx))"

definition build_from_source :: "(string \<Rightarrow> string) \<Rightarrow> (string \<Rightarrow> json py) \<Rightarrow> string \<Rightarrow> symbol_index py" where
  "build_from_source resolve parse source =
     (case parse source of
        Inl e \<Rightarrow> Inr empty_index
      | Inr ast \<Rightarrow> bindE (jget ast ''children'' (JList [])) (\<lambda>c. bindE (jiter c) (\<lambda>cs.
          index_source_children resolve cs empty_index)))"

section \<open>Queries\<close>

definition provides_state_var_type :: "symbol_index \<Rightarrow> string \<Rightarrow> string \<Rightarrow> bool" where
  "provides_state_var_type idx contract ty =
     dfs_any (si_bases idx) (\<lambda>c. ty \<in> set (dict_getd (si_svtypes idx) c [])) [contract] []"

definition is_subtype :: "symbol_index \<Rightarrow> string \<Rightarrow> string \<Rightarrow> bool" where
  "is_subtype idx sub_type ancestor_type =
     (if sub_type = ancestor_type then True
      else dfs_any (si_bases idx) (\<lambda>b. b = ancestor_type) (rev (succs (si_bases idx) sub_type)) [])"

definition state_var_types :: "symbol_index \<Rightarrow> string \<Rightarrow> string set" where
  "state_var_types idx contract =
     \<Union> ((\<lambda>c. set (dict_getd (si_svtypes idx) c [])) ` set (dfs (si_bases idx) [contract] []))"

definition lookup :: "symbol_index \<Rightarrow> string \<Rightarrow> symbol list" where
  "lookup idx name =
     (let matches = dict_getd (si_symbols idx) name [] in
      if matches = [] \<and> CHR ''.'' \<in> set name
      then dict_getd (si_symbols idx) (last (py_split (CHR ''.'') name)) [] else matches)"

definition nested_container :: "symbol_index \<Rightarrow> string \<Rightarrow> string option" where
  "nested_container idx name =
     (let types = filter (\<lambda>m. sy_kind m \<in> {''struct'', ''enum''}) (lookup idx name) in
      if types = [] then None
      else if list_ex (\<lambda>m. sy_contract m = []) types then None
      else let containers = remdups (map sy_contract types) in
           if length containers = 1 then Some (hd containers) else None)"

definition functions_in_file :: "(string \<Rightarrow> string) \<Rightarrow> symbol_index \<Rightarrow> string \<Rightarrow> symbol list" where
  "functions_in_file resolve idx path =
     filter (\<lambda>s. sy_kind s = ''function'') (dict_getd (si_by_file idx) (resolve path) [])"

definition top_level_symbols :: "symbol_index \<Rightarrow> symbol list" where
  "top_level_symbols idx =
     filter (\<lambda>s. sy_kind s \<in> {''contract'', ''interface'', ''library''}) (concat (map snd (si_by_file idx)))"

definition contract_names :: "symbol_index \<Rightarrow> string list" where
  "contract_names idx = map sy_name (top_level_symbols idx)"

section \<open>Expanding the types an interface mentions\<close>

definition mentioned :: "string \<Rightarrow> string \<Rightarrow> bool" where
  "mentioned name text = (re_search (rseq [RWordB, rlit name, RWordB]) text \<noteq> None)"

definition typedefs_of :: "symbol_index \<Rightarrow> (string, symbol) dict" where
  "typedefs_of idx = List.map_filter (\<lambda>(name, syms). map_option (Pair name)
     (find (\<lambda>s. sy_kind s \<in> {''struct'', ''enum''}) syms)) (si_symbols idx)"

definition pick_nested :: "(string, symbol) dict \<Rightarrow> symbol \<Rightarrow> (string, symbol) dict \<Rightarrow> (string, symbol) dict" where
  "pick_nested typedefs s picked =
     (if sy_kind s = ''struct''
      then fold (\<lambda>(n2, s2) p. if dict_get p n2 = None \<and> mentioned n2 (sy_definition s) then dict_set n2 s2 p else p)
             typedefs picked
      else picked)"

definition typedef_block :: "symbol \<Rightarrow> string" where
  "typedef_block s =
     ''// '' @ sy_contract s @ '' ('' @ sy_kind s @ '')'' @ nl @ sy_definition s @
     (if sy_contract s \<noteq> []
      then nl @ ''// NOTE: '' @ sy_name s @ '' is nested inside '' @ sy_contract s @ '' '' @ u_emdash @ '' do NOT write `import { ''
           @ sy_name s @ '' } from ...;`. Import '' @ sy_contract s @ '' and reference the type as '' @ sy_contract s
           @ ''.'' @ sy_name s @ ''.''
      else [])"

fun take_blocks :: "nat \<Rightarrow> nat \<Rightarrow> string list \<Rightarrow> string list" where
  "take_blocks budget tot [] = []"
| "take_blocks budget tot (b # bs) =
     (if budget < tot + length b then [] else b # take_blocks budget (tot + length b + 2) bs)"

definition picked_types :: "symbol_index \<Rightarrow> string \<Rightarrow> (string, symbol) dict" where
  "picked_types idx api =
     (let typedefs = typedefs_of idx; direct = filter (\<lambda>ns. mentioned (fst ns) api) typedefs
      in fold (pick_nested typedefs) (map snd direct) direct)"

definition expand_referenced_types :: "string \<Rightarrow> symbol_index option \<Rightarrow> nat \<Rightarrow> string" where
  "expand_referenced_types api idx budget =
     (case idx of
        None \<Rightarrow> []
      | Some ix \<Rightarrow> if api = [] then []
                   else py_join (nl @ nl) (take_blocks budget 0 (map (typedef_block \<circ> snd) (picked_types ix api))))"

section \<open>Inheritance is reachability\<close>

definition inherits :: "symbol_index \<Rightarrow> (string \<times> string) set" where
  "inherits idx = (edges (si_bases idx))\<^sup>*"

lemma is_subtype_iff: "is_subtype idx a b \<longleftrightarrow> (a, b) \<in> inherits idx"
proof (cases "a = b")
  case True
  then show ?thesis by (simp add: is_subtype_def inherits_def)
next
  case False
  then have "is_subtype idx a b \<longleftrightarrow> (\<exists>c \<in> set (succs (si_bases idx) a). (c, b) \<in> inherits idx)"
    by (auto simp: is_subtype_def dfs_any_correct inherits_def)
  also have "\<dots> \<longleftrightarrow> (a, b) \<in> (edges (si_bases idx))\<^sup>+"
    by (auto simp: trancl_unfold_left inherits_def)
  finally show ?thesis using False by (auto simp: inherits_def rtrancl_eq_or_trancl)
qed

lemma state_var_types_iff:
  "t \<in> state_var_types idx c \<longleftrightarrow> (\<exists>d. (c, d) \<in> inherits idx \<and> t \<in> set (dict_getd (si_svtypes idx) d []))"
  by (auto simp: state_var_types_def dfs_correct inherits_def simp del: dfs.simps)

lemma provides_iff: "provides_state_var_type idx c t \<longleftrightarrow> t \<in> state_var_types idx c"
  by (auto simp: provides_state_var_type_def dfs_any_correct state_var_types_iff inherits_def simp del: dfs_any.simps)

section \<open>The two tables agree\<close>

lemma push_get: "dict_getd (push k x d) j [] = dict_getd d j [] @ (if j = k then [x] else [])"
  by (simp add: push_def dict_getd_def)

definition index_ok :: "(string \<Rightarrow> string) \<Rightarrow> symbol_index \<Rightarrow> bool" where
  "index_ok resolve idx \<longleftrightarrow>
     (\<forall>n. \<forall>s \<in> set (dict_getd (si_symbols idx) n []). sy_name s = n) \<and>
     (\<forall>p. \<forall>s \<in> set (dict_getd (si_by_file idx) p []). resolve (sy_file s) = p) \<and>
     (\<forall>s. count_list (dict_getd (si_symbols idx) (sy_name s) []) s =
          count_list (dict_getd (si_by_file idx) (resolve (sy_file s)) []) s)"

lemma index_ok_add: "index_ok resolve idx \<Longrightarrow> index_ok resolve (add_symbol resolve s idx)"
  by (auto simp: index_ok_def add_symbol_def push_get)

lemma index_ok_other [simp]:
  "index_ok resolve (idx\<lparr>si_bases := b\<rparr>) = index_ok resolve idx"
  "index_ok resolve (idx\<lparr>si_unparsed := u\<rparr>) = index_ok resolve idx"
  "index_ok resolve (add_svtype c t idx) = index_ok resolve idx"
  by (simp_all add: index_ok_def add_svtype_def)

lemma index_ok_rendered: "index_ok resolve idx \<Longrightarrow> index_ok resolve (add_rendered resolve idx r)"
  by (simp add: add_rendered_def index_ok_add split: sum.split)

lemma index_ok_vars: "index_ok resolve idx \<Longrightarrow> index_ok resolve (index_vars resolve cname fl decl vs idx)"
  by (induction resolve cname fl decl vs idx rule: index_vars.induct)
    (auto simp: Let_def index_ok_add split: sum.splits)

lemma index_ok_sub: "index_ok resolve idx \<Longrightarrow> index_ok resolve (index_sub resolve cname fl kvs idx)"
  by (auto simp: index_sub_def Let_def index_ok_rendered index_ok_vars split: sum.split prod.split)

lemma index_ok_subs: "index_ok resolve idx \<Longrightarrow> index_ok resolve (fst (index_subs resolve cname fl subs idx))"
  by (induction resolve cname fl subs idx rule: index_subs.induct) (simp_all add: index_ok_sub)

lemma index_ok_contract: "index_ok resolve idx \<Longrightarrow> index_ok resolve (fst (index_contract resolve kvs fl idx))"
  by (simp add: index_contract_def Let_def index_ok_add index_ok_subs split: sum.split)

lemma index_ok_children: "index_ok resolve idx \<Longrightarrow> index_ok resolve (fst (index_children resolve cs fl idx))"
proof (induction resolve cs fl idx rule: index_children.induct)
  case (2 resolve kvs cs fl idx)
  from index_ok_contract [OF "2.prems", of kvs fl] "2.IH" "2.prems" show ?case
    by (auto split: prod.splits option.splits)
qed simp_all

lemma index_ok_file: "index_ok resolve idx \<Longrightarrow> index_ok resolve (fst (index_file resolve parse path idx))"
  by (simp add: index_file_def index_ok_children split: sum.split)

lemma index_ok_build_step: "index_ok resolve idx \<Longrightarrow> index_ok resolve (build_step resolve parse pp idx)"
  using index_ok_file [of resolve idx parse "fst pp"] by (auto simp: build_step_def split: prod.splits option.splits)

interpretation bld: guarded_machine "build_step resolve parse" empty_index "index_ok resolve" for resolve parse
proof
  show "index_ok resolve empty_index" by (simp add: index_ok_def empty_index_def dict_getd_def)
  show "index_ok resolve idx \<Longrightarrow> index_ok resolve (build_step resolve parse pp idx)" for pp idx
    by (rule index_ok_build_step)
qed

section \<open>A file that does not parse\<close>

text \<open>The list of unparsed files is write-only: nothing the index stores depends on it.\<close>

abbreviation with_unparsed :: "string list \<Rightarrow> symbol_index \<Rightarrow> symbol_index" where
  "with_unparsed u idx \<equiv> idx\<lparr>si_unparsed := u\<rparr>"

named_theorems unparsed_indep \<open>operations that commute with the list of unparsed files\<close>

lemma unparsed_add [unparsed_indep]:
  "add_symbol resolve s (with_unparsed u idx) = with_unparsed u (add_symbol resolve s idx)"
  "add_svtype c t (with_unparsed u idx) = with_unparsed u (add_svtype c t idx)"
  "add_rendered resolve (with_unparsed u idx) r = with_unparsed u (add_rendered resolve idx r)"
  by (simp_all add: add_symbol_def add_svtype_def add_rendered_def split: sum.split)

lemma unparsed_vars [unparsed_indep]:
  "index_vars resolve cname fl decl vs (with_unparsed u idx) = with_unparsed u (index_vars resolve cname fl decl vs idx)"
  by (induction resolve cname fl decl vs idx rule: index_vars.induct)
    (simp_all add: Let_def unparsed_indep split: sum.split)

lemma unparsed_sub [unparsed_indep]:
  "index_sub resolve cname fl kvs (with_unparsed u idx) = with_unparsed u (index_sub resolve cname fl kvs idx)"
  by (simp add: index_sub_def Let_def unparsed_indep split: sum.split)

lemma unparsed_subs [unparsed_indep]:
  "index_subs resolve cname fl subs (with_unparsed u idx) =
     map_prod (with_unparsed u) id (index_subs resolve cname fl subs idx)"
  by (induction resolve cname fl subs idx rule: index_subs.induct) (simp_all add: unparsed_indep)

lemma unparsed_contract [unparsed_indep]:
  "index_contract resolve kvs fl (with_unparsed u idx) =
     map_prod (with_unparsed u) id (index_contract resolve kvs fl idx)"
proof -
  have b: "idx\<lparr>si_unparsed := u, si_bases := x\<rparr> = with_unparsed u (idx\<lparr>si_bases := x\<rparr>)" for x and idx :: symbol_index
    by simp
  show ?thesis
    by (simp add: index_contract_def Let_def unparsed_indep b del: symbol_index.update_convs split: sum.split)
qed

lemma unparsed_children [unparsed_indep]:
  "index_children resolve cs fl (with_unparsed u idx) =
     map_prod (with_unparsed u) id (index_children resolve cs fl idx)"
proof (induction resolve cs fl idx rule: index_children.induct)
  case (2 resolve kvs cs fl idx)
  then show ?case
    by (cases "index_contract resolve kvs fl idx") (auto simp: unparsed_indep split: option.split)
qed simp_all

lemma unparsed_file [unparsed_indep]:
  "index_file resolve parse path (with_unparsed u idx) =
     map_prod (with_unparsed u) id (index_file resolve parse path idx)"
  by (simp add: index_file_def unparsed_indep split: sum.split)

lemma unparsed_build_step:
  "with_unparsed [] (build_step resolve parse pp (with_unparsed u idx)) = with_unparsed [] (build_step resolve parse pp idx)"
  by (cases "index_file resolve parse (fst pp) idx") (auto simp: build_step_def unparsed_indep split: option.split)

lemma build_forgets_unparsed:
  "with_unparsed [] (fold (build_step resolve parse) pps (with_unparsed u idx)) =
   with_unparsed [] (fold (build_step resolve parse) pps idx)"
proof (induction pps arbitrary: u idx)
  case (Cons pp pps)
  have "with_unparsed [] (fold (build_step resolve parse) pps (build_step resolve parse pp (with_unparsed u idx))) =
      with_unparsed [] (fold (build_step resolve parse) pps (with_unparsed [] (build_step resolve parse pp (with_unparsed u idx))))"
    by (rule Cons.IH [symmetric])
  also have "\<dots> = with_unparsed [] (fold (build_step resolve parse) pps (build_step resolve parse pp idx))"
    by (simp only: unparsed_build_step Cons.IH)
  finally show ?case by simp
qed simp

definition fails_to_parse :: "(string \<Rightarrow> json py) \<Rightarrow> string \<times> string list \<Rightarrow> bool" where
  "fails_to_parse parse pp = isl (parse (fst pp))"

lemma build_step_failed:
  "fails_to_parse parse pp \<Longrightarrow> build_step resolve parse pp idx =
     (if set skip_dirs \<inter> set (snd pp) \<noteq> {} then idx else with_unparsed (si_unparsed idx @ [fst pp]) idx)"
  by (auto simp: fails_to_parse_def build_step_def index_file_def isl_def)

lemma build_without_failed:
  "with_unparsed [] (fold (build_step resolve parse) pps idx) =
   with_unparsed [] (fold (build_step resolve parse) (filter (\<lambda>pp. \<not> fails_to_parse parse pp) pps) idx)"
proof (induction pps arbitrary: idx)
  case (Cons pp pps)
  show ?case
  proof (cases "fails_to_parse parse pp")
    case True
    then show ?thesis
      using Cons.IH build_forgets_unparsed [of resolve parse pps _ idx] by (simp add: build_step_failed)
  qed (use Cons.IH in simp)
qed simp

section \<open>Bounds and nesting\<close>

lemma take_blocks_budget:
  "take_blocks budget tot bs \<noteq> [] \<Longrightarrow> tot + length (py_join [x, y] (take_blocks budget tot bs)) \<le> budget"
proof (induction bs arbitrary: tot)
  case (Cons b bs)
  then have le: "tot + length b \<le> budget" by (auto split: if_splits)
  show ?case
  proof (cases "take_blocks budget (tot + length b + 2) bs")
    case Nil
    with le show ?thesis by simp
  next
    case (Cons c cs)
    with le Cons.IH [of "tot + length b + 2"] show ?thesis by simp
  qed
qed simp

lemma take_blocks_prefix: "\<exists>n. take_blocks budget tot bs = take n bs"
proof (induction bs arbitrary: tot)
  case (Cons b bs)
  then obtain n where "take_blocks budget (tot + length b + 2) bs = take n bs" by blast
  then show ?case by (auto intro: exI [of _ "Suc n"] exI [of _ 0])
qed simp

definition is_typedef :: "symbol \<Rightarrow> bool" where
  "is_typedef m = (sy_kind m \<in> {''struct'', ''enum''})"

lemma remdups_single: "length (remdups xs) = 1 \<longleftrightarrow> (\<exists>x. set xs = {x})"
proof
  assume "length (remdups xs) = 1"
  then obtain x where "remdups xs = [x]" by (auto simp: length_Suc_conv)
  then have "set (remdups xs) = {x}" by simp
  then show "\<exists>x. set xs = {x}" by simp
next
  assume "\<exists>x. set xs = {x}"
  then have "card (set xs) = 1" by auto
  then show "length (remdups xs) = 1" by (simp add: length_remdups_card_conv)
qed

definition the_one :: "('a \<Rightarrow> string) \<Rightarrow> 'a list \<Rightarrow> string option" where
  "the_one f ts =
     (if ts = [] \<or> (\<exists>m \<in> set ts. f m = []) then None
      else if length (remdups (map f ts)) = 1 then Some (hd (remdups (map f ts))) else None)"

lemma the_one_iff: "the_one f ts = Some c \<longleftrightarrow> c \<noteq> [] \<and> f ` set ts = {c}"
proof (cases "\<exists>x. f ` set ts = {x}")
  case True
  then obtain x where x: "f ` set ts = {x}" by blast
  then have "length (remdups (map f ts)) = 1" using remdups_single [of "map f ts"] by simp
  then obtain y where y: "remdups (map f ts) = [y]" by (auto simp: length_Suc_conv)
  then have "set (remdups (map f ts)) = {y}" by simp
  with x have "y = x" by simp
  moreover have "(\<exists>m \<in> set ts. f m = []) \<longleftrightarrow> x = []" using x by (metis imageE image_eqI singletonD singletonI)
  ultimately show ?thesis using x y by (auto simp: the_one_def)
next
  case False
  then have "length (remdups (map f ts)) \<noteq> 1" using remdups_single [of "map f ts"] by simp
  with False show ?thesis by (simp add: the_one_def)
qed

section \<open>Properties\<close>

text \<open>C35: the inheritance queries follow every chain of base contracts, across files and through cycles.
  Subtyping is reachability along the base edges, so it is reflexive and transitive; a contract
  provides a state variable of a type exactly when some contract it inherits from, itself included,
  declares one; and a subtype provides whatever its ancestor does.\<close>

theorem inheritance_queries:
  "(is_subtype idx a b \<longleftrightarrow> (a, b) \<in> (edges (si_bases idx))\<^sup>*) \<and>
   (provides_state_var_type idx a t \<longleftrightarrow> (\<exists>d. is_subtype idx a d \<and> t \<in> set (dict_getd (si_svtypes idx) d []))) \<and>
   state_var_types idx a = {t. provides_state_var_type idx a t} \<and>
   (is_subtype idx a b \<longrightarrow> state_var_types idx b \<subseteq> state_var_types idx a)"
proof -
  have "state_var_types idx b \<subseteq> state_var_types idx a" if "(a, b) \<in> (edges (si_bases idx))\<^sup>*"
    using rtrancl_trans [OF that] by (fastforce simp: state_var_types_iff inherits_def)
  then show ?thesis by (auto simp: is_subtype_iff provides_iff state_var_types_iff inherits_def)
qed

lemma inheritance_queries_witness:
  "\<exists>idx. is_subtype idx ''Child'' ''Base'' \<and> provides_state_var_type idx ''Child'' ''uint256''"
proof -
  let ?idx = "empty_index\<lparr>si_bases := [(''Child'', [''Mid'']), (''Mid'', [''Base'', ''Child''])],
    si_svtypes := [(''Base'', [''uint256''])]\<rparr>"
  have s: "is_subtype ?idx ''Child'' ''Base''" by code_simp
  have "''uint256'' \<in> state_var_types ?idx ''Base''"
    by (subst state_var_types_iff) (auto simp: inherits_def dict_getd_def)
  with s inheritance_queries [of ?idx "''Child''" "''Base''" "''uint256''"] show ?thesis by blast
qed

text \<open>The index is one set of symbols, filed twice. Whatever files are indexed, failing ones included, a
  symbol is found under its own name exactly as often as under its own file, and under no other; so
  the functions of a file are exactly the function symbols of that file a lookup by name finds.\<close>

lemma index_coherent:
  "index_ok resolve (build resolve parse listing) \<and>
   (s \<in> set (functions_in_file resolve (build resolve parse listing) path) \<longleftrightarrow>
      sy_kind s = ''function'' \<and> resolve (sy_file s) = resolve path \<and>
      s \<in> set (dict_getd (si_symbols (build resolve parse listing)) (sy_name s) []))"
proof -
  let ?idx = "build resolve parse listing"
  have ok: "index_ok resolve ?idx" unfolding build_def by (rule bld.inv_reachable)
  have "s \<in> set (dict_getd (si_symbols ?idx) (sy_name s) []) \<longleftrightarrow>
      s \<in> set (dict_getd (si_by_file ?idx) (resolve (sy_file s)) [])"
  proof -
    have "count_list (dict_getd (si_symbols ?idx) (sy_name s) []) s =
        count_list (dict_getd (si_by_file ?idx) (resolve (sy_file s)) []) s"
      using ok by (simp add: index_ok_def)
    then show ?thesis by (metis count_list_0_iff)
  qed
  moreover have "s \<in> set (dict_getd (si_by_file ?idx) p []) \<Longrightarrow> resolve (sy_file s) = p" for p
    using ok unfolding index_ok_def by blast
  moreover have "s \<in> set (functions_in_file resolve ?idx path) \<longleftrightarrow>
      sy_kind s = ''function'' \<and> s \<in> set (dict_getd (si_by_file ?idx) (resolve path) [])"
    by (simp add: functions_in_file_def conj_commute)
  ultimately show ?thesis using ok by metis
qed

text \<open>A broken file costs no other file a symbol. Leaving the files that fail to parse out of the
  listing changes nothing in the index but its list of unparsed files, and every such file that is
  not skipped is on that list.\<close>

lemma broken_files_isolated:
  "(build resolve parse listing)\<lparr>si_unparsed := []\<rparr> =
     (build resolve parse (filter (\<lambda>pp. \<not> isl (parse (fst pp))) listing))\<lparr>si_unparsed := []\<rparr> \<and>
   {fst pp | pp. pp \<in> set listing \<and> isl (parse (fst pp)) \<and> set skip_dirs \<inter> set (snd pp) = {}}
     \<subseteq> set (si_unparsed (build resolve parse listing))"
proof -
  have grows: "set (si_unparsed idx) \<union>
      {fst pp | pp. pp \<in> set pps \<and> isl (parse (fst pp)) \<and> set skip_dirs \<inter> set (snd pp) = {}}
      \<subseteq> set (si_unparsed (fold (build_step resolve parse) pps idx))" for pps idx
  proof (induction pps arbitrary: idx)
    case (Cons pp pps)
    have mono: "set (si_unparsed idx) \<subseteq> set (si_unparsed (build_step resolve parse pp idx))"
    proof -
      have "si_unparsed (fst (index_file resolve parse (fst pp) idx)) = si_unparsed idx"
        using unparsed_file [of resolve parse "fst pp" "si_unparsed idx" idx]
        by (cases "index_file resolve parse (fst pp) idx") (metis fst_conv map_prod_simp surjective symbol_index.select_convs(5) symbol_index.update_convs(5))
      then show ?thesis
        by (cases "index_file resolve parse (fst pp) idx") (auto simp: build_step_def split: option.splits)
    qed
    have "fst pp \<in> set (si_unparsed (build_step resolve parse pp idx))"
      if "isl (parse (fst pp))" "set skip_dirs \<inter> set (snd pp) = {}"
      using that build_step_failed [of parse pp resolve idx] by (simp add: fails_to_parse_def)
    with mono Cons.IH [of "build_step resolve parse pp idx"] show ?case by fastforce
  qed auto
  show ?thesis
    using grows [of empty_index listing] build_without_failed [of resolve parse listing empty_index]
    by (simp add: build_def fails_to_parse_def)
qed

text \<open>A name counts as nested only when that is unambiguous: some struct or enum of the name exists,
  and every one of them stands in the same contract.\<close>

lemma nested_container_iff:
  "nested_container idx name = Some c \<longleftrightarrow>
     c \<noteq> [] \<and> sy_contract ` {m \<in> set (lookup idx name). is_typedef m} = {c}"
proof -
  have "nested_container idx name = the_one sy_contract (filter is_typedef (lookup idx name))"
    by (simp add: nested_container_def is_typedef_def [abs_def] Let_def list_ex_iff the_one_def)
  then show ?thesis by (simp add: the_one_iff)
qed

text \<open>The expanded definitions keep their budget: they are whole blocks, the first of the picked types
  in order, and joined they are no longer than the budget.\<close>

lemma expansion_budget:
  "length (expand_referenced_types api idx budget) \<le> budget \<and>
   (\<exists>n ix. expand_referenced_types api idx budget =
      py_join (nl @ nl) (take n (map (typedef_block \<circ> snd) (picked_types ix api))))"
proof (cases "idx = None \<or> api = []")
  case True
  then have "expand_referenced_types api idx budget = []" by (auto simp: expand_referenced_types_def split: option.split)
  then show ?thesis by (auto intro!: exI [of _ 0])
next
  case False
  then obtain ix where ix: "idx = Some ix" by auto
  let ?bs = "map (typedef_block \<circ> snd) (picked_types ix api)"
  have "expand_referenced_types api idx budget = py_join (nl @ nl) (take_blocks budget 0 ?bs)"
    using False by (simp add: expand_referenced_types_def ix)
  moreover have "length (py_join (nl @ nl) (take_blocks budget 0 ?bs)) \<le> budget"
    using take_blocks_budget [of budget 0 ?bs] by (cases "take_blocks budget 0 ?bs = []") (simp_all add: nl_def)
  ultimately show ?thesis using take_blocks_prefix [of budget 0 ?bs] by metis
qed

text \<open>A small tree, indexed; and the same tree with a struct of the same name beside the contract. The
  walk only enters contracts, so the index never sees the second struct, and \<open>nested_container\<close>
  takes the name for an unambiguous nested one although a top-level declaration exists.\<close>

definition example_struct :: json where
  "example_struct = JObj [(''type'', JStr ''StructDefinition''), (''name'', JStr ''T''), (''members'', JList [JObj
     [(''name'', JStr ''x''), (''typeName'', JObj [(''type'', JStr ''ElementaryTypeName''), (''name'', JStr ''uint256'')])]])]"

definition example_contract :: json where
  "example_contract = JObj [(''type'', JStr ''ContractDefinition''), (''name'', JStr ''A''), (''kind'', JStr ''contract''),
     (''baseContracts'', JList [JObj [(''baseName'', JObj [(''namePath'', JStr ''B'')])]]), (''subNodes'', JList [example_struct])]"

definition example_index :: "json list \<Rightarrow> symbol_index" where
  "example_index children = build (\<lambda>p. p) (\<lambda>p. Inr (JObj [(''children'', JList children)])) [(''src/A.sol'', [''src'', ''A.sol''])]"

lemma index_example:
  "nested_container (example_index [example_contract]) ''A.T'' = Some ''A''"
  "map sy_definition (lookup (example_index [example_contract]) ''T'') = [py_join nl [''struct T {'', ''    uint256 x;'', ''}'']]"
  "is_subtype (example_index [example_contract]) ''A'' ''B''"
  by code_simp+

lemma toplevel_struct_not_indexed:
  "nested_container (example_index [example_struct, example_contract]) ''T'' = Some ''A''"
  by code_simp

end
