(* ===== verification/Proof_Solidity.thy ===== *)
theory Proof_Solidity
  imports Py_Regex
begin

text \<open>
  The text helpers around forge and the drafting model (\<open>proof/solidity_utils.py\<close>): comments, the
  signals read from forge's output, and the Solidity source inside a model's reply. The set of
  tracked files comes from \<open>git\<close> and is left out.

  The lemmas: an extracted source is a run of consecutive lines of the reply that begins with a Solidity
  token, there is none exactly when no line begins with one, and once the source is complete
  nothing behind a closing fence changes it.
\<close>

section \<open>Lines and comments\<close>

definition path_for :: "string \<Rightarrow> string \<Rightarrow> string" where
  "path_for file_map name =
     (case find (\<lambda>line. py_startswith line (name @ '': '')) (py_splitlines file_map) of
        None \<Rightarrow> []
      | Some line \<Rightarrow> (case py_find '': '' line of None \<Rightarrow> [] | Some i \<Rightarrow> drop (i + 2) line))"

definition BLOCK_COMMENT :: regex where
  "BLOCK_COMMENT = rseq [rlit ''/*'', RStar False (RChr (\<lambda>_. True)), rlit ''*/'']"

definition LINE_COMMENT :: regex where
  "LINE_COMMENT = RSeq (rlit ''//'') (RStar True (RChr (\<lambda>c. c \<noteq> CHR 0x0A)))"

definition strip_comments :: "string \<Rightarrow> string" where
  "strip_comments sol = re_subst LINE_COMMENT (\<lambda>_ _. []) 0 (re_subst BLOCK_COMMENT (\<lambda>_ _. []) 0 sol)"

section \<open>Signals in forge's output\<close>

definition RAN_TEST_RE :: regex where
  "RAN_TEST_RE = rseq [rlit ''Ran '', rdigit1, rlit '' test'', ropt (rlit ''s'')]"

definition compiled_signal :: "string \<Rightarrow> string \<Rightarrow> bool" where
  "compiled_signal out err = (re_search RAN_TEST_RE (out @ nl @ err) \<noteq> None)"

definition findall1 :: "regex \<Rightarrow> string \<Rightarrow> string list" where
  "findall1 r s = map (m_group s 1) (re_finditer r s)"

definition error_signature :: "string \<Rightarrow> string list" where
  "error_signature blob = sort (findall1 (rseq [rlit ''Error ('', rdigit1, rlit ''): '',
     RGrp 1 (rplus (RChr (\<lambda>c. c \<noteq> CHR 0x0A)))]) blob)"

definition fail_signature :: "string \<Rightarrow> string list" where
  "fail_signature blob = sort (findall1 (rseq [rlit ''[FAIL'', ropt (rlit '':''), ropt (rlit ''.''), rws0,
     RGrp 1 (RStar True (RChr (\<lambda>c. c \<noteq> CHR '']''))), rlit '']'']) blob)"

section \<open>The source inside a reply\<close>

definition fence :: string where "fence = ''```''"

definition strip_fences :: "string \<Rightarrow> string" where
  "strip_fences text0 =
     (let t = py_strip text0 in
      if py_startswith t fence
      then let ls = py_splitlines t;
               ls1 = (if ls \<noteq> [] \<and> py_startswith (hd ls) fence then tl ls else ls);
               ls2 = (if ls1 \<noteq> [] \<and> py_startswith (last ls1) fence then butlast ls1 else ls1)
           in py_join nl ls2
      else t)"

definition SOLIDITY_TOKENS :: "string list" where
  "SOLIDITY_TOKENS = [''// SPDX'', ''pragma'', ''import'', ''contract'', ''interface'', ''library'', ''abstract contract'']"

definition is_solidity_start :: "string \<Rightarrow> bool" where
  "is_solidity_start st = list_ex (py_startswith st) SOLIDITY_TOKENS"

record scan_state =
  sc_depth :: int
  sc_seen :: bool
  sc_end :: nat
  sc_comment :: bool

definition brace_count :: "string \<Rightarrow> int" where
  "brace_count raw = int (count_list raw (CHR ''{'')) - int (count_list raw (CHR ''}''))"

definition scan_line :: "nat \<Rightarrow> string \<Rightarrow> scan_state \<Rightarrow> scan_state" where
  "scan_line i raw st =
     (let d = sc_depth st + brace_count raw in
      st\<lparr>sc_depth := (if d < 0 then 0 else d), sc_seen := (sc_seen st \<or> CHR ''{'' \<in> set raw), sc_end := i\<rparr>)"

text \<open>The walk over the lines from the anchor on; a break of the loop is the end of the recursion.\<close>

fun scan_units :: "nat \<Rightarrow> string list \<Rightarrow> scan_state \<Rightarrow> scan_state" where
  "scan_units i [] st = st"
| "scan_units i (raw # rest) st =
     (let s = py_strip raw in
      if sc_seen st \<and> sc_depth st = 0
      then (if s = [] then scan_units (Suc i) rest st
            else if py_startswith s fence then st
            else if py_startswith s ''/*'' \<or> sc_comment st
            then scan_units (Suc i) rest (st\<lparr>sc_comment := \<not> py_in ''*/'' raw, sc_end := i\<rparr>)
            else if is_solidity_start s \<or> py_startswith s ''//'' then scan_units (Suc i) rest (scan_line i raw st)
            else st)
      else scan_units (Suc i) rest (scan_line i raw st))"

text \<open>A reply of pragmas and imports only.\<close>

fun scan_header :: "nat \<Rightarrow> string list \<Rightarrow> nat \<Rightarrow> nat" where
  "scan_header i [] e = e"
| "scan_header i (raw # rest) e =
     (let s = py_strip raw in
      if s = [] then scan_header (Suc i) rest e
      else if py_startswith s fence then e
      else if is_solidity_start s \<or> py_startswith s ''//'' \<or> (s \<noteq> [] \<and> last s = CHR '';'')
      then scan_header (Suc i) rest i else e)"

definition anchor_line :: "string list \<Rightarrow> nat option" where
  "anchor_line ls = find (\<lambda>i. is_solidity_start (py_strip (ls ! i))) [0..<length ls]"

definition source_end :: "string list \<Rightarrow> nat \<Rightarrow> nat" where
  "source_end ls start =
     (let st = scan_units start (drop start ls) \<lparr>sc_depth = 0, sc_seen = False, sc_end = start, sc_comment = False\<rparr> in
      if sc_seen st then sc_end st else scan_header start (drop start ls) start)"

definition extract_lines :: "string list \<Rightarrow> string" where
  "extract_lines ls =
     (case anchor_line ls of
        None \<Rightarrow> []
      | Some start \<Rightarrow> py_strip (py_join nl (take (source_end ls start + 1 - start) (drop start ls))))"

definition extract_solidity :: "string \<Rightarrow> string" where
  "extract_solidity reply = extract_lines (py_splitlines (strip_fences reply))"

section \<open>The leaf contract of a scaffold\<close>

definition SCAFFOLD_CONTRACT_RE :: regex where
  "SCAFFOLD_CONTRACT_RE = rseq [RWordB, ropt (RSeq (rlit ''abstract'') rws1), rlit ''contract'', rws1, RGrp 1 rword1, rws0,
     RAlt (RSeq (rlit ''is'') RWordB) (rlit ''{'')]"

definition SCAFFOLD_IS_RE :: regex where
  "SCAFFOLD_IS_RE = rseq [RWordB, rlit ''contract'', rws1, rword1, rws1, rlit ''is'', rws1,
     RGrp 1 (RSeq (RChr (\<lambda>c. c \<noteq> CHR ''{'')) (RStar False (RChr (\<lambda>c. c \<noteq> CHR ''{'')))), rws0, rlit ''{'']"

definition scaffold_base_name :: "string \<Rightarrow> string option" where
  "scaffold_base_name text0 =
     (let t = strip_comments text0; decls = findall1 SCAFFOLD_CONTRACT_RE t in
      if decls = [] then None
      else let used = concat (map (\<lambda>bases. map py_strip (py_split (CHR '','') bases)) (findall1 SCAFFOLD_IS_RE t));
               leaves = filter (\<lambda>n. n \<notin> set used) decls
           in Some (if leaves \<noteq> [] then last leaves else last decls))"

section \<open>The span of an extraction\<close>

lemma scan_line_end [simp]: "sc_end (scan_line i raw st) = i"
  by (simp add: scan_line_def Let_def)

lemma scan_units_lower: "lo \<le> sc_end st \<Longrightarrow> lo \<le> i \<Longrightarrow> lo \<le> sc_end (scan_units i ls st)"
  by (induction i ls st rule: scan_units.induct) (simp_all add: Let_def)

lemma scan_units_upper: "sc_end st < hi \<Longrightarrow> i + length ls \<le> hi \<Longrightarrow> sc_end (scan_units i ls st) < hi"
  by (induction i ls st rule: scan_units.induct) (simp_all add: Let_def)

lemma scan_header_lower: "lo \<le> e \<Longrightarrow> lo \<le> i \<Longrightarrow> lo \<le> scan_header i ls e"
  by (induction i ls e rule: scan_header.induct) (simp_all add: Let_def)

lemma scan_header_upper: "e < hi \<Longrightarrow> i + length ls \<le> hi \<Longrightarrow> scan_header i ls e < hi"
  by (induction i ls e rule: scan_header.induct) (simp_all add: Let_def)

lemma anchor_line_Some:
  assumes "anchor_line ls = Some i"
  shows "i < length ls" "is_solidity_start (py_strip (ls ! i))"
  using assms by (auto simp: anchor_line_def find_Some_iff)

lemma source_end_bounds:
  assumes "start < length ls"
  shows "start \<le> source_end ls start \<and> source_end ls start < length ls"
  using assms by (simp add: source_end_def Let_def scan_units_lower scan_units_upper scan_header_lower scan_header_upper)

lemma py_rstrip_keep: "a \<noteq> [] \<Longrightarrow> \<not> py_space (last a) \<Longrightarrow> py_rstrip (a @ b) = a @ py_rstrip b"
  by (cases a rule: rev_cases) (auto simp: py_rstrip_def dropWhile_append)

lemma py_strip_split: "\<exists>ws. py_lstrip s = py_strip s @ ws"
proof -
  have "py_lstrip s = rev (dropWhile py_space (rev (py_lstrip s))) @ rev (takeWhile py_space (rev (py_lstrip s)))"
    by (metis rev_append rev_rev_ident takeWhile_dropWhile_id)
  then show ?thesis by (auto simp: py_strip_def py_lstrip_def)
qed

lemma py_strip_first_line:
  assumes "py_strip l = tok @ x" "tok \<noteq> []" "\<not> py_space (last tok)"
  shows "py_startswith (py_strip (l @ r)) tok"
proof -
  obtain ws where ws: "py_lstrip l = tok @ x @ ws" using py_strip_split [of l] assms(1) by auto
  have "py_lstrip (l @ r) = tok @ (x @ ws @ r)"
    using ws assms(2) by (auto simp: py_lstrip_def dropWhile_append dropWhile_eq_Nil_conv [symmetric] simp del: dropWhile_eq_Nil_conv)
  then have "py_strip (l @ r) = tok @ py_rstrip (x @ ws @ r)"
    using py_rstrip_keep [OF assms(2,3), of "x @ ws @ r"] by (simp add: py_strip_def py_lstrip_def py_rstrip_def)
  then show ?thesis by (simp add: py_startswith_def)
qed

lemma py_join_Cons: "\<exists>r. py_join sep (x # xs) = x @ r"
  by (cases xs) auto

lemma tokens_solid: "tok \<in> set SOLIDITY_TOKENS \<Longrightarrow> tok \<noteq> [] \<and> \<not> py_space (last tok)"
  by (auto simp: SOLIDITY_TOKENS_def py_space_def)

section \<open>What follows a complete source\<close>

lemma scan_units_tail:
  assumes "py_startswith (py_strip f) fence"
    "sc_seen (scan_units i xs st)" "sc_depth (scan_units i xs st) = 0"
  shows "scan_units i (xs @ f # ys) st = scan_units i xs st"
proof -
  have "py_strip f \<noteq> []" using assms(1) by (auto simp: py_startswith_def fence_def)
  with assms show ?thesis
    by (induction i xs st rule: scan_units.induct) (auto simp: Let_def split: if_splits)
qed

lemma anchor_line_append: "anchor_line xs = Some i \<Longrightarrow> anchor_line (xs @ ys) = Some i"
proof -
  assume "anchor_line xs = Some i"
  then have "find (\<lambda>j. is_solidity_start (py_strip ((xs @ ys) ! j))) [0..<length xs] = Some i"
    by (auto simp: anchor_line_def find_Some_iff nth_append)
  moreover have "[0..<length (xs @ ys)] = [0..<length xs] @ [length xs..<length (xs @ ys)]"
    by (metis length_append upt_add_eq_append zero_le)
  ultimately show ?thesis by (simp only: anchor_line_def find_append option.simps)
qed

section \<open>Properties\<close>

text \<open>An extracted source is a run of the reply's own lines. There is none exactly when no line begins
  with a Solidity token; otherwise it is, up to outer space, the lines from the first such line to a
  later one, and it begins with a Solidity token.\<close>

lemma extraction_is_span:
  "(extract_lines ls = [] \<longleftrightarrow> list_all (\<lambda>l. \<not> is_solidity_start (py_strip l)) ls) \<and>
   (extract_lines ls = [] \<or> is_solidity_start (extract_lines ls) \<and>
      (\<exists>start e. start \<le> e \<and> e < length ls \<and> anchor_line ls = Some start \<and>
         extract_lines ls = py_strip (py_join nl (take (e + 1 - start) (drop start ls)))))"
proof (cases "anchor_line ls")
  case None
  then have "list_all (\<lambda>l. \<not> is_solidity_start (py_strip l)) ls"
    by (auto simp: anchor_line_def find_None_iff list_all_length)
  with None show ?thesis by (simp add: extract_lines_def)
next
  case (Some start)
  note a = anchor_line_Some [OF Some]
  let ?e = "source_end ls start"
  have e: "start \<le> ?e" "?e < length ls" using source_end_bounds [OF a(1)] by auto
  have ex: "extract_lines ls = py_strip (py_join nl (take (?e + 1 - start) (drop start ls)))"
    using Some by (simp add: extract_lines_def)
  have "take (?e + 1 - start) (drop start ls) = ls ! start # take (?e - start) (drop (Suc start) ls)"
    using a(1) e by (simp add: Suc_diff_le Cons_nth_drop_Suc [symmetric])
  then obtain r where r: "extract_lines ls = py_strip (ls ! start @ r)"
    using py_join_Cons ex by metis
  from a(2) obtain tok where tok: "tok \<in> set SOLIDITY_TOKENS" "py_startswith (py_strip (ls ! start)) tok"
    by (auto simp: is_solidity_start_def list_ex_iff)
  then obtain x where x: "py_strip (ls ! start) = tok @ x"
    unfolding py_startswith_def by (metis append_take_drop_id)
  have st: "py_startswith (extract_lines ls) tok"
    unfolding r using py_strip_first_line [OF x] tokens_solid [OF tok(1)] by blast
  then have "is_solidity_start (extract_lines ls)" using tok(1) by (auto simp: is_solidity_start_def list_ex_iff)
  moreover have "extract_lines ls \<noteq> []" using st tokens_solid [OF tok(1)] by (auto simp: py_startswith_def)
  moreover have "\<not> list_all (\<lambda>l. \<not> is_solidity_start (py_strip l)) ls"
    using a by (auto simp: list_all_length)
  ultimately show ?thesis using e ex Some by blast
qed

text \<open>Text behind the source never changes it. Once the lines of a reply hold a complete source, with a
  body and every brace closed, a closing fence may be followed by any prose or code without changing
  what is extracted.\<close>

lemma extraction_ignores_tail:
  assumes "anchor_line xs = Some start" "py_startswith (py_strip f) fence"
    "sc_seen (scan_units start (drop start xs) \<lparr>sc_depth = 0, sc_seen = False, sc_end = start, sc_comment = False\<rparr>)"
    "sc_depth (scan_units start (drop start xs) \<lparr>sc_depth = 0, sc_seen = False, sc_end = start, sc_comment = False\<rparr>) = 0"
  shows "extract_lines (xs @ f # ys) = extract_lines xs"
proof -
  note a = anchor_line_Some [OF assms(1)]
  have "drop start (xs @ f # ys) = drop start xs @ f # ys" using a(1) by simp
  then have "source_end (xs @ f # ys) start = source_end xs start"
    using scan_units_tail [OF assms(2-4)] assms(3) by (simp add: source_end_def Let_def)
  moreover have "source_end xs start < length xs" using source_end_bounds [OF a(1)] by simp
  ultimately show ?thesis
    using anchor_line_append [OF assms(1), of "f # ys"] assms(1) a(1) by (simp add: extract_lines_def)
qed

lemma extraction_ignores_tail_witness:
  "extract_lines ([''Sure:'', ''contract A {'', ''}''] @ ''```'' # [''That { was it.'']) = ''contract A {'' @ nl @ ''}''"
proof -
  have "extract_lines ([''Sure:'', ''contract A {'', ''}''] @ ''```'' # [''That { was it.'']) = extract_lines [''Sure:'', ''contract A {'', ''}'']"
    by (rule extraction_ignores_tail [where start = 1]) code_simp+
  also have "\<dots> = ''contract A {'' @ nl @ ''}''" by code_simp
  finally show ?thesis .
qed

text \<open>The leaf of a scaffold is a contract it declares, and one no other contract of the scaffold
  extends whenever there is such a contract.\<close>

lemma scaffold_base_declared:
  "scaffold_base_name t = Some n \<Longrightarrow> n \<in> set (findall1 SCAFFOLD_CONTRACT_RE (strip_comments t))"
proof -
  assume n: "scaffold_base_name t = Some n"
  have "last (filter P xs) \<in> set xs" if "filter P xs \<noteq> []" for P and xs :: "string list"
    using last_in_set [OF that] by simp
  with n show ?thesis by (auto simp: scaffold_base_name_def Let_def split: if_splits)
qed

lemma scaffold_base_example:
  "scaffold_base_name (''contract Base { } // contract X {'' @ nl @ ''contract DemoTest is Base, Other { }'') = Some ''DemoTest''"
  by code_simp

end
