(* ===== verification/Proof_Fixers.thy ===== *)
theory Proof_Fixers
  imports Proof_Index Proof_Solidity "HOL-Library.Sublist"
begin

text \<open>
  The deterministic repairs of a drafted test (\<open>proof/solidity_fixers.py\<close>): six transformations of
  source text and the five sequences the repair loops apply. The project's files are a record of
  queries: what \<open>rglob\<close> finds for a name, in any order and relative to the root, which of the paths are files,
  and which are tracked by git. Paths are absolute POSIX paths; the root of the project is a string.

  The lemmas: each line repair leaves every line it is not about alone; an import is rewritten to a path
  that resolves, from the importing directory, to the file that was picked, and the pick does not
  depend on the scan order; a missing import is added only for a name one of the authorities knows; and
  repairing a conversion twice changes nothing when the compiler flags each line once.
\<close>

section \<open>Paths\<close>

text \<open>The parts of an absolute path, as \<open>normpath\<close> leaves them, and \<open>os.path.relpath\<close>.\<close>

definition norm_step :: "string \<Rightarrow> string list \<Rightarrow> string list" where
  "norm_step c acc = (if c = [] \<or> c = ''.'' then acc else if c = ''..'' then butlast acc else acc @ [c])"

definition norm_parts :: "string \<Rightarrow> string list" where
  "norm_parts p = fold norm_step (py_split (CHR ''/'') p) []"

definition relpath :: "string \<Rightarrow> string \<Rightarrow> string" where
  "relpath path start =
     (let s = norm_parts start; p = norm_parts path; k = length (longest_common_prefix s p);
          rel = replicate (length s - k) ''..'' @ drop k p
      in if rel = [] then ''.'' else py_join ''/'' rel)"

definition path_basename :: "string \<Rightarrow> string" where
  "path_basename p = last (py_split (CHR ''/'') p)"

record project_files =
  pf_root :: string
  pf_rglob :: "string \<Rightarrow> string list"
  pf_is_file :: "string \<Rightarrow> bool"
  pf_tracked :: "string \<Rightarrow> bool"

definition abs_path :: "project_files \<Rightarrow> string \<Rightarrow> string" where
  "abs_path fs rel = pf_root fs @ ''/'' @ rel"

definition POC_SUBDIR :: string where "POC_SUBDIR = ''audit/poc''"

definition SKIP_DIRS :: "string list" where
  "SKIP_DIRS = [''out'', ''cache_forge'', ''node_modules'', ''lib'', ''artifacts'']"

section \<open>The constructor of a test\<close>

fun brace_block_from :: "int \<Rightarrow> nat \<Rightarrow> string \<Rightarrow> nat option" where
  "brace_block_from depth i [] = None"
| "brace_block_from depth i (c # cs) =
     (if c = CHR ''{'' then brace_block_from (depth + 1) (Suc i) cs
      else if c = CHR ''}'' then (if depth - 1 = 0 then Some i else brace_block_from (depth - 1) (Suc i) cs)
      else brace_block_from depth (Suc i) cs)"

definition brace_block :: "string \<Rightarrow> nat \<Rightarrow> nat option" where
  "brace_block s open_idx = brace_block_from 0 open_idx (drop open_idx s)"

text \<open>\<open>function NAME ( .. ) .. {\<close> for the two names.\<close>

definition function_re :: "regex \<Rightarrow> regex" where
  "function_re name = rseq [rlit ''function'', rws1, name, rws0, rlit ''('', RStar True (RChr (\<lambda>c. c \<noteq> CHR '')'')), rlit '')'',
     RStar True (RChr (\<lambda>c. c \<noteq> CHR ''{'')), rlit ''{'']"

definition SETUP_RE :: regex where "SETUP_RE = function_re (rlit ''setUp'')"
definition TEST_RE :: regex where "TEST_RE = function_re (RSeq (rlit ''test'') (RStar True (RChr py_word)))"

definition fix_setup_override :: "string \<Rightarrow> string \<times> bool" where
  "fix_setup_override code =
     (case re_search SETUP_RE code of
        None \<Rightarrow> (code, False)
      | Some m \<Rightarrow>
          (case brace_block code (m_end m - 1) of
             None \<Rightarrow> (code, False)
           | Some close \<Rightarrow>
               let stmts = py_strip (py_join nl (filter (\<lambda>l. \<not> py_in ''super.setUp'' l) (py_splitlines (substr code (m_end m) close))));
                   code2 = py_replace (nl @ nl @ nl) (nl @ nl) (take (m_start m) code @ drop (close + 1) code)
               in (case re_search TEST_RE code2 of
                     None \<Rightarrow> (code2, True)
                   | Some tm \<Rightarrow>
                       if stmts = [] then (code2, True)
                       else (take (m_end tm) code2 @ nl @ replicate 8 (CHR '' '') @ py_replace nl (nl @ replicate 8 (CHR '' '')) stmts
                               @ drop (m_end tm) code2, True))))"

section \<open>Import paths\<close>

definition quote_char :: "char \<Rightarrow> bool" where
  "quote_char c = (c = CHR 0x22 \<or> c = CHR 0x27)"

definition IMPORT_PATH_RE :: regex where
  "IMPORT_PATH_RE = rseq [RChr quote_char, RGrp 1 (RSeq (rplus (RChr (\<lambda>c. \<not> quote_char c))) (rlit ''.sol'')), RChr quote_char]"

definition library_import :: "string \<Rightarrow> bool" where
  "library_import path = (py_startswith path ''@'' \<or> py_startswith path ''forge-std'')"

text \<open>The candidates for a path: files of its name outside the skipped directories, the tracked ones if
  there are any; the shallowest is picked, then the least by name.\<close>

definition import_candidates :: "project_files \<Rightarrow> string \<Rightarrow> string list" where
  "import_candidates fs name =
     (let cands = filter (\<lambda>p. pf_is_file fs p \<and> set SKIP_DIRS \<inter> set (py_split (CHR ''/'') p) = {}) (pf_rglob fs name);
          tr = filter (pf_tracked fs) cands
      in if tr \<noteq> [] then tr else cands)"

definition pick_import :: "project_files \<Rightarrow> string \<Rightarrow> string option" where
  "pick_import fs name =
     (case sort_key (\<lambda>p. (length (py_split (CHR ''/'') p), abs_path fs p)) (import_candidates fs name) of
        [] \<Rightarrow> None | p # _ \<Rightarrow> Some p)"

definition import_form :: "string \<Rightarrow> string" where
  "import_form rel = (let r = py_replace [CHR 0x5C] ''/'' rel in if py_startswith r ''.'' then r else ''./'' @ r)"

definition fix_import_line :: "project_files \<Rightarrow> string \<Rightarrow> string \<Rightarrow> string \<times> bool" where
  "fix_import_line fs base line =
     (let s = py_lstrip line in
      if py_startswith s ''SPDX-License-Identifier''
      then (py_replace1 ''SPDX-License-Identifier'' ''// SPDX-License-Identifier'' line, True)
      else if py_startswith s ''import''
      then (case re_search IMPORT_PATH_RE line of
              None \<Rightarrow> (line, False)
            | Some mo \<Rightarrow>
                let path = m_group line 1 mo in
                if library_import path then (line, False)
                else (case pick_import fs (path_basename path) of
                        None \<Rightarrow> (line, False)
                      | Some p \<Rightarrow>
                          let correct = import_form (relpath (abs_path fs p) base)
                          in if correct \<noteq> path then (py_replace path correct line, True) else (line, False)))
      else (line, False))"

definition fix_import_paths :: "project_files \<Rightarrow> string option \<Rightarrow> string \<Rightarrow> string \<times> bool \<times> bool" where
  "fix_import_paths fs base_dir code =
     (let base = (case base_dir of Some d \<Rightarrow> d | None \<Rightarrow> abs_path fs POC_SUBDIR);
          res = map (fix_import_line fs base) (py_splitlines code); hit = list_ex snd res
      in (py_join nl (map fst res), hit, hit))"

section \<open>Conversions from an address\<close>

definition ADDR_IFACE_LOC_RE :: regex where
  "ADDR_IFACE_LOC_RE = rseq [rlit ''conversion from address to contract '', RGrp 1 rword1, rlit '' requested.'', rws0, rlit ''-->'', rws0,
     RChr (\<lambda>c. \<not> py_space c), RStar False (RChr (\<lambda>c. \<not> py_space c)), rlit '':'', RGrp 2 rdigit1, rlit '':'']"

definition ADDRESS_CALL_RE :: regex where
  "ADDRESS_CALL_RE = rseq [rlit ''address('', RGrp 1 (RStar True (RChr (\<lambda>c. c \<noteq> CHR ''('' \<and> c \<noteq> CHR '')''))), rlit '')'']"

definition conversion_hits :: "string \<Rightarrow> (string \<times> nat) list" where
  "conversion_hits out = map (\<lambda>m. (m_group out 1 m, dec_val (m_group out 2 m))) (re_finditer ADDR_IFACE_LOC_RE out)"

definition needs_wrap :: "string \<Rightarrow> string \<Rightarrow> bool" where
  "needs_wrap ty line = (py_in ''address('' line \<and> \<not> py_in (ty @ ''(address('') line)"

definition wrap_line :: "string \<Rightarrow> string \<Rightarrow> string" where
  "wrap_line ty line = re_subst ADDRESS_CALL_RE (\<lambda>s m. ty @ ''(address('' @ m_group s 1 m @ ''))'') 1 line"

definition wrap_hit :: "string \<times> nat \<Rightarrow> string list \<times> bool \<Rightarrow> string list \<times> bool" where
  "wrap_hit hit st =
     (case (hit, st) of ((ty, ln), (ls, applied)) \<Rightarrow>
        if 1 \<le> ln \<and> ln - 1 < length ls \<and> needs_wrap ty (ls ! (ln - 1))
        then (ls[ln - 1 := wrap_line ty (ls ! (ln - 1))], True) else (ls, applied))"

definition fix_address_interface :: "string \<Rightarrow> string \<Rightarrow> string \<times> bool \<times> bool" where
  "fix_address_interface code forge_output =
     (let hits = conversion_hits forge_output; (ls, applied) = fold wrap_hit hits (py_splitlines code, False)
      in (py_join nl ls, hits \<noteq> [], applied))"

section \<open>Named imports\<close>

definition NAMED_IMPORT_RE :: regex where
  "NAMED_IMPORT_RE = rseq [rlit ''import'', rws0, rlit ''{'', RGrp 1 (RStar True (RChr (\<lambda>c. c \<noteq> CHR ''}''))), rlit ''}'', rws0,
     rlit ''from'', rws0, RChr quote_char, RGrp 2 (rplus (RChr (\<lambda>c. \<not> quote_char c))), RChr quote_char, rws0, rlit '';'']"

definition UNDECLARED_BLOCK_RE :: regex where
  "UNDECLARED_BLOCK_RE =
     (let noteol = RChr (\<lambda>c. c \<noteq> CHR 0x0A); ln = RSeq (RStar True noteol) (rlit nl) in
      rseq [rlit ''Error ('', RAlt (rlit ''7576'') (rlit ''7920''), rlit ''):'', ln, ln, ln, rws0, rdigit1, rws0, rlit ''|'',
        RGrp 1 (RStar True noteol), rlit nl, rws0, rlit ''|'',
        RGrp 2 (rseq [RStar True noteol, rplus (RChr (\<lambda>c. c = CHR ''^'')), RStar True noteol])])"

text \<open>\<open>raw.split(" as ")[0].strip()\<close>.\<close>

definition import_base_name :: "string \<Rightarrow> string" where
  "import_base_name raw = py_strip (case py_find '' as '' raw of None \<Rightarrow> raw | Some i \<Rightarrow> take i raw)"

definition imported_names :: "string \<Rightarrow> string list" where
  "imported_names code = concat (map (\<lambda>m. map import_base_name (py_split (CHR '','') (m_group code 1 m))) (re_finditer NAMED_IMPORT_RE code))"

definition scaffold_named_import_path :: "string \<Rightarrow> string \<Rightarrow> string option" where
  "scaffold_named_import_path existing name =
     (if existing = [] \<or> name = [] then None
      else map_option (m_group existing 2)
        (find (\<lambda>m. name \<in> set (map import_base_name (py_split (CHR '','') (m_group existing 1 m)))) (re_finditer NAMED_IMPORT_RE existing)))"

definition is_identifier :: "string \<Rightarrow> bool" where
  "is_identifier s = (case s of [] \<Rightarrow> False
     | c # cs \<Rightarrow> (py_upper_char c \<or> py_lower_char c \<or> c = CHR ''_'') \<and> list_all py_word cs)"

text \<open>The name above the carets of one error.\<close>

definition caret_name :: "string \<Rightarrow> string \<Rightarrow> string" where
  "caret_name src caret =
     (let cs = length (takeWhile (\<lambda>c. c \<noteq> CHR ''^'') caret);
          ce = length caret - length (takeWhile (\<lambda>c. c \<noteq> CHR ''^'') (rev caret))
      in if CHR ''^'' \<in> set caret \<and> cs < ce \<and> ce \<le> length src then py_strip (substr src cs ce) else [])"

definition undeclared_names :: "string \<Rightarrow> string list" where
  "undeclared_names out = filter is_identifier (map (\<lambda>m. caret_name (m_group out 1 m) (m_group out 2 m)) (re_finditer UNDECLARED_BLOCK_RE out))"

definition top_level_hits :: "symbol_index \<Rightarrow> string \<Rightarrow> symbol list" where
  "top_level_hits idx name =
     filter (\<lambda>m. sy_kind m \<in> {''contract'', ''interface'', ''library''} \<and> sy_contract m = []) (lookup idx name)"

text \<open>The unique top-level symbol of a name, as a path below the importing directory.\<close>

definition index_import_path :: "symbol_index option \<Rightarrow> string option \<Rightarrow> string \<Rightarrow> string option" where
  "index_import_path idx base name =
     (case (idx, base) of
        (Some ix, Some b) \<Rightarrow> (case top_level_hits ix name of [m] \<Rightarrow> Some (relpath (sy_file m) b) | _ \<Rightarrow> None)
      | _ \<Rightarrow> None)"

record import_authorities =
  ia_file_map :: string
  ia_existing :: string
  ia_index :: "symbol_index option"
  ia_base :: "string option"

definition nonempty :: "string option \<Rightarrow> string option" where
  "nonempty s = (case s of Some (c # cs) \<Rightarrow> Some (c # cs) | _ \<Rightarrow> None)"

definition known_path :: "import_authorities \<Rightarrow> string \<Rightarrow> string option" where
  "known_path au name =
     (case nonempty (Some (path_for (ia_file_map au) name)) of Some p \<Rightarrow> Some p
      | None \<Rightarrow> (case nonempty (scaffold_named_import_path (ia_existing au) name) of Some p \<Rightarrow> Some p
        | None \<Rightarrow> nonempty (index_import_path (ia_index au) (ia_base au) name)))"

definition import_line :: "string \<Rightarrow> string \<Rightarrow> string" where
  "import_line name path = ''import { '' @ name @ '' } from '' @ [CHR 0x22] @ path @ [CHR 0x22] @ '';''"

definition undeclared_additions :: "import_authorities \<Rightarrow> string \<Rightarrow> string list \<Rightarrow> (string \<times> string) list" where
  "undeclared_additions au code names =
     List.map_filter (\<lambda>n. if n \<in> set (imported_names code) then None else map_option (\<lambda>p. (n, p)) (known_path au n)) names"

text \<open>After the last pragma or import line; 0 when there is none.\<close>

definition insert_position :: "string list \<Rightarrow> nat" where
  "insert_position ls =
     length (dropWhile (\<lambda>l. \<not> (py_startswith (py_strip l) ''pragma'' \<or> py_startswith (py_strip l) ''import'')) (rev ls))"

text \<open>\<open>dict.fromkeys\<close>: the first occurrence of each.\<close>

definition unique_names :: "string list \<Rightarrow> string list" where
  "unique_names xs = rev (remdups (rev xs))"

definition fix_undeclared_import :: "import_authorities \<Rightarrow> string \<Rightarrow> string \<Rightarrow> string \<times> bool \<times> bool" where
  "fix_undeclared_import au code forge_output =
     (let adds = undeclared_additions au code (unique_names (undeclared_names forge_output)); ls = py_splitlines code; k = insert_position ls in
      if adds = [] then (code, False, False)
      else (py_join nl (take k ls @ map (\<lambda>(n, p). import_line n p) adds @ drop k ls), True, True))"

section \<open>Nested types\<close>

definition container_import_path :: "string \<Rightarrow> string \<Rightarrow> string \<Rightarrow> symbol_index \<Rightarrow> string option \<Rightarrow> string" where
  "container_import_path container file_map orig_path idx base =
     (if path_for file_map container \<noteq> [] then path_for file_map container
      else case index_import_path (Some idx) base container of Some p \<Rightarrow> p | None \<Rightarrow> orig_path)"

definition has_alias :: "string \<Rightarrow> bool" where
  "has_alias n = py_in '' as '' n"

definition nested_of :: "symbol_index \<Rightarrow> string \<Rightarrow> string option" where
  "nested_of idx n = (if has_alias n then None else nonempty (nested_container idx n))"

definition import_names :: "string \<Rightarrow> string list" where
  "import_names grp = filter (\<lambda>n. n \<noteq> []) (map py_strip (py_split (CHR '','') grp))"

record nested_state =
  ns_out :: "string list"
  ns_removed :: "(string, string \<times> string) dict"
  ns_applied :: bool

definition nested_line :: "symbol_index \<Rightarrow> string \<Rightarrow> nested_state \<Rightarrow> nested_state" where
  "nested_line idx line st =
     (case re_match_start NAMED_IMPORT_RE (py_strip line) of
        None \<Rightarrow> st\<lparr>ns_out := ns_out st @ [line]\<rparr>
      | Some m \<Rightarrow>
          let path = m_group (py_strip line) 2 m; names = import_names (m_group (py_strip line) 1 m);
              keep = filter (\<lambda>n. nested_of idx n = None) names;
              removed = fold (\<lambda>n d. case nested_of idx n of None \<Rightarrow> d | Some c \<Rightarrow> dict_set n (c, path) d) names (ns_removed st)
          in if library_import path \<or> length keep = length names
             then st\<lparr>ns_out := ns_out st @ [line]\<rparr>
             else \<lparr>ns_out = ns_out st @ (if keep = [] then []
                              else [take (length line - length (py_lstrip line)) line @ ''import { '' @ py_join '', '' keep @
                                    '' } from '' @ [CHR 0x22] @ path @ [CHR 0x22] @ '';'']),
                    ns_removed = removed, ns_applied = True\<rparr>)"

definition strict_imported :: "string list \<Rightarrow> string list" where
  "strict_imported ls = concat (map (\<lambda>line. case re_match_start NAMED_IMPORT_RE (py_strip line) of
     None \<Rightarrow> [] | Some m \<Rightarrow> map py_strip (py_split (CHR '','') (m_group (py_strip line) 1 m))) ls)"

definition bare_use_re :: "string \<Rightarrow> regex" where
  "bare_use_re name = rseq [RBehind False (\<lambda>c. c = CHR ''.'' \<or> py_word c), rlit name, RWordB]"

definition qualify_use :: "string \<times> string \<times> string \<Rightarrow> string \<Rightarrow> string" where
  "qualify_use r code = re_subst (bare_use_re (fst r)) (\<lambda>_ _. fst (snd r) @ ''.'' @ fst r) 0 code"

definition nested_state0 :: nested_state where
  "nested_state0 = \<lparr>ns_out = [], ns_removed = [], ns_applied = False\<rparr>"

definition fix_nested_type_imports ::
  "symbol_index option \<Rightarrow> string \<Rightarrow> string option \<Rightarrow> string \<Rightarrow> string \<times> bool \<times> bool" where
  "fix_nested_type_imports index file_map base code =
     (case index of None \<Rightarrow> (code, False, False)
      | Some idx \<Rightarrow>
          let st = fold (nested_line idx) (py_splitlines code) nested_state0; out = ns_out st; removed = ns_removed st in
          if removed = [] then (code, False, False)
          else let containers = fold (\<lambda>(_, c, p) d. dict_set c p d) removed [];
                   adds = map (\<lambda>(c, p). import_line c (container_import_path c file_map p idx base))
                            (filter (\<lambda>(c, p). c \<notin> set (strict_imported out)) containers);
                   k = insert_position out;
                   code2 = py_join nl (take k out @ adds @ drop k out)
               in (fold qualify_use removed code2, True, True))"

section \<open>The base of a test\<close>

definition PARENT_RE :: regex where
  "PARENT_RE = rseq [RGrp 1 (rseq [rlit ''contract'', rws1, rword1, rws1, rlit ''is'', rws1]),
     RGrp 2 (RSeq (RChr (\<lambda>c. c \<noteq> CHR ''{'')) (RStar False (RChr (\<lambda>c. c \<noteq> CHR ''{'')))), RGrp 3 (RSeq rws0 (rlit ''{''))]"

definition fix_scaffold_base :: "string \<Rightarrow> string \<Rightarrow> string \<times> bool" where
  "fix_scaffold_base code scaffold =
     (case nonempty (scaffold_base_name scaffold) of
        None \<Rightarrow> (code, False)
      | Some leaf \<Rightarrow>
          (case rev (re_finditer PARENT_RE code) of
             [] \<Rightarrow> (code, False)
           | m # _ \<Rightarrow>
               if leaf \<in> set (map py_strip (py_split (CHR '','') (m_group code 2 m))) then (code, False)
               else (case map_of (m_groups m) 2 of None \<Rightarrow> (code, False)
                     | Some (i, j) \<Rightarrow> (take i code @ leaf @ drop j code, True))))"

section \<open>The sequences\<close>

record fixer_result =
  fr_name :: string
  fr_matched :: bool
  fr_applied :: bool

definition applied_names :: "fixer_result list \<Rightarrow> string list" where
  "applied_names rs = map fr_name (filter fr_applied rs)"

definition seq_synth_prewrite :: "project_files \<Rightarrow> string \<Rightarrow> string \<Rightarrow> string \<times> string list" where
  "seq_synth_prewrite fs synth_dir code =
     (case fix_import_paths fs (Some synth_dir) code of (c, _, hit) \<Rightarrow> (c, if hit then [''import_paths''] else []))"

definition seq_synth_repair ::
  "project_files \<Rightarrow> string \<Rightarrow> symbol_index option \<Rightarrow> string \<Rightarrow> string \<Rightarrow> string \<Rightarrow> string \<Rightarrow> string \<times> fixer_result list" where
  "seq_synth_repair fs synth_dir index file_map existing forge_output code0 =
     (let (c1, m1, a1) = fix_import_paths fs (Some synth_dir) code0;
          (c2, m2, a2) = fix_nested_type_imports index file_map (Some synth_dir) c1;
          (c3, m3, a3) = fix_undeclared_import
            \<lparr>ia_file_map = file_map, ia_existing = existing, ia_index = index, ia_base = Some synth_dir\<rparr> c2 forge_output;
          (c4, m4, a4) = fix_address_interface c3 forge_output
      in (c4, [\<lparr>fr_name = ''import_paths'', fr_matched = m1, fr_applied = a1\<rparr>,
               \<lparr>fr_name = ''nested_imports'', fr_matched = m2, fr_applied = a2\<rparr>,
               \<lparr>fr_name = ''undeclared_import'', fr_matched = m3, fr_applied = a3\<rparr>,
               \<lparr>fr_name = ''address_interface'', fr_matched = m4, fr_applied = a4\<rparr>]))"

definition seq_draft_inplace :: "string \<Rightarrow> string \<Rightarrow> string \<Rightarrow> string \<times> string list" where
  "seq_draft_inplace file_map forge_output code0 =
     (let (c1, _, a1) = fix_undeclared_import
            \<lparr>ia_file_map = file_map, ia_existing = [], ia_index = None, ia_base = None\<rparr> code0 forge_output;
          (c2, _, a2) = fix_address_interface c1 forge_output
      in (c2, (if a1 then [''undeclared_import''] else []) @ (if a2 then [''address_interface''] else [])))"

definition seq_postmodel ::
  "project_files \<Rightarrow> symbol_index option \<Rightarrow> string \<Rightarrow> string \<Rightarrow> bool \<Rightarrow> string \<Rightarrow> string \<times> string list" where
  "seq_postmodel fs index file_map scaffold guard code0 =
     (let (c1, a1) = (if guard then fix_setup_override code0 else (code0, False));
          (c2, _, a2) = fix_import_paths fs None c1;
          (c3, _, a3) = fix_nested_type_imports index file_map None c2;
          (c4, a4) = fix_scaffold_base c3 scaffold
      in (c4, (if a1 then [''setup_override''] else []) @ (if a2 then [''import_paths''] else []) @
              (if a3 then [''nested_imports''] else []) @ (if a4 then [''scaffold_base''] else [])))"

definition POSTMODEL_EVENT :: "(string \<times> string) list" where
  "POSTMODEL_EVENT = [(''setup_override'', ''postfix_setup''), (''import_paths'', ''postfix_imports''),
     (''nested_imports'', ''postfix_nested_import''), (''scaffold_base'', ''postfix_scaffold_base'')]"

section \<open>Relative paths resolve\<close>

text \<open>A part \<open>normpath\<close> keeps.\<close>

definition clean_part :: "string \<Rightarrow> bool" where
  "clean_part c \<longleftrightarrow> c \<noteq> [] \<and> c \<noteq> ''.'' \<and> c \<noteq> ''..'' \<and> CHR ''/'' \<notin> set c"

lemma norm_fold_clean:
  "\<forall>c \<in> set xs. CHR ''/'' \<notin> set c \<Longrightarrow> \<forall>c \<in> set acc. clean_part c \<Longrightarrow> c \<in> set (fold norm_step xs acc) \<Longrightarrow> clean_part c"
proof (induction xs arbitrary: acc)
  case (Cons x xs)
  have "\<forall>c \<in> set (norm_step x acc). clean_part c"
    using Cons.prems(1,2) by (auto simp: norm_step_def clean_part_def dest: in_set_butlastD)
  with Cons show ?case by simp
qed simp

lemma norm_parts_clean: "c \<in> set (norm_parts p) \<Longrightarrow> clean_part c"
  unfolding norm_parts_def by (rule norm_fold_clean) (auto dest: py_split_no_sep)

lemma norm_parts_app: "norm_parts (a @ CHR ''/'' # b) = fold norm_step (py_split (CHR ''/'') b) (norm_parts a)"
  using py_split_append [of "CHR ''/''" a b] by (simp add: norm_parts_def)

lemma fold_clean: "\<forall>c \<in> set xs. clean_part c \<Longrightarrow> fold norm_step xs acc = acc @ xs"
  by (induction xs arbitrary: acc) (auto simp: norm_step_def clean_part_def)

lemma fold_up: "fold norm_step (replicate n ''..'') acc = take (length acc - n) acc"
proof (induction n arbitrary: acc)
  case (Suc n)
  then show ?case by (simp add: norm_step_def butlast_conv_take min_def)
qed simp

lemma split_join: "xs \<noteq> [] \<Longrightarrow> \<forall>x \<in> set xs. sep \<notin> set x \<Longrightarrow> py_split sep (py_join [sep] xs) = xs"
proof (induction "[sep]" xs rule: py_join.induct)
  case (3 x y xs)
  then show ?case by (simp add: py_split_append py_split_id)
qed (auto simp: py_split_id)

lemma prefix_take: "prefix l s \<Longrightarrow> take (length l) s = l"
  by (auto simp: prefix_def)

lemma prefix_drop: "prefix l s \<Longrightarrow> l @ drop (length l) s = s"
  by (auto simp: prefix_def)

lemma norm_relpath: "norm_parts (base @ ''/'' @ relpath path base) = norm_parts path"
proof -
  let ?s = "norm_parts base" and ?p = "norm_parts path"
  let ?l = "longest_common_prefix ?s ?p"
  define rel where "rel = replicate (length ?s - length ?l) ''..'' @ drop (length ?l) ?p"
  have pre: "prefix ?l ?s" "prefix ?l ?p"
    by (simp_all add: longest_common_prefix_prefix1 longest_common_prefix_prefix2)
  note t = prefix_take [OF pre(1)] and p = prefix_drop [OF pre(2)] and le = prefix_length_le [OF pre(1)]
  have up: "length ?s - (length ?s - length ?l) = length ?l" using le by simp
  have dr: "\<forall>c \<in> set (drop (length ?l) ?p). clean_part c"
    using norm_parts_clean by (metis in_set_dropD)
  have "fold norm_step rel ?s = ?p"
    using up by (simp only: rel_def fold_append comp_apply fold_up fold_clean [OF dr] t p)
  moreover have "rel \<noteq> [] \<Longrightarrow> py_split (CHR ''/'') (py_join ''/'' rel) = rel"
  proof (erule split_join, rule ballI)
    fix x assume "x \<in> set rel"
    then consider "x = ''..''" | "x \<in> set (drop (length ?l) ?p)"
      unfolding rel_def set_append set_replicate_conv_if by (auto split: if_splits)
    then show "CHR ''/'' \<notin> set x" by cases (use dr in \<open>auto simp: clean_part_def\<close>)
  qed
  moreover have "relpath path base = (if rel = [] then ''.'' else py_join ''/'' rel)"
    by (simp only: relpath_def Let_def rel_def)
  moreover have "fold norm_step (py_split (CHR ''/'') ''.'') ?s = ?s" by (simp add: norm_step_def)
  ultimately show ?thesis
    unfolding append_Cons append_Nil norm_parts_app by (cases "rel = []") simp_all
qed

lemma norm_dot: "norm_parts (base @ ''/'' @ ''./'' @ r) = norm_parts (base @ ''/'' @ r)"
  using py_split_append [of "CHR ''/''" "''.''" r] by (simp add: norm_parts_app norm_step_def)

lemma py_replace_absent: "c \<notin> set s \<Longrightarrow> py_replace [c] new s = s"
  by (induction "[c]" new s rule: py_replace.induct) (auto simp: py_replace.simps py_startswith_def)

lemma set_py_join: "set (py_join sep xs) \<subseteq> set sep \<union> \<Union> (set ` set xs)"
  by (induction sep xs rule: py_join.induct) auto

lemma py_join_part: "w \<in> set xs \<Longrightarrow> set w \<subseteq> set (py_join sep xs)"
  by (induction sep xs rule: py_join.induct) auto

lemma set_py_split: "w \<in> set (py_split sep s) \<Longrightarrow> set w \<subseteq> set s"
  by (metis py_join_part py_split_join)

lemma norm_parts_chars: "c \<in> set (norm_parts p) \<Longrightarrow> set c \<subseteq> set p"
proof -
  have "c \<in> set (fold norm_step xs acc) \<Longrightarrow> c \<in> set xs \<union> set acc" for xs acc
  proof (induction xs arbitrary: acc)
    case (Cons x xs)
    then have "c \<in> set xs \<union> set (norm_step x acc)" by simp
    then show ?case by (auto simp: norm_step_def dest: in_set_butlastD split: if_splits)
  qed simp
  then show "c \<in> set (norm_parts p) \<Longrightarrow> set c \<subseteq> set p"
    unfolding norm_parts_def using set_py_split by fastforce
qed

lemma relpath_chars: "set (relpath path start) \<subseteq> {CHR ''.'', CHR ''/''} \<union> set path"
proof -
  have "set (py_join ''/'' (replicate n ''..'' @ drop k (norm_parts path))) \<subseteq> {CHR ''.'', CHR ''/''} \<union> set path" for n k
    using set_py_join [of "''/''" "replicate n ''..'' @ drop k (norm_parts path)"]
    by (auto dest!: in_set_dropD norm_parts_chars split: if_splits)
  then show ?thesis by (auto simp: relpath_def Let_def)
qed

lemma import_form_resolves:
  assumes "CHR 0x5C \<notin> set path"
  shows "norm_parts (base @ ''/'' @ import_form (relpath path base)) = norm_parts path \<and>
    py_startswith (import_form (relpath path base)) ''.''"
proof -
  have "CHR 0x5C \<notin> set (relpath path base)" using assms relpath_chars [of path base] by auto
  then have "py_replace [CHR 0x5C] ''/'' (relpath path base) = relpath path base" by (rule py_replace_absent)
  then show ?thesis
    using norm_relpath [of base path] norm_dot [of base "relpath path base"]
    by (auto simp: import_form_def Let_def py_startswith_def)
qed

section \<open>What a line repair touches\<close>

text \<open>The line a conversion becomes, and a pass over all flagged lines.\<close>

definition wrap1 :: "string \<Rightarrow> string \<Rightarrow> string" where
  "wrap1 ty line = (if needs_wrap ty line then wrap_line ty line else line)"

lemma wrap_line_cases: "wrap_line ty line = line \<or> py_in (ty @ ''(address('') (wrap_line ty line)"
proof (cases "re_finditer ADDRESS_CALL_RE line")
  case (Cons m ms)
  have "py_in (ty @ ''(address('') (a @ (ty @ ''(address('') @ b)" for a b by (auto simp: py_in_iff)
  then show ?thesis by (simp add: wrap_line_def re_subst_def Cons Let_def)
qed (simp add: wrap_line_def re_subst_def)

lemma wrap1_idem: "wrap1 ty (wrap1 ty line) = wrap1 ty line"
  using wrap_line_cases [of ty line] by (auto simp: wrap1_def needs_wrap_def)

lemma wrap_hits_length: "length (fst (fold wrap_hit hits st)) = length (fst st)"
  by (induction hits arbitrary: st) (auto simp: wrap_hit_def split: prod.split)

lemma wrap_hit_lines:
  "fst (wrap_hit (ty, ln) st) = (if 1 \<le> ln \<and> ln - 1 < length (fst st) then (fst st)[ln - 1 := wrap1 ty (fst st ! (ln - 1))] else fst st)"
  by (auto simp: wrap_hit_def wrap1_def split: prod.split)

lemma wrap_hits_nth:
  "distinct (map snd hits) \<Longrightarrow> i < length (fst st) \<Longrightarrow>
   fst (fold wrap_hit hits st) ! i =
     (case map_of (map (\<lambda>(t, n). (n, t)) hits) (Suc i) of None \<Rightarrow> fst st ! i | Some t \<Rightarrow> wrap1 t (fst st ! i))"
proof (induction hits arbitrary: st)
  case (Cons h hits)
  obtain ty ln where h: "h = (ty, ln)" by (cases h)
  have fresh: "ln = Suc i \<Longrightarrow> map_of (map (\<lambda>(t, n). (n, t)) hits) (Suc i) = None"
    using Cons.prems(1) by (force simp: h map_of_eq_None_iff)
  have "i < length (fst (wrap_hit h st))" using Cons.prems(2) by (simp add: h wrap_hit_lines)
  with Cons.IH [of "wrap_hit h st"] Cons.prems fresh show ?case
    by (cases "ln = Suc i") (auto simp: h wrap_hit_lines nth_list_update split: option.split)
qed simp

lemma wrap_hits_other:
  "Suc i \<notin> snd ` set hits \<Longrightarrow> i < length (fst st) \<Longrightarrow> fst (fold wrap_hit hits st) ! i = fst st ! i"
proof (induction hits arbitrary: st)
  case (Cons h hits)
  obtain ty ln where h: "h = (ty, ln)" by (cases h)
  with Cons.prems have "fst (wrap_hit h st) ! i = fst st ! i" "i < length (fst (wrap_hit h st))"
    by (auto simp: wrap_hit_lines nth_list_update)
  with Cons h show ?case by simp
qed simp

lemma candidates_found: "p \<in> set (import_candidates fs name) \<Longrightarrow> p \<in> set (pf_rglob fs name)"
  by (auto simp: import_candidates_def Let_def split: if_splits)

lemma pick_import_least:
  assumes "pick_import fs name = Some p"
  shows "p \<in> set (import_candidates fs name)"
    and "\<forall>q \<in> set (import_candidates fs name).
      (length (py_split (CHR ''/'') p), abs_path fs p) \<le> (length (py_split (CHR ''/'') q), abs_path fs q)"
proof -
  let ?key = "\<lambda>p. (length (py_split (CHR ''/'') p), abs_path fs p)"
  obtain ps where ps: "sort_key ?key (import_candidates fs name) = p # ps"
    using assms by (auto simp: pick_import_def split: list.splits)
  have s: "set (import_candidates fs name) = set (p # ps)" by (metis ps set_sort)
  then show "p \<in> set (import_candidates fs name)" by simp
  have "sorted (map ?key (p # ps))" by (metis ps sorted_sort_key)
  then show "\<forall>q \<in> set (import_candidates fs name). ?key p \<le> ?key q" unfolding s by auto
qed

lemma pick_import_mset:
  assumes "mset (pf_rglob fs name) = mset (scan name)"
  shows "pick_import (fs\<lparr>pf_rglob := scan\<rparr>) name = pick_import fs name"
proof -
  have m: "mset (import_candidates (fs\<lparr>pf_rglob := scan\<rparr>) name) = mset (import_candidates fs name)"
  proof -
    have "mset (filter P (pf_rglob fs name)) = mset (filter P (scan name))" for P using assms by (simp add: mset_filter)
    moreover have "(filter P (pf_rglob fs name) = []) = (filter P (scan name) = [])" for P
      using calculation [of P] by (metis mset_zero_iff)
    ultimately show ?thesis by (simp add: import_candidates_def Let_def filter_filter)
  qed
  have "inj_on (\<lambda>p. (length (py_split (CHR ''/'') p), abs_path fs p)) A" for A by (auto simp: inj_on_def abs_path_def)
  from sort_key_mset_cong [OF m this] show ?thesis by (simp add: pick_import_def abs_path_def)
qed

lemma additions_distinct: "distinct ns \<Longrightarrow> distinct (map fst (undeclared_additions au code ns))"
proof (induction ns)
  case (Cons n ns)
  have "n \<notin> fst ` set (undeclared_additions au code ns)"
    using Cons.prems by (auto simp: undeclared_additions_def set_map_filter_iff split: if_splits)
  with Cons show ?case by (auto simp: undeclared_additions_def map_filter_simps split: option.split)
qed (simp add: undeclared_additions_def map_filter_simps)

subsection \<open>Nothing applied, nothing changed\<close>

lemma quiet_setup: "snd (fix_setup_override code) = False \<Longrightarrow> fst (fix_setup_override code) = code"
  by (auto simp: fix_setup_override_def Let_def split: option.splits if_splits)

lemma quiet_import_line: "\<not> snd (fix_import_line fs base line) \<Longrightarrow> fst (fix_import_line fs base line) = line"
  by (auto simp: fix_import_line_def Let_def split: option.splits if_splits)

lemma quiet_imports:
  "snd (snd (fix_import_paths fs base code)) = False \<Longrightarrow> fst (fix_import_paths fs base code) = py_join nl (py_splitlines code)"
  by (auto simp: fix_import_paths_def Let_def list_ex_iff comp_def quiet_import_line intro!: arg_cong [of _ _ "py_join nl"] map_idI)

lemma quiet_nested:
  "snd (snd (fix_nested_type_imports index file_map base code)) = False \<Longrightarrow> fst (fix_nested_type_imports index file_map base code) = code"
  by (auto simp: fix_nested_type_imports_def Let_def split: option.splits if_splits)

lemma quiet_base: "snd (fix_scaffold_base code scaffold) = False \<Longrightarrow> fst (fix_scaffold_base code scaffold) = code"
  by (auto simp: fix_scaffold_base_def split: option.splits if_splits list.splits)

lemma quiet_undeclared:
  "snd (snd (fix_undeclared_import au code out)) = False \<Longrightarrow> fst (fix_undeclared_import au code out) = code"
  by (auto simp: fix_undeclared_import_def Let_def split: if_splits)

lemma quiet_wraps: "snd (fold wrap_hit hits st) = False \<Longrightarrow> fold wrap_hit hits st = st"
proof (induction hits arbitrary: st)
  case (Cons h hits)
  then have f: "fold wrap_hit hits (wrap_hit h st) = wrap_hit h st" by simp
  with Cons.prems have "snd (wrap_hit h st) = False" by simp
  then have "wrap_hit h st = st" by (auto simp: wrap_hit_def split: prod.splits if_splits)
  with f show ?case by simp
qed simp

lemma quiet_address:
  "snd (snd (fix_address_interface code out)) = False \<Longrightarrow> fst (fix_address_interface code out) = py_join nl (py_splitlines code)"
proof -
  assume "snd (snd (fix_address_interface code out)) = False"
  then have "snd (fold wrap_hit (conversion_hits out) (py_splitlines code, False)) = False"
    by (simp add: fix_address_interface_def Let_def split: prod.splits)
  from quiet_wraps [OF this] show ?thesis by (simp add: fix_address_interface_def Let_def)
qed

section \<open>Properties\<close>

text \<open>Repairing address conversions is line-scoped and, when the compiler flags each line once, done
  after one pass: no line that was not flagged changes, no line is added or lost, and a second pass
  with the same output changes nothing.\<close>

lemma address_repair_scoped:
  "length (fst (fold wrap_hit hits (ls, False))) = length ls \<and>
   (\<forall>i < length ls. Suc i \<notin> snd ` set hits \<longrightarrow> fst (fold wrap_hit hits (ls, False)) ! i = ls ! i) \<and>
   (distinct (map snd hits) \<longrightarrow>
      fst (fold wrap_hit hits (fst (fold wrap_hit hits (ls, False)), False)) = fst (fold wrap_hit hits (ls, False)))"
proof (intro conjI allI impI)
  let ?r = "fst (fold wrap_hit hits (ls, False))"
  show len: "length ?r = length ls" by (simp add: wrap_hits_length)
  show "?r ! i = ls ! i" if "i < length ls" "Suc i \<notin> snd ` set hits" for i
    using wrap_hits_other [of i hits "(ls, False)"] that by simp
  assume d: "distinct (map snd hits)"
  show "fst (fold wrap_hit hits (?r, False)) = ?r"
  proof (rule nth_equalityI)
    fix i assume "i < length (fst (fold wrap_hit hits (?r, False)))"
    then have i: "i < length ls" by (simp add: wrap_hits_length)
    show "fst (fold wrap_hit hits (?r, False)) ! i = ?r ! i"
      using wrap_hits_nth [OF d, of i "(?r, False)"] wrap_hits_nth [OF d, of i "(ls, False)"] i
      by (auto simp: wrap_hits_length wrap1_idem split: option.split)
  qed (simp add: wrap_hits_length)
qed

lemma address_repair_scoped_witness:
  "fst (fold wrap_hit [(''IFoo'', 1)] (fst (fold wrap_hit [(''IFoo'', 1)] ([''f(address(a));''], False)), False)) = [''f(IFoo(address(a)));'']"
proof -
  have "fst (fold wrap_hit [(''IFoo'', 1)] ([''f(address(a));''], False)) = [''f(IFoo(address(a)));'']" by code_simp
  moreover have "distinct (map snd [(''IFoo'', 1)])" by simp
  ultimately show ?thesis
    using address_repair_scoped [of "[(''IFoo'', 1)]" "[''f(address(a));'']", THEN conjunct2, THEN conjunct2] by simp
qed

text \<open>C26: a rewritten import points at the file that was picked. When an import line changes, its path is
  replaced by a relative one that begins with a dot and, read from the importing directory, is the
  path of a candidate; that candidate is no deeper than any other and the least among equals.\<close>

theorem import_rewrite_resolves:
  assumes "fix_import_line fs base line = (line', True)" "\<not> py_startswith (py_lstrip line) ''SPDX-License-Identifier''"
    and "\<forall>name. \<forall>p \<in> set (pf_rglob fs name). CHR 0x5C \<notin> set (abs_path fs p)"
  shows "\<exists>path p. line' = py_replace path (import_form (relpath (abs_path fs p) base)) line \<and>
    p \<in> set (import_candidates fs (path_basename path)) \<and>
    (\<forall>q \<in> set (import_candidates fs (path_basename path)).
       (length (py_split (CHR ''/'') p), abs_path fs p) \<le> (length (py_split (CHR ''/'') q), abs_path fs q)) \<and>
    py_startswith (import_form (relpath (abs_path fs p) base)) ''.'' \<and>
    norm_parts (base @ ''/'' @ import_form (relpath (abs_path fs p) base)) = norm_parts (abs_path fs p)"
proof -
  from assms(1,2) obtain path p where line': "line' = py_replace path (import_form (relpath (abs_path fs p) base)) line"
    and pick: "pick_import fs (path_basename path) = Some p"
    by (auto simp: fix_import_line_def Let_def split: if_splits option.splits)
  note c = pick_import_least [OF pick]
  have "CHR 0x5C \<notin> set (abs_path fs p)" using c(1) assms(3) candidates_found by blast
  with line' c import_form_resolves show ?thesis by blast
qed

text \<open>The import repair is deterministic: it does not depend on the order in which the file system lists the files.\<close>

lemma import_repair_scan_order:
  assumes "\<forall>name. mset (pf_rglob fs name) = mset (scan name)"
  shows "fix_import_paths (fs\<lparr>pf_rglob := scan\<rparr>) base code = fix_import_paths fs base code"
proof -
  have "pick_import (fs\<lparr>pf_rglob := scan\<rparr>) name = pick_import fs name" for name
    using pick_import_mset [of fs name scan] assms by blast
  then have "fix_import_line (fs\<lparr>pf_rglob := scan\<rparr>) b = fix_import_line fs b" for b
    by (intro ext) (simp add: fix_import_line_def abs_path_def Let_def cong: option.case_cong if_cong)
  moreover have "abs_path (fs\<lparr>pf_rglob := scan\<rparr>) = abs_path fs" by (intro ext) (simp add: abs_path_def)
  ultimately show ?thesis by (cases base) (simp_all add: fix_import_paths_def Let_def)
qed

text \<open>A missing import is never invented. The repair adds one line, behind the pragmas and imports, for
  exactly those flagged names that are not imported yet and that an authority knows, each once with
  the path of the first authority that knows it; every line of the source is kept, and nothing is
  reported as repaired otherwise.\<close>

lemma undeclared_import_known:
  "\<exists>adds. fix_undeclared_import au code out =
      ((if adds = [] then code else
          let ls = py_splitlines code; k = insert_position ls in py_join nl (take k ls @ map (\<lambda>(n, p). import_line n p) adds @ drop k ls)),
       adds \<noteq> [], adds \<noteq> []) \<and>
    distinct (map fst adds) \<and>
    set adds = {(n, p). n \<in> set (undeclared_names out) \<and> n \<notin> set (imported_names code) \<and> known_path au n = Some p}"
proof -
  let ?adds = "undeclared_additions au code (unique_names (undeclared_names out))"
  have "distinct (map fst ?adds)" by (rule additions_distinct) (simp add: unique_names_def)
  moreover have "set ?adds = {(n, p). n \<in> set (undeclared_names out) \<and> n \<notin> set (imported_names code) \<and> known_path au n = Some p}"
    by (auto simp: undeclared_additions_def set_map_filter_iff unique_names_def split: if_splits)
  moreover have "fix_undeclared_import au code out =
      ((if ?adds = [] then code else
          let ls = py_splitlines code; k = insert_position ls in py_join nl (take k ls @ map (\<lambda>(n, p). import_line n p) ?adds @ drop k ls)),
       ?adds \<noteq> [], ?adds \<noteq> [])"
    by (simp add: fix_undeclared_import_def Let_def)
  ultimately show ?thesis by blast
qed

text \<open>A sequence that reports no repair has made none. The source comes back line for line, at most with
  its line ends made uniform.\<close>

lemma quiet_sequence_keeps_source:
  "(snd (seq_postmodel fs index file_map scaffold guard code) = [] \<longrightarrow>
      fst (seq_postmodel fs index file_map scaffold guard code) = py_join nl (py_splitlines code)) \<and>
   (snd (seq_draft_inplace file_map out code) = [] \<longrightarrow>
      fst (seq_draft_inplace file_map out code) = py_join nl (py_splitlines code))"
proof (intro conjI impI)
  assume q: "snd (seq_postmodel fs index file_map scaffold guard code) = []"
  obtain c1 a1 where 1: "(if guard then fix_setup_override code else (code, False)) = (c1, a1)" by fastforce
  obtain c2 m2 a2 where 2: "fix_import_paths fs None c1 = (c2, m2, a2)" by (metis prod_cases3)
  obtain c3 m3 a3 where 3: "fix_nested_type_imports index file_map None c2 = (c3, m3, a3)" by (metis prod_cases3)
  obtain c4 a4 where 4: "fix_scaffold_base c3 scaffold = (c4, a4)" by fastforce
  note steps = seq_postmodel_def Let_def 1 2 3 4
  from q have "\<not> a1" "\<not> a2" "\<not> a3" "\<not> a4" by (simp_all add: steps split: if_splits)
  have "c1 = code" using 1 \<open>\<not> a1\<close> quiet_setup [of code] by (auto split: if_splits)
  moreover have "c2 = py_join nl (py_splitlines c1)" using 2 \<open>\<not> a2\<close> quiet_imports [of fs None c1] by simp
  moreover have "c3 = c2" using 3 \<open>\<not> a3\<close> quiet_nested [of index file_map None c2] by simp
  moreover have "c4 = c3" using 4 \<open>\<not> a4\<close> quiet_base [of c3 scaffold] by simp
  moreover have "fst (seq_postmodel fs index file_map scaffold guard code) = c4" by (simp add: steps)
  ultimately show "fst (seq_postmodel fs index file_map scaffold guard code) = py_join nl (py_splitlines code)" by simp
next
  assume q: "snd (seq_draft_inplace file_map out code) = []"
  define au where "au = \<lparr>ia_file_map = file_map, ia_existing = [], ia_index = None, ia_base = None\<rparr>"
  obtain c1 m1 a1 where 1: "fix_undeclared_import au code out = (c1, m1, a1)" by (metis prod_cases3)
  obtain c2 m2 a2 where 2: "fix_address_interface c1 out = (c2, m2, a2)" by (metis prod_cases3)
  note steps = seq_draft_inplace_def Let_def au_def [symmetric] 1 2
  from q have "\<not> a1" "\<not> a2" by (simp_all add: steps split: if_splits)
  have "c1 = code" using 1 \<open>\<not> a1\<close> quiet_undeclared [of au code out] by simp
  moreover have "c2 = py_join nl (py_splitlines c1)" using 2 \<open>\<not> a2\<close> quiet_address [of c1 out] by simp
  moreover have "fst (seq_draft_inplace file_map out code) = c2" by (simp add: steps)
  ultimately show "fst (seq_draft_inplace file_map out code) = py_join nl (py_splitlines code)" by simp
qed

text \<open>A project with one contract: a test two directories below the root gets the import two levels up.\<close>

definition one_file :: project_files where
  "one_file = \<lparr>pf_root = ''/w'', pf_rglob = (\<lambda>n. if n = ''F.sol'' then [''test/F.sol'', ''src/F.sol'', ''src/a/F.sol''] else []),
     pf_is_file = (\<lambda>_. True), pf_tracked = (\<lambda>p. p \<noteq> ''test/F.sol'')\<rparr>"

definition import_of :: "string \<Rightarrow> string" where
  "import_of path = ''import '' @ [CHR 0x22] @ path @ [CHR 0x22] @ '';''"

lemma one_file_rewrite:
  "fix_import_line one_file ''/w/audit/poc'' (import_of ''../F.sol'') = (import_of ''../../src/F.sol'', True)"
  by code_simp

lemma import_rewrite_resolves_witness:
  "\<exists>path p. import_of ''../../src/F.sol'' =
     py_replace path (import_form (relpath (abs_path one_file p) ''/w/audit/poc'')) (import_of ''../F.sol'') \<and>
     norm_parts (''/w/audit/poc'' @ ''/'' @ import_form (relpath (abs_path one_file p) ''/w/audit/poc'')) = norm_parts (abs_path one_file p)"
proof -
  have "\<not> py_startswith (py_lstrip (import_of ''../F.sol'')) ''SPDX-License-Identifier''" by code_simp
  moreover have "\<forall>name. \<forall>p \<in> set (pf_rglob one_file name). CHR 0x5C \<notin> set (abs_path one_file p)"
    by (auto simp: one_file_def abs_path_def)
  ultimately show ?thesis using import_rewrite_resolves [OF one_file_rewrite] by blast
qed

lemma import_repair_scan_order_witness:
  "fix_import_paths (one_file\<lparr>pf_rglob := rev \<circ> pf_rglob one_file\<rparr>) None (import_of ''F.sol'') = fix_import_paths one_file None (import_of ''F.sol'')"
proof -
  have "\<forall>name. mset (pf_rglob one_file name) = mset ((rev \<circ> pf_rglob one_file) name)" by simp
  then show ?thesis by (rule import_repair_scan_order)
qed

lemma quiet_sequence_keeps_source_witness:
  "fst (seq_draft_inplace [] [] ''contract A {}'') = ''contract A {}''"
proof -
  have "snd (seq_draft_inplace [] [] ''contract A {}'') = []" "py_join nl (py_splitlines ''contract A {}'') = ''contract A {}''"
    by code_simp+
  then show ?thesis using quiet_sequence_keeps_source [where file_map = "[]" and out = "[]" and code = "''contract A {}''", THEN conjunct2] by simp
qed

section \<open>Where the repairs fall short\<close>

text \<open>Two conversions on one line: the second type wraps the first argument again, and the second argument
  keeps its error. A call inside the argument is never rewritten although the repair is reported.\<close>

lemma two_conversions_on_one_line:
  "fold wrap_hit [(''IFoo'', 1), (''IBar'', 1)] ([''f(address(a), address(b));''], False) =
     ([''f(IFoo(IBar(address(a))), address(b));''], True)"
  by code_simp

lemma nested_argument_reported_unchanged:
  "fold wrap_hit [(''IFoo'', 1)] ([''f(address(g(a)));''], False) = ([''f(address(g(a)));''], True)"
  by code_simp

text \<open>An import taken from the index is not made relative: a file beside the importing one gets a bare path,
  which the compiler reads from the project's base path.\<close>

lemma index_import_is_bare:
  "relpath ''/w/audit/poc/_synth/Base.sol'' ''/w/audit/poc/_synth'' = ''Base.sol''"
  "import_form (relpath ''/w/audit/poc/_synth/Base.sol'' ''/w/audit/poc/_synth'') = ''./Base.sol''"
  by code_simp+

text \<open>The bare uses of a nested type are replaced in the whole text, the paths of other imports included.\<close>

lemma qualified_inside_path:
  "qualify_use (''Kind'', ''Vault'', []) (import_of ''./Kind.sol'') = import_of ''./Vault.Kind.sol''"
  by code_simp

text \<open>A test contract without a test function loses the statements of its own constructor.\<close>

lemma setup_without_test_dropped:
  "fix_setup_override ''contract T { function setUp() public { x = 1; } }'' = (''contract T {  }'', True)"
  by code_simp

end
