(* ===== verification/Layered_Search.thy ===== *)
theory Layered_Search
  imports Main "HOL-Library.While_Combinator"
begin

text \<open>
  A breadth-first walk with distances, as an interface. A client keeps a queue of keys with distances
  and a list of visited keys; each step takes the head of the queue and either drops it, because the key was
  visited, or visits it and appends successors at the next distance. A client may leave a
  successor out when it is already covered: visited or queued at no greater distance.

  The locale proves once, for every such client, that the visited keys are those that can be reached,
  each once and with the length of a shortest path, and that the walk ends when only finitely many keys can be reached.
\<close>

definition graph :: "('k \<Rightarrow> 'k list) \<Rightarrow> ('k \<times> 'k) set" where
  "graph succ = {(a, b). b \<in> set (succ a)}"

definition shortest :: "('k \<Rightarrow> 'k list) \<Rightarrow> 'k \<Rightarrow> 'k \<Rightarrow> nat \<Rightarrow> bool" where
  "shortest succ root k d \<longleftrightarrow> (root, k) \<in> graph succ ^^ d \<and> (\<forall>n. (root, k) \<in> graph succ ^^ n \<longrightarrow> d \<le> n)"

type_synonym 'k layers = "('k \<times> nat) list \<times> ('k \<times> nat) list"

definition covered :: "'k layers \<Rightarrow> 'k \<Rightarrow> nat \<Rightarrow> bool" where
  "covered st k d \<longleftrightarrow> (\<exists>d' \<le> d. (k, d') \<in> set (fst st) \<union> set (snd st))"

inductive bfs_step :: "('k \<Rightarrow> 'k list) \<Rightarrow> 'k layers \<Rightarrow> 'k layers \<Rightarrow> bool" for succ where
  drop_seen: "k \<in> fst ` set vs \<Longrightarrow> bfs_step succ ((k, d) # q, vs) (q, vs)"
| expand: "k \<notin> fst ` set vs \<Longrightarrow> set new \<subseteq> set (succ k) \<Longrightarrow>
     (\<forall>k' \<in> set (succ k). covered (q @ map (\<lambda>k'. (k', Suc d)) new, vs @ [(k, d)]) k' (Suc d)) \<Longrightarrow>
     bfs_step succ ((k, d) # q, vs) (q @ map (\<lambda>k'. (k', Suc d)) new, vs @ [(k, d)])"

inductive_cases bfs_stepE: "bfs_step succ (q, vs) st'"

text \<open>The queue holds at most two layers, in order; what was visited is no deeper than what waits.\<close>

definition bfs_inv :: "('k \<Rightarrow> 'k list) \<Rightarrow> 'k \<Rightarrow> 'k layers \<Rightarrow> bool" where
  "bfs_inv succ root st \<longleftrightarrow>
     sorted (map snd (snd st @ fst st)) \<and> (\<forall>x \<in> set (fst st). snd x \<le> Suc (snd (hd (fst st)))) \<and>
     distinct (map fst (snd st)) \<and>
     (\<forall>(k, d) \<in> set (fst st) \<union> set (snd st). (root, k) \<in> graph succ ^^ d) \<and>
     covered st root 0 \<and>
     (\<forall>(k, d) \<in> set (snd st). \<forall>k' \<in> set (succ k). covered st k' (Suc d))"

lemma covered_step:
  assumes "bfs_inv succ root st" "bfs_step succ st st'" "covered st k d"
  shows "covered st' k d"
  using assms(2)
proof cases
  case (drop_seen k0 vs d0 q)
  from \<open>k0 \<in> fst ` set vs\<close> obtain d1 where d1: "(k0, d1) \<in> set vs" by auto
  with assms(1) drop_seen have "d1 \<le> d0" by (force simp: bfs_inv_def sorted_append)
  with assms(3) drop_seen d1 show ?thesis by (auto simp: covered_def intro: order_trans)
next
  case (expand k0 vs new q d0)
  with assms(3) show ?thesis by (auto simp: covered_def)
qed

lemma bfs_inv_step:
  assumes inv: "bfs_inv succ root st" and step: "bfs_step succ st st'"
  shows "bfs_inv succ root st'"
proof -
  have cov: "covered st k d \<Longrightarrow> covered st' k d" for k d by (rule covered_step [OF inv step])
  show ?thesis using step
  proof cases
    case (drop_seen k vs d q)
    have "\<forall>x \<in> set q. snd x \<le> Suc (snd (hd q))" if "q \<noteq> []"
    proof
      fix x assume x: "x \<in> set q"
      have "snd x \<le> Suc d" using inv x by (simp add: bfs_inv_def drop_seen)
      also have "d \<le> snd (hd q)" using inv that by (auto simp: bfs_inv_def drop_seen sorted_append)
      finally show "snd x \<le> Suc (snd (hd q))" by simp
    qed
    with inv cov show ?thesis by (cases q) (fastforce simp: bfs_inv_def drop_seen sorted_append)+
  next
    case (expand k vs new q d)
    let ?q = "q @ map (\<lambda>k'. (k', Suc d)) new"
    have le: "d \<le> snd x \<and> snd x \<le> Suc d" if "x \<in> set q" for x
      using inv that by (auto simp: bfs_inv_def expand sorted_append)
    have new: "sorted (map snd (map (\<lambda>k'. (k', Suc d)) new))" by (induction new) auto
    have 1: "sorted (map snd ((vs @ [(k, d)]) @ ?q))"
      using inv le new by (auto simp: bfs_inv_def expand sorted_append simp del: map_map)
    have 2: "\<forall>x \<in> set ?q. snd x \<le> Suc (snd (hd ?q))"
    proof
      fix x assume x: "x \<in> set ?q"
      then have "?q \<noteq> []" by auto
      then have "d \<le> snd (hd ?q)" using le by (cases q) (auto simp: hd_map)
      moreover have "snd x \<le> Suc d" using x le [of x] by auto
      ultimately show "snd x \<le> Suc (snd (hd ?q))" by simp
    qed
    have k: "(root, k) \<in> graph succ ^^ d" using inv by (auto simp: bfs_inv_def expand)
    have 3: "\<forall>(a, b) \<in> set ?q \<union> set (vs @ [(k, d)]). (root, a) \<in> graph succ ^^ b"
    proof -
      have "\<forall>x \<in> set new. (root, x) \<in> graph succ ^^ Suc d" using k expand(4) by (auto simp: graph_def)
      moreover have "\<forall>(a, b) \<in> set q \<union> set vs. (root, a) \<in> graph succ ^^ b" using inv by (simp add: bfs_inv_def expand)
      ultimately show ?thesis using k by (auto simp del: relpow.simps)
    qed
    have 4: "\<forall>(a, b) \<in> set (vs @ [(k, d)]). \<forall>k' \<in> set (succ a). covered st' k' (Suc b)"
      using inv cov expand(5) by (auto simp: bfs_inv_def expand)
    have "distinct (map fst (vs @ [(k, d)]))" using inv expand(3) by (simp add: bfs_inv_def expand)
    moreover have "covered st' root 0" using inv cov by (simp add: bfs_inv_def)
    ultimately show ?thesis using 1 2 3 4 unfolding bfs_inv_def expand(2) by simp
  qed
qed

lemma bfs_inv_init: "bfs_inv succ root ([(root, 0)], [])"
  by (simp add: bfs_inv_def covered_def)

lemma bfs_final:
  assumes inv: "bfs_inv succ root ([], vs)"
  shows "set vs = {(k, d). shortest succ root k d}"
proof -
  have complete: "\<exists>d \<le> n. (k, d) \<in> set vs" if "(root, k) \<in> graph succ ^^ n" for k n
    using that
  proof (induction n arbitrary: k)
    case 0
    then show ?case using inv by (auto simp: bfs_inv_def covered_def)
  next
    case (Suc n)
    then obtain k0 where k0: "(root, k0) \<in> graph succ ^^ n" "k \<in> set (succ k0)" by (auto simp: graph_def)
    then obtain d where d: "d \<le> n" "(k0, d) \<in> set vs" using Suc.IH by blast
    with k0(2) inv have "covered ([], vs) k (Suc d)" by (fastforce simp: bfs_inv_def)
    with d(1) show ?case by (auto simp: covered_def intro: order_trans)
  qed
  have path: "(root, k) \<in> graph succ ^^ d" if "(k, d) \<in> set vs" for k d using inv that by (auto simp: bfs_inv_def)
  have unique: "d = d'" if "(k, d) \<in> set vs" "(k, d') \<in> set vs" for k d d'
    using inv that by (auto simp: bfs_inv_def dest: eq_key_imp_eq_value)
  have "(k, d) \<in> set vs \<longleftrightarrow> shortest succ root k d" for k d
  proof
    assume kd: "(k, d) \<in> set vs"
    have "d \<le> n" if "(root, k) \<in> graph succ ^^ n" for n using complete [OF that] unique [OF kd] by auto
    with path [OF kd] show "shortest succ root k d" by (simp add: shortest_def)
  next
    assume s: "shortest succ root k d"
    then obtain d' where "d' \<le> d" "(k, d') \<in> set vs" using complete [of k d] by (auto simp: shortest_def)
    with s path show "(k, d) \<in> set vs" by (metis le_antisym shortest_def)
  qed
  then show ?thesis by auto
qed

lemma reach_iff_shortest: "(root, k) \<in> (graph succ)\<^sup>* \<longleftrightarrow> (\<exists>d. shortest succ root k d)"
proof
  assume "(root, k) \<in> (graph succ)\<^sup>*"
  then obtain n where "(root, k) \<in> graph succ ^^ n" by (auto dest: rtrancl_imp_relpow)
  then have "shortest succ root k (LEAST n. (root, k) \<in> graph succ ^^ n)"
    by (auto simp: shortest_def intro: LeastI Least_le)
  then show "\<exists>d. shortest succ root k d" by blast
next
  assume "\<exists>d. shortest succ root k d"
  then show "(root, k) \<in> (graph succ)\<^sup>*" by (auto simp: shortest_def intro: relpow_imp_rtrancl)
qed

section \<open>The interface\<close>

locale layered_search =
  fixes step :: "'s \<Rightarrow> 's" and init :: 's
    and layers :: "'s \<Rightarrow> 'k layers" and succ :: "'k \<Rightarrow> 'k list" and root :: 'k and ok :: "'s \<Rightarrow> bool"
  assumes init_ok: "ok init" and init_layers: "layers init = ([(root, 0)], [])"
    and steps: "ok s \<Longrightarrow> fst (layers s) \<noteq> [] \<Longrightarrow> bfs_inv succ root (layers s) \<Longrightarrow>
      ok (step s) \<and> bfs_step succ (layers s) (layers (step s))"
begin

lemma inv_keep:
  "ok s \<and> bfs_inv succ root (layers s) \<Longrightarrow> fst (layers s) \<noteq> [] \<Longrightarrow> ok (step s) \<and> bfs_inv succ root (layers (step s))"
  using steps [of s] bfs_inv_step [of succ root "layers s" "layers (step s)"] by simp

lemma walk_inv:
  assumes "while_option (\<lambda>s. fst (layers s) \<noteq> []) step init = Some t"
  shows "ok t \<and> bfs_inv succ root (layers t)"
proof (rule while_option_rule [OF _ assms, where P = "\<lambda>s. ok s \<and> bfs_inv succ root (layers s)"])
  show "ok init \<and> bfs_inv succ root (layers init)" by (simp add: init_ok init_layers bfs_inv_init)
qed (rule inv_keep)

lemma walk_shortest:
  assumes "while_option (\<lambda>s. fst (layers s) \<noteq> []) step init = Some t"
  shows "set (snd (layers t)) = {(k, d). shortest succ root k d}" and "distinct (map fst (snd (layers t)))"
proof -
  have "fst (layers t) = []" using while_option_stop [OF assms] by simp
  with walk_inv [OF assms] have "bfs_inv succ root ([], snd (layers t))" by (metis prod.collapse)
  then show "set (snd (layers t)) = {(k, d). shortest succ root k d}" "distinct (map fst (snd (layers t)))"
    by (rule bfs_final) (use walk_inv [OF assms] in \<open>simp add: bfs_inv_def\<close>)
qed

lemma walk_terminates:
  assumes "finite {k. (root, k) \<in> (graph succ)\<^sup>*}"
  shows "\<exists>t. while_option (\<lambda>s. fst (layers s) \<noteq> []) step init = Some t"
proof -
  let ?R = "{k. (root, k) \<in> (graph succ)\<^sup>*}"
  let ?m = "measures [\<lambda>s. card ?R - length (snd (layers s)), \<lambda>s. length (fst (layers s))]"
  have "(ok (step s) \<and> bfs_inv succ root (layers (step s))) \<and> (step s, s) \<in> ?m"
    if "ok s \<and> bfs_inv succ root (layers s)" "fst (layers s) \<noteq> []" for s
  proof -
    have st: "ok (step s)" "bfs_step succ (layers s) (layers (step s))" using steps that by auto
    have inv: "bfs_inv succ root (layers (step s))" using bfs_inv_step [OF _ st(2)] that by blast
    have bound: "length (snd (layers (step s))) \<le> card ?R"
    proof -
      have "(root, k) \<in> graph succ ^^ d" if "(k, d) \<in> set (snd (layers (step s)))" for k d
        using inv that by (auto simp: bfs_inv_def)
      then have "fst ` set (snd (layers (step s))) \<subseteq> ?R" using relpow_imp_rtrancl by fastforce
      moreover have "card (fst ` set (snd (layers (step s)))) = length (snd (layers (step s)))"
        using inv distinct_card [of "map fst (snd (layers (step s)))"] by (simp add: bfs_inv_def)
      ultimately show ?thesis using card_mono [OF assms] by metis
    qed
    from st(2) have "(step s, s) \<in> ?m"
    proof cases
      case (expand k vs new q d)
      then have "length (snd (layers (step s))) = Suc (length (snd (layers s)))" by (simp add: expand(1) expand(2))
      with bound have "card ?R - length (snd (layers (step s))) < card ?R - length (snd (layers s))" by linarith
      then show ?thesis by simp
    next
      case (drop_seen k vs d q)
      then show ?thesis by simp
    qed
    with st inv show ?thesis by blast
  qed
  then show ?thesis
  proof (intro wf_rel_while_option_Some [where P = "\<lambda>s. ok s \<and> bfs_inv succ root (layers s)" and R = ?m])
    show "ok init \<and> bfs_inv succ root (layers init)" by (simp add: init_ok init_layers bfs_inv_init)
  qed (simp only: wf_measures, blast+)
qed

end

end
