(* ===== verification/Proof_Inventory.thy ===== *)
theory Proof_Inventory
  imports Py_Prelude Layered_Search
begin

text \<open>
  The inventory of the symbols a scaffold inherits (\<open>proof/scaffold_api_inventory.py\<close>). The Solidity parser is a
  parameter: from a source to a tree, or none where it raises; a tree holds what the code reads of it, a
  missing or empty name being no name and a type being given as its text (\<open>type_str\<close> of the index). The
  files are a record of queries: a path is text in the form \<open>pathlib\<close> prints, resolving it is a
  parameter, and so is the optional map from paths to texts.

  The walk over the parents is the breadth-first interface of \<open>Layered_Search\<close>, so a contract is
  collected once, with its shortest distance from the leaf. The lemmas on the rest: the rendered
  inventory keeps its budget and drops the most distant entries first, and no name is listed with two types.
\<close>

section \<open>Trees and files\<close>

record var_node =
  vn_name :: "string option"
  vn_visibility :: string              \<comment> \<open>empty when missing\<close>
  vn_type :: string

record fn_node =
  fn_name :: "string option"
  fn_visibility :: string
  fn_params :: "string list"

datatype sub_node = State_variables "var_node list" | Function_definition fn_node | Other_node

record contract_node =
  cn_name :: "string option"
  cn_bases :: "string option list"     \<comment> \<open>the \<open>namePath\<close> of each base contract\<close>
  cn_subs :: "sub_node list"

record import_node =
  im_path :: string
  im_aliases :: "(string, string option) dict"

record source_tree =
  tr_contracts :: "contract_node list"
  tr_imports :: "import_node list"

record source_files =
  sf_parse :: "string \<Rightarrow> source_tree option"
  sf_read :: "string \<Rightarrow> string option"
  sf_resolve :: "string \<Rightarrow> string"
  sf_file_map :: "(string \<times> string) list option"
  sf_remappings :: "string list"

definition base_name :: "string \<Rightarrow> string" where
  "base_name p = last (py_split (CHR ''/'') p)"

definition parent_dir :: "string \<Rightarrow> string" where
  "parent_dir p = py_join ''/'' (butlast (py_split (CHR ''/'') p))"

definition load_text :: "source_files \<Rightarrow> string \<Rightarrow> string option" where
  "load_text fs path =
     (case sf_file_map fs of
        None \<Rightarrow> sf_read fs path
      | Some m \<Rightarrow>
          (case find (\<lambda>(k, v). sf_resolve fs k = sf_resolve fs path \<or> k = path) m of
             Some (k, v) \<Rightarrow> Some v
           | None \<Rightarrow> (case find (\<lambda>(k, v). base_name k = base_name path \<and> py_in (base_name path) k) m of
                        Some (k, v) \<Rightarrow> Some v
                      | None \<Rightarrow> sf_read fs path)))"

definition inv_base_names :: "contract_node \<Rightarrow> string list" where
  "inv_base_names c = List.map_filter (\<lambda>b. case b of Some (x # xs) \<Rightarrow> Some (x # xs) | _ \<Rightarrow> None) (cn_bases c)"

definition contract_names_in :: "source_files \<Rightarrow> string \<Rightarrow> string list" where
  "contract_names_in fs source = (case sf_parse fs source of None \<Rightarrow> [] | Some t \<Rightarrow> List.map_filter cn_name (tr_contracts t))"

definition pick_leaf_contract :: "source_tree \<Rightarrow> string option" where
  "pick_leaf_contract t =
     (let contracts = tr_contracts t; names = List.map_filter cn_name contracts;
          used = filter (\<lambda>b. b \<in> set names) (concat (map inv_base_names contracts));
          derived = filter (\<lambda>c. case cn_name c of None \<Rightarrow> False | Some n \<Rightarrow> n \<notin> set used) contracts;
          with_bases = filter (\<lambda>c. inv_base_names c \<noteq> []) derived
      in if length derived = 1 then cn_name (hd derived)
         else if length with_bases = 1 then cn_name (hd with_bases)
         else if length contracts = 1 then cn_name (hd contracts) else None)"

section \<open>One parent edge\<close>

fun apply_remappings :: "string list \<Rightarrow> string \<Rightarrow> string" where
  "apply_remappings [] path = path"
| "apply_remappings (raw # rs) path =
     (if CHR ''='' \<notin> set raw then apply_remappings rs path
      else let prefix = takeWhile (\<lambda>c. c \<noteq> CHR ''='') raw; target = drop (length prefix + 1) raw
           in if py_startswith path prefix then target @ drop (length prefix) path else apply_remappings rs path)"

definition resolve_import_path :: "source_files \<Rightarrow> string \<Rightarrow> string \<Rightarrow> string" where
  "resolve_import_path fs child_path import_path =
     (let mapped = apply_remappings (sf_remappings fs) import_path
      in if py_startswith mapped ''/'' then sf_resolve fs mapped
         else sf_resolve fs (parent_dir child_path @ ''/'' @ mapped))"

datatype edge_reason = Missing | Unparseable | Ambiguous
datatype edge_via = Same_file | By_import

record edge_resolution =
  er_parent :: string
  er_path :: "string option"
  er_via :: "edge_via option"
  er_reason :: "edge_reason option"
  er_candidates :: "string list"
  er_contract :: "string option"

definition no_edge :: "string \<Rightarrow> edge_reason \<Rightarrow> string list \<Rightarrow> edge_resolution" where
  "no_edge pn reason cands = \<lparr>er_parent = pn, er_path = None, er_via = None, er_reason = Some reason,
     er_candidates = cands, er_contract = None\<rparr>"

text \<open>The name to look for behind one import: through its aliases, if it has any.\<close>

definition given_name :: "string option \<Rightarrow> bool" where
  "given_name s = (case s of Some (c # cs) \<Rightarrow> True | _ \<Rightarrow> False)"

definition seek_name :: "(string, string option) dict \<Rightarrow> string \<Rightarrow> string option" where
  "seek_name aliases pn =
     (if aliases = [] then Some pn
      else let local_to_remote = fold (\<lambda>(remote, loc) d. if given_name loc then dict_set (the loc) remote d else d) aliases []
           in case dict_get local_to_remote pn of
                Some remote \<Rightarrow> Some remote
              | None \<Rightarrow> (case dict_get aliases pn of
                   None \<Rightarrow> None
                 | Some loc \<Rightarrow> if \<not> given_name loc \<or> loc = Some pn then Some pn else None))"

definition import_candidate :: "source_files \<Rightarrow> string \<Rightarrow> string \<Rightarrow> import_node \<Rightarrow> (string \<times> string) option" where
  "import_candidate fs child_path pn imp =
     (if im_path imp = [] then None
      else let target = resolve_import_path fs child_path (im_path imp) in
        case load_text fs target of
          None \<Rightarrow> None
        | Some t \<Rightarrow> (case seek_name (im_aliases imp) pn of
            None \<Rightarrow> None
          | Some seek \<Rightarrow> if seek \<in> set (contract_names_in fs t) then Some (sf_resolve fs target, seek) else None))"

text \<open>The candidates with distinct paths, the first of each.\<close>

definition unique_paths :: "(string \<times> string) list \<Rightarrow> (string \<times> string) list" where
  "unique_paths cs = fold (\<lambda>c acc. if fst c \<in> fst ` set acc then acc else acc @ [c]) cs []"

definition resolve_parent_edge :: "source_files \<Rightarrow> string \<Rightarrow> string \<Rightarrow> string \<Rightarrow> edge_resolution" where
  "resolve_parent_edge fs child_path child_source pn =
     (case sf_parse fs child_source of
        None \<Rightarrow> no_edge pn Unparseable []
      | Some t \<Rightarrow>
          (case filter (\<lambda>c. cn_name c = Some pn) (tr_contracts t) of
             [c] \<Rightarrow> \<lparr>er_parent = pn, er_path = Some (sf_resolve fs child_path), er_via = Some Same_file, er_reason = None,
                     er_candidates = [], er_contract = Some pn\<rparr>
           | _ # _ # _ \<Rightarrow> no_edge pn Ambiguous [sf_resolve fs child_path]
           | [] \<Rightarrow>
               (case unique_paths (List.map_filter (import_candidate fs child_path pn) (tr_imports t)) of
                  [(path, seek)] \<Rightarrow> \<lparr>er_parent = pn, er_path = Some path, er_via = Some By_import, er_reason = None,
                     er_candidates = [], er_contract = Some seek\<rparr>
                | [] \<Rightarrow> no_edge pn Missing []
                | cs \<Rightarrow> no_edge pn Ambiguous (map fst cs))))"

section \<open>What a contract offers\<close>

record inventory_var =
  iv_name :: string
  iv_type :: string
  iv_contract :: string
  iv_path :: string
  iv_distance :: nat
  iv_visibility :: string

datatype helper_section = Lifecycle | Callable

record inventory_helper =
  ih_name :: string
  ih_params :: "string list"
  ih_contract :: string
  ih_path :: string
  ih_distance :: nat
  ih_visibility :: string
  ih_section :: helper_section

definition canonical_param_types :: "inventory_helper \<Rightarrow> string" where
  "canonical_param_types h = py_join '','' (ih_params h)"

definition display_name :: "contract_node \<Rightarrow> string" where
  "display_name c = (case cn_name c of Some n \<Rightarrow> n | None \<Rightarrow> ''?'')"

definition usable_visibility_var :: "string \<Rightarrow> bool" where
  "usable_visibility_var vis = (vis = [] \<or> vis = ''default'' \<or> vis \<in> {''public'', ''internal''})"

definition usable_visibility_fn :: "string \<Rightarrow> bool" where
  "usable_visibility_fn vis = (vis \<in> {''public'', ''internal''})"

definition collect_var :: "string \<Rightarrow> string \<Rightarrow> nat \<Rightarrow> var_node \<Rightarrow> inventory_var option" where
  "collect_var cname path dist v =
     (case vn_name v of
        None \<Rightarrow> None
      | Some n \<Rightarrow> let vis = (if vn_visibility v = [] then ''default'' else vn_visibility v) in
          if n = [] \<or> vis = ''private'' \<or> \<not> usable_visibility_var vis then None
          else Some \<lparr>iv_name = n, iv_type = vn_type v, iv_contract = cname, iv_path = path, iv_distance = dist, iv_visibility = vis\<rparr>)"

definition helper_kind :: "string \<Rightarrow> helper_section option" where
  "helper_kind n =
     (if py_startswith n ''setUp'' then Some Lifecycle
      else if list_ex (\<lambda>p. py_startswith n p) [''_deploy'', ''_grant'', ''_deposit''] then Some Callable else None)"

definition collect_fn :: "string \<Rightarrow> string \<Rightarrow> nat \<Rightarrow> fn_node \<Rightarrow> inventory_helper option" where
  "collect_fn cname path dist f =
     (case fn_name f of
        None \<Rightarrow> None
      | Some n \<Rightarrow>
          if n = [] \<or> \<not> usable_visibility_fn (fn_visibility f) then None
          else map_option (\<lambda>sec. \<lparr>ih_name = n, ih_params = fn_params f, ih_contract = cname, ih_path = path,
                 ih_distance = dist, ih_visibility = fn_visibility f, ih_section = sec\<rparr>) (helper_kind n))"

definition contract_vars :: "contract_node \<Rightarrow> string \<Rightarrow> nat \<Rightarrow> inventory_var list" where
  "contract_vars c path dist =
     concat (map (\<lambda>s. case s of State_variables vs \<Rightarrow> List.map_filter (collect_var (display_name c) path dist) vs | _ \<Rightarrow> []) (cn_subs c))"

definition contract_helpers :: "contract_node \<Rightarrow> string \<Rightarrow> nat \<Rightarrow> inventory_helper list" where
  "contract_helpers c path dist =
     List.map_filter (\<lambda>s. case s of Function_definition f \<Rightarrow> collect_fn (display_name c) path dist f | _ \<Rightarrow> None) (cn_subs c)"

section \<open>The walk\<close>

record unresolved_parent =
  up_name :: string
  up_from_contract :: string
  up_from_path :: string
  up_reason :: edge_reason

type_synonym walk_item = "contract_node \<times> string \<times> string \<times> nat"

text \<open>The visited set also remembers the distance a contract was visited with; the walk never reads it.\<close>

record walk_state =
  wk_queue :: "walk_item list"
  wk_edges :: "(string \<times> string \<times> nat) list"
  wk_visited :: "((string \<times> string) \<times> nat) list"
  wk_vars :: "inventory_var list"
  wk_helpers :: "inventory_helper list"
  wk_unresolved :: "unresolved_parent list"

definition parent_node ::
  "source_files \<Rightarrow> string \<Rightarrow> string \<Rightarrow> string \<Rightarrow> edge_reason + contract_node \<times> string \<times> string" where
  "parent_node fs path src pn =
     (let e = resolve_parent_edge fs path src pn in
      case er_path e of
        None \<Rightarrow> Inl (case er_reason e of Some r \<Rightarrow> r | None \<Rightarrow> Missing)
      | Some rp \<Rightarrow>
          (case load_text fs rp of
             None \<Rightarrow> Inl Missing
           | Some ptext \<Rightarrow>
               (case sf_parse fs ptext of
                  None \<Rightarrow> Inl Unparseable
                | Some t \<Rightarrow>
                    (case find (\<lambda>c. cn_name c = (case er_contract e of Some (x # xs) \<Rightarrow> Some (x # xs) | _ \<Rightarrow> Some pn)) (tr_contracts t) of
                       None \<Rightarrow> Inl Missing
                     | Some pnode \<Rightarrow> Inr (pnode, rp, ptext)))))"

definition walk_parent :: "source_files \<Rightarrow> walk_item \<Rightarrow> string \<Rightarrow> walk_state \<Rightarrow> walk_state" where
  "walk_parent fs it pn st =
     (case it of (node, path, src, dist) \<Rightarrow>
        let ek = (pn, sf_resolve fs path, dist) in
        if ek \<in> set (wk_edges st) then st
        else let st1 = st\<lparr>wk_edges := wk_edges st @ [ek]\<rparr> in
          case parent_node fs path src pn of
            Inl reason \<Rightarrow> st1\<lparr>wk_unresolved := wk_unresolved st1 @
              [\<lparr>up_name = pn, up_from_contract = display_name node, up_from_path = path, up_reason = reason\<rparr>]\<rparr>
          | Inr (pnode, rp, ptext) \<Rightarrow> st1\<lparr>wk_queue := wk_queue st1 @ [(pnode, rp, ptext, dist + 1)]\<rparr>)"

definition item_key :: "source_files \<Rightarrow> walk_item \<Rightarrow> string \<times> string" where
  "item_key fs it = (case it of (node, path, _, _) \<Rightarrow> (display_name node, sf_resolve fs path))"

definition walk_step :: "source_files \<Rightarrow> walk_state \<Rightarrow> walk_state" where
  "walk_step fs st =
     (case wk_queue st of
        [] \<Rightarrow> st
      | it # q \<Rightarrow>
          (case it of (node, path, src, dist) \<Rightarrow>
             let st0 = st\<lparr>wk_queue := q\<rparr>; key = item_key fs it in
             if key \<in> fst ` set (wk_visited st) then st0
             else fold (walk_parent fs it) (inv_base_names node)
                    (st0\<lparr>wk_visited := wk_visited st @ [(key, dist)],
                         wk_vars := wk_vars st @ contract_vars node path dist,
                         wk_helpers := wk_helpers st @ contract_helpers node path dist\<rparr>)))"

definition walk_start :: "contract_node \<Rightarrow> string \<Rightarrow> string \<Rightarrow> walk_state" where
  "walk_start node path src =
     \<lparr>wk_queue = [(node, path, src, 0)], wk_edges = [], wk_visited = [], wk_vars = [], wk_helpers = [], wk_unresolved = []\<rparr>"

text \<open>None stands for a walk that never ends.\<close>

definition walk :: "source_files \<Rightarrow> contract_node \<Rightarrow> string \<Rightarrow> string \<Rightarrow> walk_state option" where
  "walk fs node path src = while_option (\<lambda>st. wk_queue st \<noteq> []) (walk_step fs) (walk_start node path src)"

section \<open>The inventory\<close>

record diamond_drop =
  dd_name :: string
  dd_discarded :: inventory_var
  dd_winning :: inventory_var

record inventory =
  in_leaf_contract :: string
  in_leaf_path :: string
  in_vars :: "inventory_var list"
  in_lifecycle :: "inventory_helper list"
  in_callable :: "inventory_helper list"
  in_unresolved :: "unresolved_parent list"
  in_drops :: "diamond_drop list"
  in_degraded :: bool

text \<open>The declarations of one name, the nearest for each contract name.\<close>

definition nearest_decls :: "inventory_var list \<Rightarrow> inventory_var list" where
  "nearest_decls vs = map snd (fold (\<lambda>sv d. case dict_get d (iv_contract sv) of
       None \<Rightarrow> dict_set (iv_contract sv) sv d
     | Some prev \<Rightarrow> if iv_distance sv < iv_distance prev then dict_set (iv_contract sv) sv d else d) vs [])"

definition winning_decl :: "inventory_var list \<Rightarrow> inventory_var" where
  "winning_decl decls = hd (sort_key (\<lambda>d. (iv_distance d, iv_contract d)) decls)"

definition resolve_name :: "string \<Rightarrow> inventory_var list \<Rightarrow> inventory_var list \<times> diamond_drop list" where
  "resolve_name name vs =
     (let decls = nearest_decls vs in
      if length (remdups (map iv_type decls)) > 1 \<and> length decls > 1
      then let w = winning_decl decls in
           ([w], map (\<lambda>d. \<lparr>dd_name = name, dd_discarded = d, dd_winning = w\<rparr>) (filter (\<lambda>d. iv_type d \<noteq> iv_type w) decls))
      else (decls, []))"

definition vars_by_name :: "inventory_var list \<Rightarrow> (string, inventory_var list) dict" where
  "vars_by_name vs = fold (\<lambda>sv d. dict_set (iv_name sv) (dict_getd d (iv_name sv) [] @ [sv]) d) vs []"

definition dedup_helpers :: "inventory_helper list \<Rightarrow> inventory_helper list" where
  "dedup_helpers hs = fold (\<lambda>h out. if list_ex (\<lambda>o'. (ih_contract o', ih_section o', ih_name o', canonical_param_types o')
       = (ih_contract h, ih_section h, ih_name h, canonical_param_types h)) out then out else out @ [h]) hs []"

definition inventory_of :: "string \<Rightarrow> string \<Rightarrow> walk_state \<Rightarrow> inventory" where
  "inventory_of cname leaf_path st =
     (let groups = vars_by_name (wk_vars st); res = map (\<lambda>(n, vs). resolve_name n vs) groups; drops = concat (map snd res)
      in \<lparr>in_leaf_contract = cname, in_leaf_path = leaf_path, in_vars = concat (map fst res),
          in_lifecycle = dedup_helpers (filter (\<lambda>h. ih_section h = Lifecycle) (wk_helpers st)),
          in_callable = dedup_helpers (filter (\<lambda>h. ih_section h = Callable) (wk_helpers st)),
          in_unresolved = wk_unresolved st, in_drops = drops,
          in_degraded = (wk_unresolved st \<noteq> [] \<or> drops \<noteq> [])\<rparr>)"

section \<open>Rendering\<close>

definition INVENTORY_BUDGET :: nat where "INVENTORY_BUDGET = 4000"
definition HINT_EXCERPT_BUDGET :: nat where "HINT_EXCERPT_BUDGET = 1500"

definition entry_line_state :: "inventory_var \<Rightarrow> string" where
  "entry_line_state sv = iv_type sv @ '' '' @ iv_name sv @ ''  # '' @ iv_contract sv @ '' d='' @ nat_str (iv_distance sv)"

definition entry_line_helper :: "inventory_helper \<Rightarrow> string" where
  "entry_line_helper h = ih_name h @ ''('' @ canonical_param_types h @ '')  # '' @ ih_contract h @ '' d='' @ nat_str (ih_distance h)"

datatype inventory_section = Sec_state | Sec_life | Sec_call

definition layer_entries :: "inventory \<Rightarrow> nat \<Rightarrow> (inventory_section \<times> string) list" where
  "layer_entries iy d =
     (let sort_help = sort_key (\<lambda>h. (ih_distance h, ih_name h, canonical_param_types h, ih_contract h)) in
      map (\<lambda>s. (Sec_state, entry_line_state s))
        (sort_key (\<lambda>s. (iv_distance s, iv_name s, iv_contract s)) (filter (\<lambda>s. iv_distance s = d) (in_vars iy))) @
      map (\<lambda>h. (Sec_life, entry_line_helper h)) (sort_help (filter (\<lambda>h. ih_distance h = d) (in_lifecycle iy))) @
      map (\<lambda>h. (Sec_call, entry_line_helper h)) (sort_help (filter (\<lambda>h. ih_distance h = d) (in_callable iy))))"

definition max_distance :: "inventory \<Rightarrow> nat" where
  "max_distance iy = foldr max (map iv_distance (in_vars iy) @ map ih_distance (in_lifecycle iy @ in_callable iy)) 0"

definition all_entries :: "inventory \<Rightarrow> (inventory_section \<times> string) list" where
  "all_entries iy = concat (map (layer_entries iy) [0..<max_distance iy + 1])"

text \<open>The entries that fit, up to the first that does not.\<close>

fun fitting :: "nat \<Rightarrow> ('a \<times> string) list \<Rightarrow> ('a \<times> string) list" where
  "fitting remain [] = []"
| "fitting remain (e # es) = (if length (snd e) + 1 > remain then [] else e # fitting (remain - (length (snd e) + 1)) es)"

definition reason_text :: "edge_reason \<Rightarrow> string" where
  "reason_text r = (case r of Missing \<Rightarrow> ''missing'' | Unparseable \<Rightarrow> ''unparseable'' | Ambiguous \<Rightarrow> ''ambiguous'')"

definition unresolved_line :: "unresolved_parent \<Rightarrow> string" where
  "unresolved_line u = up_name u @ '' from '' @ up_from_contract u @ '' reason='' @ reason_text (up_reason u)"

definition inventory_header :: "inventory \<Rightarrow> string" where
  "inventory_header iy = ''leaf='' @ in_leaf_contract iy @ '' file='' @ base_name (in_leaf_path iy)"

definition lifecycle_guidance :: string where
  "lifecycle_guidance = ''lifecycle_setup: use in the setup path (follow base example / '' @
     ''super.setUp() when overriding); not a normal test-body call.''"

definition unresolved_lines :: "inventory \<Rightarrow> string list" where
  "unresolved_lines iy = (if in_unresolved iy = [] then [] else ''## unresolved_parents'' # map unresolved_line (in_unresolved iy))"

definition fixed_length :: "inventory \<Rightarrow> nat" where
  "fixed_length iy =
     length (inventory_header iy @ nl @ ''## state_variables'' @ nl @ ''## lifecycle_setup'' @ nl @ lifecycle_guidance @ nl @
             ''## callable_helpers'' @ nl) + length (concat (map (\<lambda>l. l @ nl) (unresolved_lines iy)))"

definition section_lines :: "inventory_section \<Rightarrow> (inventory_section \<times> string) list \<Rightarrow> string list" where
  "section_lines sec es = map snd (filter (\<lambda>e. fst e = sec) es)"

definition inventory_lines :: "inventory \<Rightarrow> (inventory_section \<times> string) list \<Rightarrow> string list" where
  "inventory_lines iy kept =
     [inventory_header iy, ''## state_variables''] @ section_lines Sec_state kept @
     [''## lifecycle_setup'', lifecycle_guidance] @ section_lines Sec_life kept @
     [''## callable_helpers''] @ section_lines Sec_call kept @ unresolved_lines iy"

definition render_inventory :: "inventory \<Rightarrow> nat \<Rightarrow> string" where
  "render_inventory iy budget =
     (let body = py_join nl (inventory_lines iy (fitting (budget - fixed_length iy) (all_entries iy))) in
      if length body > budget
      then let b = take budget body in if CHR 0x0A \<in> set b then py_join nl (butlast (py_splitlines b)) else b
      else body)"

definition hint_excerpt :: "inventory \<Rightarrow> string" where
  "hint_excerpt iy = render_inventory iy HINT_EXCERPT_BUDGET"

definition inventory_block :: "inventory \<Rightarrow> string" where
  "inventory_block iy = ''[DATA START scaffold_api]'' @ nl @ render_inventory iy INVENTORY_BUDGET @ nl @ ''[DATA END scaffold_api]''"

section \<open>Building\<close>

text \<open>None for a walk that never ends; inside, none where the leaf cannot be read or named.\<close>

definition build_inventory :: "source_files \<Rightarrow> string option \<Rightarrow> string \<Rightarrow> inventory option option" where
  "build_inventory fs leaf_contract leaf_path0 =
     (let leaf_path = sf_resolve fs leaf_path0 in
      case load_text fs leaf_path of
        None \<Rightarrow> Some None
      | Some source \<Rightarrow>
          (case sf_parse fs source of
             None \<Rightarrow> Some None
           | Some t \<Rightarrow>
               (case (if given_name leaf_contract then leaf_contract else pick_leaf_contract t) of
                  None \<Rightarrow> Some None
                | Some cname \<Rightarrow>
                    (case find (\<lambda>c. cn_name c = Some cname) (tr_contracts t) of
                       None \<Rightarrow> Some None
                     | Some leaf \<Rightarrow> map_option (\<lambda>st. Some (inventory_of cname leaf_path st)) (walk fs leaf leaf_path source)))))"

datatype omit_reason = Ambiguous_leaf | Leaf_unparseable

definition derive_or_omit :: "source_files \<Rightarrow> string list \<Rightarrow> (inventory option \<times> omit_reason option) option" where
  "derive_or_omit fs paths =
     (case paths of
        [] \<Rightarrow> Some (None, None)
      | _ # _ # _ \<Rightarrow> Some (None, Some Ambiguous_leaf)
      | [p] \<Rightarrow> map_option (\<lambda>r. case r of None \<Rightarrow> (None, Some Leaf_unparseable) | Some iy \<Rightarrow> (Some iy, None))
                 (build_inventory fs None p))"

section \<open>The walk is a layered search\<close>

text \<open>The contract a key names, the keys of its resolvable parents, and what one contract contributes.\<close>

definition node_at :: "source_files \<Rightarrow> string \<times> string \<Rightarrow> (contract_node \<times> string) option" where
  "node_at fs k =
     (case load_text fs (snd k) of
        None \<Rightarrow> None
      | Some src \<Rightarrow> (case sf_parse fs src of
          None \<Rightarrow> None
        | Some t \<Rightarrow> map_option (\<lambda>c. (c, src)) (find (\<lambda>c. cn_name c = Some (fst k)) (tr_contracts t))))"

definition parent_key :: "source_files \<Rightarrow> contract_node \<times> string \<times> string \<Rightarrow> string \<times> string" where
  "parent_key fs x = (display_name (fst x), sf_resolve fs (fst (snd x)))"

definition inherits :: "source_files \<Rightarrow> string \<times> string \<Rightarrow> (string \<times> string) list" where
  "inherits fs k =
     (case node_at fs k of
        None \<Rightarrow> []
      | Some (c, src) \<Rightarrow> List.map_filter (\<lambda>pn. case parent_node fs (snd k) src pn of
          Inr x \<Rightarrow> Some (parent_key fs x) | Inl _ \<Rightarrow> None) (inv_base_names c))"

definition vars_at :: "source_files \<Rightarrow> (string \<times> string) \<times> nat \<Rightarrow> inventory_var list" where
  "vars_at fs kd = (case node_at fs (fst kd) of None \<Rightarrow> [] | Some (c, _) \<Rightarrow> contract_vars c (snd (fst kd)) (snd kd))"

definition helpers_at :: "source_files \<Rightarrow> (string \<times> string) \<times> nat \<Rightarrow> inventory_helper list" where
  "helpers_at fs kd = (case node_at fs (fst kd) of None \<Rightarrow> [] | Some (c, _) \<Rightarrow> contract_helpers c (snd (fst kd)) (snd kd))"

definition resolve_idem :: "source_files \<Rightarrow> bool" where
  "resolve_idem fs \<longleftrightarrow> (\<forall>p. sf_resolve fs (sf_resolve fs p) = sf_resolve fs p)"

text \<open>Files whose resolution is idempotent, as documented for \<open>Path.resolve\<close>.\<close>

definition canonical :: "source_files \<Rightarrow> source_files" where
  "canonical fs = (if resolve_idem fs then fs else fs\<lparr>sf_resolve := \<lambda>p. p\<rparr>)"

definition bare_contract :: "string \<Rightarrow> contract_node" where
  "bare_contract n = \<lparr>cn_name = Some n, cn_bases = [], cn_subs = []\<rparr>"

definition start_at :: "source_files \<Rightarrow> string \<Rightarrow> string \<Rightarrow> walk_state" where
  "start_at fs n p = (case node_at fs (n, sf_resolve fs p) of
     Some (c, src) \<Rightarrow> walk_start c (sf_resolve fs p) src | None \<Rightarrow> walk_start (bare_contract n) (sf_resolve fs p) [])"

definition walk_layers :: "source_files \<Rightarrow> walk_state \<Rightarrow> (string \<times> string) layers" where
  "walk_layers fs st = (map (\<lambda>it. (item_key fs it, snd (snd (snd it)))) (wk_queue st), wk_visited st)"

definition item_ok :: "source_files \<Rightarrow> walk_item \<Rightarrow> bool" where
  "item_ok fs it = (case it of (c, path, src, d) \<Rightarrow> sf_resolve fs path = path \<and>
     (node_at fs (display_name c, path) = Some (c, src) \<or>
      node_at fs (display_name c, path) = None \<and> c = bare_contract (display_name c)))"

definition edge_ok :: "source_files \<Rightarrow> walk_state \<Rightarrow> string \<times> string \<times> nat \<Rightarrow> bool" where
  "edge_ok fs st e = (case e of (pn, p, d) \<Rightarrow>
     \<forall>src x. load_text fs p = Some src \<longrightarrow> parent_node fs p src pn = Inr x \<longrightarrow> covered (walk_layers fs st) (parent_key fs x) (Suc d))"

definition walk_ok :: "source_files \<Rightarrow> walk_state \<Rightarrow> bool" where
  "walk_ok fs st \<longleftrightarrow> (\<forall>it \<in> set (wk_queue st). item_ok fs it) \<and> (\<forall>e \<in> set (wk_edges st). edge_ok fs st e) \<and>
     wk_vars st = concat (map (vars_at fs) (wk_visited st)) \<and> wk_helpers st = concat (map (helpers_at fs) (wk_visited st))"

lemma canonical_idem: "sf_resolve (canonical fs) (sf_resolve (canonical fs) p) = sf_resolve (canonical fs) p"
  by (simp add: canonical_def resolve_idem_def)

lemma canonical_id: "resolve_idem fs \<Longrightarrow> canonical fs = fs"
  by (simp add: canonical_def)

lemma unique_paths_set: "set (unique_paths cs) \<subseteq> set cs"
proof -
  have "set (fold (\<lambda>c acc. if fst c \<in> fst ` set acc then acc else acc @ [c]) cs acc) \<subseteq> set cs \<union> set acc" for acc
  proof (induction cs arbitrary: acc)
    case (Cons c cs)
    show ?case using Cons.IH [of acc] Cons.IH [of "acc @ [c]"] by auto
  qed simp
  from this [of "[]"] show ?thesis by (simp add: unique_paths_def)
qed

lemma edge_path_resolved: "er_path (resolve_parent_edge fs path src pn) = Some rp \<Longrightarrow> \<exists>p. rp = sf_resolve fs p"
proof -
  assume e: "er_path (resolve_parent_edge fs path src pn) = Some rp"
  have c: "\<exists>p. q = sf_resolve fs p" if "unique_paths (List.map_filter (import_candidate fs path pn) imps) = [(q, seek)]" for q seek imps
  proof -
    have "(q, seek) \<in> set (List.map_filter (import_candidate fs path pn) imps)" using unique_paths_set that by (metis list.set_intros(1) subsetD)
    then show ?thesis by (auto simp: set_map_filter_iff import_candidate_def Let_def split: if_splits option.splits)
  qed
  from e c show ?thesis
    by (auto simp: resolve_parent_edge_def no_edge_def split: option.splits list.splits prod.splits)
qed

lemma find_name: "find (\<lambda>c. cn_name c = Some n) cs = Some c \<Longrightarrow> display_name c = n"
  by (auto simp: find_Some_iff display_name_def)

lemma parent_item_ok:
  assumes "parent_node fs path src pn = Inr x" "resolve_idem fs"
  shows "node_at fs (parent_key fs x) = Some (fst x, snd (snd x))" "parent_key fs x = (display_name (fst x), fst (snd x))"
    "sf_resolve fs (fst (snd x)) = fst (snd x)"
proof -
  let ?e = "resolve_parent_edge fs path src pn"
  obtain rp ptext t seek where rp: "er_path ?e = Some rp" and l: "load_text fs rp = Some ptext" "sf_parse fs ptext = Some t"
    and f: "find (\<lambda>c. cn_name c = Some seek) (tr_contracts t) = Some (fst x)" and x: "snd x = (rp, ptext)"
    using assms(1) by (auto simp: parent_node_def Let_def split: option.splits list.splits)
  from edge_path_resolved [OF rp] assms(2) show r: "sf_resolve fs (fst (snd x)) = fst (snd x)"
    by (auto simp: x resolve_idem_def)
  then show k: "parent_key fs x = (display_name (fst x), fst (snd x))" by (simp add: parent_key_def)
  show "node_at fs (parent_key fs x) = Some (fst x, snd (snd x))"
    using f l find_name [OF f] by (simp add: k x node_at_def)
qed

text \<open>The parents of one item: what the loop appends, and what it leaves out.\<close>

lemma walk_parents:
  fixes fs node path src dist
  defines "f \<equiv> walk_parent fs (node, path, src, dist)" and "pnode \<equiv> parent_node fs path src"
  shows "\<exists>new. wk_queue (fold f ps st) = wk_queue st @ map (\<lambda>(c, rp, pt). (c, rp, pt, Suc dist)) new \<and>
    wk_visited (fold f ps st) = wk_visited st \<and> wk_vars (fold f ps st) = wk_vars st \<and> wk_helpers (fold f ps st) = wk_helpers st \<and>
    (\<forall>x \<in> set new. \<exists>pn \<in> set ps. pnode pn = Inr x) \<and>
    (\<forall>e \<in> set (wk_edges (fold f ps st)) - set (wk_edges st).
       \<exists>pn. e = (pn, sf_resolve fs path, dist) \<and> (\<forall>x. pnode pn = Inr x \<longrightarrow> x \<in> set new)) \<and>
    (\<forall>pn \<in> set ps. \<forall>x. pnode pn = Inr x \<longrightarrow> (pn, sf_resolve fs path, dist) \<in> set (wk_edges st) \<or> x \<in> set new)"
proof (induction ps arbitrary: st)
  case (Cons pn ps)
  let ?ek = "(pn, sf_resolve fs path, dist)"
  define ad where "ad = (if ?ek \<in> set (wk_edges st) then [] else (case pnode pn of Inr x \<Rightarrow> [x] | Inl _ \<Rightarrow> []))"
  have st: "wk_queue (f pn st) = wk_queue st @ map (\<lambda>(c, rp, pt). (c, rp, pt, Suc dist)) ad"
    "wk_visited (f pn st) = wk_visited st" "wk_vars (f pn st) = wk_vars st" "wk_helpers (f pn st) = wk_helpers st"
    "set (wk_edges (f pn st)) = insert ?ek (set (wk_edges st))"
    by (auto simp: ad_def f_def pnode_def walk_parent_def Let_def split: sum.split prod.split)
  from Cons.IH [of "f pn st"] obtain new where new:
    "wk_queue (fold f ps (f pn st)) = wk_queue (f pn st) @ map (\<lambda>(c, rp, pt). (c, rp, pt, Suc dist)) new"
    "wk_visited (fold f ps (f pn st)) = wk_visited (f pn st)" "wk_vars (fold f ps (f pn st)) = wk_vars (f pn st)"
    "wk_helpers (fold f ps (f pn st)) = wk_helpers (f pn st)"
    "\<forall>x \<in> set new. \<exists>pn \<in> set ps. pnode pn = Inr x"
    "\<forall>e \<in> set (wk_edges (fold f ps (f pn st))) - set (wk_edges (f pn st)).
       \<exists>pn. e = (pn, sf_resolve fs path, dist) \<and> (\<forall>x. pnode pn = Inr x \<longrightarrow> x \<in> set new)"
    "\<forall>qn \<in> set ps. \<forall>x. pnode qn = Inr x \<longrightarrow> (qn, sf_resolve fs path, dist) \<in> set (wk_edges (f pn st)) \<or> x \<in> set new"
    by - (erule exE, elim conjE, blast)
  have add: "pnode pn = Inr x \<Longrightarrow> ?ek \<in> set (wk_edges st) \<or> x \<in> set ad" for x by (auto simp: ad_def)
  have sub: "x \<in> set ad \<Longrightarrow> pnode pn = Inr x" for x by (auto simp: ad_def split: if_splits sum.splits)
  show ?case
  proof (intro exI [of _ "ad @ new"] conjI)
    show "\<forall>x \<in> set (ad @ new). \<exists>qn \<in> set (pn # ps). pnode qn = Inr x" using new(5) sub by auto
    show "\<forall>e \<in> set (wk_edges (fold f (pn # ps) st)) - set (wk_edges st).
       \<exists>pn. e = (pn, sf_resolve fs path, dist) \<and> (\<forall>x. pnode pn = Inr x \<longrightarrow> x \<in> set (ad @ new))"
    proof
      fix e assume e: "e \<in> set (wk_edges (fold f (pn # ps) st)) - set (wk_edges st)"
      show "\<exists>pn. e = (pn, sf_resolve fs path, dist) \<and> (\<forall>x. pnode pn = Inr x \<longrightarrow> x \<in> set (ad @ new))"
      proof (cases "e = ?ek")
        case True
        have "x \<in> set (ad @ new)" if "pnode pn = Inr x" for x using e True add [OF that] by simp
        with True show ?thesis by blast
      next
        case False
        with e st(5) have "e \<in> set (wk_edges (fold f ps (f pn st))) - set (wk_edges (f pn st))" by simp
        with new(6) obtain qn where "e = (qn, sf_resolve fs path, dist)" "\<forall>x. pnode qn = Inr x \<longrightarrow> x \<in> set new" by blast
        then show ?thesis by auto
      qed
    qed
    show "\<forall>qn \<in> set (pn # ps). \<forall>x. pnode qn = Inr x \<longrightarrow> (qn, sf_resolve fs path, dist) \<in> set (wk_edges st) \<or> x \<in> set (ad @ new)"
    proof (intro ballI allI impI)
      fix qn x assume qn: "qn \<in> set (pn # ps)" and x: "pnode qn = Inr x"
      show "(qn, sf_resolve fs path, dist) \<in> set (wk_edges st) \<or> x \<in> set (ad @ new)"
      proof (cases "qn = pn")
        case True
        with add [of x] x show ?thesis by auto
      next
        case False
        with qn have "qn \<in> set ps" by simp
        with new(7) x have "(qn, sf_resolve fs path, dist) \<in> set (wk_edges (f pn st)) \<or> x \<in> set new" by blast
        with False st(5) show ?thesis by auto
      qed
    qed
  qed (simp_all add: new st)
qed simp

lemma bare_contract_simps [simp]:
  "inv_base_names (bare_contract n) = []" "contract_vars (bare_contract n) p d = []" "contract_helpers (bare_contract n) p d = []"
  by (simp_all add: bare_contract_def inv_base_names_def contract_vars_def contract_helpers_def map_filter_simps)

lemma node_at_text: "node_at fs k = Some (c, src) \<Longrightarrow> load_text fs (snd k) = Some src"
  by (auto simp: node_at_def split: option.splits)

lemma drop_step:
  assumes ok: "walk_ok fs st" and inv: "bfs_inv (inherits fs) root (walk_layers fs st)"
    and q: "wk_queue st = it # q" and seen: "item_key fs it \<in> fst ` set (wk_visited st)"
  shows "walk_ok fs (walk_step fs st) \<and> bfs_step (inherits fs) (walk_layers fs st) (walk_layers fs (walk_step fs st))"
proof -
  have st: "walk_step fs st = st\<lparr>wk_queue := q\<rparr>" using seen by (simp add: walk_step_def q Let_def split: prod.split)
  have b: "bfs_step (inherits fs) (walk_layers fs st) (walk_layers fs (st\<lparr>wk_queue := q\<rparr>))"
    using bfs_step.drop_seen [OF seen] by (simp add: walk_layers_def q)
  have "edge_ok fs (st\<lparr>wk_queue := q\<rparr>) e" if "e \<in> set (wk_edges st)" for e
    using ok that covered_step [OF inv b] unfolding walk_ok_def edge_ok_def by fastforce
  with ok b show ?thesis unfolding st by (auto simp: walk_ok_def q)
qed

lemma visit_step:
  assumes ok: "walk_ok fs st" and idem: "resolve_idem fs"
    and q: "wk_queue st = (c, path, src, d) # q" and fresh: "item_key fs (c, path, src, d) \<notin> fst ` set (wk_visited st)"
  shows "walk_ok fs (walk_step fs st) \<and> bfs_step (inherits fs) (walk_layers fs st) (walk_layers fs (walk_step fs st))"
proof -
  let ?k = "(display_name c, path)"
  have it: "item_ok fs (c, path, src, d)" and edges: "\<forall>e \<in> set (wk_edges st). edge_ok fs st e"
    using ok by (simp_all add: walk_ok_def q)
  then have rp: "sf_resolve fs path = path" by (simp add: item_ok_def)
  then have k: "item_key fs (c, path, src, d) = ?k" by (simp add: item_key_def)
  consider (node) "node_at fs ?k = Some (c, src)" | (bare) "node_at fs ?k = None" "c = bare_contract (display_name c)"
    using it by (auto simp: item_ok_def)
  note cases = this
  define st1 where "st1 = st\<lparr>wk_queue := q, wk_visited := wk_visited st @ [(?k, d)], wk_vars := wk_vars st @ contract_vars c path d,
    wk_helpers := wk_helpers st @ contract_helpers c path d\<rparr>"
  define st2 where "st2 = fold (walk_parent fs (c, path, src, d)) (inv_base_names c) st1"
  have st: "walk_step fs st = st2" using fresh by (simp add: walk_step_def q st2_def st1_def k Let_def)
  obtain new where queue: "wk_queue st2 = q @ map (\<lambda>(c, rp, pt). (c, rp, pt, Suc d)) new"
    and same: "wk_visited st2 = wk_visited st1" "wk_vars st2 = wk_vars st1" "wk_helpers st2 = wk_helpers st1"
    and new: "\<forall>x \<in> set new. \<exists>pn \<in> set (inv_base_names c). parent_node fs path src pn = Inr x"
    and added: "\<forall>e \<in> set (wk_edges st2) - set (wk_edges st). \<exists>pn. e = (pn, path, d) \<and> (\<forall>x. parent_node fs path src pn = Inr x \<longrightarrow> x \<in> set new)"
    and all: "\<forall>pn \<in> set (inv_base_names c). \<forall>x. parent_node fs path src pn = Inr x \<longrightarrow> (pn, path, d) \<in> set (wk_edges st) \<or> x \<in> set new"
  proof -
    have e: "wk_edges st1 = wk_edges st" "wk_queue st1 = q" by (simp_all add: st1_def)
    show ?thesis
      using walk_parents [of fs c path src d "inv_base_names c" st1, folded st2_def, unfolded rp e]
      by - (erule exE, elim conjE, rule that; assumption)
  qed
  let ?g = "\<lambda>it. (item_key fs it, snd (snd (snd it)))"
  have lay: "walk_layers fs st = ((?k, d) # map ?g q, wk_visited st)" by (simp add: walk_layers_def q k)
  have keys: "map ?g (map (\<lambda>(c, rp, pt). (c, rp, pt, Suc d)) new) = map (\<lambda>k'. (k', Suc d)) (map (parent_key fs) new)"
    by (auto simp: item_key_def parent_key_def)
  have lay2: "walk_layers fs st2 = (map ?g q @ map (\<lambda>k'. (k', Suc d)) (map (parent_key fs) new), wk_visited st @ [(?k, d)])"
    by (simp add: walk_layers_def queue same st1_def keys del: map_map)
  have grow: "covered (walk_layers fs st2) k' n" if "covered (walk_layers fs st) k' n" for k' n
    using that by (auto simp: lay lay2 covered_def)
  have in_new: "covered (walk_layers fs st2) (parent_key fs x) (Suc d)" if "x \<in> set new" for x
    using that by (auto simp: lay2 covered_def)
  have loaded: "load_text fs path = Some src" if "inv_base_names c \<noteq> []"
  proof (cases rule: cases)
    case node
    from node_at_text [OF this] show ?thesis by simp
  next
    case bare
    then have "inv_base_names c = []" by (metis bare_contract_simps(1))
    with that show ?thesis by simp
  qed
  have succ: "inherits fs ?k = List.map_filter (\<lambda>pn. case parent_node fs path src pn of Inr x \<Rightarrow> Some (parent_key fs x) | Inl _ \<Rightarrow> None) (inv_base_names c)"
  proof (cases rule: cases)
    case bare
    then have "inv_base_names c = []" by (metis bare_contract_simps(1))
    with bare(1) show ?thesis by (simp add: inherits_def map_filter_simps)
  qed (simp add: inherits_def)
  have sub: "set (map (parent_key fs) new) \<subseteq> set (inherits fs ?k)"
  proof
    fix y assume "y \<in> set (map (parent_key fs) new)"
    then obtain x where x: "x \<in> set new" "y = parent_key fs x" by (auto simp del: split_paired_Ex)
    with new obtain pn where "pn \<in> set (inv_base_names c)" "parent_node fs path src pn = Inr x" by blast
    then show "y \<in> set (inherits fs ?k)" unfolding succ set_map_filter_iff x(2) by (intro bexI [of _ pn]) simp_all
  qed
  have cov: "\<forall>k' \<in> set (inherits fs ?k). covered (walk_layers fs st2) k' (Suc d)"
  proof
    fix k' assume "k' \<in> set (inherits fs ?k)"
    then obtain pn where pn: "pn \<in> set (inv_base_names c)"
      and m: "(case parent_node fs path src pn of Inr x \<Rightarrow> Some (parent_key fs x) | Inl _ \<Rightarrow> None) = Some k'"
      unfolding succ set_map_filter_iff by blast
    obtain x where x: "parent_node fs path src pn = Inr x" and k': "k' = parent_key fs x"
      using m by (cases "parent_node fs path src pn") simp_all
    from all pn x consider "(pn, path, d) \<in> set (wk_edges st)" | "x \<in> set new" by blast
    then show "covered (walk_layers fs st2) k' (Suc d)"
    proof cases
      case 1
      have "load_text fs path = Some src" using loaded pn by force
      moreover have "edge_ok fs st (pn, path, d)" using 1 edges by blast
      ultimately have "covered (walk_layers fs st) k' (Suc d)" using x unfolding edge_ok_def prod.case k' by blast
      then show ?thesis by (rule grow)
    qed (simp add: k' in_new)
  qed
  have step: "bfs_step (inherits fs) (walk_layers fs st) (walk_layers fs st2)"
    unfolding lay lay2
    by (rule bfs_step.expand [where succ = "inherits fs" and vs = "wk_visited st" and k = ?k and new = "map (parent_key fs) new", OF fresh [unfolded k] sub])
      (rule cov [unfolded lay2])
  have "edge_ok fs st2 e" if e: "e \<in> set (wk_edges st2)" for e
  proof (cases "e \<in> set (wk_edges st)")
    case True
    with edges have "edge_ok fs st e" by blast
    with grow show ?thesis unfolding edge_ok_def by (cases e) blast
  next
    case False
    with e added obtain pn where pn: "e = (pn, path, d)" "\<forall>x. parent_node fs path src pn = Inr x \<longrightarrow> x \<in> set new" by blast
    have "inv_base_names c \<noteq> []" using e False by (auto simp: st2_def st1_def)
    then have "load_text fs path = Some src" by (rule loaded)
    with pn in_new show ?thesis by (simp add: edge_ok_def)
  qed
  moreover have "item_ok fs x" if "x \<in> set (wk_queue st2)" for x
  proof (cases "x \<in> set q")
    case True
    then show ?thesis using ok by (simp add: walk_ok_def q)
  next
    case False
    with that queue obtain y where y: "y \<in> set new" "x = (fst y, fst (snd y), snd (snd y), Suc d)" by auto
    with new obtain pn where "parent_node fs path src pn = Inr y" by blast
    from parent_item_ok [OF this idem] show ?thesis by (simp add: y(2) item_ok_def)
  qed
  moreover have "vars_at fs (?k, d) = contract_vars c path d \<and> helpers_at fs (?k, d) = contract_helpers c path d"
  proof (cases rule: cases)
    case bare
    then have "contract_vars c path d = []" "contract_helpers c path d = []" by (metis bare_contract_simps)+
    with bare(1) show ?thesis by (simp add: vars_at_def helpers_at_def)
  qed (simp add: vars_at_def helpers_at_def)
  ultimately have "walk_ok fs st2" using ok by (simp add: walk_ok_def same st1_def)
  with step st show ?thesis by simp
qed

lemma walk_steps:
  assumes "walk_ok fs st" "resolve_idem fs" "fst (walk_layers fs st) \<noteq> []" "bfs_inv (inherits fs) root (walk_layers fs st)"
  shows "walk_ok fs (walk_step fs st) \<and> bfs_step (inherits fs) (walk_layers fs st) (walk_layers fs (walk_step fs st))"
proof -
  from assms(3) obtain it q where q: "wk_queue st = it # q" by (cases "wk_queue st") (auto simp: walk_layers_def)
  show ?thesis
  proof (cases "item_key fs it \<in> fst ` set (wk_visited st)")
    case True
    with drop_step assms q show ?thesis by blast
  next
    case False
    with visit_step [of fs st] assms q show ?thesis by (cases it) blast
  qed
qed

lemma start_layers:
  assumes "resolve_idem fs"
  shows "walk_layers fs (start_at fs n p) = ([((n, sf_resolve fs p), 0)], []) \<and> walk_ok fs (start_at fs n p)"
proof (cases "node_at fs (n, sf_resolve fs p)")
  case None
  then show ?thesis using assms
    by (simp add: start_at_def walk_start_def walk_layers_def item_key_def display_name_def bare_contract_def walk_ok_def item_ok_def resolve_idem_def)
next
  case (Some x)
  then obtain c src where x: "node_at fs (n, sf_resolve fs p) = Some (c, src)" by (cases x) auto
  then have "display_name c = n" by (auto simp: node_at_def dest: find_name split: option.splits)
  with x assms show ?thesis
    by (simp add: start_at_def walk_start_def walk_layers_def item_key_def walk_ok_def item_ok_def resolve_idem_def)
qed

interpretation inventory_walk: layered_search "walk_step (canonical fs)" "start_at (canonical fs) n p" "walk_layers (canonical fs)"
  "inherits (canonical fs)" "(n, sf_resolve (canonical fs) p)" "walk_ok (canonical fs)" for fs n p
proof
  have idem: "resolve_idem (canonical fs)" by (simp add: resolve_idem_def canonical_idem)
  from start_layers [OF idem]
  show "walk_ok (canonical fs) (start_at (canonical fs) n p)"
    "walk_layers (canonical fs) (start_at (canonical fs) n p) = ([((n, sf_resolve (canonical fs) p), 0)], [])" by blast+
  show "walk_ok (canonical fs) (walk_step (canonical fs) s) \<and>
      bfs_step (inherits (canonical fs)) (walk_layers (canonical fs) s) (walk_layers (canonical fs) (walk_step (canonical fs) s))"
    if "walk_ok (canonical fs) s" "fst (walk_layers (canonical fs) s) \<noteq> []"
      "bfs_inv (inherits (canonical fs)) (n, sf_resolve (canonical fs) p) (walk_layers (canonical fs) s)" for s
    using walk_steps that idem by blast
qed

lemma walk_as_search:
  assumes "load_text fs path = Some src" "sf_parse fs src = Some t" "find (\<lambda>c. cn_name c = Some n) (tr_contracts t) = Some leaf"
    "sf_resolve fs path = path"
  shows "walk fs leaf path src = while_option (\<lambda>s. fst (walk_layers fs s) \<noteq> []) (walk_step fs) (start_at fs n path)"
proof -
  have "start_at fs n path = walk_start leaf path src" using assms by (simp add: start_at_def node_at_def)
  then show ?thesis by (simp add: walk_def walk_layers_def)
qed

section \<open>Finitely many files\<close>

lemma reached_nodes:
  assumes "resolve_idem fs" "(root, k) \<in> (graph (inherits fs))\<^sup>*"
  shows "k = root \<or> node_at fs k \<noteq> None \<and> sf_resolve fs (snd k) = snd k"
  using assms(2)
proof (cases rule: rtranclE)
  case (step k0)
  then have "k \<in> set (inherits fs k0)" by (simp add: graph_def)
  then obtain c src pn where "(case parent_node fs (snd k0) src pn of Inr x \<Rightarrow> Some (parent_key fs x) | Inl _ \<Rightarrow> None) = Some k"
    by (auto simp: inherits_def set_map_filter_iff split: option.splits)
  then obtain x where "parent_node fs (snd k0) src pn = Inr x" "k = parent_key fs x"
    by (cases "parent_node fs (snd k0) src pn") simp_all
  with parent_item_ok [OF this(1) assms(1)] show ?thesis by simp
qed simp

lemma finite_nodes:
  assumes "finite {p. sf_resolve fs p = p \<and> load_text fs p \<noteq> None}"
  shows "finite {k. node_at fs k \<noteq> None \<and> sf_resolve fs (snd k) = snd k}"
proof -
  let ?P = "{p. sf_resolve fs p = p \<and> load_text fs p \<noteq> None}"
  let ?names = "\<lambda>p. the ` cn_name ` set (case load_text fs p of None \<Rightarrow> [] | Some src \<Rightarrow>
    (case sf_parse fs src of None \<Rightarrow> [] | Some t \<Rightarrow> tr_contracts t))"
  have "k \<in> (\<Union>p \<in> ?P. (\<lambda>n. (n, p)) ` ?names p)" if k: "node_at fs k \<noteq> None" "sf_resolve fs (snd k) = snd k" for k
  proof -
    obtain src t c where c: "load_text fs (snd k) = Some src" "sf_parse fs src = Some t"
      "find (\<lambda>c. cn_name c = Some (fst k)) (tr_contracts t) = Some c"
      using k(1) by (auto simp: node_at_def split: option.splits)
    then have "c \<in> set (tr_contracts t)" "the (cn_name c) = fst k" by (auto simp: find_Some_iff)
    then have "fst k \<in> ?names (snd k)" using c(1,2) by (simp add: image_image) (metis imageI)
    then have "k \<in> (\<lambda>n. (n, snd k)) ` ?names (snd k)" by (metis imageI prod.collapse)
    moreover have "snd k \<in> ?P" using c(1) k(2) by simp
    ultimately show ?thesis by (rule UN_I [rotated])
  qed
  then have "{k. node_at fs k \<noteq> None \<and> sf_resolve fs (snd k) = snd k} \<subseteq> (\<Union>p \<in> ?P. (\<lambda>n. (n, p)) ` ?names p)" by blast
  then show ?thesis by (rule finite_subset) (intro finite_UN_I assms finite_imageI finite_set)
qed

lemma walk_ends:
  assumes "resolve_idem fs" "finite {p. sf_resolve fs p = p \<and> load_text fs p \<noteq> None}"
    "load_text fs path = Some src" "sf_parse fs src = Some t" "find (\<lambda>c. cn_name c = Some n) (tr_contracts t) = Some leaf"
    "sf_resolve fs path = path"
  shows "\<exists>st. walk fs leaf path src = Some st"
proof -
  have "{k. ((n, path), k) \<in> (graph (inherits fs))\<^sup>*} \<subseteq> insert (n, path) {k. node_at fs k \<noteq> None \<and> sf_resolve fs (snd k) = snd k}"
    using reached_nodes [OF assms(1)] by blast
  then have "finite {k. ((n, path), k) \<in> (graph (inherits fs))\<^sup>*}"
    using finite_nodes [OF assms(2)] by (simp add: finite_subset)
  then show ?thesis
    using inventory_walk.walk_terminates [of n fs path] walk_as_search [OF assms(3-6)] canonical_id [OF assms(1)] assms(6) by simp
qed

section \<open>The budget of a rendering\<close>

definition lines_length :: "string list \<Rightarrow> nat" where
  "lines_length ls = sum_list (map (\<lambda>l. length l + 1) ls)"

lemma lines_length_simps [simp]:
  "lines_length [] = 0" "lines_length (l # ls) = length l + 1 + lines_length ls"
  "lines_length (xs @ ys) = lines_length xs + lines_length ys"
  by (simp_all add: lines_length_def)

lemma join_length: "ls \<noteq> [] \<Longrightarrow> length (py_join nl ls) + 1 = lines_length ls"
  by (induction nl ls rule: py_join.induct) (simp_all add: nl_def)

lemma fixed_lines: "length (concat (map (\<lambda>l. l @ nl) ls)) = lines_length ls"
  by (induction ls) (simp_all add: nl_def)

lemma kept_sections:
  "lines_length (section_lines Sec_state es) + lines_length (section_lines Sec_life es) + lines_length (section_lines Sec_call es) =
   lines_length (map snd es)"
proof (induction es)
  case (Cons e es)
  then show ?case by (cases "fst e") (simp_all add: section_lines_def)
qed (simp add: section_lines_def)

lemma inventory_lines_length:
  "length (py_join nl (inventory_lines iy es)) + 1 = fixed_length iy + lines_length (map snd es)"
proof -
  have "inventory_lines iy es \<noteq> []" by (simp add: inventory_lines_def)
  then show ?thesis
    using join_length [of "inventory_lines iy es"] kept_sections [of es]
    by (simp add: inventory_lines_def fixed_length_def fixed_lines [unfolded nl_def] nl_def)
qed

lemma fitting_prefix:
  "\<exists>k \<le> length es. fitting r es = take k es \<and> lines_length (map snd (take k es)) \<le> r \<and>
     (k < length es \<longrightarrow> r < lines_length (map snd (take (Suc k) es)))"
proof (induction r es rule: fitting.induct)
  case (2 r e es)
  show ?case
  proof (cases "length (snd e) + 1 > r")
    case True
    then show ?thesis by (intro exI [of _ 0]) auto
  next
    case False
    with 2 obtain k where "k \<le> length es" "fitting (r - (length (snd e) + 1)) es = take k es"
      "lines_length (map snd (take k es)) \<le> r - (length (snd e) + 1)"
      "k < length es \<longrightarrow> r - (length (snd e) + 1) < lines_length (map snd (take (Suc k) es))" by blast
    with False show ?thesis by (intro exI [of _ "Suc k"]) auto
  qed
qed simp

lemma splitlines_aux_length: "lines_length (py_splitlines_aux acc s) \<le> length acc + length s + 1"
proof (induction acc s rule: py_splitlines_aux.induct)
  case (2 acc c cs)
  show ?case
  proof (cases "py_linebreak c")
    case True
    then show ?thesis
    proof (cases cs)
      case Nil
      with True show ?thesis by simp
    next
      case (Cons d ds)
      show ?thesis
      proof (cases "c = CHR 0x0D \<and> d = CHR 0x0A")
        case t: True
        have "lines_length (py_splitlines_aux [] ds) \<le> length ds + 1" using "2.IH"(2) [OF True Cons t] by simp
        with True Cons t show ?thesis by simp
      next
        case f: False
        have "lines_length (py_splitlines_aux [] cs) \<le> length cs + 1" using "2.IH"(3) [OF True Cons f] by simp
        moreover have "py_splitlines_aux acc (c # cs) = rev acc # py_splitlines_aux [] cs" using True Cons f by auto
        ultimately show ?thesis by simp
      qed
    qed
  next
    case False
    with "2.IH"(4) show ?thesis by simp
  qed
qed simp

lemma join_butlast: "length (py_join nl (butlast ls)) \<le> lines_length ls - 1"
proof (cases "butlast ls")
  case (Cons x xs)
  then have "lines_length (butlast ls) \<le> lines_length ls"
    by (metis append_butlast_last_id butlast.simps(1) le_add1 lines_length_simps(3) list.distinct(1))
  with join_length [of "butlast ls"] Cons show ?thesis by simp
qed simp

section \<open>One type for a name\<close>

lemma vars_by_name_spec:
  "dict_getd (vars_by_name vs) n [] = filter (\<lambda>v. iv_name v = n) vs \<and> distinct (dict_keys (vars_by_name vs)) \<and>
   set (dict_keys (vars_by_name vs)) = iv_name ` set vs"
proof -
  have "dict_getd (fold (\<lambda>sv d. dict_set (iv_name sv) (dict_getd d (iv_name sv) [] @ [sv]) d) vs d) n [] =
      dict_getd d n [] @ filter (\<lambda>v. iv_name v = n) vs" for d
    by (induction vs arbitrary: d) (auto simp: dict_getd_def)
  moreover have "distinct (dict_keys d) \<Longrightarrow>
      distinct (dict_keys (fold (\<lambda>sv d. dict_set (iv_name sv) (dict_getd d (iv_name sv) [] @ [sv]) d) vs d))" for d
    by (induction vs arbitrary: d) (simp_all add: dict_keys_set_distinct)
  moreover have "set (dict_keys (fold (\<lambda>sv d. dict_set (iv_name sv) (dict_getd d (iv_name sv) [] @ [sv]) d) vs d)) =
      set (dict_keys d) \<union> iv_name ` set vs" for d
    by (induction vs arbitrary: d) (auto simp: dict_keys_set)
  ultimately show ?thesis by (simp add: vars_by_name_def dict_getd_def dict_keys_def)
qed

lemma vars_by_name_groups: "set (vars_by_name vs) = (\<lambda>n. (n, filter (\<lambda>v. iv_name v = n) vs)) ` iv_name ` set vs"
proof -
  let ?d = "vars_by_name vs"
  have "(n, g) \<in> set ?d \<longleftrightarrow> n \<in> iv_name ` set vs \<and> g = filter (\<lambda>v. iv_name v = n) vs" for n g
  proof
    assume ng: "(n, g) \<in> set ?d"
    then have n: "n \<in> iv_name ` set vs" using vars_by_name_spec [of vs n] by (force simp: dict_keys_def)
    from ng vars_by_name_spec [of vs n] have "dict_get ?d n = Some g" by (simp add: dict_keys_def)
    with n vars_by_name_spec [of vs n] show "n \<in> iv_name ` set vs \<and> g = filter (\<lambda>v. iv_name v = n) vs" by (simp add: dict_getd_def)
  next
    assume n: "n \<in> iv_name ` set vs \<and> g = filter (\<lambda>v. iv_name v = n) vs"
    then have "dict_get ?d n \<noteq> None" using vars_by_name_spec [of vs n] by (simp add: dict_get_None)
    with n vars_by_name_spec [of vs n] have "dict_get ?d n = Some g" by (auto simp: dict_getd_def)
    then show "(n, g) \<in> set ?d" by (rule map_of_SomeD)
  qed
  then show ?thesis by auto
qed

definition keep_nearest :: "inventory_var \<Rightarrow> (string, inventory_var) dict \<Rightarrow> (string, inventory_var) dict" where
  "keep_nearest sv d = (case dict_get d (iv_contract sv) of
     None \<Rightarrow> dict_set (iv_contract sv) sv d
   | Some prev \<Rightarrow> if iv_distance sv < iv_distance prev then dict_set (iv_contract sv) sv d else d)"

lemma nearest_decls_keep: "nearest_decls vs = map snd (fold keep_nearest vs [])"
  by (simp add: nearest_decls_def keep_nearest_def [abs_def])

lemma keep_nearest_inv:
  "distinct (dict_keys (fold keep_nearest vs [])) \<and>
   (\<forall>c v. dict_get (fold keep_nearest vs []) c = Some v \<longrightarrow> v \<in> set vs \<and> iv_contract v = c) \<and>
   (\<forall>u \<in> set vs. \<exists>v. dict_get (fold keep_nearest vs []) (iv_contract u) = Some v \<and> iv_distance v \<le> iv_distance u)"
proof (induction vs rule: rev_induct)
  case (snoc x vs)
  let ?d = "fold keep_nearest vs []"
  have dist: "distinct (dict_keys ?d)" and found: "\<And>c v. dict_get ?d c = Some v \<Longrightarrow> v \<in> set vs \<and> iv_contract v = c"
    and near: "\<And>u. u \<in> set vs \<Longrightarrow> \<exists>v. dict_get ?d (iv_contract u) = Some v \<and> iv_distance v \<le> iv_distance u"
    using snoc.IH by blast+
  have 1: "distinct (dict_keys (keep_nearest x ?d))"
    using dist by (simp add: keep_nearest_def dict_keys_set_distinct split: option.split)
  have 2: "v \<in> set (vs @ [x]) \<and> iv_contract v = c" if "dict_get (keep_nearest x ?d) c = Some v" for c v
    using that found [of c v] by (auto simp: keep_nearest_def split: option.splits if_splits)
  have 3: "\<exists>v. dict_get (keep_nearest x ?d) (iv_contract u) = Some v \<and> iv_distance v \<le> iv_distance u"
    if u: "u \<in> set (vs @ [x])" for u
  proof (cases "u = x")
    case True
    then show ?thesis by (auto simp: keep_nearest_def split: option.split)
  next
    case False
    with u near [of u] obtain v where v: "dict_get ?d (iv_contract u) = Some v" "iv_distance v \<le> iv_distance u" by auto
    then show ?thesis by (auto simp: keep_nearest_def split: option.split)
  qed
  from 1 2 3 show ?case by simp
qed (simp add: dict_keys_def)

lemma nearest_decls_spec:
  shows "set (nearest_decls vs) \<subseteq> set vs" and "u \<in> set vs \<Longrightarrow> \<exists>v \<in> set (nearest_decls vs). iv_distance v \<le> iv_distance u"
proof -
  let ?d = "fold keep_nearest vs []"
  have "v \<in> set vs" if "(c, v) \<in> set ?d" for c v
  proof -
    have "dict_get ?d c = Some v" using that keep_nearest_inv [of vs] by (simp add: dict_keys_def)
    then show ?thesis using keep_nearest_inv [of vs] by blast
  qed
  then show "set (nearest_decls vs) \<subseteq> set vs" by (auto simp: nearest_decls_keep)
  assume "u \<in> set vs"
  then obtain v where "dict_get ?d (iv_contract u) = Some v" "iv_distance v \<le> iv_distance u" using keep_nearest_inv [of vs] by blast
  then show "\<exists>v \<in> set (nearest_decls vs). iv_distance v \<le> iv_distance u"
    by (auto simp: nearest_decls_keep dest!: map_of_SomeD intro!: bexI [of _ "(iv_contract u, v)"])
qed

lemma winning_decl_spec:
  assumes "decls \<noteq> []"
  shows "winning_decl decls \<in> set decls" and "d \<in> set decls \<Longrightarrow> iv_distance (winning_decl decls) \<le> iv_distance d"
proof -
  let ?key = "\<lambda>d. (iv_distance d, iv_contract d)"
  obtain w ws where ws: "sort_key ?key decls = w # ws" using assms by (metis list.exhaust length_0_conv length_sort)
  have s: "set decls = set (w # ws)" by (metis ws set_sort)
  then show "winning_decl decls \<in> set decls" by (simp add: winning_decl_def ws)
  assume "d \<in> set decls"
  moreover have "sorted (map ?key (w # ws))" by (metis ws sorted_sort_key)
  ultimately show "iv_distance (winning_decl decls) \<le> iv_distance d" by (auto simp: winning_decl_def ws s less_eq_prod_def)
qed

lemma resolve_name_spec:
  assumes "vs \<noteq> []"
  shows "set (fst (resolve_name n vs)) \<subseteq> set vs"
    and "v \<in> set (fst (resolve_name n vs)) \<Longrightarrow> w \<in> set (fst (resolve_name n vs)) \<Longrightarrow> iv_type v = iv_type w"
    and "u \<in> set vs \<Longrightarrow> \<exists>v \<in> set (fst (resolve_name n vs)). iv_distance v \<le> iv_distance u"
proof -
  let ?ds = "nearest_decls vs"
  obtain x where "x \<in> set vs" using assms by (cases vs) auto
  then have ne: "?ds \<noteq> []" using nearest_decls_spec(2) [of x vs] by auto
  note sub = nearest_decls_spec(1) [of vs] and near = nearest_decls_spec(2) [of u vs]
  show "set (fst (resolve_name n vs)) \<subseteq> set vs"
    using sub winning_decl_spec(1) [OF ne] by (auto simp: resolve_name_def Let_def)
  show "u \<in> set vs \<Longrightarrow> \<exists>v \<in> set (fst (resolve_name n vs)). iv_distance v \<le> iv_distance u"
    using near winning_decl_spec(2) [OF ne] by (auto simp: resolve_name_def Let_def intro: order_trans)
  assume v: "v \<in> set (fst (resolve_name n vs))" and w: "w \<in> set (fst (resolve_name n vs))"
  show "iv_type v = iv_type w"
  proof (cases "length (remdups (map iv_type ?ds)) > 1 \<and> length ?ds > 1")
    case True
    with v w show ?thesis by (simp add: resolve_name_def Let_def)
  next
    case False
    have f: "fst (resolve_name n vs) = ?ds" by (simp only: resolve_name_def Let_def False if_False fst_conv)
    from False consider "length ?ds \<le> 1" | "card (iv_type ` set ?ds) \<le> 1" by (fastforce simp: length_remdups_card_conv)
    then show ?thesis
    proof cases
      case 1
      with v w f show ?thesis by (cases ?ds) auto
    next
      case 2
      with v w f show ?thesis by (metis card_le_Suc0_iff_eq One_nat_def finite_imageI finite_set imageI)
    qed
  qed
qed

section \<open>Properties\<close>

text \<open>C25: the walk collects every inherited contract once, at its shortest distance. The visited contracts are
  those that the leaf inherits from through resolvable parent edges, each with the length of a
  shortest such chain, and the variables and helpers found are those of these contracts, in the order visited.\<close>

theorem inventory_walk_shortest:
  assumes "resolve_idem fs" "sf_resolve fs path = path"
    and "load_text fs path = Some src" "sf_parse fs src = Some t" "find (\<lambda>c. cn_name c = Some n) (tr_contracts t) = Some leaf"
    and "walk fs leaf path src = Some st"
  shows "set (wk_visited st) = {(k, d). shortest (inherits fs) (n, path) k d} \<and> distinct (map fst (wk_visited st)) \<and>
    wk_vars st = concat (map (vars_at fs) (wk_visited st)) \<and> wk_helpers st = concat (map (helpers_at fs) (wk_visited st))"
proof -
  have w: "while_option (\<lambda>s. fst (walk_layers (canonical fs) s) \<noteq> []) (walk_step (canonical fs)) (start_at (canonical fs) n path) = Some st"
    using walk_as_search [OF assms(3-5,2)] assms(6) canonical_id [OF assms(1)] by simp
  have "walk_ok fs st" using inventory_walk.walk_inv [OF w] canonical_id [OF assms(1)] by simp
  moreover have "wk_visited st = snd (walk_layers fs st)" by (simp add: walk_layers_def)
  ultimately show ?thesis
    using inventory_walk.walk_shortest [OF w] canonical_id [OF assms(1)] assms(2) by (simp add: walk_ok_def)
qed

text \<open>C32: building an inventory ends, whatever the sources say, cyclic and repeated inheritance included, when the
  paths that can be read are finitely many.\<close>

theorem inventory_terminates:
  assumes "resolve_idem fs" "finite {p. sf_resolve fs p = p \<and> load_text fs p \<noteq> None}"
  shows "\<exists>r. build_inventory fs leaf_contract leaf_path = Some r"
proof -
  let ?p = "sf_resolve fs leaf_path"
  have "\<exists>st. walk fs leaf ?p src = Some st"
    if "load_text fs ?p = Some src" "sf_parse fs src = Some t" "find (\<lambda>c. cn_name c = Some n) (tr_contracts t) = Some leaf" for src t n leaf
    using walk_ends [OF assms that] assms(1) by (simp add: resolve_idem_def)
  then show ?thesis by (fastforce simp: build_inventory_def Let_def split: option.split)
qed

text \<open>A rendered inventory never exceeds its budget, and when the fixed lines fit, it is complete but for a
  tail of the entries: these come nearest contracts first, variables before lifecycle and callable
  helpers, and one more of them would use up the budget.\<close>

lemma inventory_budget:
  "length (render_inventory iy budget) \<le> budget \<and>
   (fixed_length iy \<le> budget \<longrightarrow>
      (\<exists>k \<le> length (all_entries iy). render_inventory iy budget = py_join nl (inventory_lines iy (take k (all_entries iy))) \<and>
         (k < length (all_entries iy) \<longrightarrow> budget \<le> length (py_join nl (inventory_lines iy (take (Suc k) (all_entries iy)))))))"
proof (intro conjI impI)
  let ?kept = "fitting (budget - fixed_length iy) (all_entries iy)"
  let ?body = "py_join nl (inventory_lines iy ?kept)"
  have trunc: "length (py_join nl (butlast (py_splitlines (take budget ?body)))) \<le> budget"
    using join_butlast [of "py_splitlines (take budget ?body)"] splitlines_aux_length [of "[]" "take budget ?body"]
    by (simp add: py_splitlines_def)
  then show "length (render_inventory iy budget) \<le> budget" by (simp add: render_inventory_def Let_def)
  assume fits: "fixed_length iy \<le> budget"
  obtain k where k: "k \<le> length (all_entries iy)" "?kept = take k (all_entries iy)"
    "lines_length (map snd (take k (all_entries iy))) \<le> budget - fixed_length iy"
    "k < length (all_entries iy) \<longrightarrow> budget - fixed_length iy < lines_length (map snd (take (Suc k) (all_entries iy)))"
    using fitting_prefix by blast
  have "length ?body \<le> budget" using inventory_lines_length [of iy "take k (all_entries iy)"] k(2,3) fits by simp
  then have "render_inventory iy budget = py_join nl (inventory_lines iy (take k (all_entries iy)))"
    by (simp add: render_inventory_def Let_def k(2))
  moreover have "budget \<le> length (py_join nl (inventory_lines iy (take (Suc k) (all_entries iy))))" if "k < length (all_entries iy)"
    using inventory_lines_length [of iy "take (Suc k) (all_entries iy)"] k(4) that fits by simp
  ultimately show "\<exists>k \<le> length (all_entries iy). render_inventory iy budget = py_join nl (inventory_lines iy (take k (all_entries iy))) \<and>
         (k < length (all_entries iy) \<longrightarrow> budget \<le> length (py_join nl (inventory_lines iy (take (Suc k) (all_entries iy)))))"
    using k(1) by blast
qed

text \<open>No name is listed with two types, and none is lost: the variables of an inventory are variables the
  walk found, two of the same name have the same type, and for every variable found one of its name
  is listed from no greater distance.\<close>

lemma inventory_one_type:
  "set (in_vars (inventory_of cname path st)) \<subseteq> set (wk_vars st) \<and>
   (\<forall>v \<in> set (in_vars (inventory_of cname path st)). \<forall>w \<in> set (in_vars (inventory_of cname path st)).
      iv_name v = iv_name w \<longrightarrow> iv_type v = iv_type w) \<and>
   (\<forall>u \<in> set (wk_vars st). \<exists>v \<in> set (in_vars (inventory_of cname path st)). iv_name v = iv_name u \<and> iv_distance v \<le> iv_distance u)"
proof -
  let ?grp = "\<lambda>n. filter (\<lambda>v. iv_name v = n) (wk_vars st)"
  let ?vs = "in_vars (inventory_of cname path st)"
  have vs: "set ?vs = (\<Union>n \<in> iv_name ` set (wk_vars st). set (fst (resolve_name n (?grp n))))"
    by (simp add: inventory_of_def Let_def vars_by_name_groups)
  have ne: "?grp n \<noteq> []" if "n \<in> iv_name ` set (wk_vars st)" for n using that by (auto simp: filter_empty_conv)
  have name: "v \<in> set (wk_vars st) \<and> iv_name v = n" if "n \<in> iv_name ` set (wk_vars st)" "v \<in> set (fst (resolve_name n (?grp n)))" for v n
    using resolve_name_spec(1) [OF ne [OF that(1)], of n] that(2) by auto
  have "iv_type v = iv_type w" if vw: "v \<in> set ?vs" "w \<in> set ?vs" "iv_name v = iv_name w" for v w
  proof -
    obtain n m where n: "n \<in> iv_name ` set (wk_vars st)" "v \<in> set (fst (resolve_name n (?grp n)))"
      and m: "m \<in> iv_name ` set (wk_vars st)" "w \<in> set (fst (resolve_name m (?grp m)))" using vw(1,2) unfolding vs by blast
    then have "n = m" using name [OF n] name [OF m] vw(3) by simp
    with resolve_name_spec(2) [OF ne [OF n(1)] n(2), of w] m show ?thesis by blast
  qed
  moreover have "\<exists>v \<in> set ?vs. iv_name v = iv_name u \<and> iv_distance v \<le> iv_distance u" if u: "u \<in> set (wk_vars st)" for u
  proof -
    have n: "iv_name u \<in> iv_name ` set (wk_vars st)" using u by simp
    obtain v where "v \<in> set (fst (resolve_name (iv_name u) (?grp (iv_name u))))" "iv_distance v \<le> iv_distance u"
      using resolve_name_spec(3) [OF ne [OF n], of u "iv_name u"] u by auto
    with name [OF n] n show ?thesis unfolding vs by blast
  qed
  ultimately show ?thesis using name unfolding vs by blast
qed

text \<open>A leaf whose two parents share a grandparent, in three files.\<close>

definition var_of :: "string \<Rightarrow> string \<Rightarrow> sub_node" where
  "var_of n ty = State_variables [\<lparr>vn_name = Some n, vn_visibility = ''internal'', vn_type = ty\<rparr>]"

definition contract_of :: "string \<Rightarrow> string list \<Rightarrow> sub_node list \<Rightarrow> contract_node" where
  "contract_of n bases subs = \<lparr>cn_name = Some n, cn_bases = map Some bases, cn_subs = subs\<rparr>"

definition import_all :: "string \<Rightarrow> import_node" where
  "import_all p = \<lparr>im_path = p, im_aliases = []\<rparr>"

definition diamond_files :: source_files where
  "diamond_files = \<lparr>sf_parse = (\<lambda>s.
       if s = ''leaf'' then Some \<lparr>tr_contracts = [contract_of ''T'' [''A'', ''B''] []], tr_imports = [import_all ''P.sol'']\<rparr>
       else if s = ''parents'' then Some \<lparr>tr_contracts = [contract_of ''A'' [''R''] [], contract_of ''B'' [''R''] [var_of ''y'' ''int'']],
                                         tr_imports = [import_all ''R.sol'']\<rparr>
       else if s = ''root'' then Some \<lparr>tr_contracts = [contract_of ''R'' [] [var_of ''x'' ''uint'']], tr_imports = []\<rparr> else None),
     sf_read = (\<lambda>p. if p = ''/T.sol'' then Some ''leaf'' else if p = ''/P.sol'' then Some ''parents'' else if p = ''/R.sol'' then Some ''root'' else None),
     sf_resolve = (\<lambda>p. p), sf_file_map = None, sf_remappings = []\<rparr>"

lemma diamond_idem: "resolve_idem diamond_files" by (simp add: resolve_idem_def diamond_files_def)

lemma diamond_walk:
  "map_option wk_visited (walk diamond_files (contract_of ''T'' [''A'', ''B''] []) ''/T.sol'' ''leaf'') =
     Some [((''T'', ''/T.sol''), 0), ((''A'', ''/P.sol''), 1), ((''B'', ''/P.sol''), 1), ((''R'', ''/R.sol''), 2)]"
  by code_simp

lemma inventory_walk_shortest_witness:
  "shortest (inherits diamond_files) (''T'', ''/T.sol'') (''R'', ''/R.sol'') 2"
proof -
  let ?leaf = "contract_of ''T'' [''A'', ''B''] []"
  obtain st where st: "walk diamond_files ?leaf ''/T.sol'' ''leaf'' = Some st"
    "wk_visited st = [((''T'', ''/T.sol''), 0), ((''A'', ''/P.sol''), 1), ((''B'', ''/P.sol''), 1), ((''R'', ''/R.sol''), 2)]"
    using diamond_walk by auto
  have t: "load_text diamond_files ''/T.sol'' = Some ''leaf''" "sf_resolve diamond_files ''/T.sol'' = ''/T.sol''"
    "sf_parse diamond_files ''leaf'' = Some \<lparr>tr_contracts = [?leaf], tr_imports = [import_all ''P.sol'']\<rparr>"
    "find (\<lambda>c. cn_name c = Some ''T'') (tr_contracts \<lparr>tr_contracts = [?leaf], tr_imports = [import_all ''P.sol'']\<rparr>) = Some ?leaf"
    by (simp_all add: load_text_def diamond_files_def contract_of_def)
  from inventory_walk_shortest [OF diamond_idem t(2,1,3,4) st(1)] st(2)
  have "((''R'', ''/R.sol''), 2) \<in> {(k, d). shortest (inherits diamond_files) (''T'', ''/T.sol'') k d}" by (metis list.set_intros)
  then show ?thesis by simp
qed

lemma inventory_terminates_witness: "\<exists>r. build_inventory diamond_files None ''/T.sol'' = Some r"
proof (rule inventory_terminates [OF diamond_idem])
  have "{p. sf_resolve diamond_files p = p \<and> load_text diamond_files p \<noteq> None} \<subseteq> {''/T.sol'', ''/P.sol'', ''/R.sol''}"
    by (auto simp: load_text_def diamond_files_def split: if_splits)
  then show "finite {p. sf_resolve diamond_files p = p \<and> load_text diamond_files p \<noteq> None}" by (rule finite_subset) simp
qed

definition sample_inventory :: inventory where
  "sample_inventory = \<lparr>in_leaf_contract = ''T'', in_leaf_path = ''/T.sol'', in_vars = [], in_lifecycle = [], in_callable = [],
     in_unresolved = [], in_drops = [], in_degraded = False\<rparr>"

lemma inventory_budget_witness:
  "render_inventory sample_inventory 1000 = py_join nl (inventory_lines sample_inventory [])"
proof -
  have "fixed_length sample_inventory \<le> 1000" "all_entries sample_inventory = []" by code_simp+
  with inventory_budget [of sample_inventory 1000] show ?thesis by simp
qed

definition decl_in :: "string \<Rightarrow> string \<Rightarrow> string \<Rightarrow> nat \<Rightarrow> inventory_var" where
  "decl_in c p ty d = \<lparr>iv_name = ''x'', iv_type = ty, iv_contract = c, iv_path = p, iv_distance = d, iv_visibility = ''default''\<rparr>"

lemma inventory_one_type_witness:
  "iv_type ` set (in_vars (inventory_of ''T'' ''/T.sol'' ((walk_start (contract_of ''T'' [] []) ''/T.sol'' [])
     \<lparr>wk_vars := [decl_in ''B'' ''/B.sol'' ''int'' 2, decl_in ''A'' ''/A.sol'' ''uint'' 1]\<rparr>))) = {''uint''}" (is "iv_type ` set ?vs = _")
proof -
  have mem: "decl_in ''A'' ''/A.sol'' ''uint'' 1 \<in> set ?vs" "\<forall>v \<in> set ?vs. iv_name v = ''x''" by code_simp+
  have "iv_type v = ''uint''" if "v \<in> set ?vs" for v
    using inventory_one_type [THEN conjunct2, THEN conjunct1, rule_format, OF that mem(1)] mem(2) that by (simp add: decl_in_def)
  with mem(1) show ?thesis by (force simp: decl_in_def)
qed

text \<open>Declarations are told apart by the name of their contract only: of two contracts of one name in different
  files, the more distant one's variable is dropped, even with another type, and no drop is recorded.\<close>

lemma same_named_contracts_merge:
  "resolve_name ''x'' [decl_in ''A'' ''/a.sol'' ''uint'' 1, decl_in ''A'' ''/b.sol'' ''int'' 2] =
     ([decl_in ''A'' ''/a.sol'' ''uint'' 1], [])"
  by code_simp

end
