(* ===== verification/Proof_Repeat.thy ===== *)
theory Proof_Repeat
  imports Proof_Solidity
begin

text \<open>
  Reading repeated reverts out of the attempts of a proof run (the second half of
  \<open>proof/scaffold_reachability.py\<close>): the call site and the selector of a revert, the caller a test pranks,
  the streak of reverts that look alike, the hint it leads to, and the baseline of exercised methods.
  Text is in UTF-8; where the code counts characters of forge's tree drawing, the bytes that
  continue a character are not counted.

  The lemmas: the streak is the length of the longest run of attempts, ending with the last one, that
  revert at one place with one selector and without a caller known to be the same; the baseline is what
  the compiled attempts called.
\<close>

section \<open>Call sites\<close>

record call_site =
  cs_contract :: string
  cs_method :: string

definition char_length :: "string \<Rightarrow> nat" where
  "char_length s = length (filter (\<lambda>c. (of_char c :: nat) < 128 \<or> 192 \<le> (of_char c :: nat)) s)"

definition u_left_arrow :: string where "u_left_arrow = [CHR 0xE2, CHR 0x86, CHR 0x90]"

text \<open>The four box drawing characters of forge's traces.\<close>

definition box_chars :: "string list" where
  "box_chars = [[CHR 0xE2, CHR 0x94, CHR 0x82], [CHR 0xE2, CHR 0x94, CHR 0x9C], [CHR 0xE2, CHR 0x94, CHR 0x94], [CHR 0xE2, CHR 0x94, CHR 0x80]]"

definition noeol :: regex where "noeol = RChr (\<lambda>c. c \<noteq> CHR 0x0A)"

definition REVERT_LEAF_RE :: regex where
  "REVERT_LEAF_RE = rseq [RBol False, RGrp 1 (RStar False noeol), RAlt (rlit u_left_arrow) (rlit ''<-''), rws0, rlit ''[Revert]'',
     RAlt rws (REol False)]"

definition HEADER_RE :: regex where
  "HEADER_RE = rseq [RBol False,
     RGrp 1 (RSeq rws0 (ropt (RStar True (ralts (map rlit box_chars @ [rlit ''|'', rws]))))),
     rlit ''['', RGrp 2 rdigit1, rlit '']'', rws1, RGrp 3 rword1, rlit ''::'', RGrp 4 rword1, rlit ''('']"

definition CUSTOM_ERR_RE :: regex where
  "CUSTOM_ERR_RE = rseq [RBol False, rident, rlit ''('', RStar True noeol, rlit '')'', REol False]"

definition normalize_contract_symbol :: "string \<Rightarrow> string" where
  "normalize_contract_symbol name =
     (if 5 \<le> length name \<and> drop (length name - 5) name = ''_Impl'' then take (length name - 5) name else name)"

text \<open>The first line with a revert and its depth; then the nearest header above it at that depth or one less.\<close>

definition revert_leaf :: "string list \<Rightarrow> (nat \<times> nat) option" where
  "revert_leaf ls =
     (case List.map_filter (\<lambda>(i, line).
         map_option (\<lambda>m. (i, char_length (m_group line 1 m))) (re_match_start REVERT_LEAF_RE line)) (enumerate 0 ls) of
        [] \<Rightarrow> None | x # _ \<Rightarrow> Some x)"

definition header_site :: "nat \<Rightarrow> string \<Rightarrow> call_site option" where
  "header_site depth line =
     (case re_match_start HEADER_RE line of
        None \<Rightarrow> None
      | Some m \<Rightarrow>
          let d = char_length (m_group line 1 m) in
          if int d = int depth - 1 \<or> d = depth
          then Some \<lparr>cs_contract = normalize_contract_symbol (m_group line 3 m), cs_method = m_group line 4 m\<rparr> else None)"

definition canonical_call_site :: "string \<Rightarrow> call_site option" where
  "canonical_call_site out =
     (let ls = py_splitlines out in
      case revert_leaf ls of
        None \<Rightarrow> None
      | Some (i, d) \<Rightarrow> (case List.map_filter (header_site d) (rev (take i ls)) of [] \<Rightarrow> None | s # _ \<Rightarrow> Some s))"

definition canonical_revert_selector :: "string \<Rightarrow> string" where
  "canonical_revert_selector fail_entry =
     (let t = py_strip fail_entry in
      if re_match_start CUSTOM_ERR_RE t \<noteq> None then takeWhile (\<lambda>c. c \<noteq> CHR ''('') t else t)"

definition extract_repeat_evidence :: "string \<Rightarrow> string \<Rightarrow> call_site option \<times> string option" where
  "extract_repeat_evidence out err =
     (canonical_call_site out,
      (case fail_signature (out @ nl @ err) of [] \<Rightarrow> None | f # _ \<Rightarrow> Some (canonical_revert_selector f)))"

section \<open>The caller of a call\<close>

definition prank_arg :: regex where
  "prank_arg = rseq [rws0, rlit ''('', RGrp 1 (rplus (RChr (\<lambda>c. c \<noteq> CHR '')''))), rlit '')'']"

definition START_PRANK_RE :: regex where "START_PRANK_RE = RSeq (rlit ''vm.startPrank'') prank_arg"
definition STOP_PRANK_RE :: regex where
  "STOP_PRANK_RE = rseq [rlit ''vm.stopPrank'', rws0, rlit ''('', rws0, rlit '')'']"
definition ONE_SHOT_PRANK_RE :: regex where
  "ONE_SHOT_PRANK_RE = rseq [rlit ''vm.'', RAlt (rlit ''P'') (rlit ''p''), rlit ''rank'', prank_arg]"

definition TYPE_DECL_START_RE :: regex where
  "TYPE_DECL_START_RE = rseq [RBol False,
     ralts [RSeq (rlit ''uint'') (RStar True (RChr py_digit)), RSeq (rlit ''int'') (RStar True (RChr py_digit)), rlit ''address'',
       rlit ''bool'', RSeq (rlit ''bytes'') (RStar True (RChr py_digit)), rlit ''string'', rlit ''mapping'', rlit ''fixed'', rlit ''ufixed''],
     RWordB]"

definition split_statements :: "string \<Rightarrow> string list" where
  "split_statements poc = filter (\<lambda>s. s \<noteq> []) (map py_strip (py_split (CHR '';'') (strip_comments poc)))"

definition is_call_statement :: "string \<Rightarrow> bool" where
  "is_call_statement stmt =
     (re_match_start TYPE_DECL_START_RE (py_strip stmt) = None \<and>
      re_search (rseq [RWordB, rident, rws0, rlit ''('']) (py_strip stmt) \<noteq> None)"

definition method_call_re :: "string \<Rightarrow> regex" where
  "method_call_re m = rseq [rlit ''.'', rlit m, rws0, rlit ''('']"

text \<open>The state of the walk over the statements: the caller of a standing prank and that of a one-shot.\<close>

fun caller_walk :: "string \<Rightarrow> string list \<Rightarrow> string option \<Rightarrow> string option \<Rightarrow> string option" where
  "caller_walk m [] persistent one_shot = None"
| "caller_walk m (stmt # rest) persistent one_shot =
     (case re_search START_PRANK_RE stmt of
        Some mo \<Rightarrow> caller_walk m rest (Some (py_strip (m_group stmt 1 mo))) one_shot
      | None \<Rightarrow>
          if re_search STOP_PRANK_RE stmt \<noteq> None then caller_walk m rest None one_shot
          else (case re_search ONE_SHOT_PRANK_RE stmt of
             Some mo \<Rightarrow>
               if \<not> py_in ''startPrank'' stmt then caller_walk m rest persistent (Some (py_strip (m_group stmt 1 mo)))
               else if re_search (method_call_re m) stmt \<noteq> None then (if one_shot \<noteq> None then one_shot else persistent)
               else caller_walk m rest persistent (if one_shot \<noteq> None \<and> is_call_statement stmt then None else one_shot)
           | None \<Rightarrow>
               if re_search (method_call_re m) stmt \<noteq> None then (if one_shot \<noteq> None then one_shot else persistent)
               else caller_walk m rest persistent (if one_shot \<noteq> None \<and> is_call_statement stmt then None else one_shot)))"

definition extract_caller_expr :: "string \<Rightarrow> call_site \<Rightarrow> string option" where
  "extract_caller_expr poc site = caller_walk (cs_method site) (split_statements poc) None None"

section \<open>The streak\<close>

record repeat_state =
  rs_call_site :: "call_site option"
  rs_selector :: "string option"
  rs_caller :: "string option"
  rs_streak :: nat
  rs_changed :: bool

definition initial_repeat :: repeat_state where
  "initial_repeat = \<lparr>rs_call_site = None, rs_selector = None, rs_caller = None, rs_streak = 0, rs_changed = False\<rparr>"

definition same_caller_conservative :: "string option \<Rightarrow> string option \<Rightarrow> bool" where
  "same_caller_conservative a b = (a \<noteq> None \<and> b \<noteq> None \<and> a = b)"

definition pair_confirmed_diff :: "string option \<Rightarrow> string option \<Rightarrow> bool" where
  "pair_confirmed_diff a b = (a \<noteq> None \<and> b \<noteq> None \<and> a \<noteq> b)"

record repeat_attempt =
  at_site :: "call_site option"
  at_selector :: "string option"
  at_caller :: "string option"

definition update_repeat :: "repeat_state \<Rightarrow> repeat_attempt \<Rightarrow> nat \<Rightarrow> repeat_state \<times> bool" where
  "update_repeat st a threshold =
     (let new =
        (if at_site a = None then initial_repeat
         else if rs_call_site st \<noteq> None \<and> at_site a = rs_call_site st \<and> at_selector a \<noteq> None \<and> at_selector a = rs_selector st
         then (if same_caller_conservative (at_caller a) (rs_caller st)
               then \<lparr>rs_call_site = at_site a, rs_selector = at_selector a, rs_caller = at_caller a, rs_streak = 1, rs_changed = False\<rparr>
               else \<lparr>rs_call_site = at_site a, rs_selector = at_selector a, rs_caller = at_caller a, rs_streak = rs_streak st + 1,
                      rs_changed = (rs_changed st \<or> pair_confirmed_diff (at_caller a) (rs_caller st))\<rparr>)
         else \<lparr>rs_call_site = at_site a, rs_selector = at_selector a, rs_caller = at_caller a,
                rs_streak = (if at_selector a \<noteq> None then 1 else 0), rs_changed = False\<rparr>)
      in (new, threshold \<le> rs_streak new))"

definition after_attempts :: "repeat_attempt list \<Rightarrow> repeat_state" where
  "after_attempts as = fold (\<lambda>a st. fst (update_repeat st a 0)) as initial_repeat"

datatype check_status = Complete | Incomplete

record reachability_check =
  rc_pattern :: string
  rc_status :: check_status
  rc_missing :: "string list"
  rc_site :: "call_site option"

definition corroboration :: "call_site option \<Rightarrow> reachability_check list \<Rightarrow> reachability_check option" where
  "corroboration site checks =
     (if site = None then None else find (\<lambda>c. rc_status c = Incomplete \<and> rc_site c \<noteq> None \<and> rc_site c = site) checks)"

definition repeat_hint :: "repeat_state \<Rightarrow> reachability_check option \<Rightarrow> string" where
  "repeat_hint st corroborating =
     (let site = (case rs_call_site st of Some s \<Rightarrow> cs_contract s @ ''::'' @ cs_method s | None \<Rightarrow> ''unknown'');
          sel = (case rs_selector st of Some (c # cs) \<Rightarrow> c # cs | _ \<Rightarrow> ''unknown'');
          head = ''Repeated revert at '' @ site @ '' with selector `'' @ sel @ ''` (streak='' @ nat_str (rs_streak st) @ ''). '' in
      case corroborating of
        Some c \<Rightarrow>
          head @ ''Source-backed reachability check reports incomplete wiring: missing '' @
          (if py_join '', '' (rc_missing c) = [] then ''(unspecified)'' else py_join '', '' (rc_missing c)) @ ''.'' @
          (if rs_changed st
           then '' The repetition recurs regardless of caller; check BOTH setup wiring AND caller/role preconditions. '' @
                ''This is not a verdict that the gate is unreachable.''
           else '' Caller context could not be reliably determined across these attempts; check BOTH setup wiring AND '' @
                ''caller/role preconditions. This is not a verdict that the gate is unreachable.'')
      | None \<Rightarrow>
          if rs_changed st
          then head @ ''The repetition recurs regardless of caller; check BOTH setup wiring AND caller/role preconditions. '' @
               ''This does NOT assert the gate is unreachable.''
          else head @ ''Caller context could not be reliably determined across these attempts; check BOTH setup wiring AND '' @
               ''caller/role preconditions. This does NOT assert the gate is unreachable.'')"

section \<open>The mechanism baseline\<close>

record mechanism =
  me_baseline :: "string list"               \<comment> \<open>a set: no method twice\<close>
  me_last_called :: "string list option"

definition sorted_names :: "string list \<Rightarrow> string list" where
  "sorted_names xs = sort (remdups xs)"

text \<open>One attempt: whether it compiled, the methods it called and whether any were checked.\<close>

definition update_mechanism_baseline ::
  "mechanism \<Rightarrow> bool \<Rightarrow> string list \<Rightarrow> bool \<Rightarrow> mechanism \<times> string" where
  "update_mechanism_baseline me compiled called checked =
     (if \<not> compiled then (me, [])
      else let dropped = filter (\<lambda>m. m \<notin> set called) (me_baseline me);
               reminder = (if checked \<and> me_last_called me \<noteq> None \<and> dropped \<noteq> []
                           then ''[DATA] Previously-exercised (in a compiled attempt) and now-dropped methods: '' @
                                py_join '', '' (sorted_names dropped) @ ''. Reminder only - not a verdict that the current '' @
                                ''exploit path is wrong.''
                           else [])
           in (\<lparr>me_baseline = fold List.insert called (me_baseline me), me_last_called = Some called\<rparr>, reminder))"

section \<open>What a streak means\<close>

text \<open>An attempt that counts has a place and a selector; two attempts in a row are linked when these agree and
  their callers are not known to be the same.\<close>

definition counts :: "repeat_attempt \<Rightarrow> bool" where
  "counts a \<longleftrightarrow> at_site a \<noteq> None \<and> at_selector a \<noteq> None"

definition linked :: "repeat_attempt \<Rightarrow> repeat_attempt \<Rightarrow> bool" where
  "linked a b \<longleftrightarrow> at_site a = at_site b \<and> at_selector a = at_selector b \<and> \<not> same_caller_conservative (at_caller b) (at_caller a)"

definition chained :: "repeat_attempt list \<Rightarrow> bool" where
  "chained as \<longleftrightarrow> list_all counts as \<and> successively linked as"

text \<open>The last \<open>k\<close> attempts.\<close>

definition latest :: "nat \<Rightarrow> 'a list \<Rightarrow> 'a list" where
  "latest k xs = drop (length xs - k) xs"

lemma after_attempts_simps [simp]:
  "after_attempts [] = initial_repeat" "after_attempts (as @ [a]) = fst (update_repeat (after_attempts as) a 0)"
  by (simp_all add: after_attempts_def)

lemma latest_Suc: "latest (Suc k) (xs @ [x]) = latest k xs @ [x]"
  by (simp add: latest_def)

lemma latest_last: "k \<noteq> 0 \<Longrightarrow> xs \<noteq> [] \<Longrightarrow> latest k xs \<noteq> [] \<and> last (latest k xs) = last xs"
proof -
  assume "k \<noteq> 0" "xs \<noteq> []"
  then have "length xs - k < length xs" by (cases xs) auto
  then show ?thesis by (simp add: latest_def)
qed

lemma chained_snoc: "chained (as @ [a]) \<longleftrightarrow> chained as \<and> counts a \<and> (as = [] \<or> linked (last as) a)"
  by (auto simp: chained_def successively_append_iff)

text \<open>The state remembers the last attempt, when it has a place.\<close>

lemma update_keeps:
  "rs_call_site (fst (update_repeat st a n)) = at_site a"
  "at_site a \<noteq> None \<Longrightarrow> rs_selector (fst (update_repeat st a n)) = at_selector a"
  "at_site a \<noteq> None \<Longrightarrow> rs_caller (fst (update_repeat st a n)) = at_caller a"
  by (auto simp: update_repeat_def initial_repeat_def Let_def)

lemma update_streak:
  "rs_streak (fst (update_repeat st a n)) =
     (if \<not> counts a then 0
      else if rs_call_site st = at_site a \<and> rs_selector st = at_selector a \<and> \<not> same_caller_conservative (at_caller a) (rs_caller st)
      then Suc (rs_streak st) else 1)"
  "rs_changed (fst (update_repeat st a n)) =
     (counts a \<and> rs_call_site st = at_site a \<and> rs_selector st = at_selector a \<and> \<not> same_caller_conservative (at_caller a) (rs_caller st) \<and>
      (rs_changed st \<or> pair_confirmed_diff (at_caller a) (rs_caller st)))"
  by (cases "at_site a"; cases "at_selector a"; auto simp: update_repeat_def initial_repeat_def Let_def counts_def)+

lemma remembers:
  assumes "as \<noteq> []"
  shows "rs_call_site (after_attempts as) = at_site (last as)"
    and "at_site (last as) \<noteq> None \<Longrightarrow> rs_selector (after_attempts as) = at_selector (last as)"
    and "at_site (last as) \<noteq> None \<Longrightarrow> rs_caller (after_attempts as) = at_caller (last as)"
proof -
  obtain xs x where "as = xs @ [x]" using assms by (metis rev_exhaust)
  then show "rs_call_site (after_attempts as) = at_site (last as)"
    and "at_site (last as) \<noteq> None \<Longrightarrow> rs_selector (after_attempts as) = at_selector (last as)"
    and "at_site (last as) \<noteq> None \<Longrightarrow> rs_caller (after_attempts as) = at_caller (last as)"
    by (simp_all add: update_keeps)
qed

lemma streak_step:
  "rs_streak (after_attempts (as @ [a])) =
     (if \<not> counts a then 0 else if as \<noteq> [] \<and> counts (last as) \<and> linked (last as) a then Suc (rs_streak (after_attempts as)) else 1)"
  "rs_changed (after_attempts (as @ [a])) =
     (counts a \<and> as \<noteq> [] \<and> counts (last as) \<and> linked (last as) a \<and>
      (rs_changed (after_attempts as) \<or> pair_confirmed_diff (at_caller a) (at_caller (last as))))"
proof -
  let ?st = "after_attempts as"
  have new: "after_attempts (as @ [a]) = fst (update_repeat ?st a 0)" by simp
  have link: "counts a \<Longrightarrow> (rs_call_site ?st = at_site a \<and> rs_selector ?st = at_selector a \<and> \<not> same_caller_conservative (at_caller a) (rs_caller ?st))
      \<longleftrightarrow> as \<noteq> [] \<and> counts (last as) \<and> linked (last as) a"
  proof (cases "as = []")
    case True
    then show "counts a \<Longrightarrow> ?thesis" by (auto simp: initial_repeat_def counts_def)
  next
    case False
    note r = remembers [OF False]
    show "counts a \<Longrightarrow> ?thesis"
    proof (cases "at_site (last as)")
      case None
      then show "counts a \<Longrightarrow> ?thesis" using r(1) by (simp add: counts_def) (metis option.distinct(1))
    next
      case (Some s)
      then have "rs_selector ?st = at_selector (last as)" "rs_caller ?st = at_caller (last as)" using r(2,3) by simp_all
      then show "counts a \<Longrightarrow> ?thesis" using r(1) Some False unfolding counts_def linked_def by (metis option.distinct(1))
    qed
  qed
  show "rs_streak (after_attempts (as @ [a])) =
     (if \<not> counts a then 0 else if as \<noteq> [] \<and> counts (last as) \<and> linked (last as) a then Suc (rs_streak (after_attempts as)) else 1)"
    unfolding new update_streak by (cases "counts a") (simp_all only: link if_True if_False simp_thms)
  have caller: "as \<noteq> [] \<Longrightarrow> counts (last as) \<Longrightarrow> rs_caller ?st = at_caller (last as)" using remembers(3) by (simp add: counts_def)
  show "rs_changed (after_attempts (as @ [a])) =
     (counts a \<and> as \<noteq> [] \<and> counts (last as) \<and> linked (last as) a \<and>
      (rs_changed (after_attempts as) \<or> pair_confirmed_diff (at_caller a) (at_caller (last as))))"
    unfolding new update_streak using link caller by metis
qed

lemma streak_chain: "k \<le> rs_streak (after_attempts as) \<longleftrightarrow> k \<le> length as \<and> chained (latest k as)"
proof (induction as arbitrary: k rule: rev_induct)
  case Nil
  then show ?case by (auto simp: initial_repeat_def latest_def chained_def)
next
  case (snoc a as)
  show ?case
  proof (cases k)
    case 0
    then show ?thesis by (simp add: latest_def chained_def)
  next
    case (Suc j)
    have one: "latest 1 as = [last as]" if "as \<noteq> []" using that by (cases as rule: rev_cases) (simp_all add: latest_def)
    have c: "counts (last as) \<longleftrightarrow> 1 \<le> rs_streak (after_attempts as)" if "as \<noteq> []"
      using snoc.IH [of 1] one [OF that] that by (auto simp: chained_def counts_def Suc_le_eq)
    have l: "last (latest j as) = last as" "latest j as = [] \<longleftrightarrow> False" if "j \<noteq> 0" "as \<noteq> []" using latest_last [OF that] by simp_all
    show ?thesis
    proof (cases "j = 0 \<or> as = []")
      case True
      then show ?thesis using snoc.IH [of j] by (auto simp: Suc latest_Suc streak_step chained_snoc latest_def chained_def simp del: after_attempts_simps)
    next
      case False
      then have "k \<le> rs_streak (after_attempts (as @ [a])) \<longleftrightarrow>
          counts a \<and> counts (last as) \<and> linked (last as) a \<and> j \<le> rs_streak (after_attempts as)"
        by (auto simp: Suc streak_step simp del: after_attempts_simps)
      also have "\<dots> \<longleftrightarrow> counts a \<and> linked (last as) a \<and> j \<le> rs_streak (after_attempts as)"
        using False c by auto
      also have "\<dots> \<longleftrightarrow> k \<le> length (as @ [a]) \<and> chained (latest k (as @ [a]))"
        using False l snoc.IH [of j] by (auto simp: Suc latest_Suc chained_snoc)
      finally show ?thesis .
    qed
  qed
qed

lemma changed_chain:
  "rs_changed (after_attempts as) \<longleftrightarrow>
     (\<exists>i. Suc i < length as \<and> length as \<le> i + rs_streak (after_attempts as) \<and> pair_confirmed_diff (at_caller (as ! Suc i)) (at_caller (as ! i)))"
proof (induction as rule: rev_induct)
  case Nil
  then show ?case by (simp add: initial_repeat_def)
next
  case (snoc a as)
  let ?P = "\<lambda>xs i. pair_confirmed_diff (at_caller (xs ! Suc i)) (at_caller (xs ! i))"
  show ?case
  proof (cases "counts a \<and> as \<noteq> [] \<and> counts (last as) \<and> linked (last as) a")
    case True
    let ?s = "rs_streak (after_attempts as)"
    have st: "rs_streak (after_attempts (as @ [a])) = Suc ?s" using True by (simp add: streak_step del: after_attempts_simps)
    have s1: "1 \<le> ?s" using True streak_chain [of 1 as] by (cases as rule: rev_cases) (auto simp: latest_def chained_def)
    have "(\<exists>i. Suc i < length (as @ [a]) \<and> length (as @ [a]) \<le> i + Suc ?s \<and> ?P (as @ [a]) i) \<longleftrightarrow>
        (\<exists>i. Suc i < length as \<and> length as \<le> i + ?s \<and> ?P as i) \<or> ?P (as @ [a]) (length as - 1)" (is "?L \<longleftrightarrow> ?R")
    proof
      assume ?L
      then obtain i where i: "Suc i < length (as @ [a])" "length (as @ [a]) \<le> i + Suc ?s" "?P (as @ [a]) i" by blast
      show ?R
      proof (cases "Suc i < length as")
        case True
        with i have "?P as i" "length as \<le> i + ?s" by (auto simp: nth_append)
        with True show ?thesis by blast
      next
        case False
        with i have "i = length as - 1" by auto
        with i show ?thesis by blast
      qed
    next
      assume ?R
      then show ?L
      proof
        assume "\<exists>i. Suc i < length as \<and> length as \<le> i + ?s \<and> ?P as i"
        then obtain i where "Suc i < length as" "length as \<le> i + ?s" "?P as i" by blast
        then show ?L by (intro exI [of _ i]) (auto simp: nth_append)
      next
        assume p: "?P (as @ [a]) (length as - 1)"
        with True s1 show ?L by (intro exI [of _ "length as - 1"]) (auto simp: Suc_le_eq)
      qed
    qed
    moreover have "?P (as @ [a]) (length as - 1) \<longleftrightarrow> pair_confirmed_diff (at_caller a) (at_caller (last as))"
      using True by (simp add: nth_append last_conv_nth)
    ultimately show ?thesis using True snoc.IH st by (simp add: streak_step del: after_attempts_simps)
  next
    case False
    then have f: "rs_streak (after_attempts (as @ [a])) \<le> 1" "\<not> rs_changed (after_attempts (as @ [a]))"
      by (auto simp: streak_step simp del: after_attempts_simps)
    then show ?thesis by auto
  qed
qed

lemma update_repeat_threshold: "fst (update_repeat st a n) = fst (update_repeat st a 0)"
  by (simp add: update_repeat_def Let_def)

text \<open>C28: guidance about a repeated revert is due after an attempt exactly when the last \<open>threshold\<close> attempts,
  this one included, all have a call site and a selector, agree in both from one to the next, and no two consecutive
  ones have callers known to be the same; and the state then says \<open>changed\<close> exactly when two consecutive attempts
  of that run have callers known to differ. Attempts before the run do not matter.\<close>

theorem streak_is_latest_run:
  "(snd (update_repeat (after_attempts as) a n) \<longleftrightarrow> n \<le> Suc (length as) \<and> chained (latest n (as @ [a]))) \<and>
   (rs_changed (fst (update_repeat (after_attempts as) a n)) \<longleftrightarrow>
      (\<exists>i < length as. chained (drop i (as @ [a])) \<and> pair_confirmed_diff (at_caller ((as @ [a]) ! Suc i)) (at_caller ((as @ [a]) ! i))))"
proof
  let ?bs = "as @ [a]"
  have st: "fst (update_repeat (after_attempts as) a n) = after_attempts ?bs" by (simp add: update_repeat_threshold [of _ _ n])
  have snd: "snd (update_repeat (after_attempts as) a n) \<longleftrightarrow> n \<le> rs_streak (after_attempts ?bs)"
    unfolding st [symmetric] by (simp add: update_repeat_def Let_def)
  show "snd (update_repeat (after_attempts as) a n) \<longleftrightarrow> n \<le> Suc (length as) \<and> chained (latest n ?bs)"
    unfolding snd streak_chain by simp
  have run: "length ?bs \<le> i + rs_streak (after_attempts ?bs) \<longleftrightarrow> chained (drop i ?bs)" if "i < length as" for i
    using streak_chain [of "length ?bs - i" ?bs] that by (simp add: latest_def le_diff_conv add.commute del: after_attempts_simps drop_append)
  show "rs_changed (fst (update_repeat (after_attempts as) a n)) \<longleftrightarrow>
      (\<exists>i < length as. chained (drop i ?bs) \<and> pair_confirmed_diff (at_caller (?bs ! Suc i)) (at_caller (?bs ! i)))"
    unfolding st changed_chain using run by (auto simp del: after_attempts_simps drop_append)
qed

section \<open>What the baseline holds\<close>

record mech_attempt =
  ma_compiled :: bool
  ma_called :: "string list"
  ma_checked :: bool

definition after_mechanisms :: "mech_attempt list \<Rightarrow> mechanism" where
  "after_mechanisms xs =
     fold (\<lambda>x me. fst (update_mechanism_baseline me (ma_compiled x) (ma_called x) (ma_checked x))) xs
       \<lparr>me_baseline = [], me_last_called = None\<rparr>"

lemma set_fold_insert: "set (fold List.insert xs ys) = set xs \<union> set ys"
  by (induction xs arbitrary: ys) auto

lemma after_mechanisms_holds:
  "set (me_baseline (after_mechanisms xs)) = (\<Union>x \<in> {x \<in> set xs. ma_compiled x}. set (ma_called x))"
  "me_last_called (after_mechanisms xs) \<noteq> None \<longleftrightarrow> (\<exists>x \<in> set xs. ma_compiled x)"
  by (induction xs rule: rev_induct) (auto simp: after_mechanisms_def update_mechanism_baseline_def Let_def set_fold_insert)

text \<open>An attempt is reminded of dropped methods exactly when it compiled, its methods were checked, and some
  method that an earlier compiled attempt called is not among its own; an attempt that did not compile neither
  adds to the baseline nor takes from it.\<close>

lemma dropped_methods_reminder:
  "(snd (update_mechanism_baseline (after_mechanisms xs) compiled called checked) \<noteq> []) =
     (compiled \<and> checked \<and> (\<exists>x \<in> set xs. ma_compiled x \<and> \<not> set (ma_called x) \<subseteq> set called))"
proof -
  have "(filter (\<lambda>m. m \<notin> set called) (me_baseline (after_mechanisms xs)) \<noteq> []) =
      (\<exists>x \<in> set xs. ma_compiled x \<and> \<not> set (ma_called x) \<subseteq> set called)"
    unfolding filter_empty_conv using after_mechanisms_holds(1) [of xs] by auto
  moreover have "(me_last_called (after_mechanisms xs) \<noteq> None) = (\<exists>x \<in> set xs. ma_compiled x)" by (rule after_mechanisms_holds(2))
  ultimately show ?thesis by (auto simp: update_mechanism_baseline_def Let_def)
qed

end
