(* ===== verification/Proof_Reachability.thy ===== *)
theory Proof_Reachability
  imports Proof_Repeat Proof_Inventory Proof_Index
begin

text \<open>
  What a scaffold has to wire before a finding's gate can be reached (the first half of
  \<open>proof/scaffold_reachability.py\<close>): the parent contract, the three patterns of missing wiring and their
  evidence, the check that a compiled base does the wiring, the repair of a receiver and the data the
  synthesis prompt gets. The fields of a task are texts, a missing one counts as empty. The evidence
  dictionary of a pattern is a constructor with the keys that pattern stores. The reader of a contract's
  source is a parameter. A set of alternatives in a regular expression is tried in the order of first
  insertion within one length.

  The lemmas: a parent is resolved exactly when one candidate type is left; there is one
  check per pattern, and it names what is missing exactly when it is incomplete; a receiver is only rewritten to
  a declared variable whose type owns the setter; an excerpt shows its anchor within bounds.
\<close>

type_synonym proof_task = "(string, string) dict"

definition task_text :: "proof_task \<Rightarrow> string \<Rightarrow> string" where
  "task_text task k = dict_getd task k []"

section \<open>The parent\<close>

datatype parent_status = Resolved | No_candidate | Ambiguous_parent

record parent_resolution =
  pr_status :: parent_status
  pr_contract :: "string option"
  pr_path :: "string option"
  pr_text :: "string option"
  pr_var :: "string option"

definition no_parent :: "parent_status \<Rightarrow> parent_resolution" where
  "no_parent st = \<lparr>pr_status = st, pr_contract = None, pr_path = None, pr_text = None, pr_var = None\<rparr>"

definition LOC_CANDIDATE_RE :: regex where
  "LOC_CANDIDATE_RE = rseq [RWordB, RGrp 1 (RSeq (RChr py_upper_char) (RStar True (RChr py_isalnum))), RWordB]"

definition DESC_BACKTICK_RE :: regex where
  "DESC_BACKTICK_RE = rseq [rlit ''`'', RGrp 1 rident, rlit ''`'']"

definition add_name :: "string \<Rightarrow> string list \<Rightarrow> string list" where
  "add_name n names = (if n \<in> set names then names else names @ [n])"

definition drop_sol :: "string \<Rightarrow> string" where
  "drop_sol n = (if 4 \<le> length n \<and> drop (length n - 4) n = ''.sol'' then take (length n - 4) n else n)"

definition candidate_parent_names :: "proof_task \<Rightarrow> string list" where
  "candidate_parent_names task =
     (let from_loc = fold (\<lambda>n. add_name (drop_sol n)) (findall1 LOC_CANDIDATE_RE (task_text task ''location'')) []
      in fold (\<lambda>n names. if n \<noteq> [] \<and> py_upper_char (hd n) then add_name n names else names)
           (findall1 DESC_BACKTICK_RE (task_text task ''description'')) from_loc)"

text \<open>One variable of the inventory: passed over, or the first of a further type.\<close>

definition match_var :: "string list \<Rightarrow> string list \<Rightarrow> inventory_var \<Rightarrow> inventory_var list \<Rightarrow> inventory_var list" where
  "match_var missing cands sv matched =
     (if iv_visibility sv = ''private'' \<or> iv_type sv \<in> set missing \<or> iv_type sv \<notin> set cands \<or> iv_type sv \<in> iv_type ` set matched
      then matched else matched @ [sv])"

definition resolve_parent ::
  "inventory option \<Rightarrow> string list \<Rightarrow> (string \<Rightarrow> string) \<Rightarrow> proof_task \<Rightarrow> parent_resolution" where
  "resolve_parent inventory missing read_source task =
     (case inventory of
        None \<Rightarrow> no_parent No_candidate
      | Some iy \<Rightarrow>
          if task = [] \<or> candidate_parent_names task = [] then no_parent No_candidate
          else (case fold (match_var missing (candidate_parent_names task)) (in_vars iy) [] of
                  [] \<Rightarrow> no_parent No_candidate
                | [sv] \<Rightarrow> \<lparr>pr_status = Resolved, pr_contract = Some (iv_type sv),
                           pr_path = (if iv_path sv \<noteq> [] then Some (iv_path sv) else None),
                           pr_text = Some (read_source (iv_type sv)), pr_var = Some (iv_name sv)\<rparr>
                | _ \<Rightarrow> no_parent Ambiguous_parent))"

section \<open>Reading Solidity with regular expressions\<close>

definition rnot :: "string \<Rightarrow> regex" where "rnot cs = RChr (\<lambda>c. c \<notin> set cs)"
definition rnots :: "string \<Rightarrow> regex" where "rnots cs = RStar True (rnot cs)"

text \<open>A literal under \<open>re.IGNORECASE\<close>.\<close>

definition rlit_ci :: "string \<Rightarrow> regex" where
  "rlit_ci s = foldr (\<lambda>c. RSeq (RChr (\<lambda>d. py_lower [d] = py_lower [c]))) s REps"

definition ADDR_FIELD_RE :: regex where
  "ADDR_FIELD_RE = rseq [RWordB, rlit ''address'', rws1, ropt (RAlt (rlit ''public'') (rlit ''internal'')), rws1, RGrp 1 rword1, rws0, rlit '';'']"

definition CONTRACT_RE :: regex where
  "CONTRACT_RE = rseq [RWordB, ropt (RSeq (rlit ''abstract'') rws1), rlit ''contract'', rws1, RGrp 1 rword1, RWordB]"

definition FUNC_HDR_RE :: regex where
  "FUNC_HDR_RE = rseq [rlit ''function'', rws1, RGrp 1 rword1, rws0, rlit ''('', rnots '')'', rlit '')'', rnots ''{;'', rlit ''{'']"

definition GRANT_CALL_RE :: regex where
  "GRANT_CALL_RE = rseq [RGrp 1 rword1, rlit ''.grantRole('', RGrp 2 (rplus (rnot '','')), rlit '','', rws0, RGrp 3 (rplus (rnot '')'')), rlit '')'']"

text \<open>The last match that begins at or before a position.\<close>

definition last_before :: "regex \<Rightarrow> string \<Rightarrow> nat \<Rightarrow> string option" where
  "last_before r source pos =
     (case rev (takeWhile (\<lambda>m. m_start m \<le> pos) (re_finditer r source)) of [] \<Rightarrow> None | m # _ \<Rightarrow> Some (m_group source 1 m))"

definition contract_declaring :: "string \<Rightarrow> nat \<Rightarrow> string option" where
  "contract_declaring source pos = last_before CONTRACT_RE source pos"

definition function_at :: "string \<Rightarrow> nat \<Rightarrow> string option" where
  "function_at source pos = last_before FUNC_HDR_RE source pos"

text \<open>The text up to the brace that closes the \<open>d\<close> open ones.\<close>

fun body_from :: "nat \<Rightarrow> string \<Rightarrow> string option" where
  "body_from d [] = None"
| "body_from d (c # cs) =
     (if c = CHR ''{'' then map_option (Cons c) (body_from (Suc d) cs)
      else if c = CHR ''}'' then (if d = 1 then Some [] else map_option (Cons c) (body_from (d - 1) cs))
      else map_option (Cons c) (body_from d cs))"

definition slice_brace_body :: "string \<Rightarrow> nat \<Rightarrow> string option" where
  "slice_brace_body source open_idx =
     (if open_idx < length source \<and> source ! open_idx = CHR ''{'' then body_from 1 (drop (Suc open_idx) source) else None)"

definition SETTER_HDR_RE :: regex where
  "SETTER_HDR_RE = rseq [rlit ''function'', rws1, RGrp 1 rword1, rws0, rlit ''('', RGrp 2 (rnots '')''), rlit '')'', RGrp 3 (rnots ''{''), rlit ''{'']"

definition assigns_re :: "string \<Rightarrow> regex" where
  "assigns_re fld = rseq [RWordB, rlit fld, rws0, rlit ''='']"

definition setter_header :: "string \<Rightarrow> string \<Rightarrow> re_match \<Rightarrow> bool" where
  "setter_header source fld m =
     (m_group source 1 m \<noteq> ''constructor'' \<and>
      (case slice_brace_body source (m_end m - 1) of None \<Rightarrow> False | Some body \<Rightarrow> re_search (assigns_re fld) body \<noteq> None))"

definition find_setter_for_field :: "string \<Rightarrow> string \<Rightarrow> string option" where
  "find_setter_for_field source fld = map_option (m_group source 1) (find (setter_header source fld) (re_finditer SETTER_HDR_RE source))"

definition SENDER_ATOM :: regex where
  "SENDER_ATOM = RAlt (rlit ''msg.sender'') (rseq [rlit ''_msgSender'', rws0, rlit ''('', rws0, rlit '')''])"

definition field_sender_require_re :: "string \<Rightarrow> regex" where
  "field_sender_require_re fld =
     rseq [rlit ''require'', rws0, rlit ''('', rws0,
       RAlt (rseq [rlit fld, rws0, rlit ''=='', rws0, SENDER_ATOM]) (rseq [SENDER_ATOM, rws0, rlit ''=='', rws0, rlit fld]),
       RAlt (RSeq rws0 (rlit '','')) (RSeq rws0 (rlit '')''))]"

definition MODIFIER_RE :: regex where
  "MODIFIER_RE = rseq [rlit ''modifier'', rws1, RGrp 1 rword1, rws0, rlit ''('', rnots '')'', rlit '')'', rws0, rlit ''{'',
     RGrp 2 (RStar False (rnot ''}'')), rlit ''}'']"

definition applies_modifier_re :: "string \<Rightarrow> regex" where
  "applies_modifier_re md = rseq [rlit ''function'', rws1, RGrp 1 rword1, rws0, rlit ''('', rnots '')'', rlit '')'', rnots ''{;'',
     RWordB, rlit md, RWordB, rnots ''{;'', rlit ''{'']"

text \<open>Where the guard of a field begins.\<close>

definition guard_references_field :: "string \<Rightarrow> string \<Rightarrow> nat option" where
  "guard_references_field source fld =
     (let req = field_sender_require_re fld in
      case find (\<lambda>mm. re_search req (m_group source 2 mm) \<noteq> None) (re_finditer MODIFIER_RE source) of
        Some mm \<Rightarrow> (case re_search (applies_modifier_re (m_group source 1 mm)) source of
           Some fm \<Rightarrow> Some (m_start fm) | None \<Rightarrow> Some (m_start mm))
      | None \<Rightarrow> map_option m_start (re_search req source))"

definition setter_decl_re :: "string \<Rightarrow> regex" where
  "setter_decl_re setter = rseq [rlit ''function'', rws1, rlit setter, rws0, rlit ''('', rnots '')'', rlit '')'', RGrp 1 (rnots ''{''), rlit ''{'']"

definition AUTHORITY_RE :: regex where
  "AUTHORITY_RE = ralts [
     rseq [rlit ''require'', rws0, rlit ''('', rws0,
       RAlt (rseq [RGrp 1 rword1, rws0, rlit ''=='', rws0, rlit ''msg.sender'']) (rseq [rlit ''msg.sender'', rws0, rlit ''=='', rws0, RGrp 2 rword1]),
       rws0, rlit '')''],
     rseq [RWordB, rlit ''onlyOwner'', RWordB],
     rseq [RWordB, rlit ''onlyAdmin'', RWordB]]"

definition AUTHORITY_CALL_RE :: regex where
  "AUTHORITY_CALL_RE = rseq [rlit ''.'', ralts (map rlit [''transferOwnership'', ''setOwner'', ''grantRole'', ''startPrank'', ''prank'']), rws0, rlit ''('']"

definition or_text :: "string \<Rightarrow> string \<Rightarrow> string" where
  "or_text a b = (if a \<noteq> [] then a else b)"

definition setter_authority_outside :: "string \<Rightarrow> string \<Rightarrow> string \<Rightarrow> bool" where
  "setter_authority_outside source setter base =
     (case re_search (setter_decl_re setter) source of
        None \<Rightarrow> False
      | Some m \<Rightarrow>
          let window = substr source (m_start m) (m_start m + 400) in
          (case re_search AUTHORITY_RE window of
             None \<Rightarrow> False
           | Some au \<Rightarrow>
               let fld = or_text (m_group window 1 au) (or_text (m_group window 2 au) ''owner'') in
               if re_search (rseq [RWordB, rlit fld, RWordB]) base \<noteq> None \<and> re_search AUTHORITY_CALL_RE base \<noteq> None then False
               else if py_in ''onlyOutside'' window \<or> py_in ''OUTSIDE_AUTHORITY'' window then True
               else if re_search (rseq [RWordB, rlit setter, rws0, rlit ''('']) base = None \<and> fld \<noteq> [] \<and>
                 re_search (RAlt (rseq [rlit ''.'', rlit_ci fld, rws0, rlit ''=''])
                              (rseq [RWordB, rlit_ci ''set'', rlit_ci (py_capitalize fld), RWordB])) base = None \<and>
                 (py_in ''onlyOwner'' window \<or> py_in ''onlyOutside'' window)
               then \<not> py_in ''transferOwnership'' base
               else False))"

section \<open>The three patterns\<close>

datatype evidence =
    Config_field (ev_field: string) (ev_setter: string) (ev_contract: string) (ev_function: string)
  | Role_grant (ev_shape: string) (ev_role: string) (ev_grantee: string) (ev_manager: string) (ev_contract: string) (ev_function: string)
  | Parent_attach (ev_parent: string) (ev_setter: string) (ev_dependency: string)

datatype pattern_id = P_config | P_role | P_attach

definition PATTERN_ORDER :: "pattern_id list" where
  "PATTERN_ORDER = [P_config, P_role, P_attach]"

fun pattern_of :: "evidence \<Rightarrow> pattern_id" where
  "pattern_of (Config_field _ _ _ _) = P_config"
| "pattern_of (Role_grant _ _ _ _ _ _) = P_role"
| "pattern_of (Parent_attach _ _ _) = P_attach"

record pattern_match =
  pm_evidence :: evidence
  pm_site :: "call_site option"

definition gated_from_task :: "proof_task \<Rightarrow> string option" where
  "gated_from_task task =
     (let methods = findall1 (rseq [RWordB, RGrp 1 (RSeq (RChr py_lower_char) rword1), RWordB]) (task_text task ''location'')
      in if methods = [] then None else Some (last methods))"

definition contract_from_task :: "proof_task \<Rightarrow> string option" where
  "contract_from_task task = (case candidate_parent_names task of [] \<Rightarrow> None | n # _ \<Rightarrow> Some n)"

definition or_else :: "'a option \<Rightarrow> 'a option \<Rightarrow> 'a option" where
  "or_else a b = (case a of Some x \<Rightarrow> Some x | None \<Rightarrow> b)"

subsection \<open>A configuration field\<close>

definition config_candidate :: "string \<Rightarrow> string \<Rightarrow> proof_task \<Rightarrow> string \<Rightarrow> pattern_match option" where
  "config_candidate combined base task fld =
     (case guard_references_field combined fld of
        None \<Rightarrow> None
      | Some pos \<Rightarrow>
          (case find_setter_for_field combined fld of
             None \<Rightarrow> None
           | Some setter \<Rightarrow>
               if setter_authority_outside combined setter base then None
               else (case (or_else (function_at combined pos) (gated_from_task task),
                           or_else (contract_declaring combined pos) (contract_from_task task)) of
                       (Some fn, Some con) \<Rightarrow>
                         Some \<lparr>pm_evidence = Config_field fld setter con fn,
                               pm_site = Some \<lparr>cs_contract = normalize_contract_symbol con, cs_method = fn\<rparr>\<rparr>
                     | _ \<Rightarrow> None)))"

definition config_rank :: "string \<Rightarrow> pattern_match \<Rightarrow> nat \<times> nat \<times> nat" where
  "config_rank loc m =
     (if ev_function (pm_evidence m) \<noteq> [] \<and> py_in (ev_function (pm_evidence m)) loc then 1 else 0,
      if py_in ''config'' (py_lower (ev_field (pm_evidence m))) then 1 else 0,
      if py_in ''config'' (py_lower (ev_setter (pm_evidence m))) then 1 else 0)"

text \<open>\<open>max(xs, key=f)\<close>: the first of the greatest.\<close>

definition py_max :: "('a \<Rightarrow> 'b::linorder) \<Rightarrow> 'a list \<Rightarrow> 'a option" where
  "py_max f xs = (case xs of [] \<Rightarrow> None | x # rest \<Rightarrow> Some (fold (\<lambda>y best. if f best < f y then y else best) rest x))"

definition detect_config_manager :: "string \<Rightarrow> string \<Rightarrow> string \<Rightarrow> proof_task \<Rightarrow> pattern_match option" where
  "detect_config_manager location_source missing_source base task =
     (let combined = location_source @ nl @ missing_source;
          candidates = List.map_filter (config_candidate combined base task) (findall1 ADDR_FIELD_RE combined)
      in py_max (config_rank (task_text task ''location'' @ '' '' @ task_text task ''description'')) candidates)"

subsection \<open>A role\<close>

definition HAS_ROLE_RE :: regex where
  "HAS_ROLE_RE = rseq [rlit ''require'', rws0, rlit ''('', rws0, rlit ''hasRole'', rws0, rlit ''('', rws0, RGrp 1 (rplus (rnot '',)''))]"

definition ONLY_ROLE_RE :: regex where
  "ONLY_ROLE_RE = rseq [RWordB, rlit ''onlyRole'', rws0, rlit ''('', rws0, RGrp 1 (rplus (rnot '')'')), rlit '')'']"

definition CAPS_ROLE_RE :: regex where
  "CAPS_ROLE_RE = rseq [rlit ''require'', rws0, rlit ''('', rnots '')'', RWordB,
     RGrp 1 (RSeq (RChr (\<lambda>c. py_upper_char c \<or> c = CHR ''_'')) (RStar True (RChr (\<lambda>c. py_upper_char c \<or> py_digit c \<or> c = CHR ''_'')))),
     RWordB, rnots '')'', rlit '')'']"

text \<open>The three ways to read the role, each when the ones before found none; and the position of the last guard found.\<close>

definition role_step :: "regex \<Rightarrow> (string \<Rightarrow> string) \<Rightarrow> string \<Rightarrow> string \<times> nat \<Rightarrow> string \<times> nat" where
  "role_step r post source found =
     (if fst found \<noteq> [] then found
      else case re_search r source of None \<Rightarrow> found | Some m \<Rightarrow> (post (m_group source 1 m), m_start m))"

definition gate_role :: "string \<Rightarrow> string \<times> nat" where
  "gate_role source =
     role_step CAPS_ROLE_RE (\<lambda>s. s) source (role_step ONLY_ROLE_RE py_strip source (role_step HAS_ROLE_RE py_strip source ([], 0)))"

definition detect_role_grant :: "string \<Rightarrow> string \<Rightarrow> proof_task \<Rightarrow> pattern_match option" where
  "detect_role_grant location_source base task =
     (case re_search GRANT_CALL_RE base of
        None \<Rightarrow> None
      | Some g \<Rightarrow>
          let (role, pos) = gate_role location_source in
          if role = [] then None
          else (case (or_else (gated_from_task task) (function_at location_source pos),
                      or_else (contract_declaring location_source pos) (contract_from_task task)) of
                  (Some fn, Some con) \<Rightarrow>
                    Some \<lparr>pm_evidence = Role_grant (m_span base g) role (py_strip (m_group base 3 g)) (m_group base 1 g) con fn,
                          pm_site = Some \<lparr>cs_contract = normalize_contract_symbol con, cs_method = fn\<rparr>\<rparr>
                | _ \<Rightarrow> None))"

subsection \<open>Attaching to a parent\<close>

definition dependency_type :: "string \<Rightarrow> string option" where
  "dependency_type missing_source = map_option (m_group missing_source 1) (re_search CONTRACT_RE missing_source)"

definition bases_re :: "string \<Rightarrow> regex" where
  "bases_re dep = rseq [RWordB, ropt (RSeq (rlit ''abstract'') rws1), rlit ''contract'', rws1, rlit dep, rws1, rlit ''is'', rws1,
     RGrp 1 (rplus (rnot ''{'')), rlit ''{'']"

definition base_part_name :: "string \<Rightarrow> string" where
  "base_part_name part =
     (let stripped = py_strip (re_subst (rseq [rlit ''('', RStar True noeol, rlit '')'']) (\<lambda>_ _. []) 0 part)
      in last (py_split (CHR '' '') (re_subst rws1 (\<lambda>_ _. '' '') 0 stripped)))"

definition dependency_attach_types :: "string \<Rightarrow> string \<Rightarrow> string list" where
  "dependency_attach_types missing_source dep =
     (case re_search (bases_re dep) missing_source of
        None \<Rightarrow> [dep]
      | Some m \<Rightarrow> fold (\<lambda>part types. let name = base_part_name part in if name \<noteq> [] \<and> py_upper_char (hd name) then add_name name types else types)
          (py_split (CHR '','') (m_group missing_source 1 m)) [dep])"

definition attach_setter_re :: "string list \<Rightarrow> regex" where
  "attach_setter_re types = rseq [rlit ''function'', rws1, RGrp 1 rword1, rws0, rlit ''('', rws0,
     ralts (map rlit (sort_key (\<lambda>t. - int (length t)) types)), rws1, RGrp 2 rword1, rws0, rlit '')'', rws0,
     RAlt (rlit ''external'') (rlit ''public''), RWordB]"

definition names_parent :: "string \<Rightarrow> string \<Rightarrow> proof_task \<Rightarrow> bool" where
  "names_parent con location_source task =
     (py_in con (task_text task ''location'') \<or> py_in con (task_text task ''description'') \<or>
      py_in (''contract '' @ con) location_source \<or> contract_declaring location_source 0 = Some con \<or>
      re_search (rseq [RWordB, rlit ''contract'', rws1, rlit con, RWordB]) location_source \<noteq> None)"

definition detect_parent_attach :: "string \<Rightarrow> parent_resolution \<Rightarrow> string \<Rightarrow> proof_task \<Rightarrow> pattern_match option" where
  "detect_parent_attach location_source parent missing_source task =
     (case (pr_contract parent, pr_text parent) of
        (Some con, Some src) \<Rightarrow>
          if pr_status parent \<noteq> Resolved \<or> con = [] \<or> src = [] then None
          else (case dependency_type missing_source of
                  None \<Rightarrow> None
                | Some dep \<Rightarrow>
                    (case re_search (attach_setter_re (dependency_attach_types missing_source dep)) src of
                       None \<Rightarrow> None
                     | Some sm \<Rightarrow>
                         let setter = m_group src 1 sm in
                         if names_parent con location_source task
                         then Some \<lparr>pm_evidence = Parent_attach con setter dep,
                                    pm_site = Some \<lparr>cs_contract = normalize_contract_symbol con, cs_method = setter\<rparr>\<rparr>
                         else None))
      | _ \<Rightarrow> None)"

definition detect_patterns ::
  "proof_task \<Rightarrow> string \<Rightarrow> parent_resolution \<Rightarrow> string \<Rightarrow> string \<Rightarrow> pattern_match list" where
  "detect_patterns task location_source parent missing_source existing_base =
     (let loc = strip_comments location_source; miss = strip_comments missing_source; base = strip_comments existing_base;
          parent1 = parent\<lparr>pr_text := (case pr_text parent of Some (c # cs) \<Rightarrow> Some (strip_comments (c # cs)) | _ \<Rightarrow> None)\<rparr>;
          found = (\<lambda>p. case p of P_config \<Rightarrow> detect_config_manager loc miss base task
                                | P_role \<Rightarrow> detect_role_grant loc base task
                                | P_attach \<Rightarrow> detect_parent_attach loc parent1 miss task)
      in List.map_filter found PATTERN_ORDER)"

section \<open>Does a compiled base do the wiring\<close>

definition preferred_config_receiver_type :: "pattern_match list \<Rightarrow> pattern_match \<Rightarrow> string option" where
  "preferred_config_receiver_type matches cfg =
     (case List.map_filter (\<lambda>m. case pm_evidence m of Parent_attach _ _ dep \<Rightarrow> if dep \<noteq> [] then Some dep else None | _ \<Rightarrow> None) matches of
        dep # _ \<Rightarrow> Some dep
      | [] \<Rightarrow> if ev_contract (pm_evidence cfg) \<noteq> [] then Some (ev_contract (pm_evidence cfg)) else None)"

definition default_var_name :: "string \<Rightarrow> string" where
  "default_var_name ty = (case ty of [] \<Rightarrow> [] | c # cs \<Rightarrow> py_lower [c] @ cs)"

definition declares_re :: "string \<Rightarrow> regex \<Rightarrow> regex" where
  "declares_re ty after = rseq [RWordB, rlit ty, rws1,
     ropt (RSeq (ralts (map rlit [''private'', ''internal'', ''public'', ''transient''])) rws1), RGrp 1 rword1, after]"

definition vars_of_type :: "string \<Rightarrow> string \<Rightarrow> string set" where
  "vars_of_type source ty = (if ty = [] then {} else set (findall1 (declares_re ty RWordB) source) \<union> {default_var_name ty})"

definition find_state_var_of_type :: "string \<Rightarrow> string \<Rightarrow> string option" where
  "find_state_var_of_type source ty =
     (if ty = [] then None
      else map_option (m_group source 1) (re_search (declares_re ty (RSeq rws0 (rlit '';''))) source))"

definition re_full :: "regex \<Rightarrow> string \<Rightarrow> bool" where
  "re_full r s = list_ex (\<lambda>t. fst (snd t) = []) (rmatch r ([], s, []))"

definition ZERO_ARG_RE :: regex where
  "ZERO_ARG_RE = ralts [
     rseq [rlit ''address'', rws0, rlit ''('', rws0, rlit ''0'', rws0, rlit '')''],
     rlit ''0'',
     rseq [rlit ''address'', rws0, rlit ''('', rws0, rlit ''0x'', rplus (rlit ''0''), rws0, rlit '')'']]"

definition nonzero_args :: "string \<Rightarrow> bool" where
  "nonzero_args args = (py_strip args \<noteq> [] \<and> \<not> re_full ZERO_ARG_RE (py_strip args))"

definition opt_receiver :: regex where "opt_receiver = ropt (RSeq rword1 (rlit ''.''))"

definition has_nonzero_setter_call :: "string \<Rightarrow> string \<Rightarrow> bool" where
  "has_nonzero_setter_call source setter =
     list_ex nonzero_args
       (findall1 (rseq [opt_receiver, rlit setter, rws0, rlit ''('', RGrp 1 (rnots '')''), rlit '')'']) source)"

definition receiver_call_re :: "string \<Rightarrow> regex" where
  "receiver_call_re setter = rseq [RWordB, RGrp 1 rword1, rlit ''.'', rlit setter, rws0, rlit ''('']"

definition setter_on_allowed_receiver :: "string \<Rightarrow> string \<Rightarrow> string set \<Rightarrow> bool" where
  "setter_on_allowed_receiver source setter allowed =
     (if setter = [] \<or> allowed = {} then False
      else list_ex (\<lambda>m. m_group source 1 m \<in> allowed \<and> nonzero_args (m_group source 2 m))
        (re_finditer (RSeq (receiver_call_re setter) (RSeq (RGrp 2 (rnots '')'')) (rlit '')''))) source))"

definition call_re :: "string \<Rightarrow> regex" where
  "call_re f = rseq [opt_receiver, rlit f, rws0, rlit ''('']"

definition call_before_use :: "string \<Rightarrow> string \<Rightarrow> string \<Rightarrow> bool" where
  "call_before_use source setter gated_fn =
     (case re_search (call_re setter) source of
        None \<Rightarrow> False
      | Some sm \<Rightarrow>
          if gated_fn = [] then True
          else (case re_search (call_re gated_fn) source of None \<Rightarrow> True | Some gm \<Rightarrow> m_start sm < m_start gm))"

definition stem_call_re :: "string \<Rightarrow> regex" where
  "stem_call_re stem = rseq [rlit_ci stem, RStar True (RChr py_word), rws0, rlit ''('']"

definition WARP_RE :: regex where
  "WARP_RE = rseq [RWordB, rlit ''vm.warp'', rws0, rlit ''('']"

definition two_step_complete :: "string \<Rightarrow> string \<Rightarrow> bool" where
  "two_step_complete source setter =
     (let calls = re_finditer (call_re setter) source;
          propose = re_finditer (RSeq opt_receiver (stem_call_re ''propose'')) source;
          execute = re_finditer (RSeq opt_receiver (stem_call_re ''execute'')) source;
          warp = re_search WARP_RE source
      in if propose \<noteq> [] \<and> execute \<noteq> [] \<and> warp \<noteq> None
         then (m_start (hd propose) < m_start (the warp) \<and> m_start (the warp) < m_start (hd execute)) \<or> True
         else if 2 \<le> length calls \<and> warp \<noteq> None then True
         else has_nonzero_setter_call source setter)"

definition config_complete :: "string \<Rightarrow> string \<Rightarrow> string \<Rightarrow> string set \<Rightarrow> bool" where
  "config_complete source setter gated allowed =
     (if py_in ''propose'' (py_lower source) \<and> py_in ''execute'' (py_lower source)
      then (let complete = (two_step_complete source setter \<and> has_nonzero_setter_call source setter) \<or>
                  (re_search (stem_call_re ''propose'') source \<noteq> None \<and> re_search (stem_call_re ''execute'') source \<noteq> None \<and>
                   re_search WARP_RE source \<noteq> None)
            in if complete \<and> allowed \<noteq> {} then setter_on_allowed_receiver source setter allowed else complete)
      else if allowed \<noteq> {} then setter_on_allowed_receiver source setter allowed \<and> call_before_use source setter gated
      else has_nonzero_setter_call source setter \<and> call_before_use source setter gated)"

definition config_missing :: "string \<Rightarrow> string \<Rightarrow> string option \<Rightarrow> string list" where
  "config_missing source setter rtype =
     (let ty = (case rtype of Some t \<Rightarrow> t | None \<Rightarrow> []);
          prefer = (case find_state_var_of_type source ty of Some v \<Rightarrow> or_text v (default_var_name ty) | None \<Rightarrow> default_var_name ty)
      in if prefer \<noteq> [] \<and> setter \<noteq> [] then [prefer @ ''.'' @ setter]
         else if setter \<noteq> [] then [setter] else [''setter''])"

definition role_granted :: "string \<Rightarrow> string \<Rightarrow> string \<Rightarrow> bool" where
  "role_granted source role manager =
     (re_search (rseq [ropt (RSeq (rlit manager) (rlit ''.'')), rlit ''grantRole'', rws0, rlit ''('', rnots '';'', rlit role]) source \<noteq> None)"

text \<open>Whether the source does what one pattern asks for, and what to name when it does not.\<close>

definition check_one :: "string \<Rightarrow> pattern_match list \<Rightarrow> pattern_match \<Rightarrow> bool \<times> string list" where
  "check_one source matches m =
     (case pm_evidence m of
        Config_field fld setter con gated \<Rightarrow>
          (let rtype = preferred_config_receiver_type matches m;
               allowed = (case rtype of Some t \<Rightarrow> vars_of_type source t | None \<Rightarrow> {})
           in (config_complete source setter gated allowed, config_missing source setter rtype))
      | Role_grant shape role grantee manager con gated \<Rightarrow> (role_granted source role manager, [''grantRole('' @ role @ '')''])
      | Parent_attach con setter dep \<Rightarrow>
          (re_search (call_re setter) source \<noteq> None, if setter \<noteq> [] then [setter] else [''attach'']))"

definition pattern_name :: "pattern_id \<Rightarrow> string" where
  "pattern_name p = (case p of P_config \<Rightarrow> ''config_manager_field'' | P_role \<Rightarrow> ''role_grant'' | P_attach \<Rightarrow> ''parent_attach'')"

definition check_row :: "string \<Rightarrow> pattern_match list \<Rightarrow> pattern_match \<Rightarrow> reachability_check" where
  "check_row source matches m =
     (let (complete, missing) = check_one source matches m in
      \<lparr>rc_pattern = pattern_name (pattern_of (pm_evidence m)), rc_status = (if complete then Complete else Incomplete),
       rc_missing = (if complete then [] else missing), rc_site = pm_site m\<rparr>)"

definition check_reachability :: "pattern_match list \<Rightarrow> string \<Rightarrow> reachability_check list" where
  "check_reachability matches compiled_base = map (check_row (strip_comments compiled_base) matches) matches"

definition check_json :: "reachability_check \<Rightarrow> json" where
  "check_json c = JObj [
     (''pattern'', JStr (rc_pattern c)),
     (''status'', JStr (case rc_status c of Complete \<Rightarrow> ''complete'' | Incomplete \<Rightarrow> ''incomplete'')),
     (''missing'', JList (map JStr (rc_missing c))),
     (''protected_call_site'', (case rc_site c of None \<Rightarrow> JNull
        | Some s \<Rightarrow> JObj [(''contract'', JStr (cs_contract s)), (''method'', JStr (cs_method s))]))]"

definition reachability_checks_to_json :: "reachability_check list \<Rightarrow> json list" where
  "reachability_checks_to_json checks = map check_json checks"

section \<open>Repairing the receiver of a wiring call\<close>

definition setter_owners :: "symbol_index \<Rightarrow> string \<Rightarrow> string list" where
  "setter_owners idx setter =
     map sy_contract (filter (\<lambda>s. sy_kind s = ''function'' \<and> sy_contract s \<noteq> []) (lookup idx setter))"

definition owns_setter :: "symbol_index \<Rightarrow> string \<Rightarrow> string \<Rightarrow> bool" where
  "owns_setter idx setter ty = list_ex (\<lambda>o1. is_subtype idx ty o1) (setter_owners idx setter)"

text \<open>The declared variables a call may be made on, and the one a wrong call is moved to.\<close>

definition missing_targets :: "symbol_index \<Rightarrow> string \<Rightarrow> string \<Rightarrow> string list \<Rightarrow> string list" where
  "missing_targets idx setter code missing_types =
     List.map_filter (\<lambda>mt. case find_state_var_of_type code mt of
        Some v \<Rightarrow> if v \<noteq> [] \<and> owns_setter idx setter mt then Some v else None | None \<Rightarrow> None) missing_types"

definition preferred_own :: "symbol_index \<Rightarrow> string \<Rightarrow> string \<Rightarrow> string \<Rightarrow> string option" where
  "preferred_own idx setter code rtype =
     (case find_state_var_of_type code rtype of
        Some v \<Rightarrow> if v \<noteq> [] \<and> owns_setter idx setter rtype then Some v else None | None \<Rightarrow> None)"

definition wiring_receiver :: "symbol_index \<Rightarrow> string \<Rightarrow> string \<Rightarrow> string \<Rightarrow> string list \<Rightarrow> string option" where
  "wiring_receiver idx setter code rtype missing_types =
     or_else (preferred_own idx setter code rtype)
       (case remdups (missing_targets idx setter code missing_types) of [v] \<Rightarrow> Some v | _ \<Rightarrow> None)"

definition retarget :: "string \<Rightarrow> string \<Rightarrow> string set \<Rightarrow> string \<Rightarrow> string \<times> bool" where
  "retarget preferred setter allowed code =
     (re_subst (receiver_call_re setter)
        (\<lambda>s m. if m_group s 1 m \<in> allowed then m_span s m else preferred @ ''.'' @ setter @ ''('') 0 code,
      list_ex (\<lambda>m. m_group code 1 m \<notin> allowed) (re_finditer (receiver_call_re setter) code))"

definition fix_wiring_receivers ::
  "string \<Rightarrow> pattern_match list \<Rightarrow> string list \<Rightarrow> symbol_index option \<Rightarrow> string \<times> bool" where
  "fix_wiring_receivers code matches missing_types index =
     (case find (\<lambda>m. pattern_of (pm_evidence m) = P_config) matches of
        None \<Rightarrow> (code, False)
      | Some cfg \<Rightarrow>
          (let setter = ev_setter (pm_evidence cfg) in
           case preferred_config_receiver_type matches cfg of
             None \<Rightarrow> (code, False)
           | Some rtype \<Rightarrow>
               if setter = [] then (code, False)
               else (case index of
                  Some idx \<Rightarrow>
                    (case wiring_receiver idx setter code rtype missing_types of
                       None \<Rightarrow> (code, False)
                     | Some preferred \<Rightarrow>
                         retarget preferred setter
                           (set_option (preferred_own idx setter code rtype) \<union> set (missing_targets idx setter code missing_types)) code)
                | None \<Rightarrow>
                    (let preferred = (case find_state_var_of_type code rtype of
                                        Some v \<Rightarrow> or_text v (default_var_name rtype) | None \<Rightarrow> default_var_name rtype)
                     in if preferred = [] then (code, False)
                        else retarget preferred setter (insert preferred (vars_of_type code rtype)) code))))"

section \<open>What the synthesis prompt gets\<close>

definition EXTRAS_BLOCK_CHAR_BUDGET :: nat where "EXTRAS_BLOCK_CHAR_BUDGET = 3500"

text \<open>The values of an evidence in the order of the keys setter, gated function, field, role, dependency, parent, manager.\<close>

fun evidence_anchors :: "evidence \<Rightarrow> string list" where
  "evidence_anchors (Config_field fld setter con fn) = [setter, fn, fld]"
| "evidence_anchors (Role_grant shape role grantee manager con fn) = [fn, role, manager]"
| "evidence_anchors (Parent_attach parent setter dep) = [setter, dep, parent]"

definition site_anchors :: "call_site option \<Rightarrow> string list" where
  "site_anchors site = (case site of None \<Rightarrow> [] | Some s \<Rightarrow> [cs_method s, cs_contract s])"

definition anchors_from_matches :: "pattern_match list \<Rightarrow> string list" where
  "anchors_from_matches matches =
     fold (\<lambda>a out. if a \<noteq> [] then add_name a out else out)
       (concat (map (\<lambda>m. evidence_anchors (pm_evidence m) @ site_anchors (pm_site m)) matches)) []"

text \<open>Where the first anchor that is found begins: its function, or else the text itself.\<close>

definition anchor_position :: "string \<Rightarrow> string \<Rightarrow> nat option" where
  "anchor_position source a =
     (if a = [] then None
      else case re_search (rseq [rlit ''function'', rws1, rlit a, RWordB]) source of
             Some m \<Rightarrow> Some (m_start m) | None \<Rightarrow> py_find a source)"

definition first_anchor :: "string \<Rightarrow> string list \<Rightarrow> nat option" where
  "first_anchor source anchors = (case List.map_filter (anchor_position source) anchors of [] \<Rightarrow> None | i # _ \<Rightarrow> Some i)"

definition excerpt_ellipsis :: string where "excerpt_ellipsis = ''// ... [truncated for synth prompt budget]'' @ nl"

definition dots_line :: string where "dots_line = ''// ...''"

text \<open>The window around an anchor, as its two ends; subtraction of naturals is Python's \<open>max(0, _)\<close>.\<close>

definition excerpt_window :: "nat \<Rightarrow> nat \<Rightarrow> nat \<Rightarrow> nat \<times> nat" where
  "excerpt_window len idx budget =
     (let start_guess = idx - budget div 3;
          markers = (if 0 < start_guess then 7 else 0) + (if start_guess + budget < len then 8 else 0);
          room = budget - markers;
          start = idx - room div 3;
          stop = min len (start + room)
      in (stop - room, stop))"

definition excerpt_source_for_extras :: "string \<Rightarrow> string list \<Rightarrow> nat \<Rightarrow> string" where
  "excerpt_source_for_extras source anchors budget =
     (if length source \<le> budget then source
      else case first_anchor source anchors of
             None \<Rightarrow> take (budget - length excerpt_ellipsis) source @ excerpt_ellipsis
           | Some idx \<Rightarrow>
               (case excerpt_window (length source) idx budget of (start, stop) \<Rightarrow>
                  py_join nl ((if 0 < start then [dots_line] else []) @ [substr source start stop] @
                              (if stop < length source then [dots_line] else [])) @ nl))"

definition wiring_line :: "pattern_match list \<Rightarrow> pattern_match \<Rightarrow> string" where
  "wiring_line matches m =
     (case pm_evidence m of
        Config_field fld setter con gated \<Rightarrow>
          (let rtype = (case preferred_config_receiver_type matches m of Some t \<Rightarrow> t | None \<Rightarrow> con) in
           ''- Wire config-manager field `'' @ fld @ ''` by calling `<var>.'' @ setter @ ''(...)` where `<var>` is the newly deployed `'' @
           rtype @ ''` instance (the state/local variable you declare for that type). Do NOT call `'' @ setter @
           ''` on a different contract type. Do this before calling `'' @ gated @ ''`.'')
      | Role_grant shape role grantee manager con gated \<Rightarrow>
          ''- Grant role `'' @ role @ ''` using the existing base'' @ [CHR 0x27] @ ''s `'' @ shape @ ''` shape for grantee `'' @ grantee @ ''`.''
      | Parent_attach parent setter dep \<Rightarrow>
          ''- Attach dependency `'' @ dep @ ''` onto parent `'' @ parent @ ''` via `'' @ setter @
          ''(...)` (call on the parent instance; use the base'' @ [CHR 0x27] @ ''s owner/authority prank if the setter is access-gated).'')"

definition synthesis_extras :: "pattern_match list \<Rightarrow> string \<Rightarrow> parent_resolution \<Rightarrow> proof_task \<Rightarrow> string" where
  "synthesis_extras matches location_source parent task =
     (if matches = [] then []
      else let anchors = anchors_from_matches matches in
        py_join nl
          ([''[DATA START finding_location]'', task_text task ''location'', task_text task ''description'', ''[DATA END finding_location]'', '''',
            ''[DATA START location_source]'', excerpt_source_for_extras location_source anchors EXTRAS_BLOCK_CHAR_BUDGET,
            ''[DATA END location_source]'', ''''] @
           (if list_ex (\<lambda>m. pattern_of (pm_evidence m) = P_attach) matches
            then [''[DATA START parent_source]'',
                  excerpt_source_for_extras (case pr_text parent of Some t \<Rightarrow> t | None \<Rightarrow> []) anchors EXTRAS_BLOCK_CHAR_BUDGET,
                  ''[DATA END parent_source]'', '''']
            else []) @
           [''The setup helper you write MUST ALSO satisfy the following, using ONLY real'',
            ''constructors/setters/roles shown in the DATA blocks above (never invent API):''] @
           map (wiring_line matches) matches))"

section \<open>The parent is unique\<close>

definition eligible :: "string list \<Rightarrow> string list \<Rightarrow> inventory_var \<Rightarrow> bool" where
  "eligible missing cands sv \<longleftrightarrow> iv_visibility sv \<noteq> ''private'' \<and> iv_type sv \<notin> set missing \<and> iv_type sv \<in> set cands"

definition parent_types :: "string list \<Rightarrow> string list \<Rightarrow> inventory_var list \<Rightarrow> string set" where
  "parent_types missing cands vs = iv_type ` {v \<in> set vs. eligible missing cands v}"

lemma match_var_eligible:
  "match_var missing cands sv matched =
     (if eligible missing cands sv \<and> iv_type sv \<notin> iv_type ` set matched then matched @ [sv] else matched)"
  by (auto simp: match_var_def eligible_def)

lemma match_vars_types:
  assumes "distinct (map iv_type matched)"
  shows "distinct (map iv_type (fold (match_var missing cands) vs matched)) \<and>
    set (map iv_type (fold (match_var missing cands) vs matched)) = set (map iv_type matched) \<union> parent_types missing cands vs"
  using assms
proof (induction vs arbitrary: matched)
  case (Cons v vs)
  have "distinct (map iv_type (match_var missing cands v matched))" using Cons.prems by (auto simp: match_var_eligible)
  from Cons.IH [OF this] show ?case by (auto simp: match_var_eligible parent_types_def)
qed (simp add: parent_types_def)

lemma no_task_no_candidates: "candidate_parent_names [] = []"
  by code_simp

lemma resolve_parent_cases:
  "resolve_parent (Some iy) missing read_source task =
     (case fold (match_var missing (candidate_parent_names task)) (in_vars iy) [] of
        [] \<Rightarrow> no_parent No_candidate
      | [sv] \<Rightarrow> \<lparr>pr_status = Resolved, pr_contract = Some (iv_type sv),
                 pr_path = (if iv_path sv \<noteq> [] then Some (iv_path sv) else None),
                 pr_text = Some (read_source (iv_type sv)), pr_var = Some (iv_name sv)\<rparr>
      | _ \<Rightarrow> no_parent Ambiguous_parent)"
proof -
  have "fold (match_var missing []) vs [] = []" for vs
    using match_vars_types [of "[]" missing "[]" vs] by (auto simp: parent_types_def eligible_def)
  then show ?thesis by (auto simp: resolve_parent_def no_task_no_candidates)
qed

text \<open>The parent of a finding is resolved exactly when one type is left: among the non-private variables of the
  inventory, those whose type the task names and that is not missing have exactly one type. Then that type is the
  contract and its source is what is read; with none left there is no candidate, with several
  the parent is ambiguous and nothing is read.\<close>

lemma parent_resolved_iff_unique:
  "let r = resolve_parent (Some iy) missing read_source task;
       T = parent_types missing (candidate_parent_names task) (in_vars iy) in
   (pr_status r = No_candidate) = (T = {}) \<and> (pr_status r = Resolved) = (\<exists>t. T = {t}) \<and>
   (T = (case pr_contract r of Some t \<Rightarrow> {t} | None \<Rightarrow> T)) \<and> pr_text r = map_option read_source (pr_contract r)"
proof -
  define ms where "ms = fold (match_var missing (candidate_parent_names task)) (in_vars iy) []"
  define T where "T = parent_types missing (candidate_parent_names task) (in_vars iy)"
  have ms: "distinct (map iv_type ms)" "set (map iv_type ms) = T"
    using match_vars_types [of "[]" missing "candidate_parent_names task" "in_vars iy"] by (simp_all add: ms_def T_def)
  note r = resolve_parent_cases [of iy missing read_source task, folded ms_def]
  consider "ms = []" | sv where "ms = [sv]" | a b rest where "ms = a # b # rest" by (metis list.exhaust)
  then have "(pr_status (resolve_parent (Some iy) missing read_source task) = No_candidate) = (T = {}) \<and>
      (pr_status (resolve_parent (Some iy) missing read_source task) = Resolved) = (\<exists>t. T = {t}) \<and>
      (T = (case pr_contract (resolve_parent (Some iy) missing read_source task) of Some t \<Rightarrow> {t} | None \<Rightarrow> T)) \<and>
      pr_text (resolve_parent (Some iy) missing read_source task) = map_option read_source (pr_contract (resolve_parent (Some iy) missing read_source task))"
    (is ?goal)
  proof cases
    case 1
    then have "T = {}" using ms by simp
    then show ?goal
      unfolding r 1 no_parent_def by simp
  next
    case 2
    then have "T = {iv_type sv}" using ms by auto
    then show ?goal
      unfolding r 2 by simp
  next
    case 3
    then have "iv_type a \<in> T" "iv_type b \<in> T" "iv_type a \<noteq> iv_type b" using ms by auto
    then have "T \<noteq> {}" "\<not> (\<exists>t. T = {t})" by (blast, metis singletonD)
    then show ?goal
      unfolding r 3 no_parent_def by simp
  qed
  then show ?thesis unfolding T_def Let_def .
qed

section \<open>The rows of a check\<close>

lemma config_missing_ne: "config_missing source setter rtype \<noteq> []"
  by (simp add: config_missing_def Let_def)

lemma check_row_missing: "(rc_missing (check_row source ms m) = []) = (rc_status (check_row source ms m) = Complete)"
  by (cases "pm_evidence m") (auto simp: check_row_def check_one_def config_missing_ne Let_def)

lemma check_row_fields [simp]:
  "rc_site (check_row source ms m) = pm_site m"
  "rc_pattern (check_row source ms m) = pattern_name (pattern_of (pm_evidence m))"
  by (simp_all add: check_row_def split: prod.split)

lemma py_max_in: "py_max f xs = Some x \<Longrightarrow> x \<in> set xs"
proof -
  have *: "fold (\<lambda>y best. if f best < f y then y else best) ys b \<in> insert b (set ys)" for ys b
    by (induction ys arbitrary: b) auto
  show "py_max f xs = Some x \<Longrightarrow> x \<in> set xs" using * by (cases xs) (auto simp: py_max_def)
qed

lemma config_candidate_fields:
  assumes "config_candidate combined base task fld = Some m"
  shows "pattern_of (pm_evidence m) = P_config \<and> pm_site m \<noteq> None"
proof -
  from assms obtain fn con setter where "m = \<lparr>pm_evidence = Config_field fld setter con fn,
      pm_site = Some \<lparr>cs_contract = normalize_contract_symbol con, cs_method = fn\<rparr>\<rparr>"
    unfolding config_candidate_def by (auto split: option.split_asm if_split_asm)
  then show ?thesis by simp
qed

lemma config_detected:
  assumes "detect_config_manager loc miss base task = Some m"
  shows "pattern_of (pm_evidence m) = P_config \<and> pm_site m \<noteq> None"
proof -
  have "m \<in> set (List.map_filter (config_candidate (loc @ nl @ miss) base task) (findall1 ADDR_FIELD_RE (loc @ nl @ miss)))"
    using assms unfolding detect_config_manager_def Let_def by (rule py_max_in)
  then obtain fld where "config_candidate (loc @ nl @ miss) base task fld = Some m" unfolding set_map_filter_iff by blast
  then show ?thesis by (rule config_candidate_fields)
qed

lemma role_detected:
  "detect_role_grant loc base task = Some m \<Longrightarrow> pattern_of (pm_evidence m) = P_role \<and> pm_site m \<noteq> None"
  by (auto simp: detect_role_grant_def Let_def split: option.splits if_splits prod.splits)

lemma attach_detected:
  "detect_parent_attach loc parent miss task = Some m \<Longrightarrow> pattern_of (pm_evidence m) = P_attach \<and> pm_site m \<noteq> None"
  by (auto simp: detect_parent_attach_def Let_def split: option.splits if_splits)

lemma detected_rows:
  fixes found :: "pattern_id \<Rightarrow> pattern_match option"
  assumes "\<And>p m. found p = Some m \<Longrightarrow> pattern_of (pm_evidence m) = p"
  shows "map (pattern_of \<circ> pm_evidence) (List.map_filter found ps) = filter (\<lambda>p. found p \<noteq> None) ps"
  by (induction ps) (auto simp: List.map_filter_def assms)

text \<open>At most one pattern of each kind, in the fixed order, each with the call site it protects.\<close>

lemma detected_patterns:
  "distinct (map (pattern_of \<circ> pm_evidence) (detect_patterns task loc parent miss base)) \<and>
   list_all (\<lambda>m. pm_site m \<noteq> None) (detect_patterns task loc parent miss base)"
proof -
  define found where "found = (\<lambda>p. case p of
      P_config \<Rightarrow> detect_config_manager (strip_comments loc) (strip_comments miss) (strip_comments base) task
    | P_role \<Rightarrow> detect_role_grant (strip_comments loc) (strip_comments base) task
    | P_attach \<Rightarrow> detect_parent_attach (strip_comments loc)
        (parent\<lparr>pr_text := (case pr_text parent of Some (c # cs) \<Rightarrow> Some (strip_comments (c # cs)) | _ \<Rightarrow> None)\<rparr>) (strip_comments miss) task)"
  have ms: "detect_patterns task loc parent miss base = List.map_filter found PATTERN_ORDER"
    by (simp add: detect_patterns_def found_def Let_def)
  have kind: "found p = Some m \<Longrightarrow> pattern_of (pm_evidence m) = p \<and> pm_site m \<noteq> None" for p m
    using config_detected role_detected attach_detected by (cases p) (auto simp: found_def)
  have "map (pattern_of \<circ> pm_evidence) (detect_patterns task loc parent miss base) = filter (\<lambda>p. found p \<noteq> None) PATTERN_ORDER"
    unfolding ms by (rule detected_rows) (use kind in blast)
  then have "distinct (map (pattern_of \<circ> pm_evidence) (detect_patterns task loc parent miss base))" by (simp add: PATTERN_ORDER_def)
  moreover have "list_all (\<lambda>m. pm_site m \<noteq> None) (detect_patterns task loc parent miss base)"
    unfolding ms list_all_iff using kind by (auto simp: set_map_filter_iff)
  ultimately show ?thesis ..
qed

lemma pattern_name_inj: "inj pattern_name"
  by (rule injI) (simp add: pattern_name_def split: pattern_id.splits)


section \<open>A repaired receiver\<close>

text \<open>A variable is a rightful receiver: declared with one of the given types, which is or inherits from a contract that
  declares the setter.\<close>

definition rightful :: "symbol_index \<Rightarrow> string \<Rightarrow> string \<Rightarrow> string set \<Rightarrow> string \<Rightarrow> bool" where
  "rightful idx setter code types v \<longleftrightarrow>
     (\<exists>ty \<in> types. find_state_var_of_type code ty = Some v \<and> (\<exists>s \<in> set (lookup idx setter). sy_kind s = ''function'' \<and> is_subtype idx ty (sy_contract s)))"

lemma preferred_own_rightful: "preferred_own idx setter code rtype = Some v \<Longrightarrow> rtype \<in> T \<Longrightarrow> rightful idx setter code T v"
  by (auto simp: preferred_own_def rightful_def owns_setter_def setter_owners_def list_ex_iff split: option.splits if_splits)

lemma missing_targets_rightful:
  "v \<in> set (missing_targets idx setter code missing) \<Longrightarrow> set missing \<subseteq> T \<Longrightarrow> rightful idx setter code T v"
  by (fastforce simp: missing_targets_def set_map_filter_iff rightful_def owns_setter_def setter_owners_def list_ex_iff
      split: option.splits if_splits)

lemma remdups_in: "remdups xs = [v] \<Longrightarrow> v \<in> set xs"
  by (metis list.set_intros(1) set_remdups)

lemma wiring_receiver_rightful:
  assumes "wiring_receiver idx setter code rtype missing = Some v"
  shows "rightful idx setter code (insert rtype (set missing)) v"
proof (cases "preferred_own idx setter code rtype")
  case None
  then have "remdups (missing_targets idx setter code missing) = [v]"
    using assms by (auto simp: wiring_receiver_def or_else_def split: list.splits)
  then show ?thesis using missing_targets_rightful [OF remdups_in] by (metis subset_insertI)
next
  case (Some w)
  then show ?thesis using assms preferred_own_rightful [OF Some] by (auto simp: wiring_receiver_def or_else_def)
qed

lemma splice_cong: "(\<And>m. m \<in> set ms \<Longrightarrow> f m = g m) \<Longrightarrow> splice s n ms f = splice s n ms g"
  by (induction ms arbitrary: n) simp_all

text \<open>A rewriting that moves no call leaves the text as it is.\<close>

lemma retarget_quiet: "\<not> snd (retarget p setter allowed code) \<Longrightarrow> fst (retarget p setter allowed code) = code"
proof -
  assume q: "\<not> snd (retarget p setter allowed code)"
  let ?r = "receiver_call_re setter"
  have "fst (retarget p setter allowed code) = re_subst ?r m_span 0 code"
    unfolding retarget_def fst_conv re_subst_def Let_def
    by (simp, rule splice_cong) (use q in \<open>auto simp: retarget_def list_ex_iff\<close>)
  then show ?thesis by (simp add: re_subst_id)
qed

lemma fix_wiring_cases:
  obtains (same) "fix_wiring_receivers code ms missing index = (code, False)"
    | (legacy) v setter A where "index = None" "fix_wiring_receivers code ms missing index = retarget v setter A code"
    | (indexed) idx cfg rtype v where "index = Some idx" "find (\<lambda>m. pattern_of (pm_evidence m) = P_config) ms = Some cfg"
        "preferred_config_receiver_type ms cfg = Some rtype" "wiring_receiver idx (ev_setter (pm_evidence cfg)) code rtype missing = Some v"
        "fix_wiring_receivers code ms missing index =
           retarget v (ev_setter (pm_evidence cfg)) (set_option (preferred_own idx (ev_setter (pm_evidence cfg)) code rtype) \<union>
             set (missing_targets idx (ev_setter (pm_evidence cfg)) code missing)) code"
proof (cases "find (\<lambda>m. pattern_of (pm_evidence m) = P_config) ms")
  case None
  then show ?thesis by (intro same) (simp add: fix_wiring_receivers_def)
next
  case cfg: (Some cfg)
  let ?setter = "ev_setter (pm_evidence cfg)"
  show ?thesis
  proof (cases "preferred_config_receiver_type ms cfg")
    case None
    then show ?thesis by (intro same) (simp add: fix_wiring_receivers_def cfg)
  next
    case rtype: (Some rtype)
    show ?thesis
    proof (cases "?setter = []")
      case True
      then show ?thesis by (intro same) (simp add: fix_wiring_receivers_def cfg rtype)
    next
      case False
      note eval = fix_wiring_receivers_def cfg rtype False Let_def
      show ?thesis
      proof (cases index)
        case None
        show ?thesis
        proof (cases "(case find_state_var_of_type code rtype of Some v \<Rightarrow> or_text v (default_var_name rtype) | None \<Rightarrow> default_var_name rtype) = []")
          case True
          then show ?thesis by (intro same) (simp add: eval None)
        next
          case False
          then show ?thesis by (intro legacy [OF None]) (simp add: eval None)
        qed
      next
        case idx: (Some idx)
        show ?thesis
        proof (cases "wiring_receiver idx ?setter code rtype missing")
          case None
          then show ?thesis by (intro same) (simp add: eval idx)
        next
          case (Some v)
          then show ?thesis by (intro indexed [OF idx cfg rtype Some]) (simp add: eval idx)
        qed
      qed
    qed
  qed
qed


section \<open>An excerpt shows its anchor\<close>

lemma excerpt_window_bounds:
  assumes "excerpt_window len idx budget = (start, stop)" "idx < len" "budget < len" "16 \<le> budget"
  shows "start \<le> idx" "idx < stop" "stop \<le> len"
    "(if 0 < start then 7 else 0) + (stop - start) + (if stop < len then 7 else 0) + 1 \<le> budget + 8"
proof -
  define sg where "sg = idx - budget div 3"
  define mk :: nat where "mk = (if 0 < sg then 7 else 0) + (if sg + budget < len then 8 else 0)"
  define room where "room = budget - mk"
  have e: "stop = min len (idx - room div 3 + room)" "start = stop - room"
    using assms(1) unfolding excerpt_window_def Let_def sg_def [symmetric] mk_def [symmetric] room_def [symmetric] by auto
  have "0 < sg \<or> sg + budget < len" using assms(3) by (cases sg) simp_all
  then have mk: "7 \<le> mk" "mk \<le> 15" unfolding mk_def by auto
  have r: "room = budget - mk" "1 \<le> room" "room \<le> budget - 7" using mk assms(4) by (simp_all add: room_def)
  obtain q where q: "q = room div 3" "q < room" using r by simp
  note e = e [folded q(1)]
  show "start \<le> idx" using q(2) unfolding e by (simp add: min_def) linarith
  show "idx < stop" using q(2) assms(2) unfolding e(1) min_less_iff_conj by linarith
  show "stop \<le> len" using e by simp
  have "stop - start \<le> room" unfolding e(2) by linarith
  then have "stop - start \<le> budget - 7" using r(3) by linarith
  moreover have "(if 0 < start then 7 else 0) \<le> (7::nat)" "(if stop < len then 7 else 0) \<le> (7::nat)" by simp_all
  ultimately show "(if 0 < start then 7 else 0) + (stop - start) + (if stop < len then 7 else 0) + 1 \<le> budget + 8"
    using assms(4) by linarith
qed

text \<open>A match that begins with a literal is not empty.\<close>

lemma lit_consumes:
  assumes "t \<in> set (rmatch (RSeq (rlit (c # cs)) r) s)"
  shows "re_left t < re_left s"
proof -
  obtain u where u: "u \<in> set (rmatch (rlit (c # cs)) s)" "t \<in> set (rmatch r u)" using assms by auto
  from u(1) obtain v where v: "v \<in> set (rmatch (RChr (\<lambda>d. d = c)) s)" "u \<in> set (rmatch (rlit cs) v)" by (auto simp: rlit_def)
  from v(1) have "re_left v < re_left s"
    by (cases "fst (snd s)") (auto simp: re_left_def split: if_splits)
  with rmatch_sub [OF v(2)] rmatch_sub [OF u(2)] show ?thesis by (simp add: re_sub_def)
qed

lemma match_at_in: "match_at r adv pre rest = Some t \<Longrightarrow> t \<in> set (rmatch r (pre, rest, []))"
proof -
  assume "match_at r adv pre rest = Some t"
  then obtain ts where "filter (\<lambda>t. adv \<longrightarrow> length (fst (snd t)) < length rest) (rmatch r (pre, rest, [])) = t # ts"
    unfolding match_at_def by (cases "filter (\<lambda>t. adv \<longrightarrow> length (fst (snd t)) < length rest) (rmatch r (pre, rest, []))") simp_all
  then have "t \<in> set (filter (\<lambda>t. adv \<longrightarrow> length (fst (snd t)) < length rest) (rmatch r (pre, rest, [])))"
    by (simp only: list.set_intros)
  then show ?thesis by simp
qed

lemma search_from_at:
  "search_from r adv pre rest = Some (i, t) \<Longrightarrow>
   \<exists>a p q. t \<in> set (rmatch r (p, q, [])) \<and> length p = i \<and> length p + length q = length pre + length rest"
proof (induction r adv pre rest rule: search_from.induct)
  case (1 r adv pre)
  then have "t \<in> set (rmatch r (pre, [], []))" "length pre = i"
    by (auto dest: match_at_in)
  then show ?case by fastforce
next
  case (2 r adv pre c cs)
  show ?case
  proof (cases "match_at r adv pre (c # cs)")
    case None
    with 2 show ?thesis by fastforce
  next
    case (Some u)
    with "2.prems" have "u = t" "i = length pre" by auto
    moreover have "u \<in> set (rmatch r (pre, c # cs, []))"
      using Some by (rule match_at_in)
    ultimately show ?thesis by fastforce
  qed
qed

lemma re_search_lit:
  assumes "re_search (RSeq (rlit (c # cs)) r) s = Some m"
  shows "m_start m < length s"
proof -
  obtain i t where t: "search_from (RSeq (rlit (c # cs)) r) False [] s = Some (i, t)" "m_start m = i"
    using assms by (auto simp: re_search_def)
  obtain p q where p: "t \<in> set (rmatch (RSeq (rlit (c # cs)) r) (p, q, []))" "length p = i" "length p + length q = length s"
    using search_from_at [OF t(1)] by auto
  have "0 < length q" using lit_consumes [OF p(1)] by (cases q) (simp_all add: re_left_def)
  then have "length p < length p + length q" by simp
  then show ?thesis using p(2,3) t(2) by linarith
qed

lemma py_find_at: "py_find a s = Some i \<Longrightarrow> a \<noteq> [] \<Longrightarrow> i < length s"
proof (induction s arbitrary: i)
  case (Cons c cs)
  then show ?case by (fastforce split: if_splits)
qed (auto split: if_splits)

lemma first_anchor_in:
  assumes "first_anchor source anchors = Some i"
  shows "i < length source"
proof -
  obtain a where a: "anchor_position source a = Some i"
    using assms by (auto simp: first_anchor_def split: list.splits) (metis list.set_intros(1) set_map_filter_iff)
  have seq: "rseq [rlit ''function'', rws1, rlit a, RWordB] = RSeq (rlit (CHR ''f'' # ''unction'')) (rseq [rws1, rlit a, RWordB])"
    by (simp add: rseq_def)
  from a show ?thesis unfolding anchor_position_def seq
    by (auto split: if_splits option.splits dest: py_find_at re_search_lit)
qed

lemma py_join_dots:
  "length (py_join nl ((if b then [dots_line] else []) @ [w] @ (if c then [dots_line] else []))) =
     (if b then 7 else 0) + length w + (if c then 7 else 0)"
  by (simp add: dots_line_def nl_def)

text \<open>An excerpt for the prompt is the whole source when that keeps the budget. Otherwise it is at most eight
  characters over it (the default budget is 3500): the beginning when no anchor is found, and else one piece of the source,
  between marker lines where something is left out, in which the first anchor begins.\<close>

lemma excerpt_shows_anchor:
  assumes "length excerpt_ellipsis \<le> budget"
  shows "length (excerpt_source_for_extras source anchors budget) \<le> budget + 8 \<and>
    (if length source \<le> budget then excerpt_source_for_extras source anchors budget = source
     else case first_anchor source anchors of
            None \<Rightarrow> excerpt_source_for_extras source anchors budget = take (budget - length excerpt_ellipsis) source @ excerpt_ellipsis
          | Some idx \<Rightarrow> \<exists>start stop. start \<le> idx \<and> idx < stop \<and> stop \<le> length source \<and>
              excerpt_source_for_extras source anchors budget =
                py_join nl ((if 0 < start then [dots_line] else []) @ [substr source start stop] @
                            (if stop < length source then [dots_line] else [])) @ nl)"
proof (cases "length source \<le> budget")
  case True
  then show ?thesis by (simp add: excerpt_source_for_extras_def)
next
  case False
  have ell: "length excerpt_ellipsis = 43" by (simp add: excerpt_ellipsis_def nl_def)
  show ?thesis
  proof (cases "first_anchor source anchors")
    case None
    then show ?thesis using False assms by (simp add: excerpt_source_for_extras_def)
  next
    case (Some idx)
    obtain start stop where w: "excerpt_window (length source) idx budget = (start, stop)" by fastforce
    have b: "start \<le> idx" "idx < stop" "stop \<le> length source"
      "(if 0 < start then 7 else 0) + (stop - start) + (if stop < length source then 7 else 0) + 1 \<le> budget + 8"
      using excerpt_window_bounds [OF w first_anchor_in [OF Some]] False assms ell by simp_all
    have e: "excerpt_source_for_extras source anchors budget =
        py_join nl ((if 0 < start then [dots_line] else []) @ [substr source start stop] @ (if stop < length source then [dots_line] else [])) @ nl"
      using False by (simp add: excerpt_source_for_extras_def Some w)
    have "length (substr source start stop) = stop - start" using b by (simp add: substr_def)
    then have "length (excerpt_source_for_extras source anchors budget) \<le> budget + 8"
      unfolding e length_append py_join_dots using b(4) by (simp add: nl_def)
    then show ?thesis using False Some b e by auto
  qed
qed

lemma excerpt_shows_anchor_witness:
  "length (excerpt_source_for_extras (replicate 100 (CHR ''a'')) [''a''] 43) \<le> 51"
proof -
  have "length excerpt_ellipsis \<le> 43" by (simp add: excerpt_ellipsis_def nl_def)
  from excerpt_shows_anchor [OF this, of "replicate 100 (CHR ''a'')" "[''a'']"] show ?thesis by simp
qed

section \<open>Where the patterns fall short\<close>

text \<open>An address field of default visibility is not seen when one space stands before its name.\<close>

lemma single_space_field_missed:
  "findall1 ADDR_FIELD_RE ''address cfg;'' = []" "findall1 ADDR_FIELD_RE ''address public cfg;'' = [''cfg'']"
  by code_simp+

text \<open>A comparison counts as an assignment: a gated function that stands before the setter is taken for the setter.\<close>

lemma comparison_counts_as_setter:
  "find_setter_for_field ''function gated() public { require(cfg == msg.sender); } function setCfg(address a) public { cfg = a; }'' ''cfg'' =
     Some ''gated''"
  by code_simp

text \<open>A base with two constructor arguments is cut at the comma between them.\<close>

lemma base_with_two_arguments_missed:
  "dependency_attach_types ''contract D is Base(x, y), IFoo {'' ''D'' = [''D'', ''Base(x'', ''IFoo'']"
  by code_simp

text \<open>The order of the steps of a delayed change is not checked.\<close>

lemma two_step_order_ignored:
  "two_step_complete ''executeFoo(); vm.warp(1); proposeFoo();'' ''setFoo''"
  by code_simp

text \<open>An excerpt can exceed its budget.\<close>

lemma excerpt_over_budget:
  "length (excerpt_source_for_extras (replicate 60 (CHR ''a'') @ ''X'' @ replicate 39 (CHR ''a'')) [''X''] 60) = 68"
  by code_simp

end
