(* ===== verification/Report.thy ===== *)
theory Report
  imports Planner_Stage1 Methodology_Service Methodology_Adapters
begin

text \<open>
  The audit report (\<open>report.py\<close>) and the batch driver (\<open>pipeline.py\<close>). A finding is the dictionary the
  report is given; its severity, id, status and lists hold text, as the finding model stores them.
  The time stamp is given in ISO form. The driver runs actions through the kernel's executor, which
  is a parameter: a function from the action and the state of memory to a dispatch result and the
  next state; reading the snapshot and saving the session are parameters of the same record.

  The lemmas: the report separates its findings into three groups, loses none that is not a false
  positive, and does not depend on the order it gets them in; the driver stops at the first check
  that waits for an answer, and otherwise checks every pending target once before one synthesis.
\<close>

section \<open>Findings\<close>

definition SEVERITY_ORDER :: "string list" where
  "SEVERITY_ORDER = [''critical'', ''high'', ''medium'', ''low'', ''informational'']"

definition UNVERIFIED_STATUSES :: "string list" where
  "UNVERIFIED_STATUSES = [''unverified'', ''mock_review'']"

definition HIDDEN_STATUSES :: "string list" where
  "HIDDEN_STATUSES = [''false_positive'']"

fun index_of :: "'a list \<Rightarrow> 'a \<Rightarrow> nat option" where
  "index_of [] x = None"
| "index_of (y # ys) x = (if y = x then Some 0 else map_option Suc (index_of ys x))"

definition report_rank :: "string \<Rightarrow> nat" where
  "report_rank severity = (case index_of SEVERITY_ORDER severity of Some i \<Rightarrow> i | None \<Rightarrow> length SEVERITY_ORDER)"

text \<open>\<open>f.get(k, d)\<close> as text, and \<open>f.get(k) or []\<close> as a list of texts.\<close>

definition ftext :: "json_obj \<Rightarrow> string \<Rightarrow> string \<Rightarrow> string" where
  "ftext f k d = py_str (dict_getd f k (JStr d))"

definition flist :: "json_obj \<Rightarrow> string \<Rightarrow> string list" where
  "flist f k = (case dict_getd f k JNull of JList xs \<Rightarrow> map py_str xs | _ \<Rightarrow> [])"

definition render_finding :: "json_obj \<Rightarrow> string list" where
  "render_finding f =
     (let notes = (let v = dict_getd f ''notes'' JNull in if truthy v then py_strip (py_str v) else []);
          engine = dict_getd f ''engine'' JNull; tag = dict_getd f ''bastet_tag'' JNull;
          flags = flist f ''notes_flags''; mitig = flist f ''mitigations_present''; combined = flist f ''combined_with'' in
      [''### ['' @ py_upper (ftext f ''severity'' ''?'') @ ''] '' @ ftext f ''finding_id'' ''?'' @ '' '' @ u_emdash @ '' `''
         @ ftext f ''function_name'' ''?'' @ ''`'', [], ''- **Location**: '' @ ftext f ''location'' ''?''] @
      (if truthy engine then [''- **Engine**: '' @ py_str engine] else []) @
      (if truthy tag then [''- **Category**: '' @ py_str tag] else []) @
      (if mitig \<noteq> [] then [''- **Mitigations present**: '' @ py_join '', '' mitig] else []) @
      (if combined \<noteq> [] then [''- **Combined with**: '' @ py_join '', '' combined] else []) @
      (if flags \<noteq> [] then [''- **Sanitizer flags**: '' @ py_join '', '' flags] else []) @
      (if notes \<noteq> [] then [[], notes] else []) @ [[]])"

section \<open>The report\<close>

definition report_status :: "json_obj \<Rightarrow> string" where
  "report_status f = ftext f ''status'' ''open''"

definition report_key :: "json_obj \<Rightarrow> nat \<times> string" where
  "report_key f = (report_rank (ftext f ''severity'' []), ftext f ''finding_id'' [])"

definition report_visible :: "json_obj list \<Rightarrow> json_obj list" where
  "report_visible fs = filter (\<lambda>f. report_status f \<notin> set HIDDEN_STATUSES) fs"

definition report_main :: "json_obj list \<Rightarrow> json_obj list" where
  "report_main fs = sort_key report_key (filter (\<lambda>f. report_status f \<notin> set UNVERIFIED_STATUSES) (report_visible fs))"

definition report_unverified :: "json_obj list \<Rightarrow> json_obj list" where
  "report_unverified fs = sort_key report_key (filter (\<lambda>f. report_status f \<in> set UNVERIFIED_STATUSES) (report_visible fs))"

definition count_severities :: "json_obj list \<Rightarrow> (string, nat) dict" where
  "count_severities fs =
     fold (\<lambda>f c. let sev = ftext f ''severity'' [] in
                 case dict_get c sev of None \<Rightarrow> c | Some n \<Rightarrow> dict_set sev (n + 1) c)
       fs (map (\<lambda>sev. (sev, 0)) SEVERITY_ORDER)"

definition summary_table :: "json_obj list \<Rightarrow> string list" where
  "summary_table fs = [''| Severity | Count |'', ''|---|---|''] @
     map (\<lambda>sev. ''| '' @ py_capitalize sev @ '' | '' @ nat_str (dict_getd (count_severities fs) sev 0) @ '' |'') SEVERITY_ORDER
     @ [[]]"

definition coverage_lines :: "stage1_report option \<Rightarrow> string list" where
  "coverage_lines s1 = [''## Coverage'', []] @
     (case s1 of
        None \<Rightarrow> [''_Coverage data unavailable._'', []]
      | Some s \<Rightarrow>
          [''**Analyzed ('' @ nat_str (length (s1_priority_targets s)) @ '')**: prioritized red-flag targets''] @
          map (\<lambda>t. ''- '' @ t) (s1_priority_targets s) @ [[]] @
          [''**Not analyzed ('' @ nat_str (length (s1_skipped_targets s)) @ '')**: no red-flag signal''] @
          map (\<lambda>t. ''- '' @ t) (s1_skipped_targets s) @ [[]])"

definition report_lines ::
  "string \<Rightarrow> json_obj list \<Rightarrow> stage1_report option \<Rightarrow> string \<Rightarrow> string list \<Rightarrow> string list" where
  "report_lines project_id findings s1 generated_at combinations =
     (let main = report_main findings; unverified = report_unverified findings in
      [''# Security Audit '' @ u_emdash @ '' '' @ project_id, [], ''_Generated '' @ generated_at @ ''_'', [], ''## Summary'', []] @
      summary_table main @
      [''## Findings'', []] @
      (if main \<noteq> [] then concat (map render_finding main) else [''_No confirmed findings._'', []]) @
      (if unverified \<noteq> []
       then [''## Unverified Findings'', [], ''_Reported by analysis but not yet verified; treat as leads._'', []]
            @ concat (map render_finding unverified)
       else []) @
      (if combinations \<noteq> []
       then [''## Combination Chains'', []] @ map (\<lambda>c. ''- '' @ c) combinations @ [[]] else []) @
      coverage_lines s1)"

definition generate_report ::
  "string \<Rightarrow> json_obj list \<Rightarrow> stage1_report option \<Rightarrow> string \<Rightarrow> string list \<Rightarrow> string" where
  "generate_report project_id findings s1 generated_at combinations =
     py_join nl (report_lines project_id findings s1 generated_at combinations)"

section \<open>The batch driver\<close>

datatype pipeline_status = Paused | Done

record pipeline_result =
  pl_status :: pipeline_status
  pl_session_id :: string
  pl_pending :: nat
  pl_report_path :: "string option"
  pl_findings_count :: nat

record 'm kernel =
  kn_execute :: "action \<Rightarrow> 'm \<Rightarrow> dispatch_result \<times> 'm"
  kn_snapshot :: "'m \<Rightarrow> memory_snapshot"
  kn_save :: "'m \<Rightarrow> 'm"
  kn_write :: "string \<Rightarrow> string \<Rightarrow> 'm \<Rightarrow> 'm"

definition check_action :: "string \<Rightarrow> action" where
  "check_action target = \<lparr>ac_type = ''run_check'', ac_params = [(''target'', JStr target)]\<rparr>"

definition synthesis_action :: action where
  "synthesis_action = \<lparr>ac_type = ''run_synthesis'', ac_params = []\<rparr>"

definition discovery_action :: action where
  "discovery_action = \<lparr>ac_type = ''run_discovery'', ac_params = []\<rparr>"

text \<open>The checks, up to the first that is pending; the second component tells whether there was one.\<close>

fun run_checks :: "'m kernel \<Rightarrow> string list \<Rightarrow> 'm \<Rightarrow> 'm \<times> bool" where
  "run_checks kn [] m = (m, False)"
| "run_checks kn (t # ts) m =
     (case kn_execute kn (check_action t) m of
        (r, m1) \<Rightarrow> if dr_status r = Dispatch_pending then (m1, True) else run_checks kn ts m1)"

definition finding_dict :: "projected_finding \<Rightarrow> json_obj" where
  "finding_dict f = [(''finding_id'', JStr (pf_finding_id f)), (''location'', JStr (pf_location f)),
     (''severity'', JStr (pf_severity f)), (''notes'', JStr (pf_notes f)), (''grounded'', JBool (pf_grounded f))]"

definition stage1_of :: "roadmap_projection \<Rightarrow> stage1_report" where
  "stage1_of p = \<lparr>s1_priority_targets = map row_target (rp_targets p),
     s1_skipped_targets = map row_target (filter (\<lambda>r. row_state r = Row_skipped) (rp_targets p)),
     s1_notes = (case rp_empty_label p of None \<Rightarrow> [] | Some l \<Rightarrow> l)\<rparr>"

definition pending_rows :: "roadmap_projection \<Rightarrow> string list" where
  "pending_rows p = map row_target (filter (\<lambda>r. row_state r = Pending) (rp_targets p))"

definition continue_audit ::
  "payload_codec \<Rightarrow> 'm kernel \<Rightarrow> string \<Rightarrow> string \<Rightarrow> string \<Rightarrow> string \<Rightarrow> 'm \<Rightarrow> (pipeline_result \<times> 'm) py" where
  "continue_audit cd kn project_id session_id out now m =
     bindE (project cd (kn_snapshot kn m)) (\<lambda>p.
     case run_checks kn (pending_rows p) m of
       (m1, True) \<Rightarrow> Inr (\<lparr>pl_status = Paused, pl_session_id = session_id, pl_pending = 1, pl_report_path = None,
                           pl_findings_count = 0\<rparr>, kn_save kn m1)
     | (m1, False) \<Rightarrow>
         (let m2 = snd (kn_execute kn synthesis_action m1) in
          bindE (project cd (kn_snapshot kn m2)) (\<lambda>p2.
            let fs = map finding_dict (rp_findings p2);
                md = generate_report project_id fs (Some (stage1_of p2)) now []
            in Inr (\<lparr>pl_status = Done, pl_session_id = session_id, pl_pending = 0, pl_report_path = Some out,
                     pl_findings_count = length fs\<rparr>, kn_save kn (kn_write kn out md m2)))))"

definition start_audit ::
  "payload_codec \<Rightarrow> 'm kernel \<Rightarrow> string \<Rightarrow> string \<Rightarrow> string \<Rightarrow> string \<Rightarrow> 'm \<Rightarrow> (pipeline_result \<times> 'm) py" where
  "start_audit cd kn project_id session_id out now m =
     continue_audit cd kn project_id session_id out now (snd (kn_execute kn discovery_action (kn_save kn m)))"

section \<open>Sorting and counting\<close>

lemma count_fold:
  "dict_get (fold (\<lambda>f c. let sev = g f in case dict_get c sev of None \<Rightarrow> c | Some n \<Rightarrow> dict_set sev (n + 1) c) fs c) k =
     map_option (\<lambda>n. n + length (filter (\<lambda>f. g f = k) fs)) (dict_get c k)"
  by (induction fs arbitrary: c) (auto simp: Let_def option.map_comp comp_def option.map_id [unfolded id_def] split: option.split)

lemma count_severities_get:
  "sev \<in> set SEVERITY_ORDER \<Longrightarrow>
   dict_getd (count_severities fs) sev 0 = length (filter (\<lambda>f. ftext f ''severity'' [] = sev) fs)"
proof -
  assume "sev \<in> set SEVERITY_ORDER"
  then have "dict_get (map (\<lambda>sev. (sev, 0 :: nat)) SEVERITY_ORDER) sev = Some 0"
    by (simp add: map_of_map_restrict)
  then show ?thesis by (simp add: dict_getd_def count_severities_def count_fold)
qed

definition waits :: "'m kernel \<Rightarrow> string \<Rightarrow> 'm \<Rightarrow> bool" where
  "waits kn t m = (dr_status (fst (kn_execute kn (check_action t) m)) = Dispatch_pending)"

definition checked :: "'m kernel \<Rightarrow> string list \<Rightarrow> 'm \<Rightarrow> 'm" where
  "checked kn ts m = fold (\<lambda>t m. snd (kn_execute kn (check_action t) m)) ts m"

definition none_waits :: "'m kernel \<Rightarrow> string list \<Rightarrow> 'm \<Rightarrow> bool" where
  "none_waits kn ts m = (\<forall>i < length ts. \<not> waits kn (ts ! i) (checked kn (take i ts) m))"

lemma none_waits_Cons:
  "none_waits kn (t # ts) m \<longleftrightarrow> \<not> waits kn t m \<and> none_waits kn ts (checked kn [t] m)"
proof
  assume a: "none_waits kn (t # ts) m"
  then have "\<not> waits kn t m" unfolding none_waits_def by (auto dest: spec [of _ 0] simp: checked_def)
  moreover have "none_waits kn ts (checked kn [t] m)"
    unfolding none_waits_def
  proof (intro allI impI)
    fix i assume "i < length ts"
    with a have "\<not> waits kn ((t # ts) ! Suc i) (checked kn (take (Suc i) (t # ts)) m)"
      unfolding none_waits_def by (metis Suc_less_eq length_Cons)
    then show "\<not> waits kn (ts ! i) (checked kn (take i ts) (checked kn [t] m))" by (simp add: checked_def)
  qed
  ultimately show "\<not> waits kn t m \<and> none_waits kn ts (checked kn [t] m)" ..
next
  assume a: "\<not> waits kn t m \<and> none_waits kn ts (checked kn [t] m)"
  show "none_waits kn (t # ts) m"
    unfolding none_waits_def
  proof (intro allI impI)
    fix i assume "i < length (t # ts)"
    with a show "\<not> waits kn ((t # ts) ! i) (checked kn (take i (t # ts)) m)"
      by (cases i) (auto simp: none_waits_def checked_def)
  qed
qed

lemma checked_Cons: "checked kn (t # ts) m = checked kn ts (checked kn [t] m)"
  by (simp add: checked_def)

lemma run_checks_Cons:
  "run_checks kn (t # ts) m =
     (if waits kn t m then (checked kn [t] m, True) else run_checks kn ts (checked kn [t] m))"
  by (cases "kn_execute kn (check_action t) m") (simp add: waits_def checked_def)

lemma run_checks_done:
  "run_checks kn ts m = (m', False) \<Longrightarrow> none_waits kn ts m \<and> m' = checked kn ts m"
proof (induction ts arbitrary: m)
  case (Cons t ts)
  then show ?case
    by (simp add: run_checks_Cons none_waits_Cons checked_Cons [of kn t ts] del: run_checks.simps split: if_splits)
qed (auto simp: none_waits_def checked_def)

lemma run_checks_paused:
  assumes "run_checks kn ts m = (m', True)"
  obtains pre t post where "ts = pre @ t # post" "none_waits kn pre m" "waits kn t (checked kn pre m)"
    "m' = checked kn (pre @ [t]) m"
  using assms
proof (induction ts arbitrary: m thesis)
  case (Cons t ts)
  show ?case
  proof (cases "waits kn t m")
    case True
    with Cons.prems(2) show ?thesis
      by (intro Cons.prems(1) [of "[]" t ts]) (auto simp: run_checks_Cons none_waits_def checked_def simp del: run_checks.simps)
  next
    case False
    with Cons.prems(2) have "run_checks kn ts (checked kn [t] m) = (m', True)"
      by (simp add: run_checks_Cons del: run_checks.simps)
    then obtain pre t' post where p: "ts = pre @ t' # post" "none_waits kn pre (checked kn [t] m)"
      "waits kn t' (checked kn pre (checked kn [t] m))" "m' = checked kn (pre @ [t']) (checked kn [t] m)"
      by (rule Cons.IH [rotated])
    with False show ?thesis
      by (intro Cons.prems(1) [of "t # pre" t' post]) (simp_all add: none_waits_Cons checked_Cons [of kn t pre] checked_Cons [of kn t "pre @ [t']"])
  qed
qed simp

section \<open>Properties\<close>


text \<open>The report is a function of the findings, not of the order they come in, when no two of them share
  both severity and id.\<close>

lemma report_order_independent:
  assumes "mset fs = mset gs" "inj_on report_key (set fs)"
  shows "generate_report project_id fs s1 now combos = generate_report project_id gs s1 now combos"
proof -
  have "sort_key report_key (filter P (filter Q fs)) = sort_key report_key (filter P (filter Q gs))" for P Q
    by (rule sort_key_mset_cong) (use assms in \<open>auto simp: mset_filter inj_on_def\<close>)
  then show ?thesis
    by (simp add: generate_report_def report_lines_def report_main_def report_unverified_def report_visible_def)
qed

text \<open>C9: the driver stops at the first check that waits, and otherwise finishes. When a run is paused, the
  pending targets up to one that waits were checked, in order, each once, no earlier one waited, and
  neither the synthesis nor the report was started; when it is done, every pending target was
  checked, none waited, the synthesis ran once after them, and the report was written from what the
  memory then projects.\<close>

theorem pipeline_outcome:
  assumes "continue_audit cd kn pid sid out now m = Inr (res, m')"
  shows "\<exists>p. project cd (kn_snapshot kn m) = Inr p \<and>
    (pl_status res = Paused \<and>
       (\<exists>pre t post. pending_rows p = pre @ t # post \<and> none_waits kn pre m \<and> waits kn t (checked kn pre m) \<and>
          m' = kn_save kn (checked kn (pre @ [t]) m) \<and> pl_report_path res = None)
     \<or> pl_status res = Done \<and> none_waits kn (pending_rows p) m \<and>
       (\<exists>p2. project cd (kn_snapshot kn (snd (kn_execute kn synthesis_action (checked kn (pending_rows p) m)))) = Inr p2 \<and>
          pl_findings_count res = length (rp_findings p2) \<and>
          m' = kn_save kn (kn_write kn out
            (generate_report pid (map finding_dict (rp_findings p2)) (Some (stage1_of p2)) now [])
            (snd (kn_execute kn synthesis_action (checked kn (pending_rows p) m))))))"
proof -
  from assms obtain p where p: "project cd (kn_snapshot kn m) = Inr p"
    by (auto simp: continue_audit_def bindE_Inr)
  obtain m1 stop where r: "run_checks kn (pending_rows p) m = (m1, stop)" by (cases "run_checks kn (pending_rows p) m")
  show ?thesis
  proof (cases stop)
    case True
    with r have paused: "run_checks kn (pending_rows p) m = (m1, True)" by simp
    from assms p have "res = \<lparr>pl_status = Paused, pl_session_id = sid, pl_pending = 1, pl_report_path = None, pl_findings_count = 0\<rparr>"
      "m' = kn_save kn m1" by (simp_all add: continue_audit_def paused)
    moreover obtain pre t post where "pending_rows p = pre @ t # post" "none_waits kn pre m"
      "waits kn t (checked kn pre m)" "m1 = checked kn (pre @ [t]) m"
      by (rule run_checks_paused [OF paused])
    ultimately show ?thesis using p by auto
  next
    case False
    with r have fin: "run_checks kn (pending_rows p) m = (m1, False)" by simp
    note d = run_checks_done [OF fin]
    with assms p fin show ?thesis by (auto simp: continue_audit_def bindE_Inr Let_def)
  qed
qed

text \<open>The dictionaries the driver hands to the report carry no status, so the report's separation of
  unverified findings and its suppression of false positives never apply to a batch audit.\<close>

lemma pipeline_report_unfiltered:
  "report_unverified (map finding_dict fs) = []"
  "mset (report_main (map finding_dict fs)) = mset (map finding_dict fs)"
proof -
  have "report_status (finding_dict f) = ''open''" for f
    by (simp add: report_status_def ftext_def finding_dict_def dict_getd_def)
  then have all: "\<forall>f \<in> set (map finding_dict fs). report_status f = ''open''" by simp
  have "report_visible xs = xs" "filter (\<lambda>f. report_status f \<in> set UNVERIFIED_STATUSES) xs = []"
    "filter (\<lambda>f. report_status f \<notin> set UNVERIFIED_STATUSES) xs = xs"
    if "\<forall>f \<in> set xs. report_status f = ''open''" for xs
    using that by (induction xs) (auto simp: report_visible_def HIDDEN_STATUSES_def UNVERIFIED_STATUSES_def)
  note this [OF all]
  then show "report_unverified (map finding_dict fs) = []"
    "mset (report_main (map finding_dict fs)) = mset (map finding_dict fs)"
    by (simp_all only: report_unverified_def report_main_def mset_sort sort_key_simps)
qed

section \<open>Witnesses\<close>

definition witness_row :: "string \<Rightarrow> string \<Rightarrow> string \<Rightarrow> json_obj" where
  "witness_row fid sev st = [(''finding_id'', JStr fid), (''severity'', JStr sev), (''status'', JStr st), (''location'', JStr ''A.sol:f'')]"

lemma report_order_independent_witness:
  "generate_report ''p'' [witness_row ''F-1'' ''low'' ''open'', witness_row ''F-2'' ''high'' ''unverified''] None ''t'' [] =
   generate_report ''p'' [witness_row ''F-2'' ''high'' ''unverified'', witness_row ''F-1'' ''low'' ''open''] None ''t'' []"
proof (rule report_order_independent)
  have "report_key (witness_row ''F-1'' ''low'' ''open'') \<noteq> report_key (witness_row ''F-2'' ''high'' ''unverified'')" by code_simp
  then show "inj_on report_key (set [witness_row ''F-1'' ''low'' ''open'', witness_row ''F-2'' ''high'' ''unverified''])"
    by (auto simp: inj_on_def)
qed simp

text \<open>A memory that is a snapshot and the actions executed, with one pending target.\<close>

definition witness_kernel :: "(memory_snapshot \<times> string list) kernel" where
  "witness_kernel = \<lparr>kn_execute = (\<lambda>a (sn, log). (\<lparr>dr_status = Dispatch_ran, dr_body = [], dr_payloads = [], dr_pending = None\<rparr>,
       (sn, log @ [ac_type a]))), kn_snapshot = fst, kn_save = (\<lambda>m. m), kn_write = (\<lambda>_ _ (sn, log). (sn, log @ [''report'']))\<rparr>"

definition witness_memory :: "memory_snapshot \<times> string list" where
  "witness_memory = (imagine plain_codec witness_snapshot witness_rediscover [], [])"

lemma pipeline_outcome_witness:
  "\<exists>res m'. continue_audit plain_codec witness_kernel ''p'' ''s'' ''out'' ''t'' witness_memory = Inr (res, m') \<and>
     pl_status res = Done \<and> snd m' = [''run_check'', ''run_synthesis'', ''report'']"
proof -
  let ?r = "continue_audit plain_codec witness_kernel ''p'' ''s'' ''out'' ''t'' witness_memory"
  have "isl ?r = False" by code_simp
  then obtain res m' where r: "?r = Inr (res, m')" by (metis sum.collapse(2) surj_pair)
  have log: "snd (snd (projr ?r)) = [''run_check'', ''run_synthesis'', ''report'']" by code_simp
  have "isl ?r = False \<and> pl_status (fst (projr ?r)) = Done" by code_simp
  with pipeline_outcome [OF r] r log show ?thesis by auto
qed

end
