(* ===== verification/Console.thy ===== *)
theory Console
  imports Tools_Static
begin

text \<open>
  The operator console's backend: the approval gate (\<open>frontend/backend/confirm.py\<close>), the two model slots
  (\<open>model_config.py\<close>), cloning a target (\<open>clone.py\<close>) and opening a session on one (\<open>sessions.py\<close>). The
  kernel's confirmation store is a parameter with a state of its own: loading a request and resolving
  it, each of which may raise. A fresh token is an input of the operation that issues it. Clients
  are named by what they are built from; the file system is a record of queries.

  The lemmas: an approval reaches the kernel only with the live token of the very action, issued since
  its last decision; a slot runs only the backend it was set to; what is shown of a slot does not depend
  on its key, and neither does the command line of a clone; a session is never opened inside
  the agent's own repository.
\<close>

section \<open>The approval gate\<close>

record 'd confirmations =
  cf_load :: "string \<Rightarrow> 'd \<Rightarrow> json_obj py"
  cf_resolve :: "string \<Rightarrow> bool \<Rightarrow> 'd \<Rightarrow> string py \<times> 'd"

record 'd gate =
  ga_tokens :: "(string, string) dict"
  ga_store :: 'd

definition issue_token :: "string \<Rightarrow> string \<Rightarrow> 'd gate \<Rightarrow> 'd gate" where
  "issue_token cid token g = g\<lparr>ga_tokens := dict_set cid token (ga_tokens g)\<rparr>"

definition valid_token :: "string \<Rightarrow> string option \<Rightarrow> 'd gate \<Rightarrow> bool" where
  "valid_token cid token g =
     (case (dict_get (ga_tokens g) cid, token) of
        (Some expected, Some t) \<Rightarrow> expected \<noteq> [] \<and> t \<noteq> [] \<and> expected = t
      | _ \<Rightarrow> False)"

definition decide ::
  "'d confirmations \<Rightarrow> string \<Rightarrow> string option \<Rightarrow> string \<Rightarrow> 'd gate \<Rightarrow> string py \<times> 'd gate" where
  "decide cf cid confirm_token decision g =
     (if decision \<notin> {''approve'', ''reject''} then (raise ''ApprovalError'' (''decision must be '' @ py_repr_str ''approve'' @ '' or '' @ py_repr_str ''reject''), g)
      else if decision = ''approve'' \<and> \<not> valid_token cid confirm_token g
      then (raise ''ApprovalError'' (''approval requires a confirm_token issued by fetching this action's '' @
              ''notice first '' @ u_emdash @ '' a bare click cannot approve (FR-009)''), g)
      else case cf_resolve cf cid (decision = ''approve'') (ga_store g) of
             (Inl e, d) \<Rightarrow> (Inl e, g\<lparr>ga_store := d\<rparr>)
           | (Inr status, d) \<Rightarrow> (Inr status, g\<lparr>ga_store := d, ga_tokens := dict_pop cid (ga_tokens g)\<rparr>))"

record notice =
  no_id :: string
  no_action_type :: json
  no_params :: json
  no_state :: json
  no_confirm_token :: string

definition load_notice :: "'d confirmations \<Rightarrow> string \<Rightarrow> string \<Rightarrow> 'd gate \<Rightarrow> notice py \<times> 'd gate" where
  "load_notice cf cid fresh g =
     (case cf_load cf cid (ga_store g) of
        Inl e \<Rightarrow> (Inl e, g)
      | Inr payload \<Rightarrow>
          (Inr \<lparr>no_id = cid, no_action_type = dict_getd payload ''action_type'' JNull,
                no_params = dict_getd payload ''params'' (JObj []), no_state = dict_getd payload ''status'' (JStr ''pending''),
                no_confirm_token = fresh\<rparr>, issue_token cid fresh g))"

text \<open>The queue: a readable file with status \<open>pending\<close> is an entry; a file is its stem and, when it
  could be read and parsed, its content.\<close>

record pending_entry =
  pq_id :: json
  pq_action_type :: json
  pq_params :: json
  pq_created_at :: json
  pq_state :: string

definition list_pending :: "bool \<Rightarrow> (string \<times> json_obj option) list \<Rightarrow> pending_entry list" where
  "list_pending is_dir files =
     (if \<not> is_dir then []
      else List.map_filter (\<lambda>(stem, content). case content of
             None \<Rightarrow> None
           | Some d \<Rightarrow> if dict_getd d ''status'' JNull \<noteq> JStr ''pending'' then None
                       else Some \<lparr>pq_id = dict_getd d ''confirmation_id'' (JStr stem), pq_action_type = dict_getd d ''action_type'' JNull,
                              pq_params = dict_getd d ''params'' (JObj []), pq_created_at = dict_getd d ''created_at'' JNull,
                              pq_state = ''pending''\<rparr>) files)"

text \<open>The operations a browser can trigger, in any order; the log holds the approvals that reached the
  kernel, with the token they carried.\<close>

datatype gate_op =
    Fetch_notice string string              \<comment> \<open>the id, and the token \<open>secrets\<close> would draw\<close>
  | Decide string "string option" string    \<comment> \<open>the id, the token sent, the decision\<close>

definition gate_step :: "'d confirmations \<Rightarrow> gate_op \<Rightarrow> 'd gate \<Rightarrow> 'd gate" where
  "gate_step cf oper g =
     (case oper of Fetch_notice cid fresh \<Rightarrow> snd (load_notice cf cid fresh g)
      | Decide cid token decision \<Rightarrow> snd (decide cf cid token decision g))"

definition gate_start :: "'d \<Rightarrow> 'd gate" where
  "gate_start d = \<lparr>ga_tokens = [], ga_store = d\<rparr>"

text \<open>An approval reaches the kernel.\<close>

definition approves :: "'d gate \<Rightarrow> gate_op \<Rightarrow> bool" where
  "approves g oper =
     (case oper of Decide cid token decision \<Rightarrow> decision = ''approve'' \<and> valid_token cid token g | _ \<Rightarrow> False)"

section \<open>The model slots\<close>

record model_config =
  mc_endpoint :: string
  mc_model :: "string option"
  mc_backend :: string
  mc_paid_key :: "string option"

record public_view =
  pv_endpoint :: string
  pv_model :: "string option"
  pv_backend :: string
  pv_has_paid_key :: bool

definition public :: "model_config \<Rightarrow> public_view" where
  "public c = \<lparr>pv_endpoint = mc_endpoint c, pv_model = mc_model c, pv_backend = mc_backend c,
     pv_has_paid_key = (mc_paid_key c \<noteq> None)\<rparr>"

text \<open>The environment: the keys and the default models of the providers.\<close>

record model_env =
  me_gemini_key :: string
  me_openrouter_key :: string
  me_simple_model :: string
  me_openrouter_model :: string

datatype client =
    Local_client "string option" string     \<comment> \<open>model (none: the stage 2 default) and host\<close>
  | Gemini_client string string             \<comment> \<open>key and model\<close>
  | OpenRouter_client string string

definition local_client :: "model_config \<Rightarrow> client" where
  "local_client c = (case mc_model c of
     Some m \<Rightarrow> if m \<noteq> [] then Local_client (Some m) (mc_endpoint c) else Local_client None (mc_endpoint c)
   | None \<Rightarrow> Local_client None (mc_endpoint c))"

definition str_or :: "string option \<Rightarrow> string \<Rightarrow> string" where
  "str_or a b = (case a of Some s \<Rightarrow> if s \<noteq> [] then s else b | None \<Rightarrow> b)"

definition effective_gemini_key :: "model_env \<Rightarrow> model_config \<Rightarrow> string" where
  "effective_gemini_key env c = str_or (mc_paid_key c) (me_gemini_key env)"

definition effective_openrouter_key :: "model_env \<Rightarrow> model_config \<Rightarrow> string" where
  "effective_openrouter_key env c = str_or (mc_paid_key c) (me_openrouter_key env)"

definition reasoning_client :: "model_env \<Rightarrow> model_config \<Rightarrow> client" where
  "reasoning_client env c =
     (if mc_backend c = ''paid'' then Gemini_client (effective_gemini_key env c) (str_or (mc_model c) (me_simple_model env))
      else if mc_backend c = ''openrouter''
      then OpenRouter_client (effective_openrouter_key env c) (str_or (mc_model c) (me_openrouter_model env))
      else local_client c)"

definition additional_client :: "model_env \<Rightarrow> model_config \<Rightarrow> client option" where
  "additional_client env c =
     (if mc_backend c = ''off'' then None
      else if mc_backend c = ''paid''
      then (if effective_gemini_key env c = [] then None
            else Some (Gemini_client (effective_gemini_key env c) (str_or (mc_model c) (me_simple_model env))))
      else if mc_backend c = ''openrouter''
      then (if effective_openrouter_key env c = [] then None
            else Some (OpenRouter_client (effective_openrouter_key env c) (str_or (mc_model c) (me_openrouter_model env))))
      else Some (local_client c))"

record config_args =
  ca_endpoint :: "string option"
  ca_model :: "string option"
  ca_backend :: "string option"
  ca_paid_key :: "string option"

definition or_none :: "string \<Rightarrow> string option" where
  "or_none s = (if s = [] then None else Some s)"

text \<open>How Python prints a tuple of two or more strings.\<close>

definition repr_tuple :: "string list \<Rightarrow> string" where
  "repr_tuple xs = ''('' @ py_join '', '' (map py_repr_str xs) @ '')''"

text \<open>\<open>_apply\<close>: the fields in order; a bad backend raises after the first two were stored.\<close>

definition apply_config :: "string list \<Rightarrow> config_args \<Rightarrow> model_config \<Rightarrow> public_view py \<times> model_config" where
  "apply_config allowed a c =
     (let c1 = (case ca_endpoint a of None \<Rightarrow> c | Some e \<Rightarrow> c\<lparr>mc_endpoint := e\<rparr>);
          c2 = (case ca_model a of None \<Rightarrow> c1 | Some m \<Rightarrow> c1\<lparr>mc_model := or_none m\<rparr>);
          key = (\<lambda>c. case ca_paid_key a of None \<Rightarrow> c | Some k \<Rightarrow> c\<lparr>mc_paid_key := or_none k\<rparr>) in
      case ca_backend a of
        None \<Rightarrow> (Inr (public (key c2)), key c2)
      | Some b \<Rightarrow> if b \<notin> set allowed then (raise ''ValueError'' (''backend must be one of '' @ repr_tuple allowed), c2)
                  else (Inr (public (key (c2\<lparr>mc_backend := b\<rparr>))), key (c2\<lparr>mc_backend := b\<rparr>)))"

definition main_backends :: "string list" where
  "main_backends = [''local'', ''paid'', ''openrouter'']"

definition additional_backends :: "string list" where
  "additional_backends = main_backends @ [''off'']"

definition set_config :: "config_args \<Rightarrow> model_config \<Rightarrow> public_view py \<times> model_config" where
  "set_config = apply_config main_backends"

definition set_additional :: "config_args \<Rightarrow> model_config \<Rightarrow> public_view py \<times> model_config" where
  "set_additional = apply_config additional_backends"

text \<open>The liveness indicator: a ping of the current endpoint has an outcome (an exception counts as a
  failure) and a time; the model is the one the built client reports.\<close>

record heartbeat =
  hb_state :: string
  hb_endpoint :: "string option"
  hb_model :: "string option"
  hb_checked_at :: "int option"
  hb_fails :: nat

definition initial_heartbeat :: heartbeat where
  "initial_heartbeat = \<lparr>hb_state = ''unknown'', hb_endpoint = None, hb_model = None, hb_checked_at = None, hb_fails = 0\<rparr>"

definition heartbeat_once :: "(client \<Rightarrow> string) \<Rightarrow> model_config \<Rightarrow> bool py \<Rightarrow> int \<Rightarrow> heartbeat \<Rightarrow> heartbeat" where
  "heartbeat_once model_of c available now hb =
     (let hb1 = hb\<lparr>hb_endpoint := Some (mc_endpoint c), hb_model := Some (model_of (local_client c)), hb_checked_at := Some now\<rparr>
      in if available = Inr True then hb1\<lparr>hb_state := ''up'', hb_fails := 0\<rparr>
         else hb1\<lparr>hb_fails := hb_fails hb1 + 1, hb_state := ''down''\<rparr>)"

definition warm :: "bool \<Rightarrow> bool \<Rightarrow> string \<times> string option" where
  "warm loaded client_ready =
     (if loaded \<and> client_ready then (''ready'', None)
      else if loaded then (''warming'', Some ''loaded but not ready yet'')
      else (''failed'', Some ''could not reach/load the model (is Ollama up at the endpoint?)''))"

section \<open>Cloning a target\<close>

text \<open>The standard library's \<open>urlsplit\<close>, as far as it is used: the scheme (in lower case) and the network
  location. Whether a bracketed host is a valid address is left out.\<close>

definition scheme_char :: "char \<Rightarrow> bool" where
  "scheme_char c = (py_isalnum c \<or> c \<in> {CHR ''+'', CHR ''-'', CHR ''.''})"

definition url_clean :: "string \<Rightarrow> string" where
  "url_clean url = filter (\<lambda>c. c \<notin> {CHR 0x09, CHR 0x0A, CHR 0x0D}) (dropWhile (\<lambda>c. of_char c \<le> (32 :: nat)) url)"

definition url_scheme :: "string \<Rightarrow> string \<times> string" where
  "url_scheme url =
     (let s = takeWhile (\<lambda>c. c \<noteq> CHR '':'') url in
      if CHR '':'' \<in> set url \<and> s \<noteq> [] \<and> (py_upper_char (hd s) \<or> py_lower_char (hd s)) \<and> list_all scheme_char s
      then (py_lower s, drop (length s + 1) url) else ([], url))"

definition urlsplit :: "string \<Rightarrow> (string \<times> string) py" where
  "urlsplit url0 =
     (let (scheme, rest) = url_scheme (url_clean url0);
          netloc = (if py_startswith rest ''//''
                    then takeWhile (\<lambda>c. c \<notin> {CHR ''/'', CHR ''?'', CHR ''#''}) (drop 2 rest) else [])
      in if (CHR ''['' \<in> set netloc) \<noteq> (CHR '']'' \<in> set netloc) then raise ''ValueError'' ''Invalid IPv6 URL''
         else Inr (scheme, netloc))"

definition ALLOWED_SCHEMES :: "string list" where
  "ALLOWED_SCHEMES = [''http'', ''https'', ''git'']"

definition validate_repo_url :: "string \<Rightarrow> string py" where
  "validate_repo_url url =
     (if py_strip url = [] then raise ''CloneError'' ''no repository URL provided''
      else bindE (urlsplit (py_strip url)) (\<lambda>(scheme, netloc).
        if scheme \<notin> set ALLOWED_SCHEMES \<or> netloc = []
        then raise ''CloneError'' (''unsupported repository URL: '' @ py_repr_str url @ '' '' @ u_emdash @
               '' use an http(s) or git URL with a host'')
        else Inr (py_strip url)))"

definition auth_url :: "string \<Rightarrow> string py" where
  "auth_url url =
     bindE (urlsplit url) (\<lambda>(scheme, netloc).
       if scheme \<in> {''http'', ''https''} \<and> CHR ''@'' \<notin> set netloc
       then Inr (py_replace1 (scheme @ ''://'') (scheme @ ''://x-access-token@'') url) else Inr url)"

record git_call =
  gc_argv :: "string list"
  gc_env :: "(string \<times> string) list"

definition clone_call :: "string \<Rightarrow> string \<Rightarrow> string \<Rightarrow> string \<Rightarrow> git_call py" where
  "clone_call url0 dest askpass token =
     bindE (validate_repo_url url0) (\<lambda>url.
     bindE (if token \<noteq> [] then auth_url url else Inr url) (\<lambda>clone_url.
       Inr \<lparr>gc_argv = [''git'', ''-c'', ''core.hooksPath=/dev/null'', ''clone'', ''--depth'', ''1'', ''--no-tags'',
                        ''--single-branch'', clone_url, dest],
            gc_env = (''GIT_TERMINAL_PROMPT'', ''0'') #
              (if token \<noteq> [] then [(''GIT_ASKPASS'', askpass), (''SR_GIT_TOKEN'', token)] else [])\<rparr>))"

text \<open>What the run of git comes to: an exception of \<open>subprocess\<close>, or a return code and the error text.
  The second component tells whether the partial directory was removed.\<close>

definition clone_outcome :: "string \<Rightarrow> string \<Rightarrow> string + int \<times> string \<Rightarrow> string py \<times> bool" where
  "clone_outcome dest token proc =
     (case proc of
        Inl e \<Rightarrow> (raise ''CloneError'' (''could not run git: '' @ e), True)
      | Inr (code, stderr) \<Rightarrow>
          if code \<noteq> 0
          then let err = py_strip stderr; low = py_lower err in
            (if py_in ''authentication'' low \<or> py_in ''could not read'' low \<or> code = 128
             then raise ''CloneError'' (''authentication required or repository not accessible'' @
                    (if token \<noteq> [] then [] else '' (set GITHUB_TOKEN for a private repo)''))
             else raise ''CloneError'' (''git clone failed: '' @ drop (length err - 300) err), True)
          else (Inr dest, False))"

section \<open>Opening a session\<close>

record session_env =
  se_expand :: "string \<Rightarrow> string"
  se_is_dir :: "string \<Rightarrow> bool"
  se_is_file :: "string \<Rightarrow> bool"
  se_resolve :: "string \<Rightarrow> string"
  se_read :: "string \<Rightarrow> string py"
  se_clone :: "string \<Rightarrow> string py"        \<comment> \<open>\<open>clone_repo\<close> into the workspaces root\<close>
  se_agent_root :: string

definition inside_agent :: "session_env \<Rightarrow> string \<Rightarrow> bool" where
  "inside_agent env p = (relative_to p (se_agent_root env) \<noteq> None)"

definition REPORT_BUDGET_CHARS :: nat where "REPORT_BUDGET_CHARS = 12000"

definition truncation_mark :: string where
  "truncation_mark = nl @ [CHR 0xE2, CHR 0x80, CHR 0xA6] @ ''[report truncated]'' @ [CHR 0xE2, CHR 0x80, CHR 0xA6]"

definition read_report :: "session_env \<Rightarrow> string \<Rightarrow> string py" where
  "read_report env audit_path =
     (let p = se_expand env audit_path in
      if \<not> se_is_file env p then raise ''ValueError'' (''audit path is not an existing file: '' @ audit_path)
      else if inside_agent env (se_resolve env p)
      then raise ''ValueError'' ''audit file must be EXTERNAL, not inside the agent repo''
      else bindE (se_read env (se_resolve env p)) (\<lambda>t.
        Inr (if length t > REPORT_BUDGET_CHARS then take REPORT_BUDGET_CHARS t @ truncation_mark else t)))"

definition given :: "string option \<Rightarrow> bool" where
  "given s = (case s of None \<Rightarrow> False | Some x \<Rightarrow> x \<noteq> [] \<and> py_strip x \<noteq> [])"

text \<open>The target of a session: exactly one of the two inputs, an existing folder, outside the agent.\<close>

definition session_target :: "session_env \<Rightarrow> string option \<Rightarrow> string option \<Rightarrow> string py" where
  "session_target env project_path repo_url =
     (if given project_path = given repo_url
      then raise ''ValueError'' ''provide exactly one of a target path or a repository URL''
      else bindE
        (if given repo_url
         then case bindE (validate_repo_url (the repo_url)) (se_clone env) of
                Inl e \<Rightarrow> (if exc_class e = ''CloneError'' then raise ''ValueError'' (exc_msg e) else Inl e)
              | Inr w \<Rightarrow> Inr w
         else Inr (the project_path)) (\<lambda>pp.
        let p = se_expand env pp; root = se_resolve env p in
        if \<not> se_is_dir env p then raise ''ValueError'' (''project path is not an existing directory: '' @ pp)
        else if inside_agent env root
        then raise ''ValueError'' ''project path must be an EXTERNAL target, not the agent repo itself''
        else Inr root))"

record console_session =
  cs_root :: string
  cs_report :: "string option"

record manager =
  mg_saved :: "string list"
  mg_sessions :: "(string, console_session) dict"

text \<open>\<open>start\<close>: the chat is saved before the report is read; only a session that could be built is kept.\<close>

record start_args =
  st_project_path :: "string option"
  st_repo_url :: "string option"
  st_audit_path :: "string option"
  st_session_id :: string            \<comment> \<open>the id the new chat session draws\<close>

definition start_session :: "session_env \<Rightarrow> start_args \<Rightarrow> manager \<Rightarrow> console_session py \<times> manager" where
  "start_session env a mg =
     (case session_target env (st_project_path a) (st_repo_url a) of
        Inl e \<Rightarrow> (Inl e, mg)
      | Inr root \<Rightarrow>
          let mg1 = mg\<lparr>mg_saved := mg_saved mg @ [st_session_id a]\<rparr> in
          case (case st_audit_path a of
                  None \<Rightarrow> Inr None
                | Some p \<Rightarrow> if p = [] then Inr None else bindE (read_report env p) (\<lambda>r. Inr (Some r))) of
            Inl e \<Rightarrow> (Inl e, mg1)
          | Inr rep \<Rightarrow>
              let s = \<lparr>cs_root = root, cs_report = rep\<rparr>
              in (Inr s, mg1\<lparr>mg_sessions := dict_set (st_session_id a) s (mg_sessions mg1)\<rparr>))"

section \<open>The gate's history\<close>

definition after_ops :: "'d confirmations \<Rightarrow> 'd \<Rightarrow> gate_op list \<Rightarrow> 'd gate" where
  "after_ops cf d ops = fold (gate_step cf) ops (gate_start d)"

lemma after_ops_snoc: "after_ops cf d (ops @ [x]) = gate_step cf x (after_ops cf d ops)"
  by (simp add: after_ops_def)

text \<open>An operation that ends a token's life: a decision on its action that the kernel resolved.\<close>

definition settles :: "'d confirmations \<Rightarrow> string \<Rightarrow> 'd gate \<Rightarrow> gate_op \<Rightarrow> bool" where
  "settles cf cid g oper =
     (case oper of Decide c token decision \<Rightarrow> c = cid \<and> \<not> isl (fst (decide cf c token decision g)) | _ \<Rightarrow> False)"

lemma decide_tokens:
  "ga_tokens (snd (decide cf cid token decision g)) =
     (if isl (fst (decide cf cid token decision g)) then ga_tokens g else dict_pop cid (ga_tokens g))"
  by (auto simp: decide_def split: prod.split sum.split)

lemma load_tokens:
  "ga_tokens (snd (load_notice cf cid fresh g)) =
     (if isl (cf_load cf cid (ga_store g)) then ga_tokens g else dict_set cid fresh (ga_tokens g))"
  by (auto simp: load_notice_def issue_token_def split: sum.split)

text \<open>The token of an action was issued by a notice of that action, and none was decided since.\<close>

lemma token_origin:
  assumes "dict_get (ga_tokens (after_ops cf d ops)) cid = Some t"
  obtains pre post where "ops = pre @ Fetch_notice cid t # post"
    "\<not> isl (cf_load cf cid (ga_store (after_ops cf d pre)))"
    "\<And>mid oper rest. post = mid @ oper # rest \<Longrightarrow>
       \<not> settles cf cid (after_ops cf d (pre @ Fetch_notice cid t # mid)) oper"
  using assms
proof (induction ops arbitrary: thesis rule: rev_induct)
  case Nil
  then show ?case by (simp add: after_ops_def gate_start_def)
next
  case (snoc x ops)
  let ?g = "after_ops cf d ops"
  have keep: thesis if old: "dict_get (ga_tokens ?g) cid = Some t" and no: "\<not> settles cf cid ?g x"
  proof -
    obtain pre post where p: "ops = pre @ Fetch_notice cid t # post"
      "\<not> isl (cf_load cf cid (ga_store (after_ops cf d pre)))"
      and m: "\<And>mid oper rest. post = mid @ oper # rest \<Longrightarrow> \<not> settles cf cid (after_ops cf d (pre @ Fetch_notice cid t # mid)) oper"
      using snoc.IH [OF _ old] by metis
    have "\<not> settles cf cid (after_ops cf d (pre @ Fetch_notice cid t # mid)) oper" if "post @ [x] = mid @ oper # rest" for mid oper rest
      using that m no p(1) by (cases rest rule: rev_cases) auto
    with p show thesis by (intro snoc.prems(1) [of pre "post @ [x]"]) auto
  qed
  show ?case
  proof (cases x)
    case (Fetch_notice c fresh)
    show ?thesis
    proof (cases "c = cid \<and> \<not> isl (cf_load cf c (ga_store ?g))")
      case True
      with snoc.prems(2) Fetch_notice have "fresh = t"
        by (auto simp: after_ops_snoc gate_step_def load_tokens)
      with True Fetch_notice show ?thesis by (intro snoc.prems(1) [of ops "[]"]) auto
    next
      case False
      with snoc.prems(2) Fetch_notice have "dict_get (ga_tokens ?g) cid = Some t"
        by (auto simp: after_ops_snoc gate_step_def load_tokens split: if_splits)
      then show ?thesis by (rule keep) (simp add: Fetch_notice settles_def)
    qed
  next
    case (Decide c token decision)
    have "dict_get (ga_tokens ?g) cid = Some t \<and> \<not> settles cf cid ?g x"
      using snoc.prems(2) by (auto simp: Decide after_ops_snoc gate_step_def decide_tokens dict_get_pop settles_def split: if_splits)
    then show ?thesis using keep by blast
  qed
qed

section \<open>The slots' history\<close>

definition accepted_backend :: "string list \<Rightarrow> config_args \<Rightarrow> string list" where
  "accepted_backend allowed a = (case ca_backend a of Some b \<Rightarrow> if b \<in> set allowed then [b] else [] | None \<Rightarrow> [])"

lemma apply_config_backend:
  "mc_backend (snd (apply_config allowed a c)) = last (mc_backend c # accepted_backend allowed a)"
  by (auto simp: apply_config_def Let_def accepted_backend_def split: option.split)

lemma apply_configs_backend:
  "mc_backend (fold (\<lambda>a c. snd (apply_config allowed a c)) as c) =
   last (mc_backend c # concat (map (accepted_backend allowed) as))"
proof (induction as arbitrary: c)
  case (Cons a as)
  show ?case
    by (cases "accepted_backend allowed a") (simp_all add: Cons.IH apply_config_backend)
qed simp

lemma local_client_kinds:
  "local_client c \<noteq> Gemini_client k m" "local_client c \<noteq> OpenRouter_client k m" "\<exists>m h. local_client c = Local_client m h"
  by (simp_all add: local_client_def split: option.split)

lemma reasoning_client_kinds:
  assumes "mc_backend c \<in> set main_backends"
  shows "(\<exists>k m. reasoning_client env c = Gemini_client k m) = (mc_backend c = ''paid'')"
    and "(\<exists>k m. reasoning_client env c = OpenRouter_client k m) = (mc_backend c = ''openrouter'')"
    and "(\<exists>m h. reasoning_client env c = Local_client m h) = (mc_backend c = ''local'')"
  using assms by (auto simp: reasoning_client_def main_backends_def local_client_kinds)

lemma additional_client_none:
  "(additional_client env a = None) = (mc_backend a = ''off'' \<or> mc_backend a = ''paid'' \<and> effective_gemini_key env a = [] \<or>
       mc_backend a = ''openrouter'' \<and> effective_openrouter_key env a = [])"
  by (auto simp: additional_client_def)

lemma public_hides_key: "public (c\<lparr>mc_paid_key := Some k\<rparr>) = public (c\<lparr>mc_paid_key := Some k'\<rparr>)"
  by (simp add: public_def)

text \<open>The counter of the indicator is the length of the run of failures that ends the history.\<close>

lemma heartbeat_fails:
  "hb_fails (fold (\<lambda>(c, ok, now). heartbeat_once model_of c ok now) pings initial_heartbeat) =
     length (takeWhile (\<lambda>(c, ok, now). ok \<noteq> Inr True) (rev pings))"
  by (induction pings rule: rev_induct) (auto simp: initial_heartbeat_def heartbeat_once_def Let_def)

section \<open>Urls\<close>

lemma url_scheme_hd: "fst (url_scheme url) \<noteq> [] \<Longrightarrow> url \<noteq> [] \<and> hd url \<noteq> CHR ''-''"
proof -
  assume "fst (url_scheme url) \<noteq> []"
  then have s: "takeWhile (\<lambda>c. c \<noteq> CHR '':'') url \<noteq> []" "py_upper_char (hd (takeWhile (\<lambda>c. c \<noteq> CHR '':'') url)) \<or>
      py_lower_char (hd (takeWhile (\<lambda>c. c \<noteq> CHR '':'') url))"
    by (auto simp: url_scheme_def Let_def split: if_splits)
  then have "hd (takeWhile (\<lambda>c. c \<noteq> CHR '':'') url) = hd url" by (cases url) auto
  moreover have "\<not> py_upper_char (CHR ''-'')" "\<not> py_lower_char (CHR ''-'')" by code_simp+
  ultimately show ?thesis using s by auto
qed

lemma url_clean_hd:
  assumes "url_clean url \<noteq> []" "hd (url_clean url) \<noteq> CHR ''-''" "url \<noteq> []"
  shows "hd url \<noteq> CHR ''-''"
proof
  assume "hd url = CHR ''-''"
  then obtain cs where "url = CHR ''-'' # cs" using assms(3) by (cases url) auto
  with assms show False by (simp add: url_clean_def)
qed

lemma validated_url:
  assumes "validate_repo_url url = Inr u"
  shows "u = py_strip url \<and> u \<noteq> [] \<and> hd u \<noteq> CHR ''-'' \<and> (\<exists>scheme netloc. urlsplit u = Inr (scheme, netloc) \<and>
     scheme \<in> set ALLOWED_SCHEMES \<and> netloc \<noteq> [])"
proof -
  from assms obtain scheme netloc where u: "u = py_strip url" "u \<noteq> []" and s: "urlsplit u = Inr (scheme, netloc)"
    "scheme \<in> set ALLOWED_SCHEMES" "netloc \<noteq> []"
    by (auto simp: validate_repo_url_def bindE_Inr split: if_splits)
  then have "fst (url_scheme (url_clean u)) = scheme"
    by (auto simp: urlsplit_def Let_def split: prod.splits if_splits)
  moreover have "scheme \<noteq> []" using s(2) by (auto simp: ALLOWED_SCHEMES_def)
  ultimately have "url_clean u \<noteq> [] \<and> hd (url_clean u) \<noteq> CHR ''-''" using url_scheme_hd by simp
  with url_clean_hd [of u] u s show ?thesis by blast
qed

lemma replace1_hd:
  assumes "hd old = hd new" "old \<noteq> []" "new \<noteq> []" "s \<noteq> []"
  shows "py_replace1 old new s \<noteq> [] \<and> hd (py_replace1 old new s) = hd s"
proof (cases s)
  case (Cons c cs)
  with assms show ?thesis by (cases old; cases new) (auto simp: py_startswith_def)
qed (use assms in simp)

lemma auth_url_hd: "auth_url u = Inr v \<Longrightarrow> u \<noteq> [] \<Longrightarrow> v \<noteq> [] \<and> hd v = hd u"
  by (auto simp: auth_url_def bindE_Inr replace1_hd split: prod.splits if_splits)

section \<open>The sessions\<close>

lemma session_target_external:
  "session_target env pp url = Inr root \<Longrightarrow>
     relative_to root (se_agent_root env) = None \<and> given pp \<noteq> given url"
  by (auto simp: session_target_def inside_agent_def bindE_Inr Let_def split: if_splits)

lemma read_report_bound:
  "read_report env p = Inr t \<Longrightarrow> length t \<le> REPORT_BUDGET_CHARS + length truncation_mark"
proof -
  assume "read_report env p = Inr t"
  then have "bindE (se_read env (se_resolve env (se_expand env p)))
      (\<lambda>x. Inr (if length x > REPORT_BUDGET_CHARS then take REPORT_BUDGET_CHARS x @ truncation_mark else x)) = Inr t"
    by (simp add: read_report_def Let_def split: if_splits)
  then obtain x where "t = (if length x > REPORT_BUDGET_CHARS then take REPORT_BUDGET_CHARS x @ truncation_mark else x)"
    unfolding bindE_Inr by (metis sum.inject(2))
  then show "length t \<le> REPORT_BUDGET_CHARS + length truncation_mark"
    by (cases "length x > REPORT_BUDGET_CHARS") auto
qed

definition session_ok :: "session_env \<Rightarrow> console_session \<Rightarrow> bool" where
  "session_ok env s \<longleftrightarrow> relative_to (cs_root s) (se_agent_root env) = None \<and>
     (\<forall>r \<in> set_option (cs_report s). length r \<le> REPORT_BUDGET_CHARS + length truncation_mark)"

definition manager_ok :: "session_env \<Rightarrow> manager \<Rightarrow> bool" where
  "manager_ok env mg \<longleftrightarrow> (\<forall>i s. dict_get (mg_sessions mg) i = Some s \<longrightarrow> session_ok env s \<and> i \<in> set (mg_saved mg))"

lemma start_session_ok:
  "manager_ok env mg \<Longrightarrow> manager_ok env (snd (start_session env a mg))"
  by (auto simp: manager_ok_def start_session_def Let_def session_ok_def bindE_Inr
      dest: session_target_external read_report_bound split: sum.splits option.splits if_splits)

definition no_sessions :: manager where
  "no_sessions = \<lparr>mg_saved = [], mg_sessions = []\<rparr>"

interpretation mgr: guarded_machine "\<lambda>a mg. snd (start_session env a mg)" no_sessions "manager_ok env" for env
proof
  show "manager_ok env no_sessions" by (simp add: manager_ok_def no_sessions_def)
qed (rule start_session_ok)

section \<open>Properties\<close>


text \<open>A kernel that loads one request and resolves everything: the token drawn for it approves it once.\<close>

definition one_request :: "string list confirmations" where
  "one_request = \<lparr>cf_load = (\<lambda>cid d. if cid = ''c1'' then Inr [(''action_type'', JStr ''write_execute'')] else raise ''FileNotFoundError'' cid),
     cf_resolve = (\<lambda>cid ok d. (Inr (if ok then ''approved'' else ''rejected''), d @ [cid]))\<rparr>"


text \<open>Nothing but an approval with the live token changes the kernel's store to approved: a decision that
  is neither a rejection nor such an approval raises and leaves the gate as it was, and fetching
  notices never touches the store.\<close>

lemma gate_fails_safe:
  "(decision \<noteq> ''reject'' \<longrightarrow> \<not> (decision = ''approve'' \<and> valid_token cid token g) \<longrightarrow>
      (\<exists>m. decide cf cid token decision g = (raise ''ApprovalError'' m, g))) \<and>
   ga_store (snd (load_notice cf cid fresh g)) = ga_store g"
  by (auto simp: decide_def load_notice_def issue_token_def split: sum.split)

text \<open>A slot runs the backend the operator chose, and no other. After any configuration calls, failing
  ones included, the main slot's backend is the last one accepted, and a hosted client is built
  exactly for it; the additional slot has a client unless it is off or hosted without a key.\<close>

lemma backend_is_explicit:
  "let c = fold (\<lambda>a c. snd (set_config a c)) as \<lparr>mc_endpoint = host, mc_model = None, mc_backend = ''local'', mc_paid_key = None\<rparr>;
       b = last (''local'' # concat (map (accepted_backend main_backends) as)) in
   mc_backend c = b \<and> b \<in> set main_backends \<and>
   ((\<exists>k m. reasoning_client env c = Gemini_client k m) = (b = ''paid'')) \<and>
   ((\<exists>k m. reasoning_client env c = OpenRouter_client k m) = (b = ''openrouter'')) \<and>
   ((\<exists>m h. reasoning_client env c = Local_client m h) = (b = ''local'')) \<and>
   ((additional_client env a = None) = (mc_backend a = ''off'' \<or> mc_backend a = ''paid'' \<and> effective_gemini_key env a = [] \<or>
       mc_backend a = ''openrouter'' \<and> effective_openrouter_key env a = []))"
proof -
  let ?c = "fold (\<lambda>a c. snd (set_config a c)) as \<lparr>mc_endpoint = host, mc_model = None, mc_backend = ''local'', mc_paid_key = None\<rparr>"
  let ?b = "last (''local'' # concat (map (accepted_backend main_backends) as))"
  have b: "mc_backend ?c = ?b"
    using apply_configs_backend [of main_backends as] by (simp add: set_config_def)
  have "set (concat (map (accepted_backend main_backends) as)) \<subseteq> set main_backends"
    by (auto simp: accepted_backend_def split: option.splits if_splits)
  then have "set (''local'' # concat (map (accepted_backend main_backends) as)) \<subseteq> set main_backends"
    by (simp add: main_backends_def)
  then have m: "?b \<in> set main_backends" using last_in_set [of "''local'' # concat (map (accepted_backend main_backends) as)"] by blast
  show ?thesis
    unfolding Let_def using b m reasoning_client_kinds [of ?c env] additional_client_none [of env a] by simp
qed

text \<open>What the console shows of a slot does not depend on the key it holds, and the command line of a
  clone does not depend on the token: two slots that differ only in a key look alike, and so do two
  clones of one url with different tokens.\<close>

lemma secrets_not_shown:
  "public (c\<lparr>mc_paid_key := Some k\<rparr>) = public (c\<lparr>mc_paid_key := Some k'\<rparr>) \<and>
   map_sum id gc_argv (clone_call url dest askpass (x # token)) = map_sum id gc_argv (clone_call url dest askpass (y # token'))"
proof -
  have "map_sum id gc_argv (clone_call url dest askpass (x # token)) = map_sum id gc_argv (clone_call url dest askpass (y # token'))"
    by (simp add: clone_call_def bindE_def split: sum.split)
  then show ?thesis by (simp add: public_def)
qed

text \<open>An accepted repository url cannot pass for an option or a local path: the scheme is one of three
  network schemes, the host is not empty, and neither the url nor the form with a user name begins
  with a dash.\<close>

lemma clone_url_is_network:
  assumes "clone_call url dest askpass token = Inr c"
  shows "(\<exists>scheme netloc. urlsplit (py_strip url) = Inr (scheme, netloc) \<and> scheme \<in> {''http'', ''https'', ''git''} \<and> netloc \<noteq> []) \<and>
    gc_argv c ! 8 \<noteq> [] \<and> hd (gc_argv c ! 8) \<noteq> CHR ''-''"
proof -
  from assms obtain u v where u: "validate_repo_url url = Inr u" and v: "(if token \<noteq> [] then auth_url u else Inr u) = Inr v"
    and c: "gc_argv c ! 8 = v" by (auto simp: clone_call_def bindE_Inr)
  note val = validated_url [OF u]
  have "v \<noteq> [] \<and> hd v = hd u" using v val auth_url_hd [of u v] by (auto split: if_splits)
  with val c show ?thesis by (auto simp: ALLOWED_SCHEMES_def)
qed

theorem clone_url_is_network_witness:
  "hd (gc_argv (\<lparr>gc_argv = [''git'', ''-c'', ''core.hooksPath=/dev/null'', ''clone'', ''--depth'', ''1'', ''--no-tags'',
     ''--single-branch'', ''https://x-access-token@host/r'', ''/w/1''],
     gc_env = [(''GIT_TERMINAL_PROMPT'', ''0''), (''GIT_ASKPASS'', ''/tmp/a''), (''SR_GIT_TOKEN'', ''s'')]\<rparr>) ! 8) \<noteq> CHR ''-''"
proof -
  have "clone_call '' https://host/r'' ''/w/1'' ''/tmp/a'' ''s'' = Inr \<lparr>gc_argv = [''git'', ''-c'', ''core.hooksPath=/dev/null'', ''clone'', ''--depth'', ''1'', ''--no-tags'',
     ''--single-branch'', ''https://x-access-token@host/r'', ''/w/1''],
     gc_env = [(''GIT_TERMINAL_PROMPT'', ''0''), (''GIT_ASKPASS'', ''/tmp/a''), (''SR_GIT_TOKEN'', ''s'')]\<rparr>"
    by code_simp
  from clone_url_is_network [OF this] show ?thesis by blast
qed

text \<open>A session is never opened inside the agent's own repository. Whatever calls were made, every session
  the manager holds has a target outside the agent's root, a report within its budget, and a chat that
  was saved.\<close>

lemma sessions_external:
  "manager_ok env (fold (\<lambda>a mg. snd (start_session env a mg)) calls no_sessions)"
  by (rule mgr.inv_reachable)

text \<open>A refused backend leaves the fields before it changed: the operator sees an error, and a slot with the
  new endpoint. A url with an upper-case scheme is accepted, but gets no user name.\<close>

lemma rejected_config_is_partial:
  "apply_config main_backends \<lparr>ca_endpoint = Some ''new'', ca_model = None, ca_backend = Some ''off'', ca_paid_key = None\<rparr> c =
     (raise ''ValueError'' (''backend must be one of '' @ repr_tuple main_backends), c\<lparr>mc_endpoint := ''new''\<rparr>)"
  by (simp add: apply_config_def main_backends_def)

lemma upper_case_scheme_unauthenticated:
  "validate_repo_url ''HTTPS://host/r'' = Inr ''HTTPS://host/r''" "auth_url ''HTTPS://host/r'' = Inr ''HTTPS://host/r''"
  by code_simp+

end
