(* ===== verification/Bench.thy ===== *)
theory Bench
  imports Planner_Stage1 Tools_Static Py_Json
begin

text \<open>
  The discovery benchmark (\<open>scripts/bench.py\<close>): loading curated cases from a dataset outside the agent's
  repository, matching a detector's candidates against the ground truth, the scorecard and the heuristic
  detector. The file system is a record of queries; a JSON file is the value it holds or the exception of reading
  it. A recall, a precision and a share of a class are kept as numerator and denominator, where the code
  divides and rounds them; the percentages of the printed card and the model behind the second
  detector are left out.

  The lemmas: every candidate and every truth is accounted for once; the credited pairs are a greatest set of pairs
  of the same place and class, whatever the order of either list; and a loaded case never points into the repository.
\<close>

section \<open>Entities\<close>

record ground_truth =
  gt_id :: string
  gt_tag :: bastet_tag
  gt_location :: string
  gt_function :: string
  gt_severity :: string

record candidate =
  ca_id :: string
  ca_tag :: "bastet_tag option"
  ca_location :: string
  ca_function :: string
  ca_severity :: string

record bench_case =
  bc_id :: string
  bc_truth :: "ground_truth list"
  bc_target :: "string option"
  bc_repo_url :: string
  bc_commit :: string
  bc_report :: "string option"

datatype near_reason = Tag_mismatch | Location_mismatch

record match_result =
  mr_matched :: "(candidate \<times> ground_truth) list"
  mr_missed :: "ground_truth list"
  mr_spurious :: "candidate list"
  mr_review :: "(candidate \<times> ground_truth \<times> near_reason) list"

section \<open>Loading\<close>

record bench_files =
  bf_agent_root :: string
  bf_resolve :: "string \<Rightarrow> string"             \<comment> \<open>\<open>Path(p).expanduser().resolve()\<close>\<close>
  bf_expand :: "string \<Rightarrow> string"              \<comment> \<open>\<open>Path(p).expanduser()\<close>\<close>
  bf_is_file :: "string \<Rightarrow> bool"
  bf_is_dir :: "string \<Rightarrow> bool"
  bf_list :: "string \<Rightarrow> string list"            \<comment> \<open>\<open>iterdir\<close>\<close>
  bf_sources :: "string \<Rightarrow> string list"         \<comment> \<open>\<open>rglob("*.sol")\<close>\<close>
  bf_json :: "string \<Rightarrow> json py"
  bf_text :: "string \<Rightarrow> string py"

definition bench_error :: "string \<Rightarrow> 'a py" where "bench_error msg = raise ''BenchError'' msg"

definition q1 :: string where "q1 = [CHR 0x27]"

text \<open>\<open>Path(p).name\<close>, and whether a path is the root of the repository or below it.\<close>

definition path_name :: "string \<Rightarrow> string" where
  "path_name p = (case rev (filter (\<lambda>c. c \<noteq> [] \<and> c \<noteq> ''.'') (py_split (CHR ''/'') p)) of [] \<Rightarrow> [] | c # _ \<Rightarrow> c)"

definition inside :: "string \<Rightarrow> string \<Rightarrow> bool" where
  "inside root p = (p = root \<or> py_startswith p (root @ ''/''))"

definition external :: "bench_files \<Rightarrow> string \<Rightarrow> string \<Rightarrow> string py" where
  "external fs p what =
     (let r = bf_resolve fs p in
      if inside (bf_agent_root fs) r
      then bench_error (what @ '' must be EXTERNAL to the agent repo, got: '' @ r)
      else Inr r)"

definition bench_tag :: "string \<Rightarrow> string \<Rightarrow> bastet_tag py" where
  "bench_tag raw ctx =
     (case tag_of raw of
        Some t \<Rightarrow> Inr t
      | None \<Rightarrow> bench_error (ctx @ '': unknown bastet_tag '' @ py_repr_str raw @ '' '' @ u_emdash @ '' not in the taxonomy. Fix the label; '' @
                 ''a silent skip would quietly shrink the recall denominator.''))"

text \<open>\<open>rec[k]\<close> on a JSON value.\<close>

definition jkey :: "json \<Rightarrow> string \<Rightarrow> json py" where
  "jkey v k =
     (case v of
        JObj kvs \<Rightarrow> (case dict_get kvs k of Some x \<Rightarrow> Inr x | None \<Rightarrow> raise ''KeyError'' (py_repr_str k))
      | JList _ \<Rightarrow> raise ''TypeError'' ''list indices must be integers or slices, not str''
      | JStr _ \<Rightarrow> raise ''TypeError'' (''string indices must be integers, not '' @ q1 @ ''str'' @ q1)
      | _ \<Rightarrow> raise ''TypeError'' (q1 @ type_name v @ q1 @ '' object is not subscriptable''))"

text \<open>The argument of \<open>Path(...)\<close>.\<close>

definition path_arg :: "json \<Rightarrow> string py" where
  "path_arg v =
     (case v of
        JStr s \<Rightarrow> Inr s
      | _ \<Rightarrow> raise ''TypeError'' (''argument should be a str or an os.PathLike object where __fspath__ returns a str, not '' @ q1 @ type_name v @ q1))"

definition load_truth :: "string \<Rightarrow> json \<Rightarrow> ground_truth py" where
  "load_truth case_id rec =
     bindE (jkey rec ''finding_id'') (\<lambda>fid.
     bindE (jkey rec ''bastet_tag'') (\<lambda>raw.
     bindE (jget rec ''finding_id'' JNull) (\<lambda>shown.
     bindE (bench_tag (py_str raw) (case_id @ ''/'' @ py_str shown)) (\<lambda>tag.
     bindE (jkey rec ''location'') (\<lambda>loc.
     bindE (jget rec ''function_name'' (JStr [])) (\<lambda>fn.
     bindE (jget rec ''severity'' (JStr ''medium'')) (\<lambda>sev.
       Inr \<lparr>gt_id = py_str fid, gt_tag = tag, gt_location = py_str loc, gt_function = py_str fn, gt_severity = py_str sev\<rparr>)))))))"

definition require_files :: "bench_files \<Rightarrow> string \<Rightarrow> string list \<Rightarrow> unit py" where
  "require_files fs dir names =
     (case find (\<lambda>n. \<not> bf_is_file fs (dir @ ''/'' @ n)) names of
        None \<Rightarrow> Inr () | Some n \<Rightarrow> bench_error (''missing '' @ n @ '' in '' @ dir))"

definition load_case :: "bench_files \<Rightarrow> string \<Rightarrow> bench_case py" where
  "load_case fs case_dir0 =
     bindE (external fs case_dir0 ''case dir'') (\<lambda>dir.
     bindE (require_files fs dir [''case.json'', ''labels.json'']) (\<lambda>_.
     bindE (bf_json fs (dir @ ''/case.json'')) (\<lambda>manifest.
     bindE (jget manifest ''case_id'' JNull) (\<lambda>cid.
     let case_id = py_str (if truthy cid then cid else JStr (path_name dir)) in
     bindE (jget manifest ''target_path'' JNull) (\<lambda>target.
     bindE (jget manifest ''repo_url'' JNull) (\<lambda>url.
     if truthy target = truthy url
     then bench_error (case_id @ '': provide exactly one of target_path / repo_url'')
     else
       bindE (bf_json fs (dir @ ''/labels.json'')) (\<lambda>labels.
       bindE (jiter labels) (\<lambda>recs.
       bindE (mapE (load_truth case_id) recs) (\<lambda>truth.
       bindE (if truthy target
              then bindE (path_arg target) (\<lambda>t. bindE (external fs t ''target_path'') (\<lambda>p. Inr (Some p))) else Inr None) (\<lambda>target_path.
       bindE (jget manifest ''repo_url'' (JStr [])) (\<lambda>repo.
       bindE (jget manifest ''commit'' (JStr [])) (\<lambda>commit.
       bindE (jget manifest ''report_path'' JNull) (\<lambda>report.
       bindE (if truthy report then bindE (path_arg report) (\<lambda>p. Inr (Some (bf_expand fs p))) else Inr None) (\<lambda>report_path.
         Inr \<lparr>bc_id = case_id, bc_truth = truth, bc_target = target_path, bc_repo_url = py_str repo, bc_commit = py_str commit,
              bc_report = report_path\<rparr>))))))))))))))"

definition load_dataset :: "bench_files \<Rightarrow> string \<Rightarrow> bench_case list py" where
  "load_dataset fs root0 =
     bindE (external fs root0 ''bench root'') (\<lambda>root.
     let cases_dir = root @ ''/cases'' in
     if \<not> bf_is_dir fs cases_dir then bench_error (''no cases/ under '' @ root)
     else mapE (load_case fs) (filter (bf_is_dir fs) (sort_key path_key (bf_list fs cases_dir))))"

section \<open>Matching\<close>

definition normalize_location :: "string \<Rightarrow> string \<Rightarrow> string \<times> string" where
  "normalize_location location function_name =
     (py_lower (py_strip (path_name (py_strip location))), py_lower (py_strip function_name))"

definition same_loc :: "candidate \<Rightarrow> ground_truth \<Rightarrow> bool" where
  "same_loc c g = (normalize_location (ca_location c) (ca_function c) = normalize_location (gt_location g) (gt_function g))"

definition same_tag :: "candidate \<Rightarrow> ground_truth \<Rightarrow> bool" where
  "same_tag c g = (ca_tag c \<noteq> None \<and> ca_tag c = Some (gt_tag g))"

text \<open>The inner loop: the first unclaimed truth of the same place and class, or else the first that agrees in one of them.\<close>

fun scan_truth :: "candidate \<Rightarrow> ground_truth list \<Rightarrow> (ground_truth \<times> near_reason) option \<Rightarrow>
    ground_truth option \<times> (ground_truth \<times> near_reason) option" where
  "scan_truth c [] near = (None, near)"
| "scan_truth c (g # gs) near =
     (if same_loc c g \<and> same_tag c g then (Some g, near)
      else if same_loc c g \<and> near = None then scan_truth c gs (Some (g, Tag_mismatch))
      else if same_tag c g \<and> near = None then scan_truth c gs (Some (g, Location_mismatch))
      else scan_truth c gs near)"

definition match_step :: "candidate \<Rightarrow> ground_truth list \<times> match_result \<Rightarrow> ground_truth list \<times> match_result" where
  "match_step c st =
     (let (unclaimed, res) = st in
      case scan_truth c unclaimed None of
        (Some g, _) \<Rightarrow> (remove1 g unclaimed, res\<lparr>mr_matched := mr_matched res @ [(c, g)]\<rparr>)
      | (None, Some (g, r)) \<Rightarrow> (unclaimed, res\<lparr>mr_review := mr_review res @ [(c, g, r)]\<rparr>)
      | (None, None) \<Rightarrow> (unclaimed, res\<lparr>mr_spurious := mr_spurious res @ [c]\<rparr>))"

definition no_matches :: match_result where
  "no_matches = \<lparr>mr_matched = [], mr_missed = [], mr_spurious = [], mr_review = []\<rparr>"

definition match_findings :: "candidate list \<Rightarrow> ground_truth list \<Rightarrow> match_result" where
  "match_findings produced truth =
     (let (unclaimed, res) = fold match_step (sort_key ca_id produced) (truth, no_matches)
      in res\<lparr>mr_missed := sort_key gt_id unclaimed\<rparr>)"

section \<open>The scorecard\<close>

record scorecard =
  sc_case :: string
  sc_detector :: string
  sc_truth_n :: nat
  sc_produced_n :: nat
  sc_matched_n :: nat
  sc_recall :: "(nat \<times> nat) option"        \<comment> \<open>\<open>None\<close> for the 0.0 of an empty denominator\<close>
  sc_precision :: "(nat \<times> nat) option"
  sc_per_tag :: "(string \<times> nat \<times> nat) list"
  sc_missed :: "ground_truth list"
  sc_review_n :: nat
  sc_spurious_n :: nat

definition ratio :: "nat \<Rightarrow> nat \<Rightarrow> (nat \<times> nat) option" where
  "ratio num den = (if den = 0 then None else Some (num, den))"

definition truth_tags :: "ground_truth list \<Rightarrow> bastet_tag list" where
  "truth_tags truth = sort_key tag_value (remdups (map gt_tag truth))"

definition bench_score :: "bench_case \<Rightarrow> string \<Rightarrow> match_result \<Rightarrow> nat \<Rightarrow> scorecard" where
  "bench_score cs detector m produced_n =
     \<lparr>sc_case = bc_id cs, sc_detector = detector, sc_truth_n = length (bc_truth cs), sc_produced_n = produced_n,
      sc_matched_n = length (mr_matched m),
      sc_recall = ratio (length (mr_matched m)) (length (bc_truth cs)),
      sc_precision = ratio (length (mr_matched m)) produced_n,
      sc_per_tag = map (\<lambda>t. (tag_value t, length (filter (\<lambda>(c, g). gt_tag g = t) (mr_matched m)),
                                length (filter (\<lambda>g. gt_tag g = t) (bc_truth cs)))) (truth_tags (bc_truth cs)),
      sc_missed = mr_missed m, sc_review_n = length (mr_review m), sc_spurious_n = length (mr_spurious m)\<rparr>"

section \<open>The heuristic detector\<close>

definition FLAG_TAG :: "(string \<times> bastet_tag) list" where
  "FLAG_TAG = [(''tx_origin_auth'', Tag_incorrect_access_control), (''delegatecall'', Tag_delegatecall_injection),
     (''timestamp_dependence'', Tag_timestamp_dependence), (''external_call_before_state_write'', Tag_reentrancy)]"

definition case_files :: "bench_files \<Rightarrow> bench_case \<Rightarrow> string list py" where
  "case_files fs cs =
     (case bc_target cs of
        None \<Rightarrow> bench_error (bc_id cs @ '': uses repo_url '' @ u_emdash @ '' clone it and set target_path (v1 needs local files)'')
      | Some t \<Rightarrow> Inr (sort_key path_key (filter (bf_is_file fs) (bf_sources fs t))))"

text \<open>The flags of one file that have an honest class, in order: the function and the class.\<close>

definition flagged_tags :: "string \<Rightarrow> (string \<times> bastet_tag) list" where
  "flagged_tags src =
     concat (map (\<lambda>(name, body, line). List.map_filter (\<lambda>fl. map_option (Pair name) (dict_get FLAG_TAG fl)) (snd (score_function body)))
       (extract_functions src))"

definition heuristic_candidate :: "nat \<Rightarrow> string \<times> string \<times> bastet_tag \<Rightarrow> candidate" where
  "heuristic_candidate n h =
     (case h of (fname, name, tag) \<Rightarrow>
        \<lparr>ca_id = ''H-'' @ nat_str03 n, ca_tag = Some tag, ca_location = fname, ca_function = name, ca_severity = ''informational''\<rparr>)"

definition heuristic_detector :: "bench_files \<Rightarrow> bench_case \<Rightarrow> candidate list py" where
  "heuristic_detector fs cs =
     bindE (case_files fs cs) (\<lambda>paths.
     bindE (mapE (\<lambda>p. bindE (bf_text fs p) (\<lambda>src. Inr (map (Pair (path_name p)) (flagged_tags src)))) paths) (\<lambda>hits.
       Inr (map (\<lambda>(n, h). heuristic_candidate n h) (enumerate 1 (concat hits)))))"

section \<open>A run\<close>

definition run_bench ::
  "bench_files \<Rightarrow> (bench_case \<Rightarrow> candidate list py) \<Rightarrow> string \<Rightarrow> string \<Rightarrow> string \<Rightarrow> scorecard list py" where
  "run_bench fs detect detector_name root only =
     bindE (load_dataset fs root) (\<lambda>all.
     let cases = filter (\<lambda>c. only = [] \<or> bc_id c = only) all in
     if cases = [] then bench_error (''no case matched '' @ py_repr_str only)
     else mapE (\<lambda>cs. bindE (detect cs) (\<lambda>produced.
            Inr (bench_score cs detector_name (match_findings produced (bc_truth cs)) (length produced)))) cases)"

section \<open>What matching credits\<close>

text \<open>The key credit is given for: the normalised place and the class.\<close>

definition cand_key :: "candidate \<Rightarrow> ((string \<times> string) \<times> bastet_tag) option" where
  "cand_key c = map_option (Pair (normalize_location (ca_location c) (ca_function c))) (ca_tag c)"

definition truth_key :: "ground_truth \<Rightarrow> (string \<times> string) \<times> bastet_tag" where
  "truth_key g = (normalize_location (gt_location g) (gt_function g), gt_tag g)"

lemma same_key: "same_loc c g \<and> same_tag c g \<longleftrightarrow> cand_key c = Some (truth_key g)"
  by (auto simp: same_loc_def same_tag_def cand_key_def truth_key_def)

lemma scan_truth_hit: "fst (scan_truth c gs near) = find (\<lambda>g. cand_key c = Some (truth_key g)) gs"
  by (induction c gs near rule: scan_truth.induct) (auto simp flip: same_key)

text \<open>How many of a list have a key.\<close>

definition keyed :: "('a \<Rightarrow> 'k option) \<Rightarrow> 'k \<Rightarrow> 'a list \<Rightarrow> nat" where
  "keyed f k xs = length (filter (\<lambda>x. f x = Some k) xs)"

lemma keyed_simps [simp]:
  "keyed f k [] = 0" "keyed f k (x # xs) = (if f x = Some k then Suc (keyed f k xs) else keyed f k xs)"
  "keyed f k (xs @ ys) = keyed f k xs + keyed f k ys"
  by (simp_all add: keyed_def)

lemma keyed_mset: "keyed f k xs = size (filter_mset (\<lambda>x. f x = Some k) (mset xs))"
  by (metis keyed_def mset_filter size_mset)

lemma keyed_remove1: "x \<in> set xs \<Longrightarrow> keyed f k xs = (if f x = Some k then Suc (keyed f k (remove1 x xs)) else keyed f k (remove1 x xs))"
  by (induction xs) auto

lemma keyed_pos: "0 < keyed f k xs \<longleftrightarrow> (\<exists>x \<in> set xs. f x = Some k)"
  by (induction xs) auto

text \<open>What is still open, and what has been decided, after some candidates.\<close>

definition match_inv :: "candidate list \<Rightarrow> ground_truth list \<Rightarrow> ground_truth list \<times> match_result \<Rightarrow> bool" where
  "match_inv done truth st =
     (let (unclaimed, res) = st in
      mset (map fst (mr_matched res)) + mset (map fst (mr_review res)) + mset (mr_spurious res) = mset done \<and>
      mset (map snd (mr_matched res)) + mset unclaimed = mset truth \<and>
      list_all (\<lambda>(c, g). cand_key c = Some (truth_key g)) (mr_matched res) \<and>
      (\<forall>k. keyed (Some \<circ> truth_key \<circ> snd) k (mr_matched res) = min (keyed cand_key k done) (keyed (Some \<circ> truth_key) k truth)))"

text \<open>One more candidate of a key: with a truth of it left, one more pair; with none left, no more.\<close>

lemma min_credit: "(m::nat) = min a (m + u) \<Longrightarrow> 0 < u \<Longrightarrow> Suc m = min (Suc a) (m + u)" "(m::nat) = min a (m + 0) \<Longrightarrow> m = min (Suc a) (m + 0)"
  by (auto simp: min_def split: if_splits)

lemma match_inv_step:
  assumes "match_inv done truth st"
  shows "match_inv (done @ [c]) truth (match_step c st)"
proof -
  obtain us res where st: "st = (us, res)" by (cases st)
  note inv = assms [unfolded match_inv_def st Let_def prod.case]
  have split: "keyed (Some \<circ> truth_key) k truth = keyed (Some \<circ> truth_key \<circ> snd) k (mr_matched res) + keyed (Some \<circ> truth_key) k us" for k
  proof -
    have "mset truth = mset (map snd (mr_matched res) @ us)" using inv by simp
    then have "keyed (Some \<circ> truth_key) k truth = keyed (Some \<circ> truth_key) k (map snd (mr_matched res) @ us)" by (simp only: keyed_mset)
    then show ?thesis by (simp add: keyed_def comp_def)
  qed
  show ?thesis
  proof (cases "fst (scan_truth c us None)")
    case (Some g)
    then have g: "g \<in> set us" "cand_key c = Some (truth_key g)" by (auto simp: scan_truth_hit find_Some_iff)
    have step: "match_step c st = (remove1 g us, res\<lparr>mr_matched := mr_matched res @ [(c, g)]\<rparr>)"
      using Some by (cases "scan_truth c us None") (simp add: match_step_def st)
    have pos: "0 < keyed (Some \<circ> truth_key) (truth_key g) us" using g(1) by (auto simp: keyed_pos)
    have old: "keyed (Some \<circ> truth_key \<circ> snd) k (mr_matched res) =
        min (keyed cand_key k done) (keyed (Some \<circ> truth_key \<circ> snd) k (mr_matched res) + keyed (Some \<circ> truth_key) k us)" for k
      using inv unfolding split by blast
    have "keyed (Some \<circ> truth_key \<circ> snd) k (mr_matched res @ [(c, g)]) = min (keyed cand_key k (done @ [c])) (keyed (Some \<circ> truth_key) k truth)" for k
    proof (cases "k = truth_key g")
      case True
      then show ?thesis using min_credit(1) [OF old [of k]] pos g(2) unfolding split by simp
    next
      case False
      then show ?thesis using old [of k] g(2) unfolding split by simp
    qed
    then have "\<forall>k. keyed (Some \<circ> truth_key \<circ> snd) k (mr_matched res @ [(c, g)]) = min (keyed cand_key k (done @ [c])) (keyed (Some \<circ> truth_key) k truth)"
      by blast
    moreover have "mset (map snd (mr_matched res @ [(c, g)])) + mset (remove1 g us) = mset truth"
    proof -
      have "add_mset g (mset (remove1 g us)) = mset us" using g(1) by simp
      moreover have "mset (map snd (mr_matched res @ [(c, g)])) + mset (remove1 g us) = mset (map snd (mr_matched res)) + add_mset g (mset (remove1 g us))"
        by (simp del: mset_remove1)
      ultimately show ?thesis using inv by argo
    qed
    ultimately show ?thesis using inv g(2) unfolding match_inv_def step Let_def prod.case by simp
  next
    case None
    then have no: "keyed (Some \<circ> truth_key) k us = 0" if "cand_key c = Some k" for k
      using that by (auto simp: scan_truth_hit find_None_iff keyed_def filter_empty_conv)
    have old: "keyed (Some \<circ> truth_key \<circ> snd) k (mr_matched res) =
        min (keyed cand_key k done) (keyed (Some \<circ> truth_key \<circ> snd) k (mr_matched res) + keyed (Some \<circ> truth_key) k us)" for k
      using inv unfolding split by blast
    have "keyed (Some \<circ> truth_key \<circ> snd) k (mr_matched res) = min (keyed cand_key k (done @ [c])) (keyed (Some \<circ> truth_key) k truth)" for k
    proof (cases "cand_key c = Some k")
      case True
      then show ?thesis using min_credit(2) [of "keyed (Some \<circ> truth_key \<circ> snd) k (mr_matched res)"] old [of k] no [OF True] unfolding split by simp
    next
      case False
      then show ?thesis using old [of k] unfolding split by simp
    qed
    then have "\<forall>k. keyed (Some \<circ> truth_key \<circ> snd) k (mr_matched res) = min (keyed cand_key k (done @ [c])) (keyed (Some \<circ> truth_key) k truth)"
      by blast
    moreover obtain near where "scan_truth c us None = (None, near)" using None by (metis prod.collapse)
    then have "fst (match_step c st) = us" "mr_matched (snd (match_step c st)) = mr_matched res"
      "mset (map fst (mr_review (snd (match_step c st)))) + mset (mr_spurious (snd (match_step c st))) =
        add_mset c (mset (map fst (mr_review res)) + mset (mr_spurious res))"
      by (auto simp: match_step_def st split: option.split)
    ultimately show ?thesis using inv unfolding match_inv_def case_prod_beta Let_def by (simp add: add.assoc)
  qed
qed

lemma match_inv_fold: "match_inv cs truth (fold match_step cs (truth, no_matches))"
proof (induction cs rule: rev_induct)
  case Nil
  show ?case by (simp add: match_inv_def no_matches_def)
next
  case (snoc c cs)
  then show ?case using match_inv_step by simp
qed

lemma match_findings_inv:
  "match_inv produced truth (mr_missed (match_findings produced truth), match_findings produced truth)"
proof -
  obtain us res where f: "fold match_step (sort_key ca_id produced) (truth, no_matches) = (us, res)" by fastforce
  have "match_inv (sort_key ca_id produced) truth (us, res)" using match_inv_fold [of "sort_key ca_id produced" truth] f by simp
  then show ?thesis by (simp add: match_inv_def match_findings_def f keyed_mset)
qed

section \<open>Properties\<close>

text \<open>C37: matching never inflates and never loses anything. Every candidate ends in exactly one of the credited, the
  reviewed and the spurious, every truth is credited or missed; a credited pair agrees in place and class; and for each
  place and class as many pairs are credited as there are candidates or truths of it, whichever is fewer, so the number
  does not depend on the order of either list.\<close>

theorem matching_exact:
  "let r = match_findings produced truth in
   mset (map fst (mr_matched r)) + mset (map fst (mr_review r)) + mset (mr_spurious r) = mset produced \<and>
   mset (map snd (mr_matched r)) + mset (mr_missed r) = mset truth \<and>
   list_all (\<lambda>(c, g). cand_key c = Some (truth_key g)) (mr_matched r) \<and>
   (\<forall>k. length (filter (\<lambda>(c, g). truth_key g = k) (mr_matched r)) =
      min (length (filter (\<lambda>c. cand_key c = Some k) produced)) (length (filter (\<lambda>g. truth_key g = k) truth)))"
proof -
  have "length (filter (\<lambda>(c, g). truth_key g = k) xs) = keyed (Some \<circ> truth_key \<circ> snd) k xs" for k and xs :: "(candidate \<times> ground_truth) list"
    by (induction xs) auto
  then show ?thesis using match_findings_inv [of produced truth] by (simp add: match_inv_def Let_def keyed_def comp_def)
qed

lemma sum_by_tag: "distinct ts \<Longrightarrow> (\<Sum>t\<leftarrow>ts. length (filter (\<lambda>x. f x = t) xs)) = length (filter (\<lambda>x. f x \<in> set ts) xs)"
proof (induction ts)
  case (Cons t ts)
  have "length (filter (\<lambda>x. f x = t) xs) + length (filter (\<lambda>x. f x \<in> set ts) xs) = length (filter (\<lambda>x. f x = t \<or> f x \<in> set ts) xs)"
    using Cons.prems by (induction xs) auto
  then show ?case using Cons by simp
qed simp

text \<open>A scorecard adds up. What it credits is at most the truths and at most the candidates; the missed are the rest of the
  truths, the reviewed and the spurious the rest of the candidates; and its classes, each listed once, share out the
  credited pairs and the truths between them.\<close>

lemma scorecard_adds_up:
  "let m = match_findings produced (bc_truth cs); s = bench_score cs detector m (length produced) in
   sc_matched_n s + length (sc_missed s) = sc_truth_n s \<and> sc_matched_n s + sc_review_n s + sc_spurious_n s = sc_produced_n s \<and>
   distinct (map fst (sc_per_tag s)) \<and>
   (\<Sum>(t, num, den)\<leftarrow>sc_per_tag s. num) = sc_matched_n s \<and> (\<Sum>(t, num, den)\<leftarrow>sc_per_tag s. den) = sc_truth_n s"
proof -
  define m where "m = match_findings produced (bc_truth cs)"
  have inv: "mset (map fst (mr_matched m)) + mset (map fst (mr_review m)) + mset (mr_spurious m) = mset produced"
    "mset (map snd (mr_matched m)) + mset (mr_missed m) = mset (bc_truth cs)"
    using match_findings_inv [of produced "bc_truth cs"] by (simp_all add: match_inv_def m_def)
  have n: "length (mr_matched m) + length (mr_review m) + length (mr_spurious m) = length produced"
    "length (mr_matched m) + length (mr_missed m) = length (bc_truth cs)"
    using arg_cong [OF inv(1), of size] arg_cong [OF inv(2), of size] by simp_all
  let ?ts = "truth_tags (bc_truth cs)"
  have ts: "distinct ?ts" "set ?ts = gt_tag ` set (bc_truth cs)" by (simp_all add: truth_tags_def)
  have "distinct (map tag_value ?ts)" using ts(1) by (auto simp: distinct_map inj_on_def dest: tag_value_inj)
  moreover have "gt_tag (snd p) \<in> set ?ts" if "p \<in> set (mr_matched m)" for p
  proof -
    have "snd p \<in># mset (map snd (mr_matched m)) + mset (mr_missed m)" using that by simp
    then show ?thesis unfolding inv(2) ts(2) by simp
  qed
  then have "(\<Sum>t\<leftarrow>?ts. length (filter (\<lambda>(c, g). gt_tag g = t) (mr_matched m))) = length (mr_matched m)"
    using sum_by_tag [OF ts(1), of "gt_tag \<circ> snd" "mr_matched m"] by (simp add: case_prod_unfold comp_def)
  moreover have "(\<Sum>t\<leftarrow>?ts. length (filter (\<lambda>g. gt_tag g = t) (bc_truth cs))) = length (bc_truth cs)"
    using sum_by_tag [OF ts(1), of gt_tag "bc_truth cs"] ts(2) by simp
  ultimately show ?thesis using n unfolding m_def [symmetric] by (simp add: bench_score_def Let_def comp_def case_prod_unfold)
qed

text \<open>No dataset reaches into the agent's repository. A dataset loads only from a root outside, each of its cases has
  exactly one of a target and a repository, and a target is resolved and outside.\<close>

lemma dataset_external:
  assumes "load_dataset fs root = Inr cases"
  shows "\<not> inside (bf_agent_root fs) (bf_resolve fs root) \<and>
    (\<forall>cs \<in> set cases. (case bc_target cs of None \<Rightarrow> True | Some t \<Rightarrow> \<not> inside (bf_agent_root fs) t \<and> (\<exists>p. t = bf_resolve fs p)))"
proof -
  have ext: "external fs p what = Inr r \<Longrightarrow> r = bf_resolve fs p \<and> \<not> inside (bf_agent_root fs) r" for p what r
    by (auto simp: external_def Let_def bench_error_def split: if_splits)
  have one: "case bc_target cs of None \<Rightarrow> True | Some t \<Rightarrow> \<not> inside (bf_agent_root fs) t \<and> (\<exists>p. t = bf_resolve fs p)"
    if "load_case fs d = Inr cs" for d cs
    using that unfolding load_case_def Let_def
    by (auto dest!: ext simp: bench_error_def bindE_Inr split: if_splits option.split)
  obtain r where r: "external fs root ''bench root'' = Inr r" and all: "mapE (load_case fs) (filter (bf_is_dir fs) (sort_key path_key (bf_list fs (r @ ''/cases'')))) = Inr cases"
    using assms by (auto simp: load_dataset_def bindE_Inr Let_def bench_error_def split: if_splits)
  have "\<forall>cs \<in> set cases. \<exists>d. load_case fs d = Inr cs" using all mapE_Inr_set by metis
  then show ?thesis using ext [OF r] one by blast
qed

definition one_case_bench :: bench_files where
  "one_case_bench =
     \<lparr>bf_agent_root = ''/agent'', bf_resolve = (\<lambda>p. p), bf_expand = (\<lambda>p. p), bf_is_file = (\<lambda>p. True), bf_is_dir = (\<lambda>p. True),
      bf_list = (\<lambda>p. [p @ ''/c1'']), bf_sources = (\<lambda>p. []),
      bf_json = (\<lambda>p. if p = ''/data/cases/c1/case.json'' then Inr (JObj [(''target_path'', JStr ''/target'')]) else Inr (JList [])),
      bf_text = (\<lambda>p. Inr [])\<rparr>"

lemma one_case_loaded:
  "load_dataset one_case_bench ''/data'' =
     Inr [\<lparr>bc_id = ''c1'', bc_truth = [], bc_target = Some ''/target'', bc_repo_url = [], bc_commit = [], bc_report = None\<rparr>]"
  by code_simp

lemma dataset_external_witness: "\<not> inside (bf_agent_root one_case_bench) ''/target''"
  using dataset_external [OF one_case_loaded] by simp

text \<open>The heuristic detector only uses the honest classes, and never one id twice.\<close>

lemma heuristic_honest:
  assumes "heuristic_detector fs cs = Inr out"
  shows "distinct (map ca_id out) \<and> (\<forall>c \<in> set out. \<exists>t \<in> snd ` set FLAG_TAG. ca_tag c = Some t)"
proof -
  obtain paths hits where h: "mapE (\<lambda>p. bindE (bf_text fs p) (\<lambda>src. Inr (map (Pair (path_name p)) (flagged_tags src)))) paths = Inr hits"
    and out: "out = map (\<lambda>(n, h). heuristic_candidate n h) (enumerate 1 (concat hits))"
    using assms by (auto simp: heuristic_detector_def bindE_Inr)
  have tags: "\<exists>t \<in> snd ` set FLAG_TAG. snd (snd x) = t" if x: "x \<in> set (concat hits)" for x
  proof -
    obtain hs where "hs \<in> set hits" "x \<in> set hs" using x by auto
    then obtain p src where "x \<in> Pair p ` set (flagged_tags src)" using mapE_Inr_set [OF h] by (fastforce simp: bindE_Inr)
    then obtain fl where "dict_get FLAG_TAG fl = Some (snd (snd x))"
      by (fastforce simp: flagged_tags_def set_map_filter_iff split: prod.splits)
    then show ?thesis by (metis image_eqI map_of_SomeD snd_conv)
  qed
  have ids: "map ca_id out = map (\<lambda>n. ''H-'' @ nat_str03 n) (map fst (enumerate 1 (concat hits)))"
    unfolding out by (auto simp: heuristic_candidate_def simp del: map_fst_enumerate split: prod.split)
  have "inj (\<lambda>n. ''H-'' @ nat_str03 n)" by (rule injI) (auto dest: nat_str03_inj)
  then have "distinct (map ca_id out)" unfolding ids by (subst distinct_map) (auto intro: inj_on_subset simp: map_fst_enumerate simp del: upt_Suc)
  moreover have "\<exists>t \<in> snd ` set FLAG_TAG. ca_tag c = Some t" if c: "c \<in> set out" for c
  proof -
    obtain n h where "c = heuristic_candidate n h" "(n, h) \<in> set (enumerate 1 (concat hits))" using c unfolding out by auto
    then have "ca_tag c = Some (snd (snd h))" "h \<in> set (map snd (enumerate 1 (concat hits)))"
      by (auto simp: heuristic_candidate_def simp del: map_snd_enumerate split: prod.split) (metis image_eqI snd_conv)
    then have "ca_tag c = Some (snd (snd h))" "h \<in> set (concat hits)" by (simp_all only: map_snd_enumerate)
    then show ?thesis using tags by blast
  qed
  ultimately show ?thesis by blast
qed

end
