(* ===== verification/Eval_Gate.thy ===== *)
theory Eval_Gate
  imports Audit_Finding
begin

text \<open>
  The evaluation of an audit against known vulnerabilities (\<open>eval/runner.py\<close>) and the release gate
  (\<open>eval/regression.py\<close>). Running the audit of a case is a parameter: the reported findings, or the reason
  why the loop did not complete. A metric is kept as numerator and denominator, where the code divides them; a metric with
  an empty denominator is 0. A threshold is compared exactly; a quotient of doubles is rounded to nearest, so for
  counts below \<open>2 ^ 50\<close> the code's comparison of the rounded values agrees. Posting scores to a server is left out.

  The lemmas: each criterion counts once, as found or missed; the gate passes exactly when every
  metric that is present keeps its threshold; and where the counts differ from what the module documents.
\<close>

section \<open>Scoring one case\<close>

record eval_criterion =
  ec_tag :: string
  ec_function :: string
  ec_min_severity :: severity
  ec_location :: string

record eval_case =
  ev_id :: string
  ev_criteria :: "eval_criterion list"

record case_result =
  cr_id :: string
  cr_completed :: bool
  cr_tp :: nat
  cr_fn :: nat
  cr_fp :: nat
  cr_matched :: "string list"
  cr_missed :: "string list"
  cr_skip :: string

definition tag_text :: "finding \<Rightarrow> string option" where
  "tag_text f = map_option tag_value (f_bastet_tag f)"

definition finding_matches :: "eval_criterion \<Rightarrow> finding \<Rightarrow> bool" where
  "finding_matches cr f =
     (tag_text f = Some (ec_tag cr) \<and>
      (ec_function cr = [] \<or> py_in (py_lower (ec_function cr)) (py_lower (f_function_name f))) \<and>
      (ec_location cr = [] \<or> py_in (ec_location cr) (f_location f)) \<and>
      severity_rank (ec_min_severity cr) \<le> severity_rank (f_severity f))"

definition criterion_matched :: "eval_criterion \<Rightarrow> finding list \<Rightarrow> bool" where
  "criterion_matched cr fs = list_ex (finding_matches cr) fs"

definition false_positive :: "eval_criterion list \<Rightarrow> finding \<Rightarrow> bool" where
  "false_positive crs f = (case tag_text f of None \<Rightarrow> True | Some t \<Rightarrow> t \<notin> ec_tag ` set crs)"

text \<open>The loop over the criteria.\<close>

definition score_criterion :: "finding list \<Rightarrow> eval_criterion \<Rightarrow> nat \<times> nat \<times> string list \<times> string list \<Rightarrow> nat \<times> nat \<times> string list \<times> string list" where
  "score_criterion fs cr st =
     (case st of (tp, fn, matched, missed) \<Rightarrow>
        if criterion_matched cr fs then (tp + 1, fn, matched @ [ec_tag cr], missed) else (tp, fn + 1, matched, missed @ [ec_tag cr]))"

definition run_case :: "eval_case \<Rightarrow> string + finding list \<Rightarrow> case_result" where
  "run_case cs outcome =
     (case outcome of
        Inl reason \<Rightarrow> \<lparr>cr_id = ev_id cs, cr_completed = False, cr_tp = 0, cr_fn = length (ev_criteria cs), cr_fp = 0,
                       cr_matched = [], cr_missed = [], cr_skip = reason\<rparr>
      | Inr fs \<Rightarrow>
          (case fold (score_criterion fs) (ev_criteria cs) (0, 0, [], []) of (tp, fn, matched, missed) \<Rightarrow>
             \<lparr>cr_id = ev_id cs, cr_completed = True, cr_tp = tp, cr_fn = fn,
              cr_fp = length (filter (false_positive (ev_criteria cs)) fs), cr_matched = matched, cr_missed = missed, cr_skip = []\<rparr>))"

section \<open>The report\<close>

type_synonym metric = "nat \<times> nat"

record eval_report =
  er_results :: "case_result list"
  er_recall :: metric
  er_fpr :: metric
  er_completion :: metric

definition metric_of :: "nat \<Rightarrow> nat \<Rightarrow> metric" where
  "metric_of num den = (if den = 0 then (0, 1) else (num, den))"

definition run_eval :: "(eval_case \<times> (string + finding list)) list \<Rightarrow> eval_report" where
  "run_eval runs =
     (let results = map (\<lambda>(cs, out). run_case cs out) runs;
          tp = (\<Sum>r\<leftarrow>results. cr_tp r); fn = (\<Sum>r\<leftarrow>results. cr_fn r); fp = (\<Sum>r\<leftarrow>results. cr_fp r);
          completed = length (filter cr_completed results)
      in \<lparr>er_results = results, er_recall = metric_of tp (tp + fn), er_fpr = metric_of fp (fp + tp),
          er_completion = metric_of completed (length results)\<rparr>)"

section \<open>The gate\<close>

datatype bound_kind = At_least | At_most

definition THRESHOLDS :: "(string \<times> bound_kind \<times> metric) list" where
  "THRESHOLDS = [(''recall'', At_least, (80, 100)), (''fpr'', At_most, (20, 100)), (''asr'', At_most, (5, 100)),
     (''loop_completion_rate'', At_least, (95, 100))]"

definition metric_less :: "metric \<Rightarrow> metric \<Rightarrow> bool" where
  "metric_less a b = (fst a * snd b < fst b * snd a)"

definition metrics_from_report :: "eval_report \<Rightarrow> metric option \<Rightarrow> (string \<times> metric) list" where
  "metrics_from_report rp asr =
     [(''recall'', er_recall rp), (''fpr'', er_fpr rp), (''loop_completion_rate'', er_completion rp)] @
     (case asr of None \<Rightarrow> [] | Some a \<Rightarrow> [(''asr'', a)])"

text \<open>One threshold: the name and the bound it breaks, if the metric is present and breaks it.\<close>

definition threshold_failure :: "(string \<times> metric) list \<Rightarrow> string \<times> bound_kind \<times> metric \<Rightarrow> (string \<times> bound_kind \<times> metric \<times> metric) option" where
  "threshold_failure metrics th =
     (case th of (name, kind, limit) \<Rightarrow>
        (case dict_get metrics name of
           None \<Rightarrow> None
         | Some v \<Rightarrow> if (kind = At_least \<and> metric_less v limit) \<or> (kind = At_most \<and> metric_less limit v)
                     then Some (name, kind, v, limit) else None))"

record regression_result =
  rr_passed :: bool
  rr_failures :: "(string \<times> bound_kind \<times> metric \<times> metric) list"
  rr_metrics :: "(string \<times> metric) list"
  rr_baseline :: "(string \<times> metric) list option"
  rr_deltas :: "(string \<times> metric \<times> metric) list option"   \<comment> \<open>a difference, as its two sides\<close>

definition check_thresholds :: "(string \<times> metric) list \<Rightarrow> regression_result" where
  "check_thresholds metrics =
     (let failures = List.map_filter (threshold_failure metrics) THRESHOLDS
      in \<lparr>rr_passed = (failures = []), rr_failures = failures, rr_metrics = metrics, rr_baseline = None, rr_deltas = None\<rparr>)"

text \<open>\<open>load_baseline\<close> gives nothing for a missing or an unreadable file; an empty baseline counts as none.\<close>

definition compare_to_baseline :: "eval_report \<Rightarrow> metric option \<Rightarrow> (string \<times> metric) list option \<Rightarrow> regression_result" where
  "compare_to_baseline rp asr baseline =
     (let metrics = metrics_from_report rp asr; result = check_thresholds metrics in
      case baseline of
        Some (b # bs) \<Rightarrow>
          result\<lparr>rr_baseline := Some (b # bs),
                 rr_deltas := Some (List.map_filter (\<lambda>(k, v). map_option (\<lambda>old. (k, v, old)) (dict_get (b # bs) k)) metrics)\<rparr>
      | _ \<Rightarrow> result)"

section \<open>Properties\<close>

lemma score_fold:
  "fold (score_criterion fs) crs (tp, fn, ma, mi) =
     (tp + length (filter (\<lambda>c. criterion_matched c fs) crs), fn + length (filter (\<lambda>c. \<not> criterion_matched c fs) crs),
      ma @ map ec_tag (filter (\<lambda>c. criterion_matched c fs) crs), mi @ map ec_tag (filter (\<lambda>c. \<not> criterion_matched c fs) crs))"
  by (induction crs arbitrary: tp fn ma mi) (simp_all add: score_criterion_def)

lemma run_case_counts: "cr_tp (run_case cs out) + cr_fn (run_case cs out) = length (ev_criteria cs)"
  by (cases out) (simp_all add: run_case_def score_fold sum_length_filter_compl)

text \<open>The gate passes exactly on good numbers. Over all cases, recall counts the criteria of every case, those of a case
  that did not complete as missed; the gate passes exactly when at least four fifths of the criteria are found, false
  positives are at most a fifth of them and the criteria found, at least 95 in 100 cases completed, and the attack rate, if
  given, is at most 5 in 100; an evaluation without criteria or without cases fails, and a baseline decides nothing.\<close>

lemma gate_passes_iff:
  "let rp = run_eval runs; tp = (\<Sum>r\<leftarrow>er_results rp. cr_tp r); fp = (\<Sum>r\<leftarrow>er_results rp. cr_fp r);
       total = (\<Sum>(cs, out)\<leftarrow>runs. length (ev_criteria cs)) in
   rr_passed (compare_to_baseline rp asr baseline) =
     (0 < total \<and> 4 * total \<le> 5 * tp \<and> 4 * fp \<le> tp \<and> runs \<noteq> [] \<and>
      95 * length runs \<le> 100 * length (filter (\<lambda>(cs, out). isl out = False) runs) \<and>
      (case asr of None \<Rightarrow> True | Some (a, n) \<Rightarrow> 100 * a \<le> 5 * n))"
proof -
  define rp where "rp = run_eval runs"
  define tp where "tp = (\<Sum>r\<leftarrow>er_results rp. cr_tp r)"
  define fn where "fn = (\<Sum>r\<leftarrow>er_results rp. cr_fn r)"
  define fp where "fp = (\<Sum>r\<leftarrow>er_results rp. cr_fp r)"
  define n_done where "n_done = length (filter (\<lambda>(cs, out). isl out = False) runs)"
  have total: "tp + fn = (\<Sum>(cs, out)\<leftarrow>runs. length (ev_criteria cs))"
    unfolding tp_def fn_def rp_def run_eval_def Let_def
  proof (induction runs)
    case (Cons x runs)
    then show ?case using run_case_counts [of "fst x" "snd x"] by (cases x) simp
  qed simp
  have comp: "cr_completed (run_case cs out) = (isl out = False)" for cs out
    by (cases out) (simp_all add: run_case_def score_fold)
  have "length (filter cr_completed (er_results rp)) = n_done"
    unfolding n_done_def rp_def run_eval_def Let_def by (induction runs) (auto simp: comp)
  then have m: "er_recall rp = metric_of tp (tp + fn)" "er_fpr rp = metric_of fp (fp + tp)" "er_completion rp = metric_of n_done (length runs)"
    by (simp_all add: rp_def run_eval_def Let_def tp_def fn_def fp_def)
  have "rr_passed (compare_to_baseline rp asr baseline) = (List.map_filter (threshold_failure (metrics_from_report rp asr)) THRESHOLDS = [])"
    by (simp add: compare_to_baseline_def check_thresholds_def Let_def split: option.split list.split)
  also have "\<dots> = (0 < tp + fn \<and> 4 * (tp + fn) \<le> 5 * tp \<and> 4 * fp \<le> tp \<and> runs \<noteq> [] \<and> 95 * length runs \<le> 100 * n_done \<and>
      (case asr of None \<Rightarrow> True | Some (a, n) \<Rightarrow> 100 * a \<le> 5 * n))"
    by (auto simp: THRESHOLDS_def threshold_failure_def List.map_filter_def metrics_from_report_def m metric_of_def metric_less_def
        split: option.splits prod.splits)
  finally show ?thesis unfolding total unfolding tp_def fp_def rp_def n_done_def Let_def .
qed

text \<open>A case that did not complete lowers the recall, although the module documents recall over the completed ones.\<close>

lemma incomplete_case_counts:
  "er_recall (run_eval [(\<lparr>ev_id = ''a'', ev_criteria = [\<lparr>ec_tag = ''reentrancy'', ec_function = [], ec_min_severity = Low, ec_location = []\<rparr>]\<rparr>, Inl ''down'')])
     = (0, 1)"
  by (simp add: run_eval_def run_case_def metric_of_def)

text \<open>A finding in the wrong place is no false positive when its class is one of the case's.\<close>

lemma known_tag_never_false_positive:
  "ec_tag cr \<in> ec_tag ` set crs \<Longrightarrow> f_bastet_tag f = tag_of (ec_tag cr) \<Longrightarrow> f_bastet_tag f \<noteq> None \<Longrightarrow> \<not> false_positive crs f"
  by (cases "tag_of (ec_tag cr)") (auto simp: false_positive_def tag_text_def dest!: tag_of_Some)

end
