(* ===== verification/Exploit_Loop.thy ===== *)
theory Exploit_Loop
  imports Proof_Repeat Proof_Index Proof_Grounding Proof_Fixers Py_Json
begin

text \<open>
  The agentic exploit loop (\<open>scripts/exploit_loop.py\<close>): draft a test, run it, observe the failure, read more of
  the target, draft again. The model, the test run, the clock and everything they depend on are functions on a
  state of the world; the read-only tools, the sanitizer and the symbol index are queries. A log is a list of events. The
  gap between two numbers that are not both integers is kept as the two texts.

  Every loop is a total function: the reading round trip is bounded by its budget and one commit turn,
  the re-rolls by their cap, the iterations by the call budget. The lemmas: these bounds, what each outcome means,
  the invariant of the loop's state, and that a request other than a read is never executed.
\<close>

section \<open>The observation of a failure\<close>

definition rline :: "regex \<Rightarrow> regex" where "rline r = rseq [RBol True, rws0, r, rws0, REol True]"

definition rnonspace1 :: regex where "rnonspace1 = rplus (RChr (\<lambda>c. \<not> py_space c))"

definition READ_RE :: regex where "READ_RE = rline (rseq [rlit ''READ:'', rws0, RGrp 1 rnonspace1])"
definition GREP_RE :: regex where
  "GREP_RE = rline (rseq [rlit ''GREP:'', rws0, RGrp 1 (RSeq noeol (RStar False noeol))])"
definition LOOKUP_RE :: regex where "LOOKUP_RE = rline (rseq [rlit ''LOOKUP:'', rws0, RGrp 1 rnonspace1])"

definition caps :: regex where "caps = RChr (\<lambda>c. py_upper_char c \<or> c = CHR ''_'')"

definition ANY_VERB_RE :: regex where
  "ANY_VERB_RE = rseq [RBol True, rws0, RGrp 1 (rseq [caps, caps, RStar True caps]), rlit '':'', rws]"

definition READ_ONLY_VERBS :: "string list" where "READ_ONLY_VERBS = [''READ'', ''GREP'', ''LOOKUP'']"

definition DEFAULT_READ_MAX_HITS :: nat where "DEFAULT_READ_MAX_HITS = 40"

definition LEFT_RE :: regex where "LEFT_RE = rline (rseq [rlit ''Left:'', rws0, RGrp 1 (RSeq noeol (RStar False noeol))])"
definition RIGHT_RE :: regex where "RIGHT_RE = rline (rseq [rlit ''Right:'', rws0, RGrp 1 (RSeq noeol (RStar False noeol))])"

definition numchar :: regex where "numchar = RChr (\<lambda>c. py_word c \<or> c = CHR ''-'' \<or> c = CHR ''.'')"

definition FAIL_NEQ_RE :: regex where
  "FAIL_NEQ_RE = rseq [rlit ''[FAIL:'', RStar False (RChr (\<lambda>c. c \<noteq> CHR '']'')), RGrp 1 (rplus numchar), rws0, rlit ''!='', rws0,
     RGrp 2 (rplus numchar), RStar True (RChr (\<lambda>c. c \<noteq> CHR '']'')), rlit '']'']"

datatype failure_kind = Assert_false | Revert | Compile | Unknown

record observation =
  ob_kind :: failure_kind
  ob_actual :: string
  ob_expected :: string
  ob_trajectory :: "string list"
  ob_access :: "(string \<times> string) option"

definition informative :: "observation \<Rightarrow> bool" where
  "informative ob = (ob_actual ob \<noteq> [] \<or> ob_expected ob \<noteq> [] \<or> ob_trajectory ob \<noteq> [] \<or> ob_access ob \<noteq> None)"

definition classify_kind :: "string \<Rightarrow> failure_kind" where
  "classify_kind blob =
     (if error_signature blob \<noteq> [] then Compile
      else if list_ex (\<lambda>m. py_in m blob) [''not satisfied'', ''assertion failed''] \<or> re_search FAIL_NEQ_RE blob \<noteq> None then Assert_false
      else if list_ex (\<lambda>m. py_in m blob) [''EvmError'', ''[Revert]'', ''revert''] then Revert
      else Unknown)"

definition glyph_runs :: regex where "glyph_runs = rplus (ralts (map rlit box_chars @ [rws]))"

definition u_rule :: string where "u_rule = [CHR 0xE2, CHR 0x94, CHR 0x80]"
definition u_ellipsis :: string where "u_ellipsis = [CHR 0xE2, CHR 0x80, CHR 0xA6]"

definition call_frame :: "string \<Rightarrow> bool" where
  "call_frame stripped =
     (stripped \<noteq> [] \<and> py_in ''::'' stripped \<and>
      (re_search (rseq [rlit ''['', rdigit1, rlit '']'']) stripped \<noteq> None \<or> py_in u_rule stripped))"

definition clean_frame :: "string \<Rightarrow> string" where
  "clean_frame stripped = py_strip (re_subst glyph_runs (\<lambda>_ _. '' '') 0 stripped)"

text \<open>The frames behind the first line with the marker; a line with the marker is none itself.\<close>

fun trace_frames :: "bool \<Rightarrow> string list \<Rightarrow> string list" where
  "trace_frames on [] = []"
| "trace_frames on (line # ls) =
     (if py_in ''Traces:'' line then trace_frames True ls
      else if on \<and> call_frame (py_strip line) then clean_frame (py_strip line) # trace_frames on ls
      else trace_frames on ls)"

definition extract_trajectory :: "string \<Rightarrow> string list" where
  "extract_trajectory blob =
     (let calls = trace_frames False (py_splitlines blob) in
      if length calls \<le> 14 + 8 then calls
      else take 14 calls @ [u_ellipsis @ '' (trace elided) '' @ u_ellipsis] @ drop (length calls - 8) calls)"

definition build_observation :: "string \<Rightarrow> string \<Rightarrow> observation" where
  "build_observation out err =
     (let blob = out @ nl @ err; kind = classify_kind blob;
          vals = (case (re_search LEFT_RE blob, re_search RIGHT_RE blob) of
                    (Some l, Some r) \<Rightarrow> (m_group blob 1 l, m_group blob 1 r)
                  | _ \<Rightarrow> (case re_search FAIL_NEQ_RE blob of Some m \<Rightarrow> (m_group blob 1 m, m_group blob 2 m) | None \<Rightarrow> ([], [])))
      in \<lparr>ob_kind = kind, ob_actual = fst vals, ob_expected = snd vals,
          ob_trajectory = (if kind \<in> {Assert_false, Revert} then extract_trajectory blob else []),
          ob_access = extract_access_control_operands blob\<rparr>)"

definition kind_value :: "failure_kind \<Rightarrow> string" where
  "kind_value k = (case k of Assert_false \<Rightarrow> ''assert_false'' | Revert \<Rightarrow> ''revert'' | Compile \<Rightarrow> ''compile'' | Unknown \<Rightarrow> ''unknown'')"

section \<open>The world of a loop\<close>

record 'w loop_env =
  le_generate :: "string \<Rightarrow> 'w \<Rightarrow> string py \<times> 'w"
  le_run :: "string \<Rightarrow> 'w \<Rightarrow> (string \<times> string) py \<times> 'w"
  le_deadline :: "'w \<Rightarrow> bool \<times> 'w"                       \<comment> \<open>there is a deadline and it has passed\<close>
  le_read :: "string \<Rightarrow> string + string"                \<comment> \<open>the text of a path, or why it is refused\<close>
  le_search :: "string \<Rightarrow> string + (string \<times> nat \<times> string) list"
  le_sanitize :: "string \<Rightarrow> string \<times> string list"
  le_root :: string
  le_index :: "symbol_index option"

datatype loop_event =
    Read_refused string string string
  | Force_commit nat
  | Degenerate_retry nat nat nat
  | No_code nat nat
  | Triggered nat
  | Iteration nat failure_kind bool nat nat
  | Spin_stop nat

definition wrap_data :: "'w loop_env \<Rightarrow> string \<Rightarrow> string \<Rightarrow> string" where
  "wrap_data env tag body =
     (let (norm, flags) = le_sanitize env body in
      ''[DATA START '' @ tag @ '']'' @ (if flags \<noteq> [] then '' (flags: '' @ py_join '', '' flags @ '')'' else []) @
      nl @ norm @ nl @ ''[DATA END]'')"

definition render_observation :: "'w loop_env \<Rightarrow> observation \<Rightarrow> string" where
  "render_observation env ob =
     wrap_data env ''failure_observation'' (py_join nl
       ([''kind: '' @ kind_value (ob_kind ob)] @
        (if ob_actual ob \<noteq> [] \<or> ob_expected ob \<noteq> []
         then [''your exploit asserted '' @ (if ob_expected ob \<noteq> [] then ob_expected ob else ''<expected>'') @ '' but the actual '' @
               ''on-chain value was '' @ (if ob_actual ob \<noteq> [] then ob_actual ob else ''<unknown>'')] else []) @
        (case ob_access ob of None \<Rightarrow> []
         | Some (account, role) \<Rightarrow>
             [''AccessControl revert: your caller '' @ account @ '' does NOT hold the required role '' @ role @
              ''. Read getRoleMember/hasRole and prank as a current holder (or grant the '' @
              ''role in setup if the finding allows) - do not call from an address that lacks it.'']) @
        (if ob_trajectory ob \<noteq> [] then ''call trajectory that produced it:'' # map ((@) ''  '') (ob_trajectory ob) else []) @
        (if \<not> informative ob then [''(no actual-vs-expected or trajectory could be extracted)''] else [])))"

section \<open>Read requests\<close>

definition passed :: "string \<Rightarrow> bool" where
  "passed blob =
     (re_search (rseq [rlit ''Suite result:'', rws0, rlit ''ok'']) blob \<noteq> None \<or>
      (re_search (rseq [rlit ''[PASS'', RWordB]) blob \<noteq> None \<and>
       re_search (ralts [rlit ''[FAIL'', rseq [rlit ''Suite result:'', rws0, rlit ''FAILED''], rlit ''FAILED.'']) blob = None))"

definition split_verbs :: "string \<Rightarrow> string" where
  "split_verbs raw =
     re_subst (RSeq (RBehind False (\<lambda>c. c = CHR 0x0A)) (RAhead True (RSeq (ralts (map rlit READ_ONLY_VERBS)) (rlit '':'')))) (\<lambda>_ _. nl) 0 raw"

text \<open>The refusal of one verb line: its argument is what follows the colon in the first line of the match, an
  \<open>IndexError\<close> where that line is empty.\<close>

definition refusal_of :: "string \<Rightarrow> re_match \<Rightarrow> (string \<times> string) list py" where
  "refusal_of raw m =
     (let verb = m_group raw 1 m in
      if verb \<in> set READ_ONLY_VERBS then Inr []
      else case py_splitlines (drop (m_start m) raw) of
             [] \<Rightarrow> raise ''IndexError'' ''list index out of range''
           | line # _ \<Rightarrow>
               (case dropWhile (\<lambda>c. c \<noteq> CHR '':'') line of
                  [] \<Rightarrow> raise ''IndexError'' ''list index out of range''
                | _ # rest \<Rightarrow> Inr [(verb, take 120 (py_strip rest))]))"

definition parse_requests :: "string \<Rightarrow> ((string \<times> string) list \<times> (string \<times> string) list) py" where
  "parse_requests raw0 =
     (let raw = split_verbs raw0;
          reads = map (Pair ''READ'') (findall1 READ_RE raw) @ map (Pair ''GREP'') (findall1 GREP_RE raw) @ map (Pair ''LOOKUP'') (findall1 LOOKUP_RE raw)
      in bindE (mapE (refusal_of raw) (re_finditer ANY_VERB_RE raw)) (\<lambda>rs. Inr (reads, concat rs)))"

definition render_symbol_lookup :: "string \<Rightarrow> symbol list \<Rightarrow> string" where
  "render_symbol_lookup name matches =
     (if matches = [] then name @ '': NOT FOUND in the target project '' @ u_emdash @ '' do not use this name.''
      else name @ '' resolved to '' @ nat_str (length matches) @ '' definition(s):'' @ nl @ nl @
           py_join (nl @ nl) (map (\<lambda>m. ''// '' @ sy_contract m @ '' ('' @ sy_kind m @ '')'' @ nl @ sy_definition m) matches))"

text \<open>The parts of a path, and a requested path below the audited root.\<close>

definition path_parts :: "string \<Rightarrow> string list" where
  "path_parts p = filter (\<lambda>c. c \<noteq> [] \<and> c \<noteq> ''.'') (py_split (CHR ''/'') p)"

definition resolve_read_path :: "string \<Rightarrow> string \<Rightarrow> string" where
  "resolve_read_path arg root =
     (if py_startswith arg ''/'' then arg
      else case dropWhile (\<lambda>c. c = ''..'' \<or> c = ''.'') (path_parts arg) of
             [] \<Rightarrow> root | ps \<Rightarrow> root @ ''/'' @ py_join ''/'' ps)"

definition resolve_read :: "'w loop_env \<Rightarrow> string \<times> string \<Rightarrow> string \<times> loop_event list" where
  "resolve_read env req =
     (let (verb, arg) = req;
          refused = (\<lambda>e. (verb @ '' '' @ arg @ '': REFUSED ('' @ e @ ''). Continue without it.'', [Read_refused verb (take 80 arg) (take 300 e)]))
      in if verb = ''READ'' then
           (case le_read env (resolve_read_path arg (le_root env)) of
              Inl e \<Rightarrow> refused e | Inr t \<Rightarrow> (''READ '' @ arg @ '':'' @ nl @ take 8000 t, []))
         else if verb = ''GREP'' then
           (case le_search env arg of
              Inl e \<Rightarrow> refused e
            | Inr hits \<Rightarrow>
                let body = py_join nl (map (\<lambda>(f, n, t). f @ '':'' @ nat_str n @ '': '' @ t) (take DEFAULT_READ_MAX_HITS hits))
                in (''GREP '' @ py_repr_str arg @ '':'' @ nl @ (if body \<noteq> [] then body else ''(no matches)''), []))
         else (render_symbol_lookup arg (case le_index env of None \<Rightarrow> [] | Some idx \<Rightarrow> lookup idx arg), []))"

definition resolve_reads :: "'w loop_env \<Rightarrow> (string \<times> string) list \<Rightarrow> string \<times> loop_event list" where
  "resolve_reads env batch =
     (let rs = map (resolve_read env) batch
      in (wrap_data env ''read_response'' (py_join (nl @ nl) (map fst rs)), concat (map snd rs)))"

section \<open>One draft\<close>

definition continue_prompt :: string where
  "continue_prompt = nl @ nl @ ''Continue: return the FINAL Solidity source only (no more READ:/GREP:/LOOKUP: lines, no prose, no fences).''"

definition commit_prompt :: string where
  "commit_prompt = nl @ nl @ ''STOP. You have used your reads. Return the FINAL Foundry Solidity source '' @
     ''NOW as your entire reply '' @ u_emdash @ '' starting with `// SPDX` or `pragma` '' @ u_emdash @ '' no READ:/GREP:/LOOKUP: '' @
     ''lines, no prose, no explanation, no markdown fences.''"

definition refused_verb :: "string \<times> string \<Rightarrow> loop_event" where
  "refused_verb r = (case r of (verb, arg) \<Rightarrow> Read_refused verb (take 80 arg) ''not a read-only verb'')"

function generate_with_reads ::
  "'w loop_env \<Rightarrow> nat \<Rightarrow> nat \<Rightarrow> bool \<Rightarrow> string \<Rightarrow> 'w \<Rightarrow> loop_event list \<Rightarrow> string py \<times> 'w \<times> loop_event list" where
  "generate_with_reads env budget used forced cur w log =
     (case le_generate env cur w of
        (Inl e, w1) \<Rightarrow> (Inl e, w1, log)
      | (Inr raw, w1) \<Rightarrow>
          (case parse_requests raw of
             Inl e \<Rightarrow> (Inl e, w1, log)
           | Inr (reads, refusals) \<Rightarrow>
               if reads \<noteq> [] \<and> used < budget
               then generate_with_reads env budget (used + length (take (budget - used) reads)) forced
                      (cur @ nl @ nl @ fst (resolve_reads env (take (budget - used) reads)) @ continue_prompt) w1
                      (log @ map refused_verb refusals @ snd (resolve_reads env (take (budget - used) reads)))
               else if extract_solidity raw \<noteq> [] \<or> forced
               then (Inr (extract_solidity raw), w1, log @ map refused_verb refusals)
               else generate_with_reads env budget used True (cur @ commit_prompt) w1
                      (log @ map refused_verb refusals @ [Force_commit used])))"
  by pat_completeness auto
termination
  by (relation "measure (\<lambda>(env, budget, used, forced, cur, w, log). (budget - used) + (if forced then 0 else 1))") (auto simp: neq_Nil_conv min_def)

declare generate_with_reads.simps [simp del]

section \<open>The imports of a draft\<close>

definition STD_BASES :: "string list" where
  "STD_BASES = [''Test'', ''DSTest'', ''Script'', ''CommonBase'', ''StdAssertions'', ''StdCheats'']"

definition INHERIT_RE :: regex where
  "INHERIT_RE = rseq [rlit ''contract'', rws1, rword1, rws1, rlit ''is'', rws1,
     RGrp 1 (RSeq (RChr (\<lambda>c. c \<noteq> CHR ''{'')) (RStar False (RChr (\<lambda>c. c \<noteq> CHR ''{'')))), rws0, rlit ''{'']"

definition PRAGMA_LINE_RE :: regex where
  "PRAGMA_LINE_RE = RGrp 1 (rseq [rlit ''pragma'', RStar True noeol, RChr (\<lambda>c. c = CHR 0x0A)])"

definition imports_base_re :: "string \<Rightarrow> regex" where
  "imports_base_re base = rseq [rlit ''import'', RStar True (RChr (\<lambda>c. c \<noteq> CHR 0x0A \<and> c \<noteq> CHR '';'')), RWordB, rlit base, RWordB]"

definition import_base :: "symbol_index \<Rightarrow> string \<Rightarrow> string \<Rightarrow> string \<times> bool \<Rightarrow> string \<times> bool" where
  "import_base idx poc_dir base st =
     (let (code, changed) = st in
      if base = [] \<or> base \<in> set STD_BASES then st
      else if re_search (imports_base_re base) code \<noteq> None then st
      else (case filter (\<lambda>s. sy_kind s = ''contract'' \<or> sy_kind s = ''interface'') (lookup idx base) of
              [] \<Rightarrow> st
            | s # _ \<Rightarrow>
                (re_subst PRAGMA_LINE_RE
                   (\<lambda>t m. m_group t 1 m @ ''import { '' @ base @ '' } from '' @ [CHR 0x22] @ relpath (sy_file s) poc_dir @ [CHR 0x22] @ '';'' @ nl)
                   1 code, True)))"

definition ensure_base_imports :: "string \<Rightarrow> symbol_index option \<Rightarrow> string \<Rightarrow> string \<times> bool" where
  "ensure_base_imports code index poc_dir =
     (case index of
        None \<Rightarrow> (code, False)
      | Some idx \<Rightarrow>
          (case rev (re_finditer INHERIT_RE code) of
             [] \<Rightarrow> (code, False)
           | m # _ \<Rightarrow> fold (\<lambda>b. import_base idx poc_dir (py_strip b)) (py_split (CHR '','') (m_group code 1 m)) (code, False)))"

section \<open>The loop\<close>

datatype gap = Int_gap nat | Text_gap string string

text \<open>\<open>int(s)\<close> on what forge prints; \<open>is_float\<close> says whether \<open>float(s)\<close> accepts a text.\<close>

definition py_int :: "string \<Rightarrow> int option" where
  "py_int s0 =
     (let s = py_strip s0; neg = (s \<noteq> [] \<and> hd s = CHR ''-'');
          body = (if s \<noteq> [] \<and> (hd s = CHR ''-'' \<or> hd s = CHR ''+'') then tl s else s);
          groups = py_split (CHR ''_'') body
      in if list_all (\<lambda>g. g \<noteq> [] \<and> list_all py_digit g) groups
         then Some ((if neg then - 1 else 1) * int (dec_val (concat groups))) else None)"

definition gap_of :: "(string \<Rightarrow> bool) \<Rightarrow> observation \<Rightarrow> gap option" where
  "gap_of is_float ob =
     (case (py_int (ob_actual ob), py_int (ob_expected ob)) of
        (Some a, Some b) \<Rightarrow> Some (Int_gap (nat \<bar>a - b\<bar>))
      | _ \<Rightarrow> if is_float (ob_actual ob) \<and> is_float (ob_expected ob) then Some (Text_gap (ob_actual ob) (ob_expected ob)) else None)"

record iteration =
  it_sig :: "string list"
  it_spin :: nat
  it_distinct :: nat
  it_gap :: "gap option"
  it_kind :: failure_kind
  it_informative :: bool

record exploit_state =
  ls_calls :: nat
  ls_spin :: nat
  ls_prev :: "string list option"
  ls_distinct :: "string list list"        \<comment> \<open>a set: no signature twice\<close>
  ls_gaps :: "gap list"
  ls_iterations :: "iteration list"
  ls_retries :: nat

definition initial_loop :: exploit_state where
  "initial_loop = \<lparr>ls_calls = 0, ls_spin = 0, ls_prev = None, ls_distinct = [], ls_gaps = [], ls_iterations = [], ls_retries = 0\<rparr>"

definition record_iteration :: "(string \<Rightarrow> bool) \<Rightarrow> string list \<Rightarrow> observation \<Rightarrow> exploit_state \<Rightarrow> exploit_state" where
  "record_iteration is_float sig ob st =
     (let distinct_sigs = List.insert sig (ls_distinct st);
          spin = (if sig \<noteq> [] \<and> Some sig = ls_prev st then ls_spin st + 1 else 0);
          g = gap_of is_float ob
      in st\<lparr>ls_distinct := distinct_sigs, ls_spin := spin, ls_prev := Some sig,
            ls_gaps := ls_gaps st @ (case g of None \<Rightarrow> [] | Some x \<Rightarrow> [x]),
            ls_iterations := ls_iterations st @ [\<lparr>it_sig = sig, it_spin = spin, it_distinct = length distinct_sigs, it_gap = g,
              it_kind = ob_kind ob, it_informative = informative ob\<rparr>]\<rparr>)"

datatype loop_outcome = Out_triggered | Out_budget | Out_spin | Out_no_code

record loop_result =
  lr_outcome :: loop_outcome
  lr_code :: string
  lr_state :: exploit_state

record loop_config =
  lc_budget :: nat
  lc_spin_k :: nat
  lc_read_budget :: nat
  lc_retry_cap :: nat
  lc_is_float :: "string \<Rightarrow> bool"

text \<open>The re-rolls of a turn without code, at most the cap.\<close>

fun reroll :: "'w loop_env \<Rightarrow> nat \<Rightarrow> string \<Rightarrow> nat \<Rightarrow> nat \<Rightarrow> string \<Rightarrow> exploit_state \<Rightarrow> 'w \<Rightarrow> loop_event list \<Rightarrow>
    string py \<times> exploit_state \<times> 'w \<times> loop_event list" where
  "reroll env budget prompt 0 retry code st w log = (Inr code, st, w, log)"
| "reroll env budget prompt (Suc left) retry code st w log =
     (if py_strip code \<noteq> [] then (Inr code, st, w, log)
      else let st1 = st\<lparr>ls_retries := ls_retries st + 1\<rparr>;
               log1 = log @ [Degenerate_retry (ls_calls st1 + 1) (retry + 1) (ls_retries st1)]
           in case generate_with_reads env budget 0 False prompt w log1 of
                (Inl e, w1, log2) \<Rightarrow> (Inl e, st1, w1, log2)
              | (Inr code1, w1, log2) \<Rightarrow> reroll env budget prompt left (retry + 1) code1 st1 w1 log2)"

definition draft_turn :: "'w loop_env \<Rightarrow> loop_config \<Rightarrow> string \<Rightarrow> exploit_state \<Rightarrow> 'w \<Rightarrow> loop_event list \<Rightarrow>
    string py \<times> exploit_state \<times> 'w \<times> loop_event list" where
  "draft_turn env cfg prompt st w log =
     (case generate_with_reads env (lc_read_budget cfg) 0 False prompt w log of
        (Inl e, w1, log1) \<Rightarrow> (Inl e, st, w1, log1)
      | (Inr code, w1, log1) \<Rightarrow> reroll env (lc_read_budget cfg) prompt (lc_retry_cap cfg) 0 code st w1 log1)"

text \<open>A draft counts its re-rolls and changes nothing else of the state.\<close>

lemma reroll_state: "reroll env budget prompt left retry code st w log = (r, st1, w1, log1) \<Longrightarrow> \<exists>n. st1 = st\<lparr>ls_retries := n\<rparr>"
proof (induction left arbitrary: retry code st w log)
  case 0
  then show ?case by (auto intro: exI [of _ "ls_retries st"])
next
  case (Suc left)
  show ?case
  proof (cases "py_strip code = []")
    case False
    then show ?thesis using Suc.prems by (auto intro: exI [of _ "ls_retries st"])
  next
    case True
    then show ?thesis using Suc.prems by (auto simp: Let_def dest!: Suc.IH split: prod.splits sum.splits)
  qed
qed

lemma draft_state: "draft_turn env cfg prompt st w log = (r, st1, w1, log1) \<Longrightarrow> \<exists>n. st1 = st\<lparr>ls_retries := n\<rparr>"
  by (auto simp: draft_turn_def intro: exI [of _ "ls_retries st"] dest: reroll_state split: prod.splits sum.splits)

lemma draft_calls: "draft_turn env cfg prompt st w log = (r, st1, w1, log1) \<Longrightarrow> ls_calls st1 = ls_calls st"
  by (auto dest: draft_state)

definition tail_text :: "nat \<Rightarrow> string \<Rightarrow> string" where
  "tail_text n s = drop (length s - n) s"

definition next_prompt :: "'w loop_env \<Rightarrow> string \<Rightarrow> string \<Rightarrow> string \<Rightarrow> string \<Rightarrow> observation \<Rightarrow> string" where
  "next_prompt env draft_prompt base out err ob =
     draft_prompt @
     (if base = [] then []
      else nl @ nl @ ''[DATA START last_compiling_poc]'' @ nl @ base @ nl @ ''[DATA END]'' @ nl @
           ''The PoC above COMPILED and reached execution. Start from IT and make the SMALLEST change '' @
           ''that fixes the failure below '' @ u_emdash @ '' do NOT rewrite from scratch, do NOT drop working setup, do '' @
           ''NOT reintroduce compile errors.'') @
     nl @ nl @ wrap_data env ''forge_output'' (py_strip (tail_text 4000 out @ nl @ tail_text 2000 err)) @
     nl @ nl @ render_observation env ob @
     nl @ nl @ ''Your previous attempt did NOT trigger the exploit assertion. The forge output '' @
     ''above is the ACTUAL failure. Fix it '' @ u_emdash @ '' READ:/GREP:/LOOKUP: the real target source and '' @
     ''types as needed '' @ u_emdash @ '' then return the corrected FINAL Solidity only.''"

definition signature_of :: "string \<Rightarrow> string list" where
  "signature_of blob = (if fail_signature blob \<noteq> [] then fail_signature blob else error_signature blob)"

text \<open>The end of the loop, after an iteration that did not pass: the call budget, the deadline, the spin.\<close>

definition stop_reason :: "'w loop_env \<Rightarrow> loop_config \<Rightarrow> exploit_state \<Rightarrow> 'w \<Rightarrow> loop_outcome option \<times> 'w" where
  "stop_reason env cfg st w =
     (if lc_budget cfg \<le> ls_calls st then (Some Out_budget, w)
      else let (late, w1) = le_deadline env w in
        if late then (Some Out_budget, w1)
        else if lc_spin_k cfg \<le> ls_spin st then (Some Out_spin, w1) else (None, w1))"

lemma stop_reason_None: "stop_reason env cfg st w = (None, w1) \<Longrightarrow> ls_calls st < lc_budget cfg"
  by (auto simp: stop_reason_def split: if_splits)

function exploit_run ::
  "'w loop_env \<Rightarrow> loop_config \<Rightarrow> string \<Rightarrow> string \<Rightarrow> string \<Rightarrow> exploit_state \<Rightarrow> 'w \<Rightarrow> loop_event list \<Rightarrow> loop_result py \<times> 'w \<times> loop_event list" where
  "exploit_run env cfg draft_prompt prompt last_compiling st w log =
     (case draft_turn env cfg prompt st w log of
        (Inl e, st1, w1, log1) \<Rightarrow> (Inl e, w1, log1)
      | (Inr code, st1, w1, log1) \<Rightarrow>
          if py_strip code = []
          then (Inr \<lparr>lr_outcome = Out_no_code, lr_code = code, lr_state = st1\<rparr>, w1, log1 @ [No_code (ls_calls st1 + 1) (ls_retries st1)])
          else (case le_run env code w1 of
             (Inl e, w2) \<Rightarrow> (Inl e, w2, log1)
           | (Inr (out, err), w2) \<Rightarrow>
               let st2 = st1\<lparr>ls_calls := ls_calls st1 + 1\<rparr>; blob = out @ nl @ err in
               if passed blob
               then (Inr \<lparr>lr_outcome = Out_triggered, lr_code = code, lr_state = st2\<rparr>, w2, log1 @ [Triggered (ls_calls st2)])
               else let compiled = compiled_signal out err;
                        last1 = (if compiled then code else last_compiling);
                        ob = build_observation out err;
                        st3 = record_iteration (lc_is_float cfg) (signature_of blob) ob st2;
                        log2 = log1 @ [Iteration (ls_calls st3) (ob_kind ob) (informative ob) (ls_spin st3) (length (ls_distinct st3))]
                    in case stop_reason env cfg st3 w2 of
                         (Some r, w3) \<Rightarrow> (Inr \<lparr>lr_outcome = r, lr_code = code, lr_state = st3\<rparr>, w3,
                            log2 @ (if r = Out_spin then [Spin_stop (ls_calls st3)] else []))
                       | (None, w3) \<Rightarrow>
                           exploit_run env cfg draft_prompt
                             (next_prompt env draft_prompt (if compiled then code else last1) out err ob) last1 st3 w3 log2))"
  by pat_completeness auto
termination
  by (relation "measure (\<lambda>(env, cfg, draft_prompt, prompt, last_compiling, st, w, log). lc_budget cfg - ls_calls st)")
    (auto dest!: stop_reason_None [OF sym] draft_calls [OF sym] simp: record_iteration_def Let_def)

declare exploit_run.simps [simp del]

definition exploit_loop :: "'w loop_env \<Rightarrow> loop_config \<Rightarrow> string \<Rightarrow> 'w \<Rightarrow> loop_result py \<times> 'w \<times> loop_event list" where
  "exploit_loop env cfg draft_prompt w = exploit_run env cfg draft_prompt draft_prompt [] initial_loop w []"

section \<open>A rule for the loop\<close>

text \<open>The state after an iteration that did not pass.\<close>

definition observed :: "loop_config \<Rightarrow> string \<Rightarrow> string \<Rightarrow> exploit_state \<Rightarrow> exploit_state" where
  "observed cfg out err st =
     record_iteration (lc_is_float cfg) (signature_of (out @ nl @ err)) (build_observation out err) (st\<lparr>ls_calls := ls_calls st + 1\<rparr>)"

lemma observed_calls [simp]: "ls_calls (observed cfg out err st) = ls_calls st + 1"
  by (simp add: observed_def record_iteration_def Let_def)

lemma exploit_run_goes_on:
  assumes "draft_turn env cfg prompt st w log = (Inr code, st1, w1, log1)" "py_strip code \<noteq> []"
    "le_run env code w1 = (Inr (out, err), w2)" "\<not> passed (out @ nl @ err)" "stop_reason env cfg (observed cfg out err st1) w2 = (None, w3)"
  shows "\<exists>p l log3. exploit_run env cfg draft_prompt prompt last_compiling st w log =
    exploit_run env cfg draft_prompt p l (observed cfg out err st1) w3 log3"
  using assms unfolding observed_def by (subst exploit_run.simps) (simp add: Let_def, blast)

lemma exploit_run_stops:
  assumes "draft_turn env cfg prompt st w log = (Inr code, st1, w1, log1)" "py_strip code \<noteq> []"
    "le_run env code w1 = (Inr (out, err), w2)" "\<not> passed (out @ nl @ err)" "stop_reason env cfg (observed cfg out err st1) w2 = (Some r, w3)"
  shows "\<exists>log3. exploit_run env cfg draft_prompt prompt last_compiling st w log =
    (Inr \<lparr>lr_outcome = r, lr_code = code, lr_state = observed cfg out err st1\<rparr>, w3, log3)"
  using assms unfolding observed_def by (subst exploit_run.simps) (simp add: Let_def)

text \<open>What holds at the head of an iteration, after its draft, and at the end: the rule asks for each way out of the body.\<close>

lemma exploit_run_rule:
  assumes "I st w"
    and "\<And>prompt st w log e st1 w1 log1. I st w \<Longrightarrow> draft_turn env cfg prompt st w log = (Inl e, st1, w1, log1) \<Longrightarrow> Q (Inl e) w1"
    and "\<And>prompt st w log code st1 w1 log1. I st w \<Longrightarrow> draft_turn env cfg prompt st w log = (Inr code, st1, w1, log1) \<Longrightarrow> J code st1 w1"
    and "\<And>code st w. J code st w \<Longrightarrow> py_strip code = [] \<Longrightarrow> Q (Inr \<lparr>lr_outcome = Out_no_code, lr_code = code, lr_state = st\<rparr>) w"
    and "\<And>code st w e w2. J code st w \<Longrightarrow> le_run env code w = (Inl e, w2) \<Longrightarrow> Q (Inl e) w2"
    and "\<And>code st w out err w2. J code st w \<Longrightarrow> py_strip code \<noteq> [] \<Longrightarrow> le_run env code w = (Inr (out, err), w2) \<Longrightarrow> passed (out @ nl @ err) \<Longrightarrow>
           Q (Inr \<lparr>lr_outcome = Out_triggered, lr_code = code, lr_state = st\<lparr>ls_calls := ls_calls st + 1\<rparr>\<rparr>) w2"
    and "\<And>code st w out err w2 r w3. J code st w \<Longrightarrow> py_strip code \<noteq> [] \<Longrightarrow> le_run env code w = (Inr (out, err), w2) \<Longrightarrow> \<not> passed (out @ nl @ err) \<Longrightarrow>
           stop_reason env cfg (observed cfg out err st) w2 = (Some r, w3) \<Longrightarrow> Q (Inr \<lparr>lr_outcome = r, lr_code = code, lr_state = (observed cfg out err st)\<rparr>) w3"
    and "\<And>code st w out err w2 w3. J code st w \<Longrightarrow> py_strip code \<noteq> [] \<Longrightarrow> le_run env code w = (Inr (out, err), w2) \<Longrightarrow> \<not> passed (out @ nl @ err) \<Longrightarrow>
           stop_reason env cfg (observed cfg out err st) w2 = (None, w3) \<Longrightarrow> I (observed cfg out err st) w3"
  shows "Q (fst (exploit_run env cfg draft_prompt prompt last_compiling st w log)) (fst (snd (exploit_run env cfg draft_prompt prompt last_compiling st w log)))"
  using assms
proof (induction "lc_budget cfg - ls_calls st" arbitrary: prompt last_compiling st w log rule: less_induct)
  case less
  note I = less.prems(1) and draft_fails = less.prems(2) and drafted = less.prems(3) and no_code = less.prems(4) and run_fails = less.prems(5)
    and triggers = less.prems(6) and stops = less.prems(7) and goes_on = less.prems(8)
  obtain d st1 w1 log1 where dt: "draft_turn env cfg prompt st w log = (d, st1, w1, log1)" by (metis prod_cases4)
  show ?case
  proof (cases d)
    case (Inl e)
    then show ?thesis using draft_fails [OF I dt [unfolded Inl]] by (subst (1 2) exploit_run.simps) (simp add: dt)
  next
    case (Inr code)
    note J = drafted [OF I dt [unfolded Inr]]
    show ?thesis
    proof (cases "py_strip code = []")
      case True
      then show ?thesis using no_code [OF J True] Inr by (subst (1 2) exploit_run.simps) (simp add: dt)
    next
      case False
      obtain x w2 where run: "le_run env code w1 = (x, w2)" by (metis prod.exhaust)
      show ?thesis
      proof (cases x)
        case (Inl e)
        then show ?thesis using run_fails [OF J] Inr False run  by (subst (1 2) exploit_run.simps) (simp add: dt)
      next
        case x: (Inr oe)
        obtain out err where oe: "oe = (out, err)" by (metis prod.exhaust)
        note run' = run [unfolded x oe]
        show ?thesis
        proof (cases "passed (out @ nl @ err)")
          case ps: True
          then show ?thesis using triggers [OF J False run' ps] Inr False run' by (subst (1 2) exploit_run.simps) (simp add: dt Let_def)
        next
          case np: False
          obtain r w3 where stop: "stop_reason env cfg (observed cfg out err st1) w2 = (r, w3)" by (metis prod.exhaust)
          show ?thesis
          proof (cases r)
            case (Some r')
            show ?thesis using exploit_run_stops [OF dt [unfolded Inr] False run' np stop [unfolded Some]] stops [OF J False run' np stop [unfolded Some]]
              by (metis fst_conv snd_conv)
          next
            case None
            have lt: "lc_budget cfg - ls_calls (observed cfg out err st1) < lc_budget cfg - ls_calls st"
              using draft_calls [OF dt] stop_reason_None [OF stop [unfolded None]] by simp
            obtain p l log3 where eq: "exploit_run env cfg draft_prompt prompt last_compiling st w log =
              exploit_run env cfg draft_prompt p l (observed cfg out err st1) w3 log3"
              using exploit_run_goes_on [OF dt [unfolded Inr] False run' np stop [unfolded None]] by blast
            show ?thesis unfolding eq
              by (rule less.hyps [OF lt goes_on [OF J False run' np stop [unfolded None]]])
                (fact draft_fails drafted no_code run_fails triggers stops goes_on)+
          qed
        qed
      qed
    qed
  qed
qed

section \<open>The state of the loop, as a function of its signatures\<close>

definition sigs :: "exploit_state \<Rightarrow> string list list" where "sigs st = map it_sig (ls_iterations st)"

text \<open>How often the last signature was repeated at the end, an empty one never.\<close>

definition trailing_repeats :: "string list list \<Rightarrow> nat" where
  "trailing_repeats ss = (case rev ss of [] \<Rightarrow> 0 | s # before \<Rightarrow> if s = [] then 0 else length (takeWhile ((=) s) before))"

lemma trailing_repeats_append:
  "trailing_repeats (ss @ [s]) = (if s \<noteq> [] \<and> ss \<noteq> [] \<and> last ss = s then trailing_repeats ss + 1 else 0)"
proof (cases ss rule: rev_cases)
  case Nil
  then show ?thesis by (simp add: trailing_repeats_def)
next
  case (snoc ys y)
  then show ?thesis by (auto simp: trailing_repeats_def)
qed

lemma trailing_repeats_same: "n \<le> trailing_repeats ss \<Longrightarrow> 0 < n \<Longrightarrow> \<exists>s. s \<noteq> [] \<and> drop (length ss - Suc n) ss = replicate (Suc n) s \<and> n < length ss"
proof (induction n arbitrary: ss)
  case 0
  then show ?case by simp
next
  case (Suc n)
  obtain ys s where ss: "ss = ys @ [s]" using Suc.prems by (cases ss rule: rev_cases) (auto simp: trailing_repeats_def)
  have s: "s \<noteq> []" "ys \<noteq> []" "last ys = s" "n \<le> trailing_repeats ys"
    using Suc.prems by (auto simp: ss trailing_repeats_append split: if_splits)
  show ?case
  proof (cases "n = 0")
    case True
    obtain zs where "ys = zs @ [s]" using s by (cases ys rule: rev_cases) auto
    then show ?thesis using s(1) True by (auto simp: ss)
  next
    case False
    obtain t where t: "t \<noteq> []" "drop (length ys - Suc n) ys = replicate (Suc n) t" "n < length ys" using Suc.IH [OF s(4)] False by auto
    have "last ys = t" using t by (metis last_drop last_replicate diff_less s(2) length_greater_0_conv zero_less_Suc nat.discI)
    then have "drop (length ss - Suc (Suc n)) ss = replicate (Suc n) s @ [s]" using t s(3) by (simp add: ss)
    then show ?thesis using s(1) t(3) by (auto simp: ss simp flip: replicate_append_same)
  qed
qed

lemma trailing_repeats_single [simp]: "trailing_repeats [s] = 0"
  by (simp add: trailing_repeats_def)

text \<open>The invariant of \<open>LoopState.record\<close>.\<close>

definition loop_inv :: "exploit_state \<Rightarrow> bool" where
  "loop_inv st =
     (ls_prev st = (if sigs st = [] then None else Some (last (sigs st))) \<and>
      set (ls_distinct st) = set (sigs st) \<and> distinct (ls_distinct st) \<and>
      ls_spin st = trailing_repeats (sigs st) \<and>
      ls_gaps st = concat (map (\<lambda>g. case g of None \<Rightarrow> [] | Some x \<Rightarrow> [x]) (map it_gap (ls_iterations st))))"

lemma sigs_record: "sigs (record_iteration is_float sig ob st) = sigs st @ [sig]"
  by (simp add: sigs_def record_iteration_def Let_def)

lemma record_fields:
  "ls_prev (record_iteration is_float sig ob st) = Some sig"
  "ls_distinct (record_iteration is_float sig ob st) = List.insert sig (ls_distinct st)"
  "ls_spin (record_iteration is_float sig ob st) = (if sig \<noteq> [] \<and> Some sig = ls_prev st then ls_spin st + 1 else 0)"
  "ls_gaps (record_iteration is_float sig ob st) = ls_gaps st @ (case gap_of is_float ob of None \<Rightarrow> [] | Some x \<Rightarrow> [x])"
  "map it_gap (ls_iterations (record_iteration is_float sig ob st)) = map it_gap (ls_iterations st) @ [gap_of is_float ob]"
  by (simp_all add: record_iteration_def Let_def)

lemma loop_inv_record:
  assumes "loop_inv st"
  shows "loop_inv (record_iteration is_float sig ob st)"
proof -
  note inv = assms [unfolded loop_inv_def]
  have "ls_spin (record_iteration is_float sig ob st) = trailing_repeats (sigs st @ [sig])"
    using inv by (cases "sigs st = []") (auto simp del: One_nat_def simp: record_fields trailing_repeats_append)
  moreover have "set (ls_distinct (record_iteration is_float sig ob st)) = insert sig (set (sigs st))" using inv by (simp add: record_fields)
  moreover have "distinct (ls_distinct (record_iteration is_float sig ob st))" using inv by (simp add: record_fields)
  ultimately show ?thesis using inv by (simp add: loop_inv_def sigs_record record_fields)
qed

lemma loop_inv_irrelevant [simp]: "loop_inv (st\<lparr>ls_calls := n\<rparr>) = loop_inv st" "loop_inv (st\<lparr>ls_retries := n\<rparr>) = loop_inv st"
  by (simp_all add: loop_inv_def sigs_def)

lemma loop_inv_initial: "loop_inv initial_loop"
  by (simp add: loop_inv_def initial_loop_def sigs_def trailing_repeats_def)

lemma observed_inv: "loop_inv st \<Longrightarrow> loop_inv (observed cfg out err st)"
  by (simp add: observed_def loop_inv_record)

lemma observed_iterations: "length (ls_iterations (observed cfg out err st)) = length (ls_iterations st) + 1"
  by (simp add: observed_def record_iteration_def Let_def)

section \<open>What an outcome means\<close>

lemma reroll_no_code:
  "reroll env budget prompt left retry code st w log = (Inr c, st1, w1, log1) \<Longrightarrow> py_strip c = [] \<Longrightarrow> ls_retries st1 = ls_retries st + left"
proof (induction left arbitrary: retry code st w log)
  case 0
  then show ?case by simp
next
  case (Suc left)
  show ?case
  proof (cases "py_strip code = []")
    case False
    then show ?thesis using Suc.prems by auto
  next
    case True
    then show ?thesis using Suc.prems by (auto simp: Let_def dest!: Suc.IH split: prod.splits sum.splits)
  qed
qed

lemma draft_no_code:
  "draft_turn env cfg prompt st w log = (Inr code, st1, w1, log1) \<Longrightarrow> py_strip code = [] \<Longrightarrow> ls_retries st1 = ls_retries st + lc_retry_cap cfg"
  by (auto simp: draft_turn_def dest: reroll_no_code split: prod.splits sum.splits)

definition outcome_ok :: "'w loop_env \<Rightarrow> loop_config \<Rightarrow> loop_result \<Rightarrow> bool" where
  "outcome_ok env cfg res =
     (let st = lr_state res; n = length (ls_iterations st) in
      loop_inv st \<and>
      (case lr_outcome res of
         Out_triggered \<Rightarrow> ls_calls st = n + 1 \<and> n < max 1 (lc_budget cfg) \<and> py_strip (lr_code res) \<noteq> [] \<and>
           (\<exists>w out err w1. le_run env (lr_code res) w = (Inr (out, err), w1) \<and> passed (out @ nl @ err))
       | Out_budget \<Rightarrow> ls_calls st = n \<and> 0 < n \<and> n \<le> max 1 (lc_budget cfg) \<and> (lc_budget cfg \<le> n \<or> (\<exists>w. fst (le_deadline env w)))
       | Out_spin \<Rightarrow> ls_calls st = n \<and> 0 < n \<and> n < lc_budget cfg \<and> lc_spin_k cfg \<le> trailing_repeats (sigs st)
       | Out_no_code \<Rightarrow> ls_calls st = n \<and> n < max 1 (lc_budget cfg) \<and> py_strip (lr_code res) = [] \<and> lc_retry_cap cfg \<le> ls_retries st))"

definition loop_head :: "loop_config \<Rightarrow> exploit_state \<Rightarrow> bool" where
  "loop_head cfg st = (loop_inv st \<and> ls_calls st = length (ls_iterations st) \<and> ls_calls st < max 1 (lc_budget cfg))"

lemma loop_head_draft:
  assumes "loop_head cfg st" "draft_turn env cfg prompt st w log = (d, st1, w1, log1)"
  shows "loop_head cfg st1"
  using draft_state [OF assms(2)] assms(1) by (auto simp: loop_head_def)

lemma stop_outcome:
  assumes "loop_head cfg st" "stop_reason env cfg (observed cfg out err st) w2 = (Some r, w3)"
  shows "outcome_ok env cfg \<lparr>lr_outcome = r, lr_code = code, lr_state = observed cfg out err st\<rparr>"
proof -
  have inv: "loop_inv (observed cfg out err st)" using assms(1) by (simp add: loop_head_def observed_inv)
  have n: "length (ls_iterations (observed cfg out err st)) = ls_calls st + 1" "ls_calls st + 1 \<le> max 1 (lc_budget cfg)"
    using assms(1) by (auto simp: loop_head_def observed_iterations)
  show ?thesis
  proof (cases "lc_budget cfg \<le> ls_calls (observed cfg out err st)")
    case True
    then show ?thesis using assms(2) inv n by (cases "ls_iterations (observed cfg out err st) = []") (auto simp: stop_reason_def outcome_ok_def Let_def)
  next
    case False
    obtain late w' where late: "le_deadline env w2 = (late, w')" by (metis prod.exhaust)
    have "\<exists>w. fst (le_deadline env w)" if late using that late by (metis fst_conv)
    moreover have "ls_spin (observed cfg out err st) = trailing_repeats (sigs (observed cfg out err st))" using inv by (simp add: loop_inv_def)
    ultimately show ?thesis using False assms(2) inv n late
      by (cases late) (auto simp: stop_reason_def outcome_ok_def Let_def split: if_splits)
  qed
qed

text \<open>C17: What \<open>exploit_loop.run\<close> returns is what its outcome says. \<open>triggered\<close>: the returned code was run and that
  run passed, every earlier run is recorded as an iteration. \<open>budget_exhausted\<close>: the calls are used up or the
  deadline has passed. \<open>spin_stopped\<close>: the last signature was repeated at least \<open>spin_k\<close> times in a row and the budget was
  not used up. \<open>no_code\<close>: there is no code and every re-roll of the turn was used. The calls used are the recorded iterations,
  never more than the budget (or one), and the recorded spin, distinct signatures and gaps are those of the iterations.\<close>

theorem exploit_outcome:
  "case exploit_loop env cfg draft_prompt w of (Inl e, w1, log) \<Rightarrow> True | (Inr res, w1, log) \<Rightarrow> outcome_ok env cfg res"
proof -
  let ?Q = "\<lambda>r (w :: 'a). case r of Inl e \<Rightarrow> True | Inr res \<Rightarrow> outcome_ok env cfg res"
  have "?Q (fst (exploit_loop env cfg draft_prompt w)) (fst (snd (exploit_loop env cfg draft_prompt w)))"
    unfolding exploit_loop_def
  proof (rule exploit_run_rule [where I = "\<lambda>st w. loop_head cfg st" and Q = ?Q
        and J = "\<lambda>code st w. loop_head cfg st \<and> (py_strip code = [] \<longrightarrow> lc_retry_cap cfg \<le> ls_retries st)"])
    show "loop_head cfg initial_loop" by (simp add: loop_head_def loop_inv_initial) (simp add: initial_loop_def)
  next
    fix prompt st and w :: 'a and log code st1 w1 log1
    assume "loop_head cfg st" "draft_turn env cfg prompt st w log = (Inr code, st1, w1, log1)"
    then show "loop_head cfg st1 \<and> (py_strip code = [] \<longrightarrow> lc_retry_cap cfg \<le> ls_retries st1)"
      using loop_head_draft draft_no_code by fastforce
  next
    fix code st
    assume "loop_head cfg st \<and> (py_strip code = [] \<longrightarrow> lc_retry_cap cfg \<le> ls_retries st)" "py_strip code = []"
    then show "?Q (Inr \<lparr>lr_outcome = Out_no_code, lr_code = code, lr_state = st\<rparr>) w"
      by (simp add: outcome_ok_def loop_head_def Let_def)
  next
    fix code st and w :: 'a and out err w2
    assume "loop_head cfg st \<and> (py_strip code = [] \<longrightarrow> lc_retry_cap cfg \<le> ls_retries st)" "py_strip code \<noteq> []"
      "le_run env code w = (Inr (out, err), w2)" "passed (out @ nl @ err)"
    then show "?Q (Inr \<lparr>lr_outcome = Out_triggered, lr_code = code, lr_state = st\<lparr>ls_calls := ls_calls st + 1\<rparr>\<rparr>) w2"
      by (auto simp: outcome_ok_def loop_head_def Let_def)
  next
    fix code st and w :: 'a and out err w2 r w3
    assume "loop_head cfg st \<and> (py_strip code = [] \<longrightarrow> lc_retry_cap cfg \<le> ls_retries st)"
      "stop_reason env cfg (observed cfg out err st) w2 = (Some r, w3)"
    then show "?Q (Inr \<lparr>lr_outcome = r, lr_code = code, lr_state = observed cfg out err st\<rparr>) w3" by (simp add: stop_outcome)
  next
    fix code st and w :: 'a and out err w2 w3
    assume "loop_head cfg st \<and> (py_strip code = [] \<longrightarrow> lc_retry_cap cfg \<le> ls_retries st)"
      and stop: "stop_reason env cfg (observed cfg out err st) w2 = (None, w3)"
    then show "loop_head cfg (observed cfg out err st)"
      using stop_reason_None [OF stop] by (simp add: loop_head_def observed_inv observed_iterations)
  qed auto
  then show ?thesis by (simp add: case_prod_beta split: sum.splits)
qed

text \<open>Counters of the calls of the model and of the test runs, in the state of the world.\<close>

definition counts_calls :: "'w loop_env \<Rightarrow> ('w \<Rightarrow> nat) \<Rightarrow> ('w \<Rightarrow> nat) \<Rightarrow> bool" where
  "counts_calls env gens runs =
     ((\<forall>p w. gens (snd (le_generate env p w)) = gens w + 1 \<and> runs (snd (le_generate env p w)) = runs w) \<and>
      (\<forall>c w. gens (snd (le_run env c w)) = gens w \<and> runs (snd (le_run env c w)) = runs w + 1) \<and>
      (\<forall>w. gens (snd (le_deadline env w)) = gens w \<and> runs (snd (le_deadline env w)) = runs w))"

lemma counts_generate:
  "counts_calls env gens runs \<Longrightarrow> le_generate env p w = (x, w1) \<Longrightarrow> gens w1 = gens w + 1 \<and> runs w1 = runs w"
  by (metis counts_calls_def snd_conv)

lemma counts_run: "counts_calls env gens runs \<Longrightarrow> le_run env c w = (x, w1) \<Longrightarrow> gens w1 = gens w \<and> runs w1 = runs w + 1"
  by (metis counts_calls_def snd_conv)

lemma counts_stop: "counts_calls env gens runs \<Longrightarrow> stop_reason env cfg st w = (x, w1) \<Longrightarrow> gens w1 = gens w \<and> runs w1 = runs w"
  by (auto simp: stop_reason_def counts_calls_def Let_def split: if_splits prod.splits) (metis snd_conv)+

lemma generate_with_reads_calls:
  "counts_calls env gens runs \<Longrightarrow> generate_with_reads env budget used forced cur w log = (r, w1, log1) \<Longrightarrow>
    gens w1 \<le> gens w + (budget - used) + (if forced then 1 else 2) \<and> runs w1 = runs w"
proof (induction env budget used forced cur w log arbitrary: r w1 log1 rule: generate_with_reads.induct)
  case (1 env budget used forced cur w log)
  obtain x w2 where g: "le_generate env cur w = (x, w2)" by (metis prod.exhaust)
  note c = counts_generate [OF "1.prems"(1) g]
  show ?case
  proof (cases x)
    case (Inl e)
    then show ?thesis using "1.prems"(2) g c by (simp add: generate_with_reads.simps)
  next
    case (Inr raw)
    show ?thesis
    proof (cases "parse_requests raw")
      case (Inl e)
      then show ?thesis using "1.prems"(2) g c \<open>x = Inr raw\<close> by (simp add: generate_with_reads.simps)
    next
      case (Inr rr)
      obtain reads refusals where rr: "rr = (reads, refusals)" by (metis prod.exhaust)
      note IH1 = "1.IH"(1) [OF g [symmetric] \<open>x = Inr raw\<close> Inr rr [symmetric] _ "1.prems"(1)]
      note IH2 = "1.IH"(2) [OF g [symmetric] \<open>x = Inr raw\<close> Inr rr [symmetric] _ _ "1.prems"(1)]
      show ?thesis
      proof (cases "reads \<noteq> [] \<and> used < budget")
        case True
        define k where "k = length (take (budget - used) reads)"
        have "budget - (used + k) + 1 \<le> budget - used" using True by (cases reads) (auto simp: k_def)
        moreover have "generate_with_reads env budget (used + k) forced
            (cur @ nl @ nl @ fst (resolve_reads env (take (budget - used) reads)) @ continue_prompt) w2
            (log @ map refused_verb refusals @ snd (resolve_reads env (take (budget - used) reads))) = (r, w1, log1)"
          using "1.prems"(2) True g \<open>x = Inr raw\<close> Inr rr unfolding k_def by (simp add: generate_with_reads.simps [of env budget used])
        ultimately show ?thesis using IH1 [OF True, folded k_def] c by fastforce
      next
        case nr: False
        show ?thesis
        proof (cases "extract_solidity raw \<noteq> [] \<or> forced")
          case True
          then show ?thesis using "1.prems"(2) nr g c \<open>x = Inr raw\<close> Inr rr by (auto simp: generate_with_reads.simps [of env budget used])
        next
          case False
          then show ?thesis using IH2 [OF nr False] "1.prems"(2) nr g c \<open>x = Inr raw\<close> Inr rr
            by (simp add: generate_with_reads.simps [of env budget used])
        qed
      qed
    qed
  qed
qed

lemma reroll_calls:
  "counts_calls env gens runs \<Longrightarrow> reroll env budget prompt left retry code st w log = (r, st1, w1, log1) \<Longrightarrow>
    gens w1 \<le> gens w + left * (budget + 2) \<and> runs w1 = runs w"
proof (induction left arbitrary: retry code st w log)
  case 0
  then show ?case by simp
next
  case (Suc left)
  show ?case
  proof (cases "py_strip code = []")
    case False
    then show ?thesis using Suc.prems by auto
  next
    case True
    define st' where "st' = st\<lparr>ls_retries := ls_retries st + 1\<rparr>"
    define log' where "log' = log @ [Degenerate_retry (ls_calls st' + 1) (retry + 1) (ls_retries st')]"
    obtain d w2 log2 where g: "generate_with_reads env budget 0 False prompt w log' = (d, w2, log2)" by (metis prod_cases3)
    note c = generate_with_reads_calls [OF Suc.prems(1) g]
    show ?thesis
    proof (cases d)
      case (Inl e)
      then show ?thesis using Suc.prems(2) True g c by (simp add: Let_def st'_def log'_def)
    next
      case (Inr code1)
      have "reroll env budget prompt left (retry + 1) code1 st' w2 log2 = (r, st1, w1, log1)"
        using Suc.prems(2) True g Inr by (simp add: Let_def st'_def log'_def)
      from Suc.IH [OF Suc.prems(1) this] c show ?thesis by simp
    qed
  qed
qed

lemma draft_turn_calls:
  assumes "counts_calls env gens runs" "draft_turn env cfg prompt st w log = (r, st1, w1, log1)"
  shows "gens w1 \<le> gens w + (lc_retry_cap cfg + 1) * (lc_read_budget cfg + 2) \<and> runs w1 = runs w"
proof -
  obtain d w2 log2 where g: "generate_with_reads env (lc_read_budget cfg) 0 False prompt w log = (d, w2, log2)" by (metis prod_cases3)
  note c = generate_with_reads_calls [OF assms(1) g]
  show ?thesis
  proof (cases d)
    case (Inl e)
    then show ?thesis using assms(2) g c by (simp add: draft_turn_def)
  next
    case (Inr code)
    then have "reroll env (lc_read_budget cfg) prompt (lc_retry_cap cfg) 0 code st w2 log2 = (r, st1, w1, log1)"
      using assms(2) g by (simp add: draft_turn_def)
    from reroll_calls [OF assms(1) this] c show ?thesis by simp
  qed
qed

lemma stop_bounded:
  assumes "counts_calls env gens runs" "draft_turn env cfg prompt st w log = (d, st1, w1, log1)" "ls_calls st < b"
    "gens w \<le> g0 + ls_calls st * ((lc_retry_cap cfg + 1) * (lc_read_budget cfg + 2))" "runs w \<le> r0 + ls_calls st"
  shows "gens w1 \<le> g0 + (ls_calls st1 + 1) * ((lc_retry_cap cfg + 1) * (lc_read_budget cfg + 2)) \<and> runs w1 \<le> r0 + ls_calls st1 \<and> ls_calls st1 < b"
  using draft_turn_calls [OF assms(1,2)] draft_calls [OF assms(2)] assms(3-) by simp


definition stubborn_env :: "(nat \<times> nat) loop_env" where
  "stubborn_env = \<lparr>le_generate = (\<lambda>p (g, r). (Inr ''I think so.'', (g + 1, r))), le_run = (\<lambda>c (g, r). (Inr ([], []), (g, r + 1))),
     le_deadline = (\<lambda>w. (False, w)), le_read = (\<lambda>p. Inl ''refused''), le_search = (\<lambda>p. Inl ''refused''),
     le_sanitize = (\<lambda>t. (t, [])), le_root = ''/audit'', le_index = None\<rparr>"

definition small_loop :: loop_config where
  "small_loop = \<lparr>lc_budget = 4, lc_spin_k = 3, lc_read_budget = 3, lc_retry_cap = 2, lc_is_float = (\<lambda>_. False)\<rparr>"


section \<open>Requests\<close>

lemma parse_requests_verbs:
  assumes "parse_requests raw = Inr (reads, refusals)"
  shows "(\<forall>(v, a) \<in> set reads. v \<in> set READ_ONLY_VERBS) \<and> (\<forall>(v, a) \<in> set refusals. v \<notin> set READ_ONLY_VERBS)"
proof
  show "\<forall>(v, a) \<in> set reads. v \<in> set READ_ONLY_VERBS"
    using assms by (auto simp: parse_requests_def Let_def bindE_Inr READ_ONLY_VERBS_def)
  obtain rs where rs: "mapE (refusal_of (split_verbs raw)) (re_finditer ANY_VERB_RE (split_verbs raw)) = Inr rs" "refusals = concat rs"
    using assms by (auto simp: parse_requests_def Let_def bindE_Inr)
  have "v \<notin> set READ_ONLY_VERBS" if "(v, a) \<in> set (concat rs)" for v a
  proof -
    obtain r where r: "r \<in> set rs" "(v, a) \<in> set r" using \<open>(v, a) \<in> set (concat rs)\<close> by auto
    obtain m where "refusal_of (split_verbs raw) m = Inr r" using mapE_Inr_set [OF rs(1) r(1)] by blast
    then show ?thesis using r(2) by (auto simp: refusal_of_def Let_def split: if_splits list.splits)
  qed
  then show "\<forall>(v, a) \<in> set refusals. v \<notin> set READ_ONLY_VERBS" using rs(2) by auto
qed

text \<open>A text of a blank line and a line that begins with another verb is not parsed: the first line of that match is
  the blank one, without a colon.\<close>

lemma blank_line_before_verb: "parse_requests (''A'' @ nl @ nl @ ''NO: b'') = raise ''IndexError'' ''list index out of range''"
  by code_simp

text \<open>Without a pragma line no import is inserted, and yet a change is reported.\<close>

lemma change_reported_without_pragma:
  assumes "re_search (imports_base_re base) code = None" "re_finditer PRAGMA_LINE_RE code = []" "base \<noteq> []" "base \<notin> set STD_BASES"
    "filter (\<lambda>s. sy_kind s = ''contract'' \<or> sy_kind s = ''interface'') (lookup idx base) = s # ss"
  shows "import_base idx poc_dir base (code, False) = (code, True)"
  using assms by (simp add: import_base_def re_subst_def)

end
