(* ===== verification/Proof_Bench.thy ===== *)
theory Proof_Bench
  imports Complex_Main Bench
begin

text \<open>
  The proof benchmark (\<open>scripts/proof_bench.py\<close>): loading fix-bearing cases, the credible interval of a
  success rate, the furthest stage of a run from its events, the attrition funnel, the report and the comparison of two
  reports. A \<open>float\<close> is an exact rational number; the logarithm, the exponential and the logarithm of the gamma
  function are fields of a record; a run of the harness is its standard output, or nothing when it timed out. Rounding in the
  written report, the rendered text and the command line are left out.

  The lemmas: the quantile search always ends by its tolerance, on a bracket of the level; an interval has its
  ends in order, between 0 and 1; the funnel counts every run once; and a comparison never finds a
  winner between overlapping intervals or different configurations.
\<close>

section \<open>Entities\<close>

record proof_case =
  pc_id :: string
  pc_target :: string
  pc_report :: string
  pc_finding :: string
  pc_fix :: string
  pc_title :: string
  pc_location :: string
  pc_description :: string
  pc_class :: string

record run_config =
  rc_case_set :: string
  rc_provider :: string
  rc_model :: string
  rc_scaffold :: string
  rc_example :: string
  rc_settings :: "(string \<times> bool) list"
  rc_n :: int
  rc_harness :: string

datatype proof_stage = Extracted | Draft | Compiled | Real_pass | Verified | Not_extracted | Stage_error

record case_outcome =
  co_case :: string
  co_run :: nat
  co_stage :: proof_stage
  co_outcome :: string
  co_reason :: string

record interval =
  iv_lo :: rat
  iv_hi :: rat
  iv_mass :: rat
  iv_successes :: int
  iv_trials :: int

definition iv_width :: "interval \<Rightarrow> rat" where "iv_width i = iv_hi i - iv_lo i"

record funnel =
  fu_survivors :: "(proof_stage \<times> nat) list"
  fu_casualties :: "(proof_stage \<times> string list) list"
  fu_off_ladder :: "(proof_stage \<times> string list) list"

record proof_report =
  pr_interval :: interval
  pr_funnel :: funnel
  pr_config :: run_config
  pr_by_class :: "(string \<times> interval) list"

definition STAGES :: "proof_stage list" where "STAGES = [Extracted, Draft, Compiled, Real_pass, Verified]"

definition stage_name :: "proof_stage \<Rightarrow> string" where
  "stage_name s = (case s of Extracted \<Rightarrow> ''extracted'' | Draft \<Rightarrow> ''draft'' | Compiled \<Rightarrow> ''compiled'' | Real_pass \<Rightarrow> ''real_pass''
     | Verified \<Rightarrow> ''verified'' | Not_extracted \<Rightarrow> ''not_extracted'' | Stage_error \<Rightarrow> ''error'')"

section \<open>Loading\<close>

definition proof_bench_error :: "string \<Rightarrow> 'a py" where "proof_bench_error msg = raise ''ProofBenchError'' msg"

definition external_proof :: "bench_files \<Rightarrow> string \<Rightarrow> string \<Rightarrow> string py" where
  "external_proof fs p what =
     (let r = bf_resolve fs p in
      if inside (bf_agent_root fs) r
      then proof_bench_error (what @ '' must be EXTERNAL to the agent repo, got: '' @ r)
      else Inr r)"

definition REQUIRED_KEYS :: "string list" where
  "REQUIRED_KEYS = [''target_path'', ''report_path'', ''finding_id'', ''title'', ''location'', ''description'']"

definition require_key :: "string \<Rightarrow> json \<Rightarrow> string \<Rightarrow> unit py" where
  "require_key case_id m key =
     bindE (jget m key (JStr [])) (\<lambda>v.
       if py_strip (py_str v) = []
       then proof_bench_error (case_id @ '': missing '' @ key @ '' - a proof-eval case must carry its curated finding '' @
              ''(title/location/description) so it can be pinned; no fallback to model extraction'')
       else Inr ())"

definition load_proof_case :: "bench_files \<Rightarrow> string \<Rightarrow> proof_case py" where
  "load_proof_case fs case_dir0 =
     bindE (external_proof fs case_dir0 ''case dir'') (\<lambda>dir.
     if \<not> bf_is_file fs (dir @ ''/case.json'') then proof_bench_error (''missing case.json in '' @ dir)
     else bindE (bf_json fs (dir @ ''/case.json'')) (\<lambda>m.
     bindE (jget m ''case_id'' JNull) (\<lambda>cid.
     let case_id = py_str (if truthy cid then cid else JStr (path_name dir)) in
     bindE (jget m ''fix_path'' JNull) (\<lambda>fix_raw.
     if \<not> truthy fix_raw
     then proof_bench_error (case_id @ '': no fix_path - every proof-eval case needs an operator fix '' @
            ''(verified is unreachable without one; a lead is promoted or discarded, not a case)'')
     else bindE (path_arg fix_raw) (\<lambda>fix_text. bindE (external_proof fs fix_text (case_id @ '' fix_path'')) (\<lambda>fix_path.
     if \<not> bf_is_file fs fix_path then proof_bench_error (case_id @ '': fix_path does not exist: '' @ fix_path)
     else bindE (mapE (require_key case_id m) REQUIRED_KEYS) (\<lambda>_.
     bindE (jget m ''target_path'' JNull) (\<lambda>target.
     bindE (path_arg target) (\<lambda>target_text.
     bindE (external_proof fs target_text (case_id @ '' target_path'')) (\<lambda>target_path.
     bindE (jget m ''report_path'' JNull) (\<lambda>report. bindE (path_arg report) (\<lambda>report_text.
     bindE (jget m ''finding_id'' JNull) (\<lambda>fid.
     bindE (jget m ''title'' JNull) (\<lambda>title.
     bindE (jget m ''location'' JNull) (\<lambda>loc.
     bindE (jget m ''description'' JNull) (\<lambda>descr.
     bindE (jget m ''finding_class'' JNull) (\<lambda>fc.
     bindE (jget m ''class'' JNull) (\<lambda>c.
       Inr \<lparr>pc_id = case_id, pc_target = target_path, pc_report = bf_expand fs report_text, pc_finding = py_str fid,
            pc_fix = fix_path, pc_title = py_str title, pc_location = py_str loc, pc_description = py_str descr,
            pc_class = py_str (por (por fc c) (JStr []))\<rparr>))))))))))))))))))"

definition load_proof_dataset :: "bench_files \<Rightarrow> string \<Rightarrow> proof_case list py" where
  "load_proof_dataset fs root0 =
     bindE (external_proof fs root0 ''proof-bench root'') (\<lambda>root.
     let cases_dir = root @ ''/cases'' in
     if \<not> bf_is_dir fs cases_dir then proof_bench_error (''no cases/ under '' @ root)
     else mapE (load_proof_case fs) (filter (bf_is_dir fs) (sort_key path_key (bf_list fs cases_dir))))"

section \<open>The credible interval\<close>

record math_lib =
  ma_lgamma :: "rat \<Rightarrow> rat"
  ma_log :: "rat \<Rightarrow> rat"
  ma_exp :: "rat \<Rightarrow> rat"

definition BETACF_ITMAX :: nat where "BETACF_ITMAX = 300"
definition BETACF_EPS :: rat where "BETACF_EPS = 3 / 10 ^ 14"
definition PPF_TOL :: rat where "PPF_TOL = 1 / 10 ^ 12"
definition PPF_ITMAX :: nat where "PPF_ITMAX = 200"

definition off_zero :: "rat \<Rightarrow> rat" where "off_zero d = (if \<bar>d\<bar> < 1 / 10 ^ 30 then 1 / 10 ^ 30 else d)"

text \<open>The rounds \<open>mm\<close>, ... of Lentz's continued fraction, with the state \<open>(c, d, h)\<close>.\<close>

fun betacf_rounds :: "rat \<Rightarrow> rat \<Rightarrow> rat \<Rightarrow> nat \<Rightarrow> nat \<Rightarrow> rat \<Rightarrow> rat \<Rightarrow> rat \<Rightarrow> rat" where
  "betacf_rounds a b x 0 mm c d h = h"
| "betacf_rounds a b x (Suc left) mm c d h =
     (let m = of_nat mm; m2 = 2 * m;
          aa = m * (b - m) * x / ((a - 1 + m2) * (a + m2));
          d1 = off_zero (1 + aa * d); c1 = off_zero (1 + aa / c);
          d2 = 1 / d1; h1 = h * (d2 * c1);
          ab = - (a + m) * (a + b + m) * x / ((a + m2) * (a + 1 + m2));
          d3 = off_zero (1 + ab * d2); c2 = off_zero (1 + ab / c1);
          d4 = 1 / d3; de = d4 * c2; h2 = h1 * de
      in if \<bar>de - 1\<bar> < BETACF_EPS then h2 else betacf_rounds a b x left (mm + 1) c2 d4 h2)"

definition betacf :: "rat \<Rightarrow> rat \<Rightarrow> rat \<Rightarrow> rat" where
  "betacf a b x =
     (let d = 1 / off_zero (1 - (a + b) * x / (a + 1)) in betacf_rounds a b x BETACF_ITMAX 1 1 d d)"

definition betai :: "math_lib \<Rightarrow> rat \<Rightarrow> rat \<Rightarrow> rat \<Rightarrow> rat" where
  "betai ml a b x =
     (if x \<le> 0 then 0 else if 1 \<le> x then 1
      else let bt = ma_exp ml (ma_lgamma ml (a + b) - ma_lgamma ml a - ma_lgamma ml b + a * ma_log ml x + b * ma_log ml (1 - x))
           in if x < (a + 1) / (a + b + 2) then bt * betacf a b x / a else 1 - bt * betacf b a (1 - x) / b)"

text \<open>The bisection: the bracket after the rounds.\<close>

fun bisect :: "(rat \<Rightarrow> rat) \<Rightarrow> rat \<Rightarrow> nat \<Rightarrow> rat \<times> rat \<Rightarrow> rat \<times> rat" where
  "bisect cdf p 0 br = br"
| "bisect cdf p (Suc left) br =
     (case br of (lo, hi) \<Rightarrow>
        let mid = 1 / 2 * (lo + hi); br1 = (if cdf mid < p then (mid, hi) else (lo, mid))
        in if snd br1 - fst br1 < PPF_TOL then br1 else bisect cdf p left br1)"

definition beta_ppf :: "math_lib \<Rightarrow> rat \<Rightarrow> rat \<Rightarrow> rat \<Rightarrow> rat" where
  "beta_ppf ml p a b = (case bisect (betai ml a b) p PPF_ITMAX (0, 1) of (lo, hi) \<Rightarrow> 1 / 2 * (lo + hi))"

definition credible_interval :: "math_lib \<Rightarrow> int \<Rightarrow> int \<Rightarrow> rat \<Rightarrow> interval py" where
  "credible_interval ml successes trials mass =
     (if trials < 0 \<or> successes < 0 \<or> trials < successes
      then proof_bench_error (''bad (successes, trials) = ('' @ int_str successes @ '', '' @ int_str trials @ '')'')
      else let a = of_int successes + 1 / 2; b = of_int (trials - successes) + 1 / 2; tail = (1 - mass) / 2
           in Inr \<lparr>iv_lo = (if trials = 0 then 0 else beta_ppf ml tail a b),
                   iv_hi = (if trials = 0 then 1 else beta_ppf ml (1 - tail) a b),
                   iv_mass = mass, iv_successes = successes, iv_trials = trials\<rparr>)"

definition dominates :: "interval \<Rightarrow> interval \<Rightarrow> bool" where "dominates a b = (iv_hi b < iv_lo a)"

definition resolve_pair :: "interval \<Rightarrow> interval \<Rightarrow> bool" where
  "resolve_pair a b = (dominates a b \<or> dominates b a)"

section \<open>Comparison\<close>

definition config_diffs :: "run_config \<Rightarrow> run_config \<Rightarrow> string list" where
  "config_diffs a b =
     sort_key (\<lambda>k. k) (
       (if rc_case_set a \<noteq> rc_case_set b then [''case_set_id''] else []) @
       (if rc_provider a \<noteq> rc_provider b then [''provider''] else []) @
       (if rc_model a \<noteq> rc_model b then [''model''] else []) @
       (if rc_scaffold a \<noteq> rc_scaffold b then [''scaffold''] else []) @
       (if rc_example a \<noteq> rc_example b then [''example''] else []) @
       (if set (rc_settings a) \<noteq> set (rc_settings b) then [''settings''] else []) @
       (if rc_n a \<noteq> rc_n b then [''n''] else []))"

datatype comparison =
    Config_mismatch "string list"
  | Compared bool bool interval interval     \<comment> \<open>a is better, b is better\<close>

definition compare_reports :: "proof_report \<Rightarrow> proof_report \<Rightarrow> comparison" where
  "compare_reports a b =
     (let diffs = config_diffs (pr_config a) (pr_config b); ia = pr_interval a; ib = pr_interval b in
      if diffs \<noteq> [] then Config_mismatch diffs
      else if iv_hi ia < iv_lo ib then Compared False True ia ib
      else if iv_hi ib < iv_lo ia then Compared True False ia ib
      else Compared False False ia ib)"

section \<open>The stage of a run\<close>

type_synonym run_event = "(string \<times> json) list"

definition events_named :: "string \<Rightarrow> run_event list \<Rightarrow> run_event list" where
  "events_named name evs = filter (\<lambda>e. dict_get e ''event'' = Some (JStr name)) evs"

definition event_flag :: "string \<Rightarrow> run_event \<Rightarrow> bool" where
  "event_flag k e = (case dict_get e k of None \<Rightarrow> False | Some v \<Rightarrow> truthy v)"

text \<open>Whether some \<open>extracted\<close> event names the finding; the events behind the first that does are not looked at.\<close>

fun any_extracted :: "string \<Rightarrow> run_event list \<Rightarrow> bool py" where
  "any_extracted fid [] = Inr False"
| "any_extracted fid (e # es) =
     bindE (jiter (dict_getd e ''ids'' (JList []))) (\<lambda>ids.
       if fid \<in> set (map (\<lambda>i. py_lower (py_str i)) ids) then Inr True else any_extracted fid es)"

definition run_stage :: "run_event list \<Rightarrow> string \<Rightarrow> proof_stage py" where
  "run_stage evs finding_id =
     (let by = (\<lambda>name. events_named name evs); fid = py_lower finding_id in
      if by ''run_error'' \<noteq> [] \<or> by ''sandbox_unavailable'' \<noteq> [] \<or> by ''timeout'' \<noteq> [] then Inr Stage_error
      else bindE (any_extracted fid (by ''extracted'')) (\<lambda>got.
        if \<not> got \<or> by ''only_ids_not_found'' \<noteq> [] then Inr Not_extracted
        else let reached0 = Extracted;
                 reached1 = (if by ''written'' \<noteq> [] then Draft else reached0);
                 reached2 = (if list_ex (event_flag ''compiled'') (by ''tested'') then Compiled else reached1);
                 reached3 = (if list_ex (event_flag ''real_pass'') (by ''tested'') then Real_pass else reached2)
             in Inr (if list_ex (\<lambda>e. dict_get e ''outcome'' = Some (JStr ''passed_verified'')) (by ''task_done'') then Verified else reached3)))"

text \<open>The events on the lines of a standard output; \<open>loads\<close> is \<open>json.loads\<close>, nothing where it raises.\<close>

definition parse_event :: "(string \<Rightarrow> run_event option) \<Rightarrow> string \<Rightarrow> run_event option" where
  "parse_event loads line0 = (let line = py_strip line0 in if py_startswith line ''{'' then loads line else None)"

definition parse_events :: "(string \<Rightarrow> run_event option) \<Rightarrow> string \<Rightarrow> run_event list" where
  "parse_events loads out = List.map_filter (parse_event loads) (py_splitlines out)"

definition outcome_of_run :: "(string \<Rightarrow> run_event option) \<Rightarrow> proof_case \<Rightarrow> nat \<times> string option \<Rightarrow> case_outcome py" where
  "outcome_of_run loads cs run =
     (case run of
        (i, None) \<Rightarrow> Inr \<lparr>co_case = pc_id cs, co_run = i, co_stage = Stage_error, co_outcome = ''harness_timeout'', co_reason = []\<rparr>
      | (i, Some out) \<Rightarrow>
          (let evs = parse_events loads out;
               fin = (case rev (events_named ''task_done'' evs) of [] \<Rightarrow> [] | e # _ \<Rightarrow> e)
           in bindE (run_stage evs (pc_finding cs)) (\<lambda>stage.
                Inr \<lparr>co_case = pc_id cs, co_run = i, co_stage = stage,
                     co_outcome = py_str (dict_getd fin ''outcome'' (JStr [])),
                     co_reason = py_str (dict_getd fin ''verify_reason'' (JStr []))\<rparr>)))"

text \<open>The command line of the harness for a case whose finding is pinned in a file, and the runs of a case: \<open>launch\<close>
  is the output of a run of a command line, or nothing for a timeout.\<close>

record harness_options =
  hp_python :: string
  hp_runner :: string
  hp_image :: string
  hp_fork :: bool
  hp_minutes :: string      \<comment> \<open>\<open>str(max_minutes)\<close>\<close>

definition harness_argv :: "harness_options \<Rightarrow> run_config \<Rightarrow> proof_case \<Rightarrow> string \<Rightarrow> string list" where
  "harness_argv hp cfg cs task_path =
     [hp_python hp, hp_runner hp, ''--project'', pc_target cs, ''--report'', pc_report cs, ''--tasks-from'', task_path,
      ''--fix-patch'', pc_finding cs @ ''='' @ pc_fix cs, ''--provider'', rc_provider cfg, ''--model'', rc_model cfg] @
     (if rc_scaffold cfg \<noteq> [] then [''--test-scaffold'', rc_scaffold cfg] else []) @
     (if rc_example cfg \<noteq> [] then [''--example-poc'', rc_example cfg] else []) @
     (if hp_image hp \<noteq> [] then [''--image'', hp_image hp] else []) @
     (if hp_fork hp then [''--fork''] else []) @
     [''--max-minutes'', hp_minutes hp]"

definition pinned_task :: "proof_case \<Rightarrow> json" where
  "pinned_task cs =
     JList [JObj [(''id'', JStr (pc_finding cs)), (''title'', JStr (pc_title cs)), (''location'', JStr (pc_location cs)),
       (''description'', JStr (pc_description cs))]]"

definition run_proof_case ::
  "(string \<Rightarrow> run_event option) \<Rightarrow> (json \<Rightarrow> string list \<Rightarrow> nat \<Rightarrow> string option) \<Rightarrow> harness_options \<Rightarrow> run_config \<Rightarrow> proof_case \<Rightarrow>
     string \<Rightarrow> case_outcome list py" where
  "run_proof_case loads launch hp cfg cs task_path =
     mapE (\<lambda>i. outcome_of_run loads cs (i, launch (pinned_task cs) (harness_argv hp cfg cs task_path) i)) [0..<nat (rc_n cfg)]"

section \<open>The funnel and the report\<close>

fun stage_index :: "proof_stage \<Rightarrow> nat" where
  "stage_index Extracted = 0"
| "stage_index Draft = 1"
| "stage_index Compiled = 2"
| "stage_index Real_pass = 3"
| "stage_index Verified = 4"
| "stage_index _ = 5"

definition off_ladder :: "proof_stage \<Rightarrow> bool" where "off_ladder s = (s = Not_extracted \<or> s = Stage_error)"

definition add_to :: "'k \<Rightarrow> 'a \<Rightarrow> ('k \<times> 'a list) list \<Rightarrow> ('k \<times> 'a list) list" where
  "add_to k x d = dict_set k (dict_getd d k [] @ [x]) d"

definition funnel_step :: "case_outcome \<Rightarrow> funnel \<Rightarrow> funnel" where
  "funnel_step ou fu =
     (if off_ladder (co_stage ou)
      then fu\<lparr>fu_off_ladder := add_to (co_stage ou) (co_case ou) (fu_off_ladder fu),
              fu_casualties := add_to (STAGES ! 0) (co_case ou) (fu_casualties fu)\<rparr>
      else let reached = stage_index (co_stage ou);
               fu1 = fu\<lparr>fu_survivors := map (\<lambda>(i, s, n). (s, if i \<le> reached then n + 1 else n)) (enumerate 0 (fu_survivors fu))\<rparr>
           in if reached + 1 < length STAGES
              then fu1\<lparr>fu_casualties := add_to (STAGES ! (reached + 1)) (co_case ou) (fu_casualties fu1)\<rparr> else fu1)"

definition empty_funnel :: funnel where
  "empty_funnel = \<lparr>fu_survivors = map (\<lambda>s. (s, 0)) STAGES, fu_casualties = map (\<lambda>s. (s, [])) STAGES,
     fu_off_ladder = [(Not_extracted, []), (Stage_error, [])]\<rparr>"

definition build_funnel :: "case_outcome list \<Rightarrow> funnel" where
  "build_funnel outcomes = fold funnel_step outcomes empty_funnel"

definition proved :: "case_outcome \<Rightarrow> bool" where "proved ou = (co_outcome ou = ''passed_verified'')"

definition class_bucket :: "(string \<times> string) list \<Rightarrow> case_outcome \<Rightarrow> (string \<times> case_outcome list) list \<Rightarrow> (string \<times> case_outcome list) list" where
  "class_bucket class_of ou d =
     (let cls = py_strip (dict_getd class_of (co_case ou) []) in if cls \<noteq> [] then add_to cls ou d else d)"

definition build_by_class :: "math_lib \<Rightarrow> case_outcome list \<Rightarrow> (string \<times> string) list \<Rightarrow> (string \<times> interval) list py" where
  "build_by_class ml outcomes class_of =
     mapE (\<lambda>(cls, os). bindE (credible_interval ml (int (length (filter proved os))) (int (length os)) (95 / 100)) (\<lambda>iv. Inr (cls, iv)))
       (sort_key fst (fold (class_bucket class_of) outcomes []))"

definition proof_score :: "math_lib \<Rightarrow> case_outcome list \<Rightarrow> run_config \<Rightarrow> (string \<times> string) list \<Rightarrow> proof_report py" where
  "proof_score ml outcomes cfg class_of =
     bindE (credible_interval ml (int (length (filter proved outcomes))) (int (length outcomes)) (95 / 100)) (\<lambda>iv.
     bindE (if class_of \<noteq> [] then build_by_class ml outcomes class_of else Inr []) (\<lambda>by_class.
       Inr \<lparr>pr_interval = iv, pr_funnel = build_funnel outcomes, pr_config = cfg, pr_by_class = by_class\<rparr>))"

section \<open>The interval\<close>

text \<open>One round, with its midpoint and the half it keeps.\<close>

definition half_of :: "(rat \<Rightarrow> rat) \<Rightarrow> rat \<Rightarrow> rat \<Rightarrow> rat \<Rightarrow> rat \<times> rat" where
  "half_of cdf p lo hi = (let mid = 1 / 2 * (lo + hi) in if cdf mid < p then (mid, hi) else (lo, mid))"

lemma bisect_round:
  "bisect cdf p (Suc left) (lo, hi) =
     (if snd (half_of cdf p lo hi) - fst (half_of cdf p lo hi) < PPF_TOL then half_of cdf p lo hi
      else bisect cdf p left (fst (half_of cdf p lo hi), snd (half_of cdf p lo hi)))"
  by (simp add: half_of_def Let_def)

lemma half_width: "snd (half_of cdf p lo hi) - fst (half_of cdf p lo hi) = (hi - lo) / 2"
  by (simp add: half_of_def Let_def field_simps)

lemma bisect_inside:
  "lo \<le> hi \<Longrightarrow> bisect cdf p left (lo, hi) = (l, h) \<Longrightarrow> lo \<le> l \<and> l \<le> h \<and> h \<le> hi \<and> (l = lo \<or> cdf l < p) \<and> (h = hi \<or> p \<le> cdf h)"
proof (induction left arbitrary: lo hi)
  case 0
  then show ?case by simp
next
  case (Suc left)
  define mid where "mid = 1 / 2 * (lo + hi)"
  define br where "br = half_of cdf p lo hi"
  have br': "br = (if cdf mid < p then (mid, hi) else (lo, mid))" by (simp add: br_def half_of_def mid_def Let_def)
  have mid: "lo \<le> mid" "mid \<le> hi" using Suc.prems(1) by (auto simp: mid_def)
  have r: "(if snd br - fst br < PPF_TOL then br else bisect cdf p left (fst br, snd br)) = (l, h)"
    using Suc.prems(2) unfolding bisect_round br_def .
  show ?case
  proof (cases "snd br - fst br < PPF_TOL")
    case True
    then show ?thesis using r mid by (auto simp: br' split: if_splits)
  next
    case False
    then show ?thesis using r mid Suc.IH [of "fst br" "snd br"] by (auto simp: br' split: if_splits)
  qed
qed

lemma bisect_tolerance:
  "0 < left \<Longrightarrow> hi - lo < PPF_TOL * 2 ^ left \<Longrightarrow> bisect cdf p left (lo, hi) = (l, h) \<Longrightarrow> h - l < PPF_TOL"
proof (induction left arbitrary: lo hi)
  case 0
  then show ?case by simp
next
  case (Suc left)
  define mid where "mid = 1 / 2 * (lo + hi)"
  define br where "br = half_of cdf p lo hi"
  have br': "br = (if cdf mid < p then (mid, hi) else (lo, mid))" by (simp add: br_def half_of_def mid_def Let_def)
  have half: "snd br - fst br = (hi - lo) / 2" unfolding br_def by (rule half_width)
  have r: "(if snd br - fst br < PPF_TOL then br else bisect cdf p left (fst br, snd br)) = (l, h)"
    using Suc.prems(3) unfolding bisect_round br_def .
  show ?case
  proof (cases "snd br - fst br < PPF_TOL")
    case True
    then show ?thesis using r by simp
  next
    case False
    have w: "snd br - fst br < PPF_TOL * 2 ^ left" using Suc.prems(2) half by simp
    then have "0 < left" using False by (cases left) auto
    then show ?thesis using Suc.IH [of "snd br" "fst br"] w r False by simp
  qed
qed

lemma bisect_mono:
  "lo \<le> hi \<Longrightarrow> p \<le> q \<Longrightarrow>
    fst (bisect cdf p left (lo, hi)) + snd (bisect cdf p left (lo, hi)) \<le> fst (bisect cdf q left (lo, hi)) + snd (bisect cdf q left (lo, hi))"
proof (induction left arbitrary: lo hi)
  case 0
  then show ?case by simp
next
  case (Suc left)
  define mid where "mid = 1 / 2 * (lo + hi)"
  have mid: "lo \<le> mid" "mid \<le> hi" "mid - lo = hi - mid" using Suc.prems(1) by (auto simp: mid_def field_simps)
  have step: "bisect cdf r (Suc left) (lo, hi) =
      (let br = (if cdf mid < r then (mid, hi) else (lo, mid)) in if (hi - lo) / 2 < PPF_TOL then br else bisect cdf r left br)" for r
    unfolding bisect_round half_width by (simp add: half_of_def mid_def Let_def)
  show ?case
  proof (cases "(cdf mid < p) = (cdf mid < q)")
    case True
    then show ?thesis unfolding step using Suc.IH [of mid hi] Suc.IH [of lo mid] mid Suc.prems(2) by (auto simp: Let_def)
  next
    case False
    then have c: "\<not> cdf mid < p" "cdf mid < q" using Suc.prems(2) by auto
    have "fst (bisect cdf p left (lo, mid)) + snd (bisect cdf p left (lo, mid)) \<le> mid + mid"
      using bisect_inside [OF mid(1), of cdf p left] by (metis add_mono order_trans prod.collapse)
    moreover have "mid + mid \<le> fst (bisect cdf q left (mid, hi)) + snd (bisect cdf q left (mid, hi))"
      using bisect_inside [OF mid(2), of cdf q left] by (metis add_mono order_trans prod.collapse)
    ultimately show ?thesis unfolding step using c mid by (auto simp: Let_def)
  qed
qed

lemma beta_ppf_mono: "p \<le> q \<Longrightarrow> beta_ppf ml p a b \<le> beta_ppf ml q a b"
  using bisect_mono [of 0 1 p q "betai ml a b" PPF_ITMAX] by (simp add: beta_ppf_def case_prod_beta)

lemma beta_ppf_bracket:
  "\<exists>l h. beta_ppf ml p a b = 1 / 2 * (l + h) \<and> 0 \<le> l \<and> l \<le> h \<and> h \<le> 1 \<and> h - l < 1 / 10 ^ 12 \<and>
     (l = 0 \<or> betai ml a b l < p) \<and> (h = 1 \<or> p \<le> betai ml a b h)"
proof -
  obtain l h where r: "bisect (betai ml a b) p PPF_ITMAX (0, 1) = (l, h)" by (metis prod.exhaust)
  have "h - l < PPF_TOL" by (rule bisect_tolerance [OF _ _ r]) (simp_all add: PPF_ITMAX_def PPF_TOL_def)
  then show ?thesis using bisect_inside [OF _ r] r by (auto simp: beta_ppf_def PPF_TOL_def)
qed

text \<open>C23: A credible interval lies between 0 and 1 with its ends in order, for every level between 0 and 1 and whatever the
  library's logarithm, exponential and gamma compute. Each end is the middle of a bracket narrower than the
  tolerance, below which the computed distribution is under the tail and above which it is not: the bisection
  never runs out of rounds. Impossible counts raise, and no trials give the whole unit interval.\<close>

theorem interval_ordered:
  assumes "0 \<le> mass" "mass \<le> 1"
  shows "case credible_interval ml s n mass of
      Inl e \<Rightarrow> n < 0 \<or> s < 0 \<or> n < s
    | Inr iv \<Rightarrow> 0 \<le> s \<and> s \<le> n \<and> 0 \<le> iv_lo iv \<and> iv_lo iv \<le> iv_hi iv \<and> iv_hi iv \<le> 1 \<and>
        (n = 0 \<longrightarrow> iv_lo iv = 0 \<and> iv_hi iv = 1) \<and>
        (0 < n \<longrightarrow> (\<forall>(x, p) \<in> {(iv_lo iv, (1 - mass) / 2), (iv_hi iv, 1 - (1 - mass) / 2)}.
           \<exists>l h. x = 1 / 2 * (l + h) \<and> 0 \<le> l \<and> l \<le> h \<and> h \<le> 1 \<and> h - l < 1 / 10 ^ 12 \<and>
             (l = 0 \<or> betai ml (of_int s + 1 / 2) (of_int (n - s) + 1 / 2) l < p) \<and>
             (h = 1 \<or> p \<le> betai ml (of_int s + 1 / 2) (of_int (n - s) + 1 / 2) h)))"
proof (cases "n < 0 \<or> s < 0 \<or> n < s")
  case True
  then show ?thesis by (simp add: credible_interval_def proof_bench_error_def)
next
  case False
  let ?a = "of_int s + 1 / 2 :: rat" and ?b = "of_int (n - s) + 1 / 2 :: rat" and ?t = "(1 - mass) / 2"
  have in01: "0 \<le> beta_ppf ml p ?a ?b \<and> beta_ppf ml p ?a ?b \<le> 1" for p
    using beta_ppf_bracket [of ml p ?a ?b] by auto
  have "?t \<le> 1 - ?t" using assms(1) by (simp add: field_simps)
  then show ?thesis using False in01 beta_ppf_mono [of ?t "1 - ?t" ml ?a ?b] beta_ppf_bracket [of ml ?t ?a ?b] beta_ppf_bracket [of ml "1 - ?t" ?a ?b]
    by (auto simp: credible_interval_def Let_def)
qed

definition flat_math :: math_lib where
  "flat_math = \<lparr>ma_lgamma = (\<lambda>_. 0), ma_log = (\<lambda>_. 0), ma_exp = (\<lambda>_. 1)\<rparr>"

theorem interval_ordered_witness:
  "case credible_interval flat_math 1 2 (95 / 100) of
     Inl e \<Rightarrow> False | Inr iv \<Rightarrow> 0 \<le> iv_lo iv \<and> iv_lo iv \<le> iv_hi iv \<and> iv_hi iv \<le> 1"
  using interval_ordered [of "95 / 100" 2 1 flat_math] by (simp split: sum.splits)

section \<open>The funnel\<close>

definition survives :: "proof_stage \<Rightarrow> case_outcome \<Rightarrow> bool" where
  "survives s ou = (\<not> off_ladder (co_stage ou) \<and> stage_index s \<le> stage_index (co_stage ou))"

text \<open>Being named at a stage: the first one not reached.\<close>

definition dies_at :: "proof_stage \<Rightarrow> case_outcome \<Rightarrow> bool" where
  "dies_at s ou =
     (if off_ladder (co_stage ou) then s = Extracted else stage_index s = stage_index (co_stage ou) + 1)"

definition funnel_of :: "case_outcome list \<Rightarrow> funnel" where
  "funnel_of os =
     \<lparr>fu_survivors = map (\<lambda>s. (s, length (filter (survives s) os))) STAGES,
      fu_casualties = map (\<lambda>s. (s, map co_case (filter (dies_at s) os))) STAGES,
      fu_off_ladder = map (\<lambda>s. (s, map co_case (filter (\<lambda>ou. co_stage ou = s) os))) [Not_extracted, Stage_error]\<rparr>"

lemma funnel_step_of: "funnel_step ou (funnel_of os) = funnel_of (os @ [ou])"
  by (cases "co_stage ou")
    (simp_all add: funnel_step_def funnel_of_def off_ladder_def survives_def dies_at_def add_to_def dict_getd_def STAGES_def
      numeral_2_eq_2 numeral_3_eq_3 eval_nat_numeral)

lemma funnel_eq: "build_funnel os = funnel_of os"
proof (induction os rule: rev_induct)
  case Nil
  show ?case by (simp add: build_funnel_def empty_funnel_def funnel_of_def STAGES_def)
next
  case (snoc ou os)
  then show ?case by (simp add: build_funnel_def funnel_step_of)
qed

text \<open>Every run is counted at the last stage or named at exactly one.\<close>

lemma funnel_counts_once:
  "length os = length (filter (survives Verified) os) + (\<Sum>s\<leftarrow>STAGES. length (filter (dies_at s) os))"
proof (induction os)
  case (Cons ou os)
  then show ?case by (cases "co_stage ou") (simp_all add: STAGES_def survives_def dies_at_def off_ladder_def)
qed (simp add: STAGES_def)

text \<open>C31: The attrition funnel counts every run once. At each stage it counts the runs that reached at least that stage,
  so never more than at the stage before, and the difference is the number of runs named as lost there; the runs off the
  ladder are lost at the first stage and listed by their bucket; and the runs that were verified and the
  named ones add up to all runs.\<close>

theorem funnel_exact:
  "build_funnel os = funnel_of os \<and>
   length os = length (filter (survives Verified) os) + (\<Sum>(s, names)\<leftarrow>fu_casualties (build_funnel os). length names) \<and>
   list_all (\<lambda>(s, t). length (filter (survives s) os) = length (filter (survives t) os) + length (filter (dies_at t) os))
     (zip STAGES (tl STAGES))"
proof -
  have step: "length (filter (survives s) os) = length (filter (survives t) os) + length (filter (dies_at t) os)"
    if "(s, t) \<in> set (zip STAGES (tl STAGES))" for s t
  proof (induction os)
    case (Cons ou os)
    then show ?case using that by (cases "co_stage ou") (auto simp: STAGES_def survives_def dies_at_def off_ladder_def)
  qed simp
  have "(\<Sum>(s, names)\<leftarrow>fu_casualties (build_funnel os). length names) = (\<Sum>s\<leftarrow>STAGES. length (filter (dies_at s) os))"
    unfolding funnel_eq by (simp add: funnel_of_def STAGES_def)
  moreover have "list_all (\<lambda>(s, t). length (filter (survives s) os) = length (filter (survives t) os) + length (filter (dies_at t) os))
     (zip STAGES (tl STAGES))"
    unfolding list_all_iff using step by blast
  ultimately show ?thesis using funnel_eq funnel_counts_once by metis
qed

section \<open>Comparing\<close>

lemma config_diffs_empty: "config_diffs a b = [] \<longleftrightarrow> set (rc_settings a) = set (rc_settings b) \<and>
    b\<lparr>rc_harness := rc_harness a, rc_settings := rc_settings a\<rparr> = a"
  by (cases a; cases b) (auto simp: config_diffs_def)

text \<open>A comparison of two reports declares a winner exactly when the configurations agree in everything but the harness
  version and one interval lies entirely above the other: overlapping intervals have no winner, never both reports win, and
  swapping the reports swaps the verdict.\<close>

lemma comparison_sound:
  assumes "iv_lo (pr_interval a) \<le> iv_hi (pr_interval a)" "iv_lo (pr_interval b) \<le> iv_hi (pr_interval b)"
  shows "(compare_reports a b = Compared True False (pr_interval a) (pr_interval b) \<longleftrightarrow>
      config_diffs (pr_config a) (pr_config b) = [] \<and> dominates (pr_interval a) (pr_interval b)) \<and>
    (compare_reports a b = Compared False True (pr_interval a) (pr_interval b) \<longleftrightarrow>
      config_diffs (pr_config a) (pr_config b) = [] \<and> dominates (pr_interval b) (pr_interval a)) \<and>
    (case compare_reports a b of
       Config_mismatch ds \<Rightarrow> compare_reports b a = Config_mismatch ds
     | Compared wa wb ia ib \<Rightarrow> \<not> (wa \<and> wb) \<and> (wa \<or> wb) = resolve_pair ia ib \<and> compare_reports b a = Compared wb wa ib ia)"
proof -
  have "config_diffs x y = config_diffs y x" for x y
    unfolding config_diffs_def by (intro arg_cong [of _ _ "sort_key (\<lambda>k. k)"]) auto
  then show ?thesis using assms by (auto simp: compare_reports_def Let_def dominates_def resolve_pair_def)
qed

text \<open>The stage and the outcome of one run can disagree: an infrastructure event hides the stage, and a proof reported before
  the last task counts for the stage and not for the outcome.\<close>

lemma outcome_without_stage:
  assumes "loads = (\<lambda>l. Some (if l = ''{1'' then [(''event'', JStr ''run_error'')] else [(''event'', JStr ''task_done''), (''outcome'', JStr ''passed_verified'')]))"
  shows "\<exists>ou. outcome_of_run loads cs (0, Some (''{1'' @ nl @ ''{2'')) = Inr ou \<and> proved ou \<and> co_stage ou = Stage_error"
proof -
  have "parse_events loads (''{1'' @ nl @ ''{2'') = [[(''event'', JStr ''run_error'')], [(''event'', JStr ''task_done''), (''outcome'', JStr ''passed_verified'')]]"
    unfolding assms by code_simp
  then show ?thesis by (simp add: outcome_of_run_def Let_def events_named_def run_stage_def proved_def dict_getd_def)
qed

end
