(* ===== verification/Capability_Screen.thy ===== *)
theory Capability_Screen
  imports Proof_Bench
begin

text \<open>
  The capability screen (\<open>scripts/capability_screen.py\<close>): an append-only pre-registration, the cascade of smoke test,
  trigger screen and repeated trials over candidates and classes, the pairwise resolution, the non-dominated cells and the
  map. An attempt is a function of the calls made before it (\<open>answers\<close>), so the model keeps the history of
  calls with their answers; it returns, a raising attempt would end the cascade. A price, a duration and a share is a rational
  number; the digest of a record's frozen fields is a parameter. Launching the runner, writing logs and the
  command line are left out.

  The lemmas: the history of a cascade, class by class a screening phase and then trials of the triggered candidates
  only; what each published cell measures; the non-dominated cells in closed form; and that a
  tampered pre-registration is refused.
\<close>

section \<open>Entities\<close>

record screen_candidate =
  sn_id :: string
  sn_cost :: string
  sn_callable :: bool

definition COST_ORDER :: "(string \<times> nat) list" where "COST_ORDER = [(''cheap'', 0), (''mid'', 1), (''expensive'', 2)]"

definition order_key :: "screen_candidate \<Rightarrow> nat \<times> string" where
  "order_key c = (dict_getd COST_ORDER (sn_cost c) 99, sn_id c)"

record battery_case =
  by_id :: string
  by_class :: string
  by_fix_diff :: bool

record attempt_result =
  ar_produced :: bool
  ar_triggered :: bool
  ar_verified :: bool
  ar_tokens :: int
  ar_seconds :: rat
  ar_transient :: bool
  ar_infra :: string

datatype smoke_status = Smoke_pass | Plumbing_fail | Smoke_infra
datatype screen_status = Screen_pass | Unavailable

record stage_result =
  sr_candidate :: string
  sr_class :: string
  sr_smoke :: smoke_status
  sr_screen :: screen_status
  sr_triggered :: bool
  sr_verified :: nat
  sr_n :: int
  sr_transients :: nat
  sr_interval :: "interval option"
  sr_single :: bool

record cost_record =
  cl_candidate :: string
  cl_class :: string
  cl_tokens :: int
  cl_seconds :: rat
  cl_passes :: nat
  cl_usd_case :: rat
  cl_usd_pass :: "rat option"

record pair_resolution =
  pa_class :: string
  pa_a :: string
  pa_b :: string
  pa_resolved :: bool
  pa_dominant :: "string option"
  pa_single :: bool

definition screen_error :: "string \<Rightarrow> 'a py" where "screen_error msg = raise ''CapabilityScreenError'' msg"

section \<open>The pre-registration\<close>

record prereg =
  pg_ts :: string
  pg_candidates :: "screen_candidate list"
  pg_classes :: "string list"
  pg_thresholds :: json
  pg_n :: "(string \<times> int) list"
  pg_cases_per_class :: int
  pg_level :: rat
  pg_rule :: string
  pg_bench :: string
  pg_prices :: "(string \<times> rat) list"
  pg_hash :: string

text \<open>The frozen fields: all but the time stamp and the hash itself.\<close>

definition frozen :: "prereg \<Rightarrow> prereg" where "frozen r = r\<lparr>pg_ts := [], pg_hash := []\<rparr>"

definition content_hash :: "(prereg \<Rightarrow> string) \<Rightarrow> prereg \<Rightarrow> string" where "content_hash digest r = digest (frozen r)"

definition external_record :: "bench_files \<Rightarrow> string \<Rightarrow> string py" where
  "external_record fs p =
     (let r = bf_resolve fs p in
      if inside (bf_agent_root fs) r
      then screen_error (''pre-registration path must be EXTERNAL to the agent repo (under <target>/audit/), got: '' @ r)
      else Inr r)"

definition SMOKE_RETRY :: int where "SMOKE_RETRY = 1"

definition make_prereg ::
  "(prereg \<Rightarrow> string) \<Rightarrow> screen_candidate list \<Rightarrow> string list \<Rightarrow> (string \<times> int) list \<Rightarrow> int \<Rightarrow> rat \<Rightarrow> string \<Rightarrow> (string \<times> rat) list \<Rightarrow>
     json \<Rightarrow> string \<Rightarrow> prereg" where
  "make_prereg digest cands classes ns cpc level bench prices thresholds ts =
     (let r = \<lparr>pg_ts = ts, pg_candidates = cands, pg_classes = classes,
               pg_thresholds = (if truthy thresholds then thresholds
                 else JObj [(''smoke_retry'', JInt SMOKE_RETRY), (''trigger_bar'', JStr ''triggered'')]),
               pg_n = ns, pg_cases_per_class = cpc, pg_level = level, pg_rule = ''interval non-overlap at credible_level'',
               pg_bench = bench, pg_prices = prices, pg_hash = []\<rparr>
      in r\<lparr>pg_hash := content_hash digest r\<rparr>)"

text \<open>The entries of each file; an absent file has none.\<close>

type_synonym prereg_files = "(string, prereg list) dict"

definition write_prereg :: "bench_files \<Rightarrow> (prereg \<Rightarrow> string) \<Rightarrow> string \<Rightarrow> prereg \<Rightarrow> prereg_files \<Rightarrow> prereg_files py" where
  "write_prereg fs digest path r files =
     bindE (external_record fs path) (\<lambda>p.
       Inr (dict_set p (dict_getd files p [] @ [r\<lparr>pg_hash := content_hash digest r\<rparr>]) files))"

definition check_entry :: "(prereg \<Rightarrow> string) \<Rightarrow> string \<Rightarrow> nat \<times> prereg \<Rightarrow> prereg py" where
  "check_entry digest path e =
     (case e of (i, r) \<Rightarrow>
        let want = content_hash digest r in
        if pg_hash r \<noteq> want
        then screen_error (path @ '' entry '' @ nat_str i @ '': content_hash mismatch (frozen fields were mutated after write) - stored='' @
               py_repr_str (pg_hash r) @ '' recomputed='' @ py_repr_str want)
        else Inr r)"

definition load_prereg :: "bench_files \<Rightarrow> (prereg \<Rightarrow> string) \<Rightarrow> string \<Rightarrow> prereg_files \<Rightarrow> prereg list py" where
  "load_prereg fs digest path files =
     bindE (external_record fs path) (\<lambda>p.
       case dict_get files p of
         None \<Rightarrow> screen_error (''no pre-registration record at '' @ p)
       | Some entries \<Rightarrow> mapE (check_entry digest p) (enumerate 0 entries))"

definition active_record :: "prereg list \<Rightarrow> string \<Rightarrow> prereg py" where
  "active_record records bench_id =
     (case rev (filter (\<lambda>r. pg_bench r = bench_id) records) of
        [] \<Rightarrow> screen_error (''no active pre-registration entry for bench '' @ py_repr_str bench_id)
      | r # _ \<Rightarrow> Inr r)"

definition enforce_subject :: "prereg \<Rightarrow> string \<Rightarrow> unit py" where
  "enforce_subject r cid =
     (if cid \<notin> sn_id ` set (pg_candidates r)
      then screen_error (''candidate '' @ py_repr_str cid @ '' is not in the active pre-registration record - '' @
             ''score only registered subjects (add it as a NEW prereg entry to screen it)'')
      else Inr ())"

definition enforce_class :: "prereg \<Rightarrow> string \<Rightarrow> unit py" where
  "enforce_class r cls =
     (if cls \<notin> set (pg_classes r)
      then screen_error (''finding_class '' @ py_repr_str cls @ '' is outside the closed pre-registered enum '' @
             py_repr (JList (map JStr (pg_classes r))) @ '' - labels cannot drift between runs (FR-010/019)'')
      else Inr ())"

section \<open>Attempts\<close>

datatype screen_stage = Smoke | Screen | Bayes

record call =
  cq_cand :: string
  cq_case :: string
  cq_stage :: screen_stage
  cq_answer :: attempt_result

text \<open>The answer to a call may depend on all calls before.\<close>

type_synonym answers = "call list \<Rightarrow> string \<Rightarrow> string \<Rightarrow> screen_stage \<Rightarrow> attempt_result"

definition ask :: "answers \<Rightarrow> string \<Rightarrow> string \<Rightarrow> screen_stage \<Rightarrow> call list \<Rightarrow> attempt_result \<times> call list" where
  "ask env c k s h = (let r = env h c k s in (r, h @ [\<lparr>cq_cand = c, cq_case = k, cq_stage = s, cq_answer = r\<rparr>]))"

definition TRANSIENT_RETRY_CAP :: nat where "TRANSIENT_RETRY_CAP = 3"
definition SCREEN_TRANSIENT_RETRY :: nat where "SCREEN_TRANSIENT_RETRY = 1"

text \<open>An attempt with its retries: the answer, the number of transient failures so far, and the history.\<close>

fun attempt_retry :: "answers \<Rightarrow> string \<Rightarrow> string \<Rightarrow> screen_stage \<Rightarrow> nat \<Rightarrow> nat \<Rightarrow> call list \<Rightarrow> attempt_result \<times> nat \<times> call list" where
  "attempt_retry env c k s 0 tf h =
     (let (r, h1) = ask env c k s h in (r, if ar_transient r then tf + 1 else tf, h1))"
| "attempt_retry env c k s (Suc left) tf h =
     (let (r, h1) = ask env c k s h in
      if ar_transient r then attempt_retry env c k s left (tf + 1) h1 else (r, tf, h1))"

definition bayes_attempt :: "answers \<Rightarrow> string \<Rightarrow> string \<Rightarrow> nat \<Rightarrow> call list \<Rightarrow> attempt_result \<times> nat \<times> call list" where
  "bayes_attempt env c k tf h = attempt_retry env c k Bayes TRANSIENT_RETRY_CAP tf h"

definition screen_attempt :: "answers \<Rightarrow> string \<Rightarrow> string \<Rightarrow> nat \<Rightarrow> call list \<Rightarrow> attempt_result \<times> nat \<times> call list" where
  "screen_attempt env c k tf h = attempt_retry env c k Screen SCREEN_TRANSIENT_RETRY tf h"

definition accrue :: "attempt_result \<Rightarrow> cost_record \<Rightarrow> cost_record" where
  "accrue r cl = (if ar_transient r then cl else cl\<lparr>cl_tokens := cl_tokens cl + ar_tokens r, cl_seconds := cl_seconds cl + ar_seconds r\<rparr>)"

definition finalize_cost :: "(string \<times> rat) list \<Rightarrow> cost_record \<Rightarrow> cost_record" where
  "finalize_cost prices cl =
     (let price = dict_getd prices (cl_candidate cl) 0; per_case = of_int (cl_tokens cl) / 1000 * price
      in cl\<lparr>cl_usd_case := per_case, cl_usd_pass := (if cl_passes cl = 0 then None else Some (per_case / of_nat (cl_passes cl)))\<rparr>)"

section \<open>The cascade\<close>

datatype cascade_event =
    Ev_smoke_infra string string string
  | Ev_plumbing_fail string string
  | Ev_unavailable string string
  | Ev_not_triggered string string
  | Ev_zero_survivors string

record cascade_state =
  cs_pending :: "(string \<times> stage_result) list"
  cs_cost :: "(string \<times> cost_record) list"
  cs_survivors :: "screen_candidate list"
  cs_hist :: "call list"
  cs_log :: "cascade_event list"
  cs_results :: "stage_result list"
  cs_costs :: "cost_record list"

definition smoke_stage :: "answers \<Rightarrow> string \<Rightarrow> string \<Rightarrow> cost_record \<Rightarrow> call list \<Rightarrow> attempt_result \<times> cost_record \<times> call list" where
  "smoke_stage env c k cl h =
     (let (r1, h1) = ask env c k Smoke h; cl1 = accrue r1 cl in
      if ar_produced r1 then (r1, cl1, h1)
      else let (r2, h2) = ask env c k Smoke h1 in (r2, accrue r2 cl1, h2))"

text \<open>The trigger screen over the cases: triggered, some case unanswered, the transient failures, the cost and the history.\<close>

fun screen_cases :: "answers \<Rightarrow> string \<Rightarrow> string list \<Rightarrow> bool \<Rightarrow> nat \<Rightarrow> cost_record \<Rightarrow> call list \<Rightarrow> bool \<times> bool \<times> nat \<times> cost_record \<times> call list" where
  "screen_cases env c [] unav tf cl h = (False, unav, tf, cl, h)"
| "screen_cases env c (k # ks) unav tf cl h =
     (let (r, tf1, h1) = screen_attempt env c k tf h in
      if ar_transient r then screen_cases env c ks True tf1 cl h1
      else if ar_triggered r then (True, unav, tf1, accrue r cl, h1)
      else screen_cases env c ks unav tf1 (accrue r cl) h1)"

definition new_cell :: "string \<Rightarrow> int \<Rightarrow> bool \<Rightarrow> string \<Rightarrow> stage_result" where
  "new_cell cls n single c =
     \<lparr>sr_candidate = c, sr_class = cls, sr_smoke = Smoke_pass, sr_screen = Screen_pass, sr_triggered = False, sr_verified = 0,
      sr_n = n, sr_transients = 0, sr_interval = None, sr_single = single\<rparr>"

definition new_cost :: "string \<Rightarrow> string \<Rightarrow> cost_record" where
  "new_cost cls c =
     \<lparr>cl_candidate = c, cl_class = cls, cl_tokens = 0, cl_seconds = 0, cl_passes = 0, cl_usd_case = 0, cl_usd_pass = None\<rparr>"

text \<open>Smoke test and trigger screen of one candidate in a class.\<close>

definition screen_step :: "answers \<Rightarrow> string \<Rightarrow> string list \<Rightarrow> int \<Rightarrow> bool \<Rightarrow> screen_candidate \<Rightarrow> cascade_state \<Rightarrow> cascade_state" where
  "screen_step env cls cases n single cand st =
     (let c = sn_id cand; cell = new_cell cls n single c;
          (smoke, cl1, h1) = smoke_stage env c (hd cases) (new_cost cls c) (cs_hist st)
      in if \<not> ar_produced smoke
         then st\<lparr>cs_pending := dict_set c (cell\<lparr>sr_smoke := (if ar_infra smoke \<noteq> [] then Smoke_infra else Plumbing_fail)\<rparr>) (cs_pending st),
                 cs_cost := dict_set c cl1 (cs_cost st), cs_hist := h1,
                 cs_log := cs_log st @ [if ar_infra smoke \<noteq> [] then Ev_smoke_infra c cls (ar_infra smoke) else Ev_plumbing_fail c cls]\<rparr>
         else let (triggered, unav, tf, cl2, h2) = screen_cases env c cases False 0 cl1 h1;
                  cell2 = cell\<lparr>sr_triggered := triggered, sr_transients := tf,
                               sr_screen := (if \<not> triggered \<and> unav then Unavailable else Screen_pass)\<rparr>
              in st\<lparr>cs_pending := dict_set c cell2 (cs_pending st), cs_cost := dict_set c cl2 (cs_cost st), cs_hist := h2,
                    cs_survivors := cs_survivors st @ (if triggered then [cand] else []),
                    cs_log := cs_log st @ (if triggered then [] else if unav then [Ev_unavailable c cls] else [Ev_not_triggered c cls])\<rparr>)"

text \<open>The trials of a survivor: successes, trials, transient failures, cost and history.\<close>

type_synonym trial_state = "nat \<times> nat \<times> nat \<times> cost_record \<times> call list"

definition trial_step :: "answers \<Rightarrow> string \<Rightarrow> string \<Rightarrow> trial_state \<Rightarrow> trial_state" where
  "trial_step env c k ts =
     (case ts of (vk, trials, tf, cl, h) \<Rightarrow>
        let (r, tf1, h1) = bayes_attempt env c k tf h in
        if ar_transient r then (vk, trials, tf1, cl, h1)
        else (if ar_verified r then vk + 1 else vk, trials + 1, tf1, accrue r cl, h1))"

definition run_trials :: "answers \<Rightarrow> string \<Rightarrow> string list \<Rightarrow> int \<Rightarrow> trial_state \<Rightarrow> trial_state" where
  "run_trials env c cases n ts = fold (\<lambda>k. trial_step env c k) (concat (map (\<lambda>k. replicate (nat n) k) cases)) ts"

definition trials_step ::
  "math_lib \<Rightarrow> rat \<Rightarrow> answers \<Rightarrow> string list \<Rightarrow> int \<Rightarrow> screen_candidate \<Rightarrow> cascade_state \<Rightarrow> cascade_state py" where
  "trials_step ml level env cases n cand st =
     (let c = sn_id cand in
      case (dict_get (cs_pending st) c, dict_get (cs_cost st) c) of
        (Some cell, Some cl) \<Rightarrow>
          (let (vk, trials, tf, cl1, h1) = run_trials env c cases n (0, 0, sr_transients cell, cl, cs_hist st)
           in bindE (credible_interval ml (int vk) (int trials) level) (\<lambda>iv.
                Inr (st\<lparr>cs_pending := dict_set c (cell\<lparr>sr_transients := tf, sr_verified := vk, sr_n := int trials, sr_interval := Some iv\<rparr>) (cs_pending st),
                        cs_cost := dict_set c (cl1\<lparr>cl_passes := vk\<rparr>) (cs_cost st), cs_hist := h1\<rparr>)))
      | _ \<Rightarrow> raise ''KeyError'' (py_repr_str c))"

definition publish :: "(string \<times> rat) list \<Rightarrow> screen_candidate \<Rightarrow> cascade_state \<Rightarrow> cascade_state py" where
  "publish prices cand st =
     (let c = sn_id cand in
      case (dict_get (cs_pending st) c, dict_get (cs_cost st) c) of
        (Some cell, Some cl) \<Rightarrow>
          Inr (st\<lparr>cs_cost := dict_set c (finalize_cost prices cl) (cs_cost st), cs_results := cs_results st @ [cell],
                  cs_costs := cs_costs st @ [finalize_cost prices cl]\<rparr>)
      | _ \<Rightarrow> raise ''KeyError'' (py_repr_str c))"

definition run_class ::
  "math_lib \<Rightarrow> prereg \<Rightarrow> (string \<times> rat) list \<Rightarrow> answers \<Rightarrow> screen_candidate list \<Rightarrow> string \<times> string list \<Rightarrow> cascade_state \<Rightarrow> cascade_state py" where
  "run_class ml rec prices env active cc st0 =
     (case cc of (cls, cases) \<Rightarrow>
        let n = dict_getd (pg_n rec) cls 0; single = (pg_cases_per_class rec = 1);
            st1 = fold (screen_step env cls cases n single) active (st0\<lparr>cs_pending := [], cs_cost := [], cs_survivors := []\<rparr>);
            st2 = st1\<lparr>cs_log := cs_log st1 @ (if cs_survivors st1 = [] then [Ev_zero_survivors cls] else [])\<rparr>
        in bindE (foldE (trials_step ml (pg_level rec) env cases n) (sort_key order_key (cs_survivors st2)) st2) (\<lambda>st3.
           foldE (publish prices) active st3))"

definition group_case :: "prereg \<Rightarrow> battery_case \<Rightarrow> (string \<times> string list) list \<Rightarrow> (string \<times> string list) list py" where
  "group_case rec bc d =
     (if py_strip (by_class bc) = [] then Inr d
      else bindE (enforce_class rec (by_class bc)) (\<lambda>_. Inr (add_to (by_class bc) (by_id bc) d)))"

definition empty_cascade :: cascade_state where
  "empty_cascade = \<lparr>cs_pending = [], cs_cost = [], cs_survivors = [], cs_hist = [], cs_log = [], cs_results = [], cs_costs = []\<rparr>"

definition active_candidates :: "screen_candidate list \<Rightarrow> screen_candidate list" where
  "active_candidates cands = sort_key order_key (filter sn_callable cands)"

text \<open>The price table of the call, or that of the record where it is empty.\<close>

definition run_cascade ::
  "math_lib \<Rightarrow> prereg \<Rightarrow> battery_case list \<Rightarrow> screen_candidate list \<Rightarrow> answers \<Rightarrow> (string \<times> rat) list \<Rightarrow> cascade_state py" where
  "run_cascade ml rec battery cands env prices0 =
     (let prices = (if prices0 \<noteq> [] then prices0 else pg_prices rec) in
      bindE (foldE (group_case rec) battery []) (\<lambda>by_cls.
      bindE (mapE (\<lambda>c. enforce_subject rec (sn_id c)) cands) (\<lambda>_.
        foldE (run_class ml rec prices env (active_candidates cands)) (sort_key fst by_cls) empty_cascade)))"

section \<open>The map\<close>

fun pairs_of :: "'a list \<Rightarrow> ('a \<times> 'a) list" where
  "pairs_of [] = []"
| "pairs_of (x # xs) = map (Pair x) xs @ pairs_of xs"

text \<open>Whether two cells are resolved, and which dominates; a cell without an interval takes no part.\<close>

definition cell_dominates :: "stage_result \<Rightarrow> stage_result \<Rightarrow> bool" where
  "cell_dominates x y = (case (sr_interval x, sr_interval y) of (Some ix, Some iy) \<Rightarrow> dominates ix iy | _ \<Rightarrow> False)"

definition make_pair :: "string \<Rightarrow> stage_result \<times> stage_result \<Rightarrow> pair_resolution" where
  "make_pair cls xy =
     (case xy of (x, y) \<Rightarrow>
        let res = (cell_dominates x y \<or> cell_dominates y x) in
        \<lparr>pa_class = cls, pa_a = sr_candidate x, pa_b = sr_candidate y, pa_resolved = res,
         pa_dominant = (if res then Some (if cell_dominates x y then sr_candidate x else sr_candidate y) else None),
         pa_single = (sr_single x \<or> sr_single y)\<rparr>)"

definition interval_cells :: "stage_result list \<Rightarrow> stage_result list" where
  "interval_cells rs = filter (\<lambda>r. sr_interval r \<noteq> None) rs"

definition cells_by_class :: "stage_result list \<Rightarrow> (string \<times> stage_result list) list" where
  "cells_by_class rs = sort_key fst (fold (\<lambda>r. add_to (sr_class r) r) (interval_cells rs) [])"

definition class_pairs :: "string \<times> stage_result list \<Rightarrow> pair_resolution list" where
  "class_pairs g = (case g of (cls, cells) \<Rightarrow> map (make_pair cls) (pairs_of (sort_key sr_candidate cells)))"

definition build_pairs :: "stage_result list \<Rightarrow> pair_resolution list \<times> string list" where
  "build_pairs rs =
     (let groups = cells_by_class rs
      in (concat (map class_pairs groups),
          map fst (filter (\<lambda>g. 2 \<le> length (snd g) \<and> \<not> list_ex pa_resolved (class_pairs g)) groups)))"

datatype cap_relation = Cap_a | Cap_b | Cap_incomparable

definition cap_relation_of :: "string \<Rightarrow> string \<Rightarrow> string \<Rightarrow> pair_resolution list \<Rightarrow> cap_relation" where
  "cap_relation_of cls a b pairs =
     (case find (\<lambda>p. pa_class p = cls \<and> pa_resolved p \<and> {pa_a p, pa_b p} = {a, b}) pairs of
        None \<Rightarrow> Cap_incomparable
      | Some p \<Rightarrow> if pa_dominant p = Some a then Cap_a else Cap_b)"

type_synonym costs_by = "((string \<times> string) \<times> cost_record) list"

definition cost_table :: "cost_record list \<Rightarrow> costs_by" where
  "cost_table cls = fold (\<lambda>c. dict_set (cl_candidate c, cl_class c) c) cls []"

text \<open>Whether the cell \<open>b\<close> pushes \<open>a\<close> off the front: of the same class, better, and neither dearer nor slower.\<close>

definition pushes_off :: "costs_by \<Rightarrow> pair_resolution list \<Rightarrow> stage_result \<Rightarrow> stage_result \<Rightarrow> bool" where
  "pushes_off costs pairs a b =
     (sr_class b = sr_class a \<and>
      (case (dict_get costs (sr_candidate a, sr_class a), dict_get costs (sr_candidate b, sr_class b)) of
         (Some ca, Some cb) \<Rightarrow>
           cap_relation_of (sr_class a) (sr_candidate a) (sr_candidate b) pairs = Cap_b \<and>
           cl_usd_case cb \<le> cl_usd_case ca \<and> cl_seconds cb \<le> cl_seconds ca
       | _ \<Rightarrow> False))"

definition pareto_nondominated :: "stage_result list \<Rightarrow> costs_by \<Rightarrow> pair_resolution list \<Rightarrow> (string \<times> string) list" where
  "pareto_nondominated rs costs pairs =
     (let cells = enumerate 0 (interval_cells rs)
      in map (\<lambda>(i, a). (sr_candidate a, sr_class a))
           (filter (\<lambda>(i, a). \<not> list_ex (\<lambda>(j, b). j \<noteq> i \<and> pushes_off costs pairs a b) cells) cells))"

record map_cell =
  mc_triggered :: "bool option"
  mc_smoke :: smoke_status
  mc_screen :: screen_status
  mc_single :: bool
  mc_trials :: "(interval \<times> nat \<times> int) option"
  mc_cost :: "(rat \<times> rat option \<times> rat) option"

record capability_map =
  cm_axis :: string
  cm_level :: rat
  cm_by_class :: "(string \<times> (string \<times> map_cell) list) list"
  cm_pairs :: "pair_resolution list"
  cm_underpowered :: "string list"
  cm_front :: "(string \<times> string) list"
  cm_headline :: "interval option"
  cm_ceiling :: "json option"

definition published_cell :: "costs_by \<Rightarrow> stage_result \<Rightarrow> map_cell" where
  "published_cell costs r =
     \<lparr>mc_triggered = (if sr_screen r = Unavailable then None else Some (sr_triggered r)),
      mc_smoke = sr_smoke r, mc_screen = sr_screen r, mc_single = sr_single r,
      mc_trials = map_option (\<lambda>iv. (iv, sr_verified r, sr_n r)) (sr_interval r),
      mc_cost = map_option (\<lambda>c. (cl_usd_case c, cl_usd_pass c, cl_seconds c)) (dict_get costs (sr_candidate r, sr_class r))\<rparr>"

definition map_step :: "costs_by \<Rightarrow> stage_result \<Rightarrow> (string \<times> (string \<times> map_cell) list) list \<Rightarrow> (string \<times> (string \<times> map_cell) list) list" where
  "map_step costs r d = dict_set (sr_class r) (dict_set (sr_candidate r) (published_cell costs r) (dict_getd d (sr_class r) [])) d"

definition build_map :: "stage_result list \<Rightarrow> cost_record list \<Rightarrow> prereg \<Rightarrow> interval option \<Rightarrow> json option \<Rightarrow> capability_map" where
  "build_map rs cls rec headline frontier =
     (let costs = cost_table cls; (pairs, under) = build_pairs rs
      in \<lparr>cm_axis = (if pg_cases_per_class rec = 1 then ''representative-finding capability'' else ''class capability''),
          cm_level = pg_level rec, cm_by_class = fold (map_step costs) rs [], cm_pairs = pairs, cm_underpowered = under,
          cm_front = pareto_nondominated rs costs pairs, cm_headline = headline, cm_ceiling = frontier\<rparr>)"

section \<open>Reading a run of the runner\<close>

definition OOM_MARKERS :: "string list" where
  "OOM_MARKERS = [''signal: 9'', ''sigkill'', ''oomkilled'', ''out of memory'', ''std::bad_alloc'', ''cannot allocate memory'']"

definition looks_like_oom :: "int option \<Rightarrow> string list \<Rightarrow> bool" where
  "looks_like_oom exit_code tails =
     (exit_code = Some 137 \<or>
      (let blob = py_lower (py_join '' '' (filter (\<lambda>t. t \<noteq> []) tails)) in list_ex (\<lambda>m. py_in m blob) OOM_MARKERS))"

record run_signals =
  rg_outcome :: string
  rg_saw_tested :: bool
  rg_elapsed :: rat
  rg_tokens :: int
  rg_done :: bool
  rg_infra :: string
  rg_run_id :: string

definition TRIGGERED_OUTCOMES :: "string list" where
  "TRIGGERED_OUTCOMES = [''passed_verified'', ''unverified_pass'', ''passed_unchecked'']"

definition TRANSIENT_OUTCOMES :: "string list" where
  "TRANSIENT_OUTCOMES = [''sandbox_unavailable'', ''run_error'', ''draft_failed'']"

definition transient_result :: "run_signals \<Rightarrow> string \<Rightarrow> attempt_result" where
  "transient_result sg infra =
     \<lparr>ar_produced = False, ar_triggered = False, ar_verified = False, ar_tokens = rg_tokens sg, ar_seconds = rg_elapsed sg,
      ar_transient = True, ar_infra = infra\<rparr>"

definition signals_to_result :: "run_signals \<Rightarrow> attempt_result" where
  "signals_to_result sg =
     (let outcome = rg_outcome sg in
      if rg_infra sg \<noteq> [] then transient_result sg (rg_infra sg)
      else if \<not> rg_done sg then transient_result sg []
      else if outcome \<in> set TRANSIENT_OUTCOMES then transient_result sg []
      else \<lparr>ar_produced = (rg_saw_tested sg \<or> outcome \<in> set TRIGGERED_OUTCOMES \<or>
               outcome \<in> {''compiled'', ''vacuous_pass'', ''reverted_exhausted'', ''compile_only_defective'', ''exhausted''}),
            ar_triggered = (outcome \<in> set TRIGGERED_OUTCOMES), ar_verified = (outcome = ''passed_verified''),
            ar_tokens = rg_tokens sg, ar_seconds = rg_elapsed sg, ar_transient = False, ar_infra = []\<rparr>)"

section \<open>What the calls say\<close>

text \<open>The answers that count, the failures that do not, and the calls of one candidate.\<close>

definition answers_in :: "call list \<Rightarrow> attempt_result list" where
  "answers_in a = filter (\<lambda>r. \<not> ar_transient r) (map cq_answer a)"

definition failures_in :: "call list \<Rightarrow> nat" where
  "failures_in a = length (filter (\<lambda>q. ar_transient (cq_answer q)) a)"

definition calls_of :: "string \<Rightarrow> call list \<Rightarrow> call list" where
  "calls_of c a = filter (\<lambda>q. cq_cand q = c) a"

definition charge :: "attempt_result list \<Rightarrow> cost_record \<Rightarrow> cost_record" where
  "charge rs cl = cl\<lparr>cl_tokens := cl_tokens cl + (\<Sum>r\<leftarrow>rs. ar_tokens r), cl_seconds := cl_seconds cl + (\<Sum>r\<leftarrow>rs. ar_seconds r)\<rparr>"

definition only_calls :: "string \<Rightarrow> string list \<Rightarrow> screen_stage \<Rightarrow> call list \<Rightarrow> bool" where
  "only_calls c ks s a = (\<forall>q \<in> set a. cq_cand q = c \<and> cq_case q \<in> set ks \<and> cq_stage q = s)"

lemma answers_in_simps [simp]:
  "answers_in [] = []" "answers_in (a @ b) = answers_in a @ answers_in b"
  "answers_in (q # a) = (if ar_transient (cq_answer q) then [] else [cq_answer q]) @ answers_in a"
  by (simp_all add: answers_in_def)

lemma failures_in_simps [simp]:
  "failures_in [] = 0" "failures_in (a @ b) = failures_in a + failures_in b"
  "failures_in (q # a) = (if ar_transient (cq_answer q) then 1 else 0) + failures_in a"
  by (simp_all add: failures_in_def)

lemma calls_of_simps [simp]: "calls_of c [] = []" "calls_of c (a @ b) = calls_of c a @ calls_of c b"
  by (simp_all add: calls_of_def)

lemma charge_simps [simp]: "charge [] cl = cl" "charge ys (charge xs cl) = charge (xs @ ys) cl"
  by (simp_all add: charge_def)

lemma accrue_charge: "accrue r cl = charge (if ar_transient r then [] else [r]) cl"
  by (simp add: accrue_def charge_def)

lemma only_calls_simps [simp]:
  "only_calls c ks s []" "only_calls c ks s (a @ b) = (only_calls c ks s a \<and> only_calls c ks s b)"
  by (auto simp: only_calls_def)

lemma only_calls_mono: "only_calls c ks s a \<Longrightarrow> set ks \<subseteq> set ks' \<Longrightarrow> only_calls c ks' s a"
  by (auto simp: only_calls_def)

lemma only_calls_of: "only_calls c ks s a \<Longrightarrow> calls_of d a = (if c = d then a else [])"
  by (induction a) (auto simp: only_calls_def calls_of_def)

text \<open>An attempt with retries: its last call is the answer, the earlier ones failed.\<close>

lemma attempt_retry_calls:
  "attempt_retry env c k s left tf h = (r, tf1, h1) \<Longrightarrow>
     \<exists>a. h1 = h @ a \<and> only_calls c [k] s a \<and> answers_in a = (if ar_transient r then [] else [r]) \<and> tf1 = tf + failures_in a \<and>
       length a \<le> Suc left \<and> a \<noteq> [] \<and> cq_answer (last a) = r"
proof (induction left arbitrary: tf h)
  case 0
  then show ?case by (auto simp: ask_def Let_def only_calls_def)
next
  case (Suc left)
  define r0 where "r0 = env h c k s"
  define q where "q = \<lparr>cq_cand = c, cq_case = k, cq_stage = s, cq_answer = r0\<rparr>"
  have one: "only_calls c [k] s [q]" "cq_answer q = r0" by (simp_all add: q_def only_calls_def)
  show ?case
  proof (cases "ar_transient r0")
    case False
    then have "r = r0 \<and> tf1 = tf \<and> h1 = h @ [q]" using Suc.prems by (auto simp: ask_def Let_def r0_def q_def)
    then show ?thesis using one False by (intro exI [of _ "[q]"]) simp
  next
    case True
    then have "attempt_retry env c k s left (tf + 1) (h @ [q]) = (r, tf1, h1)" using Suc.prems by (simp add: ask_def Let_def r0_def q_def)
    from Suc.IH [OF this] obtain a where a: "h1 = (h @ [q]) @ a" "only_calls c [k] s a" "answers_in a = (if ar_transient r then [] else [r])"
      "tf1 = tf + 1 + failures_in a" "length a \<le> Suc left" "a \<noteq> []" "cq_answer (last a) = r" by auto
    then show ?thesis using one True by (intro exI [of _ "[q] @ a"]) (auto simp: only_calls_def)
  qed
qed

lemma smoke_stage_calls:
  assumes "smoke_stage env c k cl h = (r, cl1, h1)"
  shows "\<exists>a. h1 = h @ a \<and> only_calls c [k] Smoke a \<and> cl1 = charge (answers_in a) cl \<and> ar_produced r = (\<exists>q \<in> set a. ar_produced (cq_answer q)) \<and> length a \<le> 2"
proof -
  define r0 where "r0 = env h c k Smoke"
  define q where "q = \<lparr>cq_cand = c, cq_case = k, cq_stage = Smoke, cq_answer = r0\<rparr>"
  define r1 where "r1 = env (h @ [q]) c k Smoke"
  define q1 where "q1 = \<lparr>cq_cand = c, cq_case = k, cq_stage = Smoke, cq_answer = r1\<rparr>"
  have q: "only_calls c [k] Smoke [q]" "only_calls c [k] Smoke [q1]" "cq_answer q = r0" "cq_answer q1 = r1"
    by (simp_all add: q_def q1_def only_calls_def)
  show ?thesis
  proof (cases "ar_produced r0")
    case True
    then have "r = r0 \<and> cl1 = accrue r0 cl \<and> h1 = h @ [q]" using assms by (auto simp: smoke_stage_def ask_def Let_def r0_def q_def)
    then show ?thesis using q True by (intro exI [of _ "[q]"]) (simp add: accrue_charge)
  next
    case False
    then have "r = r1 \<and> cl1 = accrue r1 (accrue r0 cl) \<and> h1 = h @ [q, q1]"
      using assms by (auto simp: smoke_stage_def ask_def Let_def r0_def q_def r1_def q1_def)
    then show ?thesis using q False by (intro exI [of _ "[q, q1]"]) (auto simp: accrue_charge only_calls_def)
  qed
qed

text \<open>The trigger screen: it stops at the first triggered answer, and without one either every case has an answer or some
  case failed.\<close>

definition no_answer_for :: "string list \<Rightarrow> call list \<Rightarrow> bool" where
  "no_answer_for ks a = (\<exists>k \<in> set ks. \<forall>q \<in> set a. cq_case q = k \<longrightarrow> ar_transient (cq_answer q) \<or> ar_triggered (cq_answer q))"

definition says_triggered :: "call list \<Rightarrow> bool" where
  "says_triggered a = (\<exists>r \<in> set (answers_in a). ar_triggered r)"

lemma says_triggered_simps [simp]: "\<not> says_triggered []" "says_triggered (a @ b) = (says_triggered a \<or> says_triggered b)"
  by (auto simp: says_triggered_def)

lemma no_answer_for_Nil [simp]: "\<not> no_answer_for [] a"
  by (simp add: no_answer_for_def)

lemma no_answer_for_Cons:
  "\<not> no_answer_for ks a \<Longrightarrow> q \<in> set b \<Longrightarrow> cq_case q = k \<Longrightarrow> \<not> ar_transient (cq_answer q) \<Longrightarrow> \<not> ar_triggered (cq_answer q) \<Longrightarrow>
    \<not> no_answer_for (k # ks) (b @ a)"
  by (auto simp: no_answer_for_def)

definition screen_says :: "string \<Rightarrow> string list \<Rightarrow> bool \<Rightarrow> nat \<Rightarrow> cost_record \<Rightarrow> call list \<Rightarrow> bool \<Rightarrow> bool \<Rightarrow> nat \<Rightarrow> cost_record \<Rightarrow> bool" where
  "screen_says c ks unav tf cl a t u tf1 cl1 =
     (only_calls c ks Screen a \<and> cl1 = charge (answers_in a) cl \<and> tf1 = tf + failures_in a \<and> t = says_triggered a \<and>
      (t \<or> u \<or> (\<not> unav \<and> \<not> no_answer_for ks a)) \<and> (u \<longrightarrow> unav \<or> 0 < failures_in a) \<and> length a \<le> 2 * length ks)"

lemma screen_cases_calls:
  "screen_cases env c ks unav tf cl h = (t, u, tf1, cl1, h1) \<Longrightarrow> \<exists>a. h1 = h @ a \<and> screen_says c ks unav tf cl a t u tf1 cl1"
proof (induction ks arbitrary: unav tf cl h)
  case Nil
  then show ?case by (auto simp: screen_says_def)
next
  case (Cons k ks)
  obtain r tf2 h2 where at: "screen_attempt env c k tf h = (r, tf2, h2)" by (metis prod_cases3)
  from attempt_retry_calls [OF at [unfolded screen_attempt_def SCREEN_TRANSIENT_RETRY_def]] obtain a1 where a1: "h2 = h @ a1" "only_calls c [k] Screen a1"
    "answers_in a1 = (if ar_transient r then [] else [r])" "tf2 = tf + failures_in a1" "length a1 \<le> Suc 1" "a1 \<noteq> []" "cq_answer (last a1) = r"
    by blast
  have o1: "only_calls c (k # ks) Screen a1" using a1(2) by (rule only_calls_mono) simp
  have la: "last a1 \<in> set a1" "cq_case (last a1) = k" using a1(2,6) by (auto simp: only_calls_def)
  have t1: "says_triggered a1 = (\<not> ar_transient r \<and> ar_triggered r)" using a1(3) by (simp add: says_triggered_def)
  show ?case
  proof (cases "ar_transient r")
    case True
    then have "screen_cases env c ks True tf2 cl h2 = (t, u, tf1, cl1, h1)" using Cons.prems at by simp
    from Cons.IH [OF this] obtain a where a: "h1 = h2 @ a" "screen_says c ks True tf2 cl a t u tf1 cl1" by blast
    have "0 < failures_in a1" using True a1(6,7) la(1) by (auto simp: failures_in_def filter_empty_conv)
    then have "screen_says c (k # ks) unav tf cl (a1 @ a) t u tf1 cl1"
      using a(2) a1(3,4,5) t1 True o1 only_calls_mono [of c ks Screen a "k # ks"] by (auto simp: screen_says_def)
    then show ?thesis using a(1) a1(1) by (metis append.assoc)
  next
    case nt: False
    show ?thesis
    proof (cases "ar_triggered r")
      case True
      then have "t \<and> u = unav \<and> tf1 = tf2 \<and> cl1 = accrue r cl \<and> h1 = h2" using Cons.prems at nt by simp
      then have "screen_says c (k # ks) unav tf cl a1 t u tf1 cl1" using a1(3,4,5) t1 nt True o1 by (simp add: screen_says_def accrue_charge)
      then show ?thesis using a1(1) \<open>t \<and> u = unav \<and> _\<close> by blast
    next
      case False
      then have "screen_cases env c ks unav tf2 (accrue r cl) h2 = (t, u, tf1, cl1, h1)" using Cons.prems at nt by simp
      from Cons.IH [OF this] obtain a where a: "h1 = h2 @ a" "screen_says c ks unav tf2 (accrue r cl) a t u tf1 cl1" by blast
      have "\<not> no_answer_for ks a \<Longrightarrow> \<not> no_answer_for (k # ks) (a1 @ a)" using no_answer_for_Cons la a1(7) nt False by metis
      then have "screen_says c (k # ks) unav tf cl (a1 @ a) t u tf1 cl1"
        using a(2) a1(3,4,5) t1 nt False o1 only_calls_mono [of c ks Screen a "k # ks"] by (auto simp: screen_says_def accrue_charge)
      then show ?thesis using a(1) a1(1) by (metis append.assoc)
    qed
  qed
qed

section \<open>One class\<close>

definition stage_calls :: "screen_stage \<Rightarrow> call list \<Rightarrow> call list" where
  "stage_calls s a = filter (\<lambda>q. cq_stage q = s) a"

lemma stage_calls_simps [simp]: "stage_calls s [] = []" "stage_calls s (a @ b) = stage_calls s a @ stage_calls s b"
  by (simp_all add: stage_calls_def)

lemma stage_calls_only: "only_calls c ks s a \<Longrightarrow> stage_calls s' a = (if s = s' then a else [])"
  by (induction a) (auto simp: only_calls_def stage_calls_def)

text \<open>What a cell says after the screening phase, from the calls of its candidate in that phase.\<close>

definition screened :: "string \<Rightarrow> string list \<Rightarrow> string \<Rightarrow> call list \<Rightarrow> stage_result \<Rightarrow> bool" where
  "screened cls cases c a cell =
     (sr_candidate cell = c \<and> sr_class cell = cls \<and>
      (\<forall>q \<in> set a. cq_cand q = c \<and> cq_case q \<in> set cases \<and> cq_stage q \<noteq> Bayes) \<and>
      sr_triggered cell = says_triggered (stage_calls Screen a) \<and>
      (sr_smoke cell = Smoke_pass) = (\<exists>q \<in> set (stage_calls Smoke a). ar_produced (cq_answer q)) \<and>
      (sr_smoke cell \<noteq> Smoke_pass \<longrightarrow> stage_calls Screen a = []) \<and>
      (sr_screen cell = Unavailable \<longrightarrow> \<not> sr_triggered cell \<and> 0 < failures_in (stage_calls Screen a)) \<and>
      (sr_smoke cell = Smoke_pass \<longrightarrow> sr_screen cell = Screen_pass \<longrightarrow> \<not> sr_triggered cell \<longrightarrow> \<not> no_answer_for cases (stage_calls Screen a)) \<and>
      length (stage_calls Smoke a) \<le> 2 \<and> length (stage_calls Screen a) \<le> 2 * length cases)"

definition fresh_cell :: "stage_result \<Rightarrow> call list \<Rightarrow> bool" where
  "fresh_cell cell a = (sr_verified cell = 0 \<and> sr_interval cell = None \<and> sr_transients cell = failures_in (stage_calls Screen a))"

lemma says_triggered_imp: "says_triggered a \<Longrightarrow> a \<noteq> []"
  by auto

lemma screen_step_calls:
  assumes "cases \<noteq> []"
  shows "\<exists>a cell. screened cls cases (sn_id cand) a cell \<and> fresh_cell cell a \<and>
     cs_hist (screen_step env cls cases n single cand st) = cs_hist st @ a \<and>
     cs_pending (screen_step env cls cases n single cand st) = dict_set (sn_id cand) cell (cs_pending st) \<and>
     cs_cost (screen_step env cls cases n single cand st) =
       dict_set (sn_id cand) (charge (answers_in a) (new_cost cls (sn_id cand))) (cs_cost st) \<and>
     cs_survivors (screen_step env cls cases n single cand st) = cs_survivors st @ (if sr_triggered cell then [cand] else []) \<and>
     cs_results (screen_step env cls cases n single cand st) = cs_results st \<and> cs_costs (screen_step env cls cases n single cand st) = cs_costs st"
proof -
  let ?c = "sn_id cand"
  obtain smoke cl1 h1 where sm: "smoke_stage env ?c (hd cases) (new_cost cls ?c) (cs_hist st) = (smoke, cl1, h1)" by (metis prod_cases3)
  obtain a1 where a1: "h1 = cs_hist st @ a1" "only_calls ?c [hd cases] Smoke a1" "cl1 = charge (answers_in a1) (new_cost cls ?c)"
    "ar_produced smoke = (\<exists>q \<in> set a1. ar_produced (cq_answer q))" "length a1 \<le> 2"
    using smoke_stage_calls [OF sm] by blast
  have s1: "stage_calls Smoke a1 = a1" "stage_calls Screen a1 = []" using stage_calls_only [OF a1(2)] by auto
  have in1: "\<forall>q \<in> set a1. cq_cand q = ?c \<and> cq_case q \<in> set cases \<and> cq_stage q \<noteq> Bayes"
    using a1(2) assms by (auto simp: only_calls_def)
  show ?thesis
  proof (cases "ar_produced smoke")
    case False
    define cell where "cell = (new_cell cls n single ?c)\<lparr>sr_smoke := (if ar_infra smoke \<noteq> [] then Smoke_infra else Plumbing_fail)\<rparr>"
    have "screened cls cases ?c a1 cell" "fresh_cell cell a1"
      using in1 a1(4,5) False s1 by (auto simp: screened_def fresh_cell_def cell_def new_cell_def)
    moreover have "\<not> sr_triggered cell" by (simp add: cell_def new_cell_def)
    ultimately show ?thesis using sm False a1(1,3)
      by (intro exI [of _ a1] exI [of _ cell]) (simp add: screen_step_def Let_def cell_def)
  next
    case True
    obtain t u tf cl2 h2 where sc: "screen_cases env ?c cases False 0 cl1 h1 = (t, u, tf, cl2, h2)" by (metis prod_cases5)
    obtain a2 where a2: "h2 = h1 @ a2" "screen_says ?c cases False 0 cl1 a2 t u tf cl2" using screen_cases_calls [OF sc] by blast
    have o2: "only_calls ?c cases Screen a2" using a2(2) by (simp add: screen_says_def)
    have s2: "stage_calls Smoke a2 = []" "stage_calls Screen a2 = a2" using stage_calls_only [OF o2] by auto
    define cell where "cell = (new_cell cls n single ?c)\<lparr>sr_triggered := t, sr_transients := tf, sr_screen := (if \<not> t \<and> u then Unavailable else Screen_pass)\<rparr>"
    have "screened cls cases ?c (a1 @ a2) cell"
      using in1 o2 a1(4,5) a2(2) True s1 s2 by (auto simp: screened_def cell_def new_cell_def screen_says_def only_calls_def)
    moreover have "fresh_cell cell (a1 @ a2)" using a2(2) s1 s2 by (simp add: fresh_cell_def cell_def new_cell_def screen_says_def)
    moreover have "cl2 = charge (answers_in (a1 @ a2)) (new_cost cls ?c)" using a1(3) a2(2) by (simp add: screen_says_def)
    moreover have "sr_triggered cell = t" by (simp add: cell_def)
    ultimately show ?thesis using sm True sc a1(1) a2(1)
      by (intro exI [of _ "a1 @ a2"] exI [of _ cell]) (simp add: screen_step_def Let_def cell_def)
  qed
qed

text \<open>The screening phase over candidates with different ids: the calls of each say what its cell says.\<close>

definition triggered_in :: "cascade_state \<Rightarrow> screen_candidate \<Rightarrow> bool" where
  "triggered_in st c = (case dict_get (cs_pending st) (sn_id c) of None \<Rightarrow> False | Some cell \<Rightarrow> sr_triggered cell)"

definition cell_screened :: "string \<Rightarrow> string list \<Rightarrow> call list \<Rightarrow> cascade_state \<Rightarrow> string \<Rightarrow> bool" where
  "cell_screened cls cases a st c =
     (\<exists>cell. dict_get (cs_pending st) c = Some cell \<and> screened cls cases c (calls_of c a) cell \<and> fresh_cell cell (calls_of c a) \<and>
        dict_get (cs_cost st) c = Some (charge (answers_in (calls_of c a)) (new_cost cls c)))"

definition same_elsewhere :: "string set \<Rightarrow> cascade_state \<Rightarrow> cascade_state \<Rightarrow> bool" where
  "same_elsewhere cs st st' =
     (cs_results st' = cs_results st \<and> cs_costs st' = cs_costs st \<and>
      (\<forall>x. x \<notin> cs \<longrightarrow> dict_get (cs_pending st') x = dict_get (cs_pending st) x \<and> dict_get (cs_cost st') x = dict_get (cs_cost st) x))"

lemma calls_of_other: "\<forall>q \<in> set a. cq_cand q \<noteq> c \<Longrightarrow> calls_of c a = []"
  by (simp add: calls_of_def filter_empty_conv)

lemma calls_of_all: "\<forall>q \<in> set a. cq_cand q = c \<Longrightarrow> calls_of c a = a"
  by (simp add: calls_of_def)

lemma screening_phase:
  assumes "cases \<noteq> []"
  shows "distinct (map sn_id active) \<Longrightarrow> \<exists>a. cs_hist (fold (screen_step env cls cases n single) active st) = cs_hist st @ a \<and>
     (\<forall>q \<in> set a. cq_cand q \<in> sn_id ` set active) \<and>
     (\<forall>c \<in> set active. cell_screened cls cases a (fold (screen_step env cls cases n single) active st) (sn_id c)) \<and>
     same_elsewhere (sn_id ` set active) st (fold (screen_step env cls cases n single) active st) \<and>
     cs_survivors (fold (screen_step env cls cases n single) active st) =
       cs_survivors st @ filter (triggered_in (fold (screen_step env cls cases n single) active st)) active"
proof (induction active arbitrary: st)
  case Nil
  then show ?case by (simp add: same_elsewhere_def)
next
  case (Cons x active)
  define st1 where "st1 = screen_step env cls cases n single x st"
  define st2 where "st2 = fold (screen_step env cls cases n single) active st1"
  have fold: "fold (screen_step env cls cases n single) (x # active) st = st2" by (simp add: st1_def st2_def)
  obtain a1 cell where a1: "screened cls cases (sn_id x) a1 cell" "fresh_cell cell a1" "cs_hist st1 = cs_hist st @ a1"
    "cs_pending st1 = dict_set (sn_id x) cell (cs_pending st)" "cs_cost st1 = dict_set (sn_id x) (charge (answers_in a1) (new_cost cls (sn_id x))) (cs_cost st)"
    "cs_survivors st1 = cs_survivors st @ (if sr_triggered cell then [x] else [])" "cs_results st1 = cs_results st" "cs_costs st1 = cs_costs st"
    using screen_step_calls [OF assms, of cls x env n single st] unfolding st1_def by blast
  have dist: "distinct (map sn_id active)" and x: "sn_id x \<notin> sn_id ` set active" using Cons.prems by auto
  obtain a2 where a2: "cs_hist st2 = cs_hist st1 @ a2" "\<forall>q \<in> set a2. cq_cand q \<in> sn_id ` set active"
    "\<forall>c \<in> set active. cell_screened cls cases a2 st2 (sn_id c)" "same_elsewhere (sn_id ` set active) st1 st2"
    "cs_survivors st2 = cs_survivors st1 @ filter (triggered_in st2) active"
    using Cons.IH [OF dist, of st1] unfolding st2_def by blast
  have c1: "\<forall>q \<in> set a1. cq_cand q = sn_id x" using a1(1) by (simp add: screened_def)
  have kept: "dict_get (cs_pending st2) (sn_id x) = Some cell" "dict_get (cs_cost st2) (sn_id x) = Some (charge (answers_in a1) (new_cost cls (sn_id x)))"
    using a2(4) x a1(4,5) by (simp_all add: same_elsewhere_def)
  have "\<forall>q \<in> set a2. cq_cand q \<noteq> sn_id x" using a2(2) x by metis
  then have "calls_of (sn_id x) (a1 @ a2) = a1" using calls_of_all [OF c1] calls_of_other [of a2 "sn_id x"] by simp
  then have "cell_screened cls cases (a1 @ a2) st2 (sn_id x)" using kept a1(1,2) by (simp add: cell_screened_def)
  moreover have "cell_screened cls cases (a1 @ a2) st2 (sn_id c)" if c: "c \<in> set active" for c
  proof -
    have "sn_id c \<noteq> sn_id x" using x c by (metis imageI)
    then have "calls_of (sn_id c) a1 = []" using c1 by (intro calls_of_other) auto
    then show ?thesis using a2(3) c by (simp add: cell_screened_def)
  qed
  moreover have "same_elsewhere (sn_id ` set (x # active)) st st2"
    using a2(4) a1(4,5,7,8) by (auto simp: same_elsewhere_def)
  moreover have "triggered_in st2 x = sr_triggered cell" using kept by (simp add: triggered_in_def)
  moreover have "cs_hist st2 = cs_hist st @ a1 @ a2" using a1(3) a2(1) by simp
  moreover have "\<forall>q \<in> set (a1 @ a2). cq_cand q \<in> sn_id ` set (x # active)" using c1 a2(2) by auto
  ultimately show ?case unfolding fold using a1(6) a2(5) by (intro exI [of _ "a1 @ a2"]) simp
qed

text \<open>The trials of one candidate.\<close>

lemma trial_step_calls:
  assumes "trial_step env c k (vk, m, tf, cl, h) = (vk1, m1, tf1, cl1, h1)"
  shows "\<exists>b. h1 = h @ b \<and> only_calls c [k] Bayes b \<and> vk1 = vk + length (filter ar_verified (answers_in b)) \<and> m1 = m + length (answers_in b) \<and>
     tf1 = tf + failures_in b \<and> cl1 = charge (answers_in b) cl \<and> length b \<le> 4 \<and> length (answers_in b) \<le> 1"
proof -
  obtain r tf2 h2 where at: "bayes_attempt env c k tf h = (r, tf2, h2)" by (metis prod_cases3)
  from attempt_retry_calls [OF at [unfolded bayes_attempt_def TRANSIENT_RETRY_CAP_def]] obtain b where
    b: "h2 = h @ b" "only_calls c [k] Bayes b" "answers_in b = (if ar_transient r then [] else [r])" "tf2 = tf + failures_in b" "length b \<le> Suc 3" by blast
  then show ?thesis using assms at
    by (intro exI [of _ b]) (cases "ar_transient r"; simp add: trial_step_def accrue_charge; auto)
qed

lemma trials_fold_calls:
  "fold (trial_step env c) ks (vk, m, tf, cl, h) = (vk1, m1, tf1, cl1, h1) \<Longrightarrow>
     \<exists>b. h1 = h @ b \<and> only_calls c ks Bayes b \<and> vk1 = vk + length (filter ar_verified (answers_in b)) \<and> m1 = m + length (answers_in b) \<and>
       tf1 = tf + failures_in b \<and> cl1 = charge (answers_in b) cl \<and> length b \<le> 4 * length ks \<and> length (answers_in b) \<le> length ks"
proof (induction ks arbitrary: vk m tf cl h)
  case Nil
  then show ?case by auto
next
  case (Cons k ks)
  obtain vk2 m2 tf2 cl2 h2 where t: "trial_step env c k (vk, m, tf, cl, h) = (vk2, m2, tf2, cl2, h2)" by (metis prod_cases5)
  obtain b1 where b1: "h2 = h @ b1" "only_calls c [k] Bayes b1" "vk2 = vk + length (filter ar_verified (answers_in b1))" "m2 = m + length (answers_in b1)"
    "tf2 = tf + failures_in b1" "cl2 = charge (answers_in b1) cl" "length b1 \<le> 4" "length (answers_in b1) \<le> 1" using trial_step_calls [OF t] by blast
  have "fold (trial_step env c) ks (vk2, m2, tf2, cl2, h2) = (vk1, m1, tf1, cl1, h1)" using Cons.prems t by simp
  from Cons.IH [OF this] obtain b2 where b2: "h1 = h2 @ b2" "only_calls c ks Bayes b2" "vk1 = vk2 + length (filter ar_verified (answers_in b2))"
    "m1 = m2 + length (answers_in b2)" "tf1 = tf2 + failures_in b2" "cl1 = charge (answers_in b2) cl2" "length b2 \<le> 4 * length ks"
    "length (answers_in b2) \<le> length ks" by blast
  have "only_calls c (k # ks) Bayes (b1 @ b2)" using only_calls_mono [OF b1(2), of "k # ks"] only_calls_mono [OF b2(2), of "k # ks"] by auto
  then show ?case using b1 b2 by (intro exI [of _ "b1 @ b2"]) simp
qed

text \<open>The cell and the cost of a candidate behind its trials, from the calls of the trials.\<close>

definition tried_cell :: "stage_result \<Rightarrow> call list \<Rightarrow> interval \<Rightarrow> stage_result" where
  "tried_cell cell b iv =
     cell\<lparr>sr_transients := sr_transients cell + failures_in b, sr_verified := length (filter ar_verified (answers_in b)),
          sr_n := int (length (answers_in b)), sr_interval := Some iv\<rparr>"

definition tried_cost :: "cost_record \<Rightarrow> call list \<Rightarrow> cost_record" where
  "tried_cost cl b = (charge (answers_in b) cl)\<lparr>cl_passes := length (filter ar_verified (answers_in b))\<rparr>"

definition trials_of :: "math_lib \<Rightarrow> rat \<Rightarrow> string list \<Rightarrow> int \<Rightarrow> call list \<Rightarrow> cascade_state \<Rightarrow> cascade_state \<Rightarrow> string \<Rightarrow> bool" where
  "trials_of ml level cases n b st st' c =
     (only_calls c cases Bayes (calls_of c b) \<and> length (answers_in (calls_of c b)) \<le> nat n * length cases \<and>
      length (calls_of c b) \<le> 4 * (nat n * length cases) \<and>
      (\<exists>cell cl iv. dict_get (cs_pending st) c = Some cell \<and> dict_get (cs_cost st) c = Some cl \<and>
         credible_interval ml (int (length (filter ar_verified (answers_in (calls_of c b))))) (int (length (answers_in (calls_of c b)))) level = Inr iv \<and>
         dict_get (cs_pending st') c = Some (tried_cell cell (calls_of c b) iv) \<and>
         dict_get (cs_cost st') c = Some (tried_cost cl (calls_of c b))))"

lemma length_trial_list: "length (concat (map (\<lambda>k. replicate m k) ks)) = m * length ks"
  by (induction ks) simp_all

lemma trials_step_calls:
  assumes "trials_step ml level env cases n cand st = Inr st1"
  shows "\<exists>b. cs_hist st1 = cs_hist st @ b \<and> (\<forall>q \<in> set b. cq_cand q = sn_id cand) \<and> trials_of ml level cases n b st st1 (sn_id cand) \<and>
     same_elsewhere {sn_id cand} st st1"
proof -
  let ?c = "sn_id cand" and ?ks = "concat (map (\<lambda>k. replicate (nat n) k) cases)"
  obtain cell cl where p: "dict_get (cs_pending st) ?c = Some cell" "dict_get (cs_cost st) ?c = Some cl"
    using assms by (auto simp: trials_step_def Let_def split: option.splits)
  obtain vk m tf cl1 h1 where t: "run_trials env ?c cases n (0, 0, sr_transients cell, cl, cs_hist st) = (vk, m, tf, cl1, h1)" by (metis prod_cases5)
  obtain iv where iv: "credible_interval ml (int vk) (int m) level = Inr iv"
    and st1: "st1 = st\<lparr>cs_pending := dict_set ?c (cell\<lparr>sr_transients := tf, sr_verified := vk, sr_n := int m, sr_interval := Some iv\<rparr>) (cs_pending st),
        cs_cost := dict_set ?c (cl1\<lparr>cl_passes := vk\<rparr>) (cs_cost st), cs_hist := h1\<rparr>"
    using assms p t by (auto simp: trials_step_def Let_def bindE_Inr)
  obtain b where b: "h1 = cs_hist st @ b" "only_calls ?c ?ks Bayes b" "vk = length (filter ar_verified (answers_in b))" "m = length (answers_in b)"
    "tf = sr_transients cell + failures_in b" "cl1 = charge (answers_in b) cl" "length b \<le> 4 * length ?ks" "length (answers_in b) \<le> length ?ks"
    using trials_fold_calls [OF t [unfolded run_trials_def]] by auto
  have cb: "\<forall>q \<in> set b. cq_cand q = ?c" using b(2) by (simp add: only_calls_def)
  have "only_calls ?c cases Bayes b" by (rule only_calls_mono [OF b(2)]) auto
  then have "trials_of ml level cases n b st st1 ?c"
    using p iv b(3-8) calls_of_all [OF cb] by (simp add: trials_of_def st1 tried_cell_def tried_cost_def length_trial_list)
  moreover have "same_elsewhere {?c} st st1" by (simp add: same_elsewhere_def st1)
  ultimately show ?thesis using b(1) cb by (intro exI [of _ b]) (simp add: st1)
qed

lemma trials_of_cong:
  assumes "dict_get (cs_pending st) c = dict_get (cs_pending st0) c" "dict_get (cs_cost st) c = dict_get (cs_cost st0) c"
    "dict_get (cs_pending st1) c = dict_get (cs_pending st2) c" "dict_get (cs_cost st1) c = dict_get (cs_cost st2) c" "calls_of c b = calls_of c b'"
  shows "trials_of ml level cases n b st st1 c = trials_of ml level cases n b' st0 st2 c"
  unfolding trials_of_def assms ..

lemma trials_phase:
  "distinct (map sn_id ss) \<Longrightarrow> foldE (trials_step ml level env cases n) ss st = Inr st1 \<Longrightarrow>
     \<exists>b. cs_hist st1 = cs_hist st @ b \<and> (\<forall>q \<in> set b. cq_cand q \<in> sn_id ` set ss) \<and>
       (\<forall>c \<in> set ss. trials_of ml level cases n b st st1 (sn_id c)) \<and> same_elsewhere (sn_id ` set ss) st st1"
proof (induction ss arbitrary: st)
  case Nil
  then show ?case by (simp add: same_elsewhere_def)
next
  case (Cons x ss)
  obtain st2 where s2: "trials_step ml level env cases n x st = Inr st2" "foldE (trials_step ml level env cases n) ss st2 = Inr st1"
    using Cons.prems(2) by (auto simp: bindE_Inr)
  obtain b1 where b1: "cs_hist st2 = cs_hist st @ b1" "\<forall>q \<in> set b1. cq_cand q = sn_id x" "trials_of ml level cases n b1 st st2 (sn_id x)"
    "same_elsewhere {sn_id x} st st2" using trials_step_calls [OF s2(1)] by blast
  have dist: "distinct (map sn_id ss)" and x: "sn_id x \<notin> sn_id ` set ss" using Cons.prems(1) by auto
  obtain b2 where b2: "cs_hist st1 = cs_hist st2 @ b2" "\<forall>q \<in> set b2. cq_cand q \<in> sn_id ` set ss"
    "\<forall>c \<in> set ss. trials_of ml level cases n b2 st2 st1 (sn_id c)" "same_elsewhere (sn_id ` set ss) st2 st1"
    using Cons.IH [OF dist s2(2)] by blast
  have "\<forall>q \<in> set b2. cq_cand q \<noteq> sn_id x" using b2(2) x by metis
  then have "calls_of (sn_id x) (b1 @ b2) = calls_of (sn_id x) b1" using calls_of_other [of b2 "sn_id x"] by simp
  then have "trials_of ml level cases n (b1 @ b2) st st1 (sn_id x)"
    using b1(3) b2(4) x trials_of_cong [of st "sn_id x" st st1 st2 "b1 @ b2" b1] by (simp add: same_elsewhere_def)
  moreover have "trials_of ml level cases n (b1 @ b2) st st1 (sn_id c)" if c: "c \<in> set ss" for c
  proof -
    have n: "sn_id c \<noteq> sn_id x" using x c by (metis imageI)
    then have "calls_of (sn_id c) (b1 @ b2) = calls_of (sn_id c) b2" using b1(2) calls_of_other [of b1 "sn_id c"] by simp
    then show ?thesis using b2(3) c n b1(4) trials_of_cong [of st "sn_id c" st2 st1 st1 "b1 @ b2" b2] by (simp add: same_elsewhere_def)
  qed
  moreover have "same_elsewhere (sn_id ` set (x # ss)) st st1" using b1(4) b2(4) by (auto simp: same_elsewhere_def)
  moreover have "\<forall>q \<in> set (b1 @ b2). cq_cand q \<in> sn_id ` set (x # ss)" using b1(2) b2(2) by auto
  ultimately show ?case using b1(1) b2(1) by (intro exI [of _ "b1 @ b2"]) simp
qed

text \<open>What a published cell says, from the screening calls \<open>a\<close> and the trials \<open>b\<close> of its class.\<close>

definition cell_says :: "math_lib \<Rightarrow> rat \<Rightarrow> string \<Rightarrow> string list \<Rightarrow> int \<Rightarrow> call list \<Rightarrow> call list \<Rightarrow> stage_result \<Rightarrow> bool" where
  "cell_says ml level cls cases n a b cell =
     (let ca = calls_of (sr_candidate cell) a; cb = calls_of (sr_candidate cell) b; good = answers_in cb in
      screened cls cases (sr_candidate cell) ca cell \<and> only_calls (sr_candidate cell) cases Bayes cb \<and>
      sr_transients cell = failures_in (stage_calls Screen ca) + failures_in cb \<and>
      (if sr_triggered cell
       then sr_verified cell = length (filter ar_verified good) \<and> sr_n cell = int (length good) \<and> length good \<le> nat n * length cases \<and>
         length cb \<le> 4 * (nat n * length cases) \<and>
         (\<exists>iv. sr_interval cell = Some iv \<and> credible_interval ml (int (sr_verified cell)) (sr_n cell) level = Inr iv)
       else cb = [] \<and> sr_verified cell = 0 \<and> sr_interval cell = None))"

definition cost_says :: "call list \<Rightarrow> stage_result \<Rightarrow> cost_record \<Rightarrow> bool" where
  "cost_says h cell cl =
     (cl_candidate cl = sr_candidate cell \<and> cl_class cl = sr_class cell \<and> cl_passes cl = sr_verified cell \<and>
      cl_tokens cl = (\<Sum>r\<leftarrow>answers_in (calls_of (sr_candidate cell) h). ar_tokens r) \<and>
      (cl_usd_pass cl = None) = (sr_verified cell = 0))"

lemma screened_tried:
  "screened cls cases c a (cell\<lparr>sr_transients := x, sr_verified := y, sr_n := z, sr_interval := w\<rparr>) = screened cls cases c a cell"
  by (simp add: screened_def)

lemma publish_all:
  "distinct (map sn_id active) \<Longrightarrow> foldE (publish prices) active st = Inr st1 \<Longrightarrow>
     cs_hist st1 = cs_hist st \<and>
     (\<forall>c \<in> set active. dict_get (cs_pending st) (sn_id c) \<noteq> None \<and> dict_get (cs_cost st) (sn_id c) \<noteq> None) \<and>
     cs_results st1 = cs_results st @ map (\<lambda>c. the (dict_get (cs_pending st) (sn_id c))) active \<and>
     cs_costs st1 = cs_costs st @ map (\<lambda>c. finalize_cost prices (the (dict_get (cs_cost st) (sn_id c)))) active"
proof (induction active arbitrary: st)
  case Nil
  then show ?case by simp
next
  case (Cons x active)
  obtain st2 where s2: "publish prices x st = Inr st2" "foldE (publish prices) active st2 = Inr st1" using Cons.prems(2) by (auto simp: bindE_Inr)
  obtain cell cl where p: "dict_get (cs_pending st) (sn_id x) = Some cell" "dict_get (cs_cost st) (sn_id x) = Some cl"
    and st2: "st2 = st\<lparr>cs_cost := dict_set (sn_id x) (finalize_cost prices cl) (cs_cost st), cs_results := cs_results st @ [cell],
      cs_costs := cs_costs st @ [finalize_cost prices cl]\<rparr>"
    using s2(1) by (auto simp: publish_def Let_def split: option.splits)
  have dist: "distinct (map sn_id active)" using Cons.prems(1) by simp
  have ne: "sn_id c \<noteq> sn_id x" if "c \<in> set active" for c using Cons.prems(1) that by (metis distinct.simps(2) image_eqI list.simps(9) set_map)
  have same: "map (\<lambda>c. finalize_cost prices (the (dict_get (cs_cost st2) (sn_id c)))) active = map (\<lambda>c. finalize_cost prices (the (dict_get (cs_cost st) (sn_id c)))) active"
    using ne by (intro map_cong) (auto simp: st2)
  have defined: "\<forall>c \<in> set active. dict_get (cs_pending st) (sn_id c) \<noteq> None \<and> dict_get (cs_cost st) (sn_id c) \<noteq> None"
    using Cons.IH [OF dist s2(2)] ne by (simp add: st2)
  show ?case using Cons.IH [OF dist s2(2)] p defined unfolding same by (simp add: st2)
qed

lemma run_class_calls:
  assumes dist: "distinct (map sn_id active)" and ne: "cases \<noteq> []"
    and run: "run_class ml rec prices env active (cls, cases) st0 = Inr st1"
  shows "\<exists>a b cells costs. cs_hist st1 = cs_hist st0 @ a @ b \<and> cs_results st1 = cs_results st0 @ cells \<and> cs_costs st1 = cs_costs st0 @ costs \<and>
    map sr_candidate cells = map sn_id active \<and> (\<forall>cell \<in> set cells. cell_says ml (pg_level rec) cls cases (dict_getd (pg_n rec) cls 0) a b cell) \<and>
    list_all2 (cost_says (a @ b)) cells costs \<and> (\<forall>q \<in> set (a @ b). cq_cand q \<in> sn_id ` set active)"
proof -
  define n where "n = dict_getd (pg_n rec) cls 0"
  define init where "init = st0\<lparr>cs_pending := [], cs_cost := [], cs_survivors := []\<rparr>"
  have i0: "cs_hist init = cs_hist st0" "cs_survivors init = []" by (simp_all add: init_def)
  define sa where "sa = fold (screen_step env cls cases n (pg_cases_per_class rec = 1)) active init"
  define sb where "sb = sa\<lparr>cs_log := cs_log sa @ (if cs_survivors sa = [] then [Ev_zero_survivors cls] else [])\<rparr>"
  define ss where "ss = sort_key order_key (cs_survivors sb)"
  obtain sc where sc: "foldE (trials_step ml (pg_level rec) env cases n) ss sb = Inr sc" "foldE (publish prices) active sc = Inr st1"
    using run by (auto simp: run_class_def Let_def bindE_Inr ss_def sb_def sa_def init_def n_def)
  obtain a where a: "cs_hist sa = cs_hist st0 @ a" "\<forall>q \<in> set a. cq_cand q \<in> sn_id ` set active"
    "\<forall>c \<in> set active. cell_screened cls cases a sa (sn_id c)" "same_elsewhere (sn_id ` set active) init sa"
    "cs_survivors sa = filter (triggered_in sa) active"
    using screening_phase [OF ne dist, of env cls n "pg_cases_per_class rec = 1" init, folded sa_def] i0 by auto
  have ss: "distinct (map sn_id ss)" "set ss = {c \<in> set active. triggered_in sa c}"
  proof -
    have "mset (map sn_id ss) = mset (map sn_id (filter (triggered_in sa) active))" by (simp add: ss_def sb_def a(5) mset_map del: mset_filter)
    then show "distinct (map sn_id ss)" using distinct_map_filter [OF dist] mset_eq_imp_distinct_iff by blast
    show "set ss = {c \<in> set active. triggered_in sa c}" by (simp add: ss_def sb_def a(5))
  qed
  obtain b where b: "cs_hist sc = cs_hist sb @ b" "\<forall>q \<in> set b. cq_cand q \<in> sn_id ` set ss"
    "\<forall>c \<in> set ss. trials_of ml (pg_level rec) cases n b sb sc (sn_id c)" "same_elsewhere (sn_id ` set ss) sb sc"
    using trials_phase [OF ss(1) sc(1)] by blast
  note pub = publish_all [OF dist sc(2)]
  define cells where "cells = map (\<lambda>c. the (dict_get (cs_pending sc) (sn_id c))) active"
  define costs where "costs = map (\<lambda>c. finalize_cost prices (the (dict_get (cs_cost sc) (sn_id c)))) active"
  have one: "cell_says ml (pg_level rec) cls cases n a b (the (dict_get (cs_pending sc) (sn_id c))) \<and>
      sr_candidate (the (dict_get (cs_pending sc) (sn_id c))) = sn_id c \<and>
      cost_says (a @ b) (the (dict_get (cs_pending sc) (sn_id c))) (finalize_cost prices (the (dict_get (cs_cost sc) (sn_id c))))"
    if c: "c \<in> set active" for c
  proof -
    let ?id = "sn_id c"
    obtain cell0 where cell0: "dict_get (cs_pending sa) ?id = Some cell0" "screened cls cases ?id (calls_of ?id a) cell0" "fresh_cell cell0 (calls_of ?id a)"
      "dict_get (cs_cost sa) ?id = Some (charge (answers_in (calls_of ?id a)) (new_cost cls ?id))"
      using a(3) c by (auto simp: cell_screened_def)
    have named: "sr_candidate cell0 = ?id" "sr_class cell0 = cls" using cell0(2) by (simp_all add: screened_def)
    have trig: "triggered_in sa c = sr_triggered cell0" using cell0(1) by (simp add: triggered_in_def)
    show ?thesis
    proof (cases "sr_triggered cell0")
      case True
      then have "c \<in> set ss" using ss(2) c trig by simp
      then have "trials_of ml (pg_level rec) cases n b sb sc ?id" using b(3) by blast
      then show ?thesis using cell0 named True
        by (auto simp: trials_of_def sb_def cell_says_def cost_says_def Let_def screened_tried tried_cell_def tried_cost_def fresh_cell_def
            finalize_cost_def charge_def new_cost_def)
    next
      case False
      have "?id \<notin> sn_id ` set ss" using ss(2) trig False c dist by (auto simp: distinct_map dest: inj_onD)
      then have "\<forall>q \<in> set b. cq_cand q \<noteq> ?id" using b(2) by metis
      then have kept: "dict_get (cs_pending sc) ?id = Some cell0" "dict_get (cs_cost sc) ?id = dict_get (cs_cost sa) ?id" "calls_of ?id b = []"
        using b(4) \<open>?id \<notin> sn_id ` set ss\<close> cell0(1) calls_of_other [of b ?id] by (auto simp: same_elsewhere_def sb_def)
      then show ?thesis using cell0 named False
        by (auto simp: cell_says_def cost_says_def Let_def fresh_cell_def finalize_cost_def charge_def new_cost_def)
    qed
  qed
  have "map sr_candidate cells = map sn_id active" "\<forall>cell \<in> set cells. cell_says ml (pg_level rec) cls cases n a b cell"
    "list_all2 (cost_says (a @ b)) cells costs"
    using one by (simp_all add: cells_def costs_def list_all2_map1 list_all2_map2 list_all2_same)
  moreover have "cs_hist st1 = cs_hist st0 @ a @ b" using pub b(1) a(1) by (simp add: sb_def)
  moreover have "cs_results st1 = cs_results st0 @ cells" "cs_costs st1 = cs_costs st0 @ costs"
    using pub a(4) b(4) by (simp_all add: cells_def costs_def same_elsewhere_def sb_def init_def)
  moreover have "\<forall>q \<in> set (a @ b). cq_cand q \<in> sn_id ` set active" using a(2) b(2) ss(2) by auto
  ultimately show ?thesis unfolding n_def by blast
qed

section \<open>The cascade\<close>

text \<open>Grouping: the classes of the battery, each with its cases in order; all of them are registered.\<close>

definition labelled :: "battery_case list \<Rightarrow> battery_case list" where
  "labelled battery = filter (\<lambda>bc. py_strip (by_class bc) \<noteq> []) battery"

definition cases_of :: "battery_case list \<Rightarrow> string \<Rightarrow> string list" where
  "cases_of battery cls = map by_id (filter (\<lambda>bc. by_class bc = cls) (labelled battery))"

definition grouped :: "battery_case list \<Rightarrow> (string \<times> string list) list \<Rightarrow> bool" where
  "grouped battery d =
     (distinct (dict_keys d) \<and> set (dict_keys d) = by_class ` set (labelled battery) \<and>
      (\<forall>cls. dict_get d cls = (if cls \<in> by_class ` set (labelled battery) then Some (cases_of battery cls) else None)))"

lemma grouped_step:
  assumes "grouped battery d" "group_case rec bc d = Inr d1"
  shows "grouped (battery @ [bc]) d1 \<and> (py_strip (by_class bc) \<noteq> [] \<longrightarrow> by_class bc \<in> set (pg_classes rec))"
proof (cases "py_strip (by_class bc) = []")
  case True
  then show ?thesis using assms by (simp add: group_case_def grouped_def labelled_def cases_of_def)
next
  case False
  then have d1: "d1 = add_to (by_class bc) (by_id bc) d" "by_class bc \<in> set (pg_classes rec)"
    using assms(2) by (auto simp: group_case_def enforce_class_def screen_error_def bindE_Inr split: if_splits)
  have "cases_of battery cls = []" if "cls \<notin> by_class ` set (labelled battery)" for cls
    using that by (auto simp: cases_of_def filter_empty_conv)
  then have "grouped (battery @ [bc]) d1"
    using assms(1) False unfolding d1(1)
    by (auto simp: grouped_def add_to_def dict_getd_def labelled_def cases_of_def dict_keys_set dict_keys_set_distinct)
  then show ?thesis using d1(2) by simp
qed

lemma foldE_grouped:
  "foldE (group_case rec) bs d = Inr d1 \<Longrightarrow> grouped battery d \<Longrightarrow>
     grouped (battery @ bs) d1 \<and> by_class ` set (labelled bs) \<subseteq> set (pg_classes rec)"
proof (induction bs arbitrary: d battery)
  case Nil
  then show ?case by (simp add: labelled_def)
next
  case (Cons bc bs)
  obtain d2 where d2: "group_case rec bc d = Inr d2" "foldE (group_case rec) bs d2 = Inr d1" using Cons.prems(1) by (auto simp: bindE_Inr)
  note st = grouped_step [OF Cons.prems(2) d2(1)]
  have "grouped ((battery @ [bc]) @ bs) d1 \<and> by_class ` set (labelled bs) \<subseteq> set (pg_classes rec)"
    by (rule Cons.IH [OF d2(2)]) (rule conjunct1 [OF st])
  then show ?case using conjunct2 [OF st] by (auto simp: labelled_def)
qed

lemma grouped_Nil: "grouped [] []"
  by (simp add: grouped_def labelled_def cases_of_def dict_keys_def)

text \<open>One segment of the history per class: its screening calls, its trials, its cells and their costs.\<close>

type_synonym segment = "string \<times> call list \<times> call list \<times> stage_result list \<times> cost_record list"

definition segment_ok :: "math_lib \<Rightarrow> prereg \<Rightarrow> battery_case list \<Rightarrow> screen_candidate list \<Rightarrow> segment \<Rightarrow> bool" where
  "segment_ok ml rec battery active sg =
     (case sg of (cls, a, b, cells, costs) \<Rightarrow>
        map sr_candidate cells = map sn_id active \<and>
        (\<forall>cell \<in> set cells. cell_says ml (pg_level rec) cls (cases_of battery cls) (dict_getd (pg_n rec) cls 0) a b cell) \<and>
        list_all2 (cost_says (a @ b)) cells costs \<and> (\<forall>q \<in> set (a @ b). cq_cand q \<in> sn_id ` set active))"

definition segments_ok :: "math_lib \<Rightarrow> prereg \<Rightarrow> battery_case list \<Rightarrow> screen_candidate list \<Rightarrow> segment list \<Rightarrow> cascade_state \<Rightarrow> bool" where
  "segments_ok ml rec battery active sgs st =
     (cs_hist st = concat (map (\<lambda>(cls, a, b, cells, costs). a @ b) sgs) \<and>
      cs_results st = concat (map (\<lambda>(cls, a, b, cells, costs). cells) sgs) \<and>
      cs_costs st = concat (map (\<lambda>(cls, a, b, cells, costs). costs) sgs) \<and>
      (\<forall>sg \<in> set sgs. segment_ok ml rec battery active sg))"

lemma run_classes:
  assumes dist: "distinct (map sn_id active)"
  shows "foldE (run_class ml rec prices env active) ccs st = Inr st1 \<Longrightarrow>
    (\<forall>(cls, cases) \<in> set ccs. cases \<noteq> [] \<and> cases = cases_of battery cls) \<Longrightarrow>
    segments_ok ml rec battery active sgs st \<Longrightarrow>
    \<exists>sgs1. map fst sgs1 = map fst ccs \<and> segments_ok ml rec battery active (sgs @ sgs1) st1"
proof (induction ccs arbitrary: st sgs)
  case Nil
  then show ?case by (intro exI [of _ "[]"]) simp
next
  case (Cons cc ccs)
  obtain cls cases where cc: "cc = (cls, cases)" by (metis prod.exhaust)
  obtain st2 where s2: "run_class ml rec prices env active (cls, cases) st = Inr st2" "foldE (run_class ml rec prices env active) ccs st2 = Inr st1"
    using Cons.prems(1) by (auto simp: cc bindE_Inr)
  have ks: "cases \<noteq> []" "cases = cases_of battery cls" using Cons.prems(2) by (auto simp: cc)
  obtain a b cells costs where r: "cs_hist st2 = cs_hist st @ a @ b" "cs_results st2 = cs_results st @ cells" "cs_costs st2 = cs_costs st @ costs"
    "map sr_candidate cells = map sn_id active" "\<forall>cell \<in> set cells. cell_says ml (pg_level rec) cls cases (dict_getd (pg_n rec) cls 0) a b cell"
    "list_all2 (cost_says (a @ b)) cells costs" "\<forall>q \<in> set (a @ b). cq_cand q \<in> sn_id ` set active"
    using run_class_calls [OF dist ks(1) s2(1)] by blast
  have "segments_ok ml rec battery active (sgs @ [(cls, a, b, cells, costs)]) st2"
    using Cons.prems(3) r ks(2) by (auto simp: segments_ok_def segment_ok_def)
  from Cons.IH [OF s2(2) _ this] Cons.prems(2) obtain sgs1 where
    "map fst sgs1 = map fst ccs" "segments_ok ml rec battery active ((sgs @ [(cls, a, b, cells, costs)]) @ sgs1) st1" by auto
  then show ?case by (intro exI [of _ "(cls, a, b, cells, costs) # sgs1"]) (simp add: cc)
qed

lemma run_cascade_segments:
  assumes dist: "distinct (map sn_id (filter sn_callable cands))" and run: "run_cascade ml rec battery cands env prices = Inr st"
  shows "\<exists>sgs. segments_ok ml rec battery (active_candidates cands) sgs st \<and> sorted (map fst sgs) \<and> distinct (map fst sgs) \<and>
    set (map fst sgs) = by_class ` set (labelled battery)"
    and "by_class ` set (labelled battery) \<subseteq> set (pg_classes rec)" "sn_id ` set cands \<subseteq> sn_id ` set (pg_candidates rec)"
proof -
  define table where "table = (if prices \<noteq> [] then prices else pg_prices rec)"
  obtain d us where d: "foldE (group_case rec) battery [] = Inr d" and us: "mapE (\<lambda>c. enforce_subject rec (sn_id c)) cands = Inr us"
    and f: "foldE (run_class ml rec table env (active_candidates cands)) (sort_key fst d) empty_cascade = Inr st"
    using run by (auto simp: run_cascade_def Let_def bindE_Inr table_def)
  have g: "grouped battery d" and "by_class ` set (labelled battery) \<subseteq> set (pg_classes rec)"
    using foldE_grouped [OF d grouped_Nil] by simp_all
  then show "by_class ` set (labelled battery) \<subseteq> set (pg_classes rec)" by blast
  show "sn_id ` set cands \<subseteq> sn_id ` set (pg_candidates rec)"
  proof
    fix x assume "x \<in> sn_id ` set cands"
    then obtain c where c: "c \<in> set cands" "x = sn_id c" by blast
    then obtain u where "enforce_subject rec (sn_id c) = Inr u" using mapE_Inr_in [OF us c(1)] by blast
    then show "x \<in> sn_id ` set (pg_candidates rec)" using c(2) by (auto simp: enforce_subject_def screen_error_def split: if_splits)
  qed
  have "mset (map sn_id (active_candidates cands)) = mset (map sn_id (filter sn_callable cands))" by (simp add: active_candidates_def mset_map del: mset_filter)
  then have dist': "distinct (map sn_id (active_candidates cands))" using dist mset_eq_imp_distinct_iff by blast
  have keys: "distinct (map fst d)" "set (map fst d) = by_class ` set (labelled battery)" using g by (simp_all add: grouped_def dict_keys_def)
  have ok: "\<forall>(cls, cases) \<in> set (sort_key fst d). cases \<noteq> [] \<and> cases = cases_of battery cls"
  proof (clarsimp)
    fix cls cases assume m: "(cls, cases) \<in> set d"
    then have "dict_get d cls = Some cases" using keys(1) by simp
    moreover have "cls \<in> by_class ` set (labelled battery)" using m keys(2) by force
    ultimately have "cases = cases_of battery cls" using g by (auto simp: grouped_def)
    moreover have "cases_of battery cls \<noteq> []" using \<open>cls \<in> by_class ` set (labelled battery)\<close> by (auto simp: cases_of_def filter_empty_conv)
    ultimately show "cases \<noteq> [] \<and> cases = cases_of battery cls" by simp
  qed
  have "segments_ok ml rec battery (active_candidates cands) [] empty_cascade" by (simp add: segments_ok_def empty_cascade_def)
  from run_classes [OF dist' f ok this] obtain sgs where sgs: "map fst sgs = map fst (sort_key fst d)"
    "segments_ok ml rec battery (active_candidates cands) sgs st" by auto
  have "mset (map fst (sort_key fst d)) = mset (map fst d)" by (simp add: mset_map)
  then have "distinct (map fst (sort_key fst d))" "set (map fst (sort_key fst d)) = set (map fst d)"
    using keys(1) mset_eq_imp_distinct_iff mset_eq_setD by blast+
  then have "distinct (map fst sgs)" "set (map fst sgs) = by_class ` set (labelled battery)" "sorted (map fst sgs)"
    unfolding sgs(1) using keys(2) by simp_all
  then show "\<exists>sgs. segments_ok ml rec battery (active_candidates cands) sgs st \<and> sorted (map fst sgs) \<and> distinct (map fst sgs) \<and>
    set (map fst sgs) = by_class ` set (labelled battery)" using sgs(2) by blast
qed

lemma length_stages: "\<forall>q \<in> set a. cq_stage q \<noteq> Bayes \<Longrightarrow> length a = length (stage_calls Smoke a) + length (stage_calls Screen a)"
proof (induction a)
  case (Cons q a)
  then show ?case by (cases "cq_stage q") (auto simp: stage_calls_def)
qed simp

text \<open>In a segment every candidate called has a cell.\<close>

lemma segment_cell:
  assumes "segment_ok ml rec battery active (cls, a, b, cells, costs)" "q \<in> set (a @ b)"
  obtains cell where "cell \<in> set cells" "sr_candidate cell = cq_cand q"
proof -
  have "cq_cand q \<in> sr_candidate ` set cells" using assms unfolding segment_ok_def prod.case by (metis set_map)
  then show thesis using that by auto
qed

lemma cell_saysD:
  assumes "cell_says ml level cls cases n a b cell"
  shows "screened cls cases (sr_candidate cell) (calls_of (sr_candidate cell) a) cell"
    and "only_calls (sr_candidate cell) cases Bayes (calls_of (sr_candidate cell) b)"
    and "sr_triggered cell \<or> calls_of (sr_candidate cell) b = []"
    and "length (calls_of (sr_candidate cell) b) \<le> 4 * (nat n * length cases)"
  using assms by (auto simp: cell_says_def Let_def split: if_splits)

lemma in_calls_of: "q \<in> set a \<Longrightarrow> q \<in> set (calls_of (cq_cand q) a)"
  by (simp add: calls_of_def)

lemma segment_calls:
  assumes ok: "segment_ok ml rec battery active (cls, a, b, cells, costs)"
  shows "\<forall>q \<in> set a. cq_stage q \<noteq> Bayes \<and> cq_case q \<in> set (cases_of battery cls)"
    and "\<forall>q \<in> set b. cq_stage q = Bayes \<and> cq_case q \<in> set (cases_of battery cls) \<and> says_triggered (stage_calls Screen (calls_of (cq_cand q) a))"
    and "length (calls_of c a) \<le> 2 + 2 * length (cases_of battery cls)"
    and "length (calls_of c b) \<le> 4 * (nat (dict_getd (pg_n rec) cls 0) * length (cases_of battery cls))"
proof -
  have says: "cell_says ml (pg_level rec) cls (cases_of battery cls) (dict_getd (pg_n rec) cls 0) a b cell" if "cell \<in> set cells" for cell
    using ok that by (simp add: segment_ok_def)
  show a: "\<forall>q \<in> set a. cq_stage q \<noteq> Bayes \<and> cq_case q \<in> set (cases_of battery cls)"
  proof
    fix q assume q: "q \<in> set a"
    obtain cell where cell: "cell \<in> set cells" "sr_candidate cell = cq_cand q" using segment_cell [OF ok, of q] q by auto
    show "cq_stage q \<noteq> Bayes \<and> cq_case q \<in> set (cases_of battery cls)"
      using cell_saysD(1) [OF says [OF cell(1)], unfolded cell(2)] in_calls_of [OF q] unfolding screened_def by blast
  qed
  show "\<forall>q \<in> set b. cq_stage q = Bayes \<and> cq_case q \<in> set (cases_of battery cls) \<and> says_triggered (stage_calls Screen (calls_of (cq_cand q) a))"
  proof
    fix q assume q: "q \<in> set b"
    obtain cell where cell: "cell \<in> set cells" "sr_candidate cell = cq_cand q" using segment_cell [OF ok, of q] q by auto
    note s = cell_saysD [OF says [OF cell(1)], unfolded cell(2)]
    have ne: "q \<in> set (calls_of (cq_cand q) b)" by (rule in_calls_of [OF q])
    then have "calls_of (cq_cand q) b \<noteq> []" by auto
    then have t: "says_triggered (stage_calls Screen (calls_of (cq_cand q) a))" using s(1,3) unfolding screened_def by blast
    show "cq_stage q = Bayes \<and> cq_case q \<in> set (cases_of battery cls) \<and> says_triggered (stage_calls Screen (calls_of (cq_cand q) a))"
      using s(2) ne t unfolding only_calls_def by blast
  qed
  show "length (calls_of c a) \<le> 2 + 2 * length (cases_of battery cls)"
  proof (cases "calls_of c a = []")
    case False
    then obtain q where q: "q \<in> set a" "cq_cand q = c" by (auto simp: calls_of_def filter_empty_conv)
    obtain cell where cell: "cell \<in> set cells" "sr_candidate cell = c" using segment_cell [OF ok, of q] q by auto
    note sc = cell_saysD(1) [OF says [OF cell(1)], unfolded cell(2)]
    have "length (stage_calls Smoke (calls_of c a)) \<le> 2" "length (stage_calls Screen (calls_of c a)) \<le> 2 * length (cases_of battery cls)"
      using sc unfolding screened_def by blast+
    moreover have "\<forall>q \<in> set (calls_of c a). cq_stage q \<noteq> Bayes" using a by (auto simp: calls_of_def)
    ultimately show ?thesis using length_stages by fastforce
  qed simp
  show "length (calls_of c b) \<le> 4 * (nat (dict_getd (pg_n rec) cls 0) * length (cases_of battery cls))"
  proof (cases "calls_of c b = []")
    case False
    then obtain q where q: "q \<in> set b" "cq_cand q = c" by (auto simp: calls_of_def filter_empty_conv)
    obtain cell where cell: "cell \<in> set cells" "sr_candidate cell = c" using segment_cell [OF ok, of q] q by auto
    then show ?thesis using cell_saysD(4) [OF says [OF cell(1)]] by simp
  qed simp
qed

lemma active_ids: "x \<in> sn_id ` set (active_candidates cands) \<longleftrightarrow> (\<exists>c \<in> set cands. sn_callable c \<and> sn_id c = x)"
  by (auto simp: active_candidates_def)

text \<open>C12: The cascade wastes no attempt. Its calls are, class by class in order, a screening phase and then trials: every smoke
  test and trigger screen of a class precedes every trial of it; a trial is only ever made for a candidate with a
  triggered answer of its own in that class's screen; only callable candidates and cases of the class are called; and per class a
  candidate costs at most two smoke tests, two screens per case and four calls per trial.\<close>

theorem cascade_economy:
  assumes "distinct (map sn_id (filter sn_callable cands))" "run_cascade ml rec battery cands env prices = Inr st"
  shows "\<exists>segs. cs_hist st = concat (map (\<lambda>(cls, a, b). a @ b) segs) \<and> sorted (map fst segs) \<and> distinct (map fst segs) \<and>
    set (map fst segs) = by_class ` set (labelled battery) \<and>
    (\<forall>(cls, a, b) \<in> set segs.
      (\<forall>q \<in> set a. cq_stage q \<noteq> Bayes) \<and>
      (\<forall>q \<in> set b. cq_stage q = Bayes \<and> says_triggered (stage_calls Screen (calls_of (cq_cand q) a))) \<and>
      (\<forall>q \<in> set (a @ b). (\<exists>c \<in> set cands. sn_callable c \<and> sn_id c = cq_cand q) \<and> cq_case q \<in> set (cases_of battery cls)) \<and>
      (\<forall>c. length (calls_of c a) \<le> 2 + 2 * length (cases_of battery cls) \<and>
           length (calls_of c b) \<le> 4 * (nat (dict_getd (pg_n rec) cls 0) * length (cases_of battery cls))))"
proof -
  obtain sgs where sgs: "segments_ok ml rec battery (active_candidates cands) sgs st" "sorted (map fst sgs)" "distinct (map fst sgs)"
    "set (map fst sgs) = by_class ` set (labelled battery)" using run_cascade_segments(1) [OF assms] by blast
  define segs where "segs = map (\<lambda>(cls, a, b, cells, costs). (cls, a, b)) sgs"
  have fst: "map fst segs = map fst sgs" by (auto simp: segs_def)
  have "(\<lambda>(cls, a, b, cells, costs). a @ b) = (\<lambda>(cls, a, b). a @ b) \<circ> (\<lambda>(cls, a, b, cells :: stage_result list, costs :: cost_record list). (cls :: string, a, b :: call list))"
    by auto
  then have "cs_hist st = concat (map (\<lambda>(cls, a, b). a @ b) segs)"
    using sgs(1) by (simp add: segments_ok_def segs_def)
  moreover have "(\<forall>q \<in> set a. cq_stage q \<noteq> Bayes) \<and>
      (\<forall>q \<in> set b. cq_stage q = Bayes \<and> says_triggered (stage_calls Screen (calls_of (cq_cand q) a))) \<and>
      (\<forall>q \<in> set (a @ b). (\<exists>c \<in> set cands. sn_callable c \<and> sn_id c = cq_cand q) \<and> cq_case q \<in> set (cases_of battery cls)) \<and>
      (\<forall>c. length (calls_of c a) \<le> 2 + 2 * length (cases_of battery cls) \<and>
           length (calls_of c b) \<le> 4 * (nat (dict_getd (pg_n rec) cls 0) * length (cases_of battery cls)))"
    if seg: "(cls, a, b) \<in> set segs" for cls a b
  proof -
    obtain x where x: "x \<in> set sgs" "(cls, a, b) = (case x of (cls, a, b, cells, costs) \<Rightarrow> (cls, a, b))" using seg unfolding segs_def by auto
    obtain cls' a' b' cells costs where "x = (cls', a', b', cells, costs)" by (metis prod_cases5)
    then have "x = (cls, a, b, cells, costs)" using x(2) by simp
    then have ok: "segment_ok ml rec battery (active_candidates cands) (cls, a, b, cells, costs)"
      using x(1) sgs(1) by (simp add: segments_ok_def)
    moreover have "\<forall>q \<in> set (a @ b). cq_cand q \<in> sn_id ` set (active_candidates cands)" using ok by (simp add: segment_ok_def)
    ultimately show ?thesis using segment_calls [OF ok] unfolding active_ids by auto
  qed
  ultimately show ?thesis using sgs(2-4) fst by (intro exI [of _ segs]) auto
qed

lemma concat_part: "x \<in> set xs \<Longrightarrow> \<exists>pre post. concat (map f xs) = pre @ f x @ post"
proof -
  assume "x \<in> set xs"
  then obtain ys zs where "xs = ys @ x # zs" by (auto dest: split_list)
  then have "concat (map f xs) = concat (map f ys) @ f x @ concat (map f zs)" by simp
  then show ?thesis by blast
qed


section \<open>The front\<close>

lemma pairs_of_set: "(x, y) \<in> set (pairs_of xs) \<Longrightarrow> x \<in> set xs \<and> y \<in> set xs"
  by (induction xs) auto

lemma pairs_of_distinct: "distinct xs \<Longrightarrow> (x, y) \<in> set (pairs_of xs) \<Longrightarrow> x \<noteq> y"
  by (induction xs) auto

lemma pairs_of_total: "x \<in> set xs \<Longrightarrow> y \<in> set xs \<Longrightarrow> x \<noteq> y \<Longrightarrow> (x, y) \<in> set (pairs_of xs) \<or> (y, x) \<in> set (pairs_of xs)"
  by (induction xs) auto

text \<open>The cells of a class.\<close>

lemma by_class_get:
  "dict_getd (fold (\<lambda>r. add_to (sr_class r) r) rs d) cls [] = dict_getd d cls [] @ filter (\<lambda>r. sr_class r = cls) rs"
  by (induction rs arbitrary: d) (simp_all add: add_to_def dict_getd_def)

lemma by_class_distinct: "distinct (dict_keys d) \<Longrightarrow> distinct (dict_keys (fold (\<lambda>r. add_to (sr_class r) r) rs d))"
  by (induction rs arbitrary: d) (simp_all add: add_to_def dict_keys_set_distinct)

lemma by_class_keys: "set (dict_keys (fold (\<lambda>r. add_to (sr_class r) r) rs d)) = set (dict_keys d) \<union> sr_class ` set rs"
  by (induction rs arbitrary: d) (auto simp: add_to_def dict_keys_set)

lemma cells_by_class_set:
  "(cls, cells) \<in> set (cells_by_class rs) \<longleftrightarrow> cells = filter (\<lambda>r. sr_class r = cls) (interval_cells rs) \<and> cells \<noteq> []"
proof -
  let ?d = "fold (\<lambda>r. add_to (sr_class r) r) (interval_cells rs) []"
  have dist: "distinct (map fst ?d)" using by_class_distinct [of "[]" "interval_cells rs"] by (simp add: dict_keys_def)
  have keys: "cls \<in> set (map fst ?d) \<longleftrightarrow> cls \<in> sr_class ` set (interval_cells rs)"
    using by_class_keys [of "interval_cells rs" "[]"] by (simp add: dict_keys_def)
  have "dict_getd ?d cls [] = filter (\<lambda>r. sr_class r = cls) (interval_cells rs)" unfolding by_class_get by (simp add: dict_getd_def)
  moreover have "filter (\<lambda>r. sr_class r = cls) (interval_cells rs) \<noteq> [] \<longleftrightarrow> cls \<in> sr_class ` set (interval_cells rs)"
    by (auto simp: filter_empty_conv)
  moreover have "(cls, cells) \<in> set (cells_by_class rs) \<longleftrightarrow> dict_get ?d cls = Some cells" using dist by (simp add: cells_by_class_def)
  moreover have "dict_get ?d cls = None \<longleftrightarrow> cls \<notin> set (map fst ?d)" by (simp add: map_of_eq_None_iff)
  ultimately show ?thesis using keys by (auto simp: dict_getd_def split: option.splits)
qed

text \<open>The resolved pairs of the map are the pairs of different cells of a class of which one dominates the other.\<close>

definition dom_pair :: "stage_result list \<Rightarrow> string \<Rightarrow> stage_result \<Rightarrow> stage_result \<Rightarrow> bool" where
  "dom_pair rs cls x y = (x \<in> set (interval_cells rs) \<and> y \<in> set (interval_cells rs) \<and> sr_class x = cls \<and> sr_class y = cls \<and> x \<noteq> y)"

lemma pairs_sound:
  assumes "p \<in> set (fst (build_pairs rs))" "distinct (map (\<lambda>r. (sr_candidate r, sr_class r)) rs)"
  shows "\<exists>x y. dom_pair rs (pa_class p) x y \<and> p = make_pair (pa_class p) (x, y)"
proof -
  obtain cls cells x y where c: "(cls, cells) \<in> set (cells_by_class rs)" "(x, y) \<in> set (pairs_of (sort_key sr_candidate cells))" "p = make_pair cls (x, y)"
    using assms(1) by (auto simp: build_pairs_def class_pairs_def Let_def)
  have cells: "cells = filter (\<lambda>r. sr_class r = cls) (interval_cells rs)" using c(1) cells_by_class_set by blast
  have "distinct rs" using assms(2) by (simp add: distinct_map)
  then have "distinct (sort_key sr_candidate cells)" by (simp add: cells interval_cells_def)
  then have "x \<noteq> y" by (rule pairs_of_distinct [OF _ c(2)])
  moreover have "x \<in> set cells" "y \<in> set cells" using pairs_of_set [OF c(2)] by simp_all
  ultimately have "dom_pair rs cls x y" by (simp add: dom_pair_def cells)
  moreover have "pa_class p = cls" using c(3) by (simp add: make_pair_def Let_def)
  ultimately show ?thesis using c(3) by blast
qed

lemma pairs_complete:
  assumes "dom_pair rs cls x y"
  shows "make_pair cls (x, y) \<in> set (fst (build_pairs rs)) \<or> make_pair cls (y, x) \<in> set (fst (build_pairs rs))"
proof -
  define cells where "cells = filter (\<lambda>r. sr_class r = cls) (interval_cells rs)"
  have xy: "x \<in> set (sort_key sr_candidate cells)" "y \<in> set (sort_key sr_candidate cells)" "x \<noteq> y" using assms by (auto simp: dom_pair_def cells_def)
  then have "cells \<noteq> []" by auto
  then have "(cls, cells) \<in> set (cells_by_class rs)" using cells_by_class_set cells_def by blast
  moreover have "(x, y) \<in> set (pairs_of (sort_key sr_candidate cells)) \<or> (y, x) \<in> set (pairs_of (sort_key sr_candidate cells))"
    by (rule pairs_of_total [OF xy])
  ultimately show ?thesis by (force simp: build_pairs_def class_pairs_def Let_def)
qed

text \<open>Capability as the intervals have it.\<close>

definition ordered_cells :: "stage_result list \<Rightarrow> bool" where
  "ordered_cells rs = (\<forall>r \<in> set rs. \<forall>iv. sr_interval r = Some iv \<longrightarrow> iv_lo iv \<le> iv_hi iv)"

lemma cell_dominates_asym: "ordered_cells rs \<Longrightarrow> x \<in> set rs \<Longrightarrow> y \<in> set rs \<Longrightarrow> cell_dominates x y \<Longrightarrow> \<not> cell_dominates y x"
proof
  assume o: "ordered_cells rs" "x \<in> set rs" "y \<in> set rs" and d: "cell_dominates x y" "cell_dominates y x"
  obtain ix iy where i: "sr_interval x = Some ix" "sr_interval y = Some iy" "iv_hi iy < iv_lo ix" "iv_hi ix < iv_lo iy"
    using d by (auto simp: cell_dominates_def dominates_def split: option.splits)
  moreover have "iv_lo ix \<le> iv_hi ix" "iv_lo iy \<le> iv_hi iy" using o i by (auto simp: ordered_cells_def)
  ultimately show False by simp
qed

lemma cap_relation_better:
  assumes dist: "distinct (map (\<lambda>r. (sr_candidate r, sr_class r)) rs)" and ord: "ordered_cells rs" and ab: "dom_pair rs cls a b"
  shows "cap_relation_of cls (sr_candidate a) (sr_candidate b) (fst (build_pairs rs)) = Cap_b \<longleftrightarrow> cell_dominates b a"
proof -
  let ?P = "\<lambda>p. pa_class p = cls \<and> pa_resolved p \<and> {pa_a p, pa_b p} = {sr_candidate a, sr_candidate b}" and ?ps = "fst (build_pairs rs)"
  have in_rs: "a \<in> set rs" "b \<in> set rs" and cls: "sr_class a = cls" "sr_class b = cls" and ne: "a \<noteq> b" using ab by (auto simp: dom_pair_def interval_cells_def)
  have same: "x = y" if "x \<in> set rs" "y \<in> set rs" "sr_class x = cls" "sr_class y = cls" "sr_candidate x = sr_candidate y" for x y
    using dist that by (auto simp: distinct_map dest: inj_onD)
  have diff: "sr_candidate a \<noteq> sr_candidate b" using same [OF in_rs cls] ne by blast
  have shape: "p = make_pair cls (a, b) \<or> p = make_pair cls (b, a)" if p: "p \<in> set ?ps" "?P p" for p
  proof -
    obtain x y where xy: "dom_pair rs cls x y" "p = make_pair cls (x, y)" using pairs_sound [OF p(1) dist] p(2) by auto
    have "{sr_candidate x, sr_candidate y} = {sr_candidate a, sr_candidate b}" using p(2) xy(2) by (simp add: make_pair_def Let_def)
    moreover have "x \<in> set rs" "y \<in> set rs" "sr_class x = cls" "sr_class y = cls" using xy(1) by (auto simp: dom_pair_def interval_cells_def)
    ultimately have "x = a \<and> y = b \<or> x = b \<and> y = a" using same in_rs cls diff by (metis doubleton_eq_iff)
    then show ?thesis using xy(2) by auto
  qed
  have verdict: "(pa_dominant p = Some (sr_candidate a)) = (\<not> cell_dominates b a)" if p: "p \<in> set ?ps" "?P p" for p
  proof -
    have asym: "\<not> (cell_dominates a b \<and> cell_dominates b a)" using cell_dominates_asym [OF ord in_rs] by blast
    show ?thesis using shape [OF p] p(2) asym diff by (elim disjE) (auto simp: make_pair_def Let_def)
  qed
  show ?thesis
  proof (cases "find ?P ?ps")
    case None
    have "make_pair cls (a, b) \<in> set ?ps \<or> make_pair cls (b, a) \<in> set ?ps" by (rule pairs_complete [OF ab])
    moreover have "\<forall>p \<in> set ?ps. \<not> ?P p" using None by (simp add: find_None_iff)
    moreover have "cell_dominates b a \<Longrightarrow> ?P (make_pair cls (a, b)) \<and> ?P (make_pair cls (b, a))"
      by (simp add: make_pair_def Let_def insert_commute)
    ultimately have "\<not> cell_dominates b a" by blast
    then show ?thesis using None by (simp add: cap_relation_of_def)
  next
    case (Some p)
    then have "p \<in> set ?ps" "?P p" by (auto simp: find_Some_iff)
    then show ?thesis using Some verdict [of p] by (simp add: cap_relation_of_def)
  qed
qed

text \<open>The front in closed form: the cell \<open>b\<close> beats \<open>a\<close>.\<close>

definition beats :: "costs_by \<Rightarrow> stage_result \<Rightarrow> stage_result \<Rightarrow> bool" where
  "beats costs b a =
     (sr_class b = sr_class a \<and> cell_dominates b a \<and>
      (case (dict_get costs (sr_candidate a, sr_class a), dict_get costs (sr_candidate b, sr_class b)) of
         (Some ca, Some cb) \<Rightarrow> cl_usd_case cb \<le> cl_usd_case ca \<and> cl_seconds cb \<le> cl_seconds ca
       | _ \<Rightarrow> False))"

lemma front_cells:
  assumes dist: "distinct (map (\<lambda>r. (sr_candidate r, sr_class r)) rs)" and ord: "ordered_cells rs"
  shows "pareto_nondominated rs costs (fst (build_pairs rs)) =
    map (\<lambda>a. (sr_candidate a, sr_class a)) (filter (\<lambda>a. \<not> (\<exists>b \<in> set (interval_cells rs). beats costs b a)) (interval_cells rs))"
proof -
  let ?cs = "interval_cells rs"
  have dcs: "distinct ?cs" using dist by (simp add: distinct_map interval_cells_def)
  have push: "pushes_off costs (fst (build_pairs rs)) a b = beats costs b a" if "a \<in> set ?cs" "b \<in> set ?cs" "a \<noteq> b" for a b
    using cap_relation_better [OF dist ord, of "sr_class a" a b] that by (auto simp: pushes_off_def beats_def dom_pair_def split: option.splits)
  have self: "\<not> beats costs a a" if "a \<in> set ?cs" for a
    using that cell_dominates_asym [OF ord, of a a] by (auto simp: beats_def interval_cells_def)
  have same: "list_ex (\<lambda>(j, b). j \<noteq> i \<and> pushes_off costs (fst (build_pairs rs)) a b) (enumerate 0 ?cs) = (\<exists>b \<in> set ?cs. beats costs b a)"
    if "(i, a) \<in> set (enumerate 0 ?cs)" for i a
  proof -
    have ia: "i < length ?cs" "a = ?cs ! i" using that by (auto simp: in_set_enumerate_eq)
    have "list_ex (\<lambda>(j, b). j \<noteq> i \<and> pushes_off costs (fst (build_pairs rs)) a b) (enumerate 0 ?cs) =
        (\<exists>j < length ?cs. j \<noteq> i \<and> pushes_off costs (fst (build_pairs rs)) a (?cs ! j))"
      by (auto simp: list_ex_iff in_set_enumerate_eq)
    also have "\<dots> = (\<exists>j < length ?cs. j \<noteq> i \<and> beats costs (?cs ! j) a)"
      using push ia dcs by (metis nth_eq_iff_index_eq nth_mem)
    also have "\<dots> = (\<exists>j < length ?cs. beats costs (?cs ! j) a)" using self ia by (metis nth_mem)
    finally show ?thesis by (metis in_set_conv_nth)
  qed
  have "filter (\<lambda>(i, a). \<not> list_ex (\<lambda>(j, b). j \<noteq> i \<and> pushes_off costs (fst (build_pairs rs)) a b) (enumerate 0 ?cs)) (enumerate 0 ?cs) =
      filter ((\<lambda>a. \<not> (\<exists>b \<in> set ?cs. beats costs b a)) \<circ> snd) (enumerate 0 ?cs)"
    by (rule filter_cong) (use same in auto)
  then have "pareto_nondominated rs costs (fst (build_pairs rs)) =
      map ((\<lambda>a. (sr_candidate a, sr_class a)) \<circ> snd) (filter ((\<lambda>a. \<not> (\<exists>b \<in> set ?cs. beats costs b a)) \<circ> snd) (enumerate 0 ?cs))"
    by (simp add: pareto_nondominated_def Let_def comp_def case_prod_beta)
  also have "\<dots> = map (\<lambda>a. (sr_candidate a, sr_class a)) (filter (\<lambda>a. \<not> (\<exists>b \<in> set ?cs. beats costs b a)) (map snd (enumerate 0 ?cs)))"
    by (simp only: filter_map map_map)
  finally show ?thesis by simp
qed

text \<open>The front of the map is exact: a cell is on it exactly when it has an interval and no cell of its class has an interval
  entirely above its own while being neither dearer nor slower; whatever the order the cells and the pairs come in,
  overlapping intervals never push a cell off, and every class with an interval keeps a cell on the front.\<close>

lemma front_exact:
  assumes "distinct (map (\<lambda>r. (sr_candidate r, sr_class r)) rs)" "ordered_cells rs"
  shows "cm_front (build_map rs costs rec headline frontier) =
      map (\<lambda>a. (sr_candidate a, sr_class a)) (filter (\<lambda>a. \<not> (\<exists>b \<in> set (interval_cells rs). beats (cost_table costs) b a)) (interval_cells rs)) \<and>
    sr_class ` set (interval_cells rs) = snd ` set (cm_front (build_map rs costs rec headline frontier))"
proof -
  let ?cs = "interval_cells rs" and ?t = "cost_table costs"
  have front: "cm_front (build_map rs costs rec headline frontier) =
      map (\<lambda>a. (sr_candidate a, sr_class a)) (filter (\<lambda>a. \<not> (\<exists>b \<in> set ?cs. beats ?t b a)) ?cs)"
    using front_cells [OF assms] by (simp add: build_map_def Let_def case_prod_beta)
  have top: "\<exists>a \<in> set ?cs. sr_class a = sr_class x \<and> \<not> (\<exists>b \<in> set ?cs. beats ?t b a)" if x: "x \<in> set ?cs" for x
  proof -
    let ?S = "{a \<in> set ?cs. sr_class a = sr_class x}" and ?lo = "\<lambda>a. iv_lo (the (sr_interval a))"
    have S: "finite ?S" "?S \<noteq> {}" using x by auto
    have "Max (?lo ` ?S) \<in> ?lo ` ?S" by (rule Max_in) (use S in auto)
    then obtain a where a1: "a \<in> ?S" "?lo a = Max (?lo ` ?S)" by auto
    have "\<forall>b \<in> ?S. ?lo b \<le> ?lo a" unfolding a1(2) using S(1) by (intro ballI Max_ge) auto
    with a1(1) have a: "a \<in> ?S" "\<forall>b \<in> ?S. ?lo b \<le> ?lo a" by blast+
    have "\<not> beats ?t b a" if b: "b \<in> set ?cs" for b
    proof
      assume "beats ?t b a"
      then obtain ia ib where i: "sr_class b = sr_class a" "sr_interval a = Some ia" "sr_interval b = Some ib" "iv_hi ia < iv_lo ib"
        by (auto simp: beats_def cell_dominates_def dominates_def split: option.splits)
      moreover have "iv_lo ib \<le> iv_lo ia" using a b i by auto
      moreover have "iv_lo ia \<le> iv_hi ia" using assms(2) a(1) i(2) by (auto simp: ordered_cells_def interval_cells_def)
      ultimately show False by simp
    qed
    then show ?thesis using a(1) by blast
  qed
  have "snd ` set (cm_front (build_map rs costs rec headline frontier)) = sr_class ` {a \<in> set ?cs. \<not> (\<exists>b \<in> set ?cs. beats ?t b a)}"
    unfolding front by (simp add: image_image)
  also have "\<dots> = sr_class ` set ?cs"
  proof
    show "sr_class ` set ?cs \<subseteq> sr_class ` {a \<in> set ?cs. \<not> (\<exists>b \<in> set ?cs. beats ?t b a)}"
    proof
      fix k assume "k \<in> sr_class ` set ?cs"
      then obtain x where "x \<in> set ?cs" "k = sr_class x" by blast
      with top [of x] obtain a where "a \<in> {a \<in> set ?cs. \<not> (\<exists>b \<in> set ?cs. beats ?t b a)}" "k = sr_class a" by auto
      then show "k \<in> sr_class ` {a \<in> set ?cs. \<not> (\<exists>b \<in> set ?cs. beats ?t b a)}" by blast
    qed
  qed blast
  finally have "sr_class ` set ?cs = snd ` set (cm_front (build_map rs costs rec headline frontier))" ..
  then show ?thesis using front by blast
qed

definition two_cells :: "stage_result list" where
  "two_cells =
     [(new_cell ''reentrancy'' 2 True ''m1'')\<lparr>sr_triggered := True, sr_interval := Some \<lparr>iv_lo = 1 / 2, iv_hi = 1, iv_mass = 1 / 2, iv_successes = 2, iv_trials = 2\<rparr>\<rparr>,
      (new_cell ''reentrancy'' 2 True ''m2'')\<lparr>sr_triggered := True, sr_interval := Some \<lparr>iv_lo = 0, iv_hi = 1 / 4, iv_mass = 1 / 2, iv_successes = 0, iv_trials = 2\<rparr>\<rparr>]"

definition empty_prereg :: prereg where
  "empty_prereg = \<lparr>pg_ts = [], pg_candidates = [\<lparr>sn_id = ''m1'', sn_cost = ''cheap'', sn_callable = True\<rparr>], pg_classes = [''reentrancy''],
     pg_thresholds = JNull, pg_n = [(''reentrancy'', 2)], pg_cases_per_class = 1, pg_level = 1 / 2, pg_rule = [], pg_bench = ''b'', pg_prices = [], pg_hash = []\<rparr>"

theorem front_exact_witness:
  "cm_front (build_map two_cells [new_cost ''reentrancy'' ''m1'', new_cost ''reentrancy'' ''m2''] empty_prereg None None) = [(''m1'', ''reentrancy'')]"
proof -
  have "distinct (map (\<lambda>r. (sr_candidate r, sr_class r)) two_cells)" "ordered_cells two_cells"
    by (auto simp: two_cells_def new_cell_def ordered_cells_def)
  from conjunct1 [OF front_exact [OF this]] show ?thesis
    by (simp add: two_cells_def interval_cells_def beats_def cell_dominates_def dominates_def cost_table_def new_cell_def new_cost_def)
qed

text \<open>One candidate whose every attempt runs and never triggers.\<close>

definition dull_answers :: answers where
  "dull_answers = (\<lambda>h c k s. \<lparr>ar_produced = True, ar_triggered = False, ar_verified = False, ar_tokens = 5, ar_seconds = 1, ar_transient = False, ar_infra = []\<rparr>)"

definition dull_battery :: "battery_case list" where "dull_battery = [\<lparr>by_id = ''f1'', by_class = ''reentrancy'', by_fix_diff = True\<rparr>]"

definition dull_state :: cascade_state where
  "dull_state =
     (case run_cascade flat_math empty_prereg dull_battery (pg_candidates empty_prereg) dull_answers [] of Inl e \<Rightarrow> empty_cascade | Inr st \<Rightarrow> st)"

lemma dull_cascade:
  "run_cascade flat_math empty_prereg dull_battery (pg_candidates empty_prereg) dull_answers [] = Inr dull_state"
  "map (\<lambda>q. (cq_cand q, cq_case q, cq_stage q)) (cs_hist dull_state) = [(''m1'', ''f1'', Smoke), (''m1'', ''f1'', Screen)]"
  "map sr_triggered (cs_results dull_state) = [False]" "map cl_tokens (cs_costs dull_state) = [10]"
proof -
  have "isl (run_cascade flat_math empty_prereg dull_battery (pg_candidates empty_prereg) dull_answers []) = False" by code_simp
  then show "run_cascade flat_math empty_prereg dull_battery (pg_candidates empty_prereg) dull_answers [] = Inr dull_state"
    unfolding dull_state_def by (cases "run_cascade flat_math empty_prereg dull_battery (pg_candidates empty_prereg) dull_answers []") simp_all
  show "map (\<lambda>q. (cq_cand q, cq_case q, cq_stage q)) (cs_hist dull_state) = [(''m1'', ''f1'', Smoke), (''m1'', ''f1'', Screen)]" by code_simp
  show "map sr_triggered (cs_results dull_state) = [False]" by code_simp
  show "map cl_tokens (cs_costs dull_state) = [10]" by code_simp
qed

lemma dull_distinct: "distinct (map sn_id (filter sn_callable (pg_candidates empty_prereg)))"
  by (simp add: empty_prereg_def)

lemma distinct_singleton: "distinct xs \<Longrightarrow> set xs = {x} \<Longrightarrow> xs = [x]"
  by (cases xs; cases "tl xs") (auto simp: insert_eq_iff)

theorem cascade_economy_witness: "\<exists>segs. cs_hist dull_state = concat (map (\<lambda>(cls, a, b). a @ b) segs) \<and> map fst segs = [''reentrancy'']"
proof -
  have cls: "by_class ` set (labelled dull_battery) = {''reentrancy''}" by code_simp
  from cascade_economy [OF dull_distinct dull_cascade(1)] show ?thesis
  proof (elim exE conjE)
    fix segs assume s: "cs_hist dull_state = concat (map (\<lambda>(cls, a, b). a @ b) segs)" "distinct (map fst segs)"
      "set (map fst segs) = by_class ` set (labelled dull_battery)"
    have "map fst segs = [''reentrancy'']" by (rule distinct_singleton [OF s(2) s(3) [unfolded cls]])
    then show ?thesis by (intro exI [of _ segs] conjI s(1))
  qed
qed


section \<open>The pre-registration is append-only\<close>

definition sealed :: "(prereg \<Rightarrow> string) \<Rightarrow> prereg \<Rightarrow> prereg" where "sealed digest r = r\<lparr>pg_hash := content_hash digest r\<rparr>"

lemma content_hash_sealed: "content_hash digest (sealed digest r) = content_hash digest r"
  by (simp add: content_hash_def sealed_def frozen_def)

lemma mapE_check: "mapE (check_entry digest p) (enumerate i es) = Inr rs \<longleftrightarrow> rs = es \<and> (\<forall>e \<in> set es. pg_hash e = content_hash digest e)"
proof (induction es arbitrary: i rs)
  case (Cons e es)
  then show ?case by (auto simp: bindE_Inr check_entry_def screen_error_def Let_def split: if_splits)
qed auto

lemma mapE_check_error:
  "mapE (check_entry digest p) (enumerate i es) = Inl x \<Longrightarrow> \<exists>msg. x = Py_exc ''CapabilityScreenError'' msg"
proof (induction es arbitrary: i)
  case (Cons e es)
  show ?case
  proof (cases "check_entry digest p (i, e)")
    case (Inl y)
    then show ?thesis using Cons.prems by (auto simp: bindE_def check_entry_def screen_error_def Let_def split: if_splits)
  next
    case (Inr y)
    then show ?thesis using Cons.prems Cons.IH [of "Suc i"] by (auto simp: bindE_def split: sum.splits)
  qed
qed simp

lemma load_prereg_Inr:
  "load_prereg fs digest path files = Inr rs \<longleftrightarrow>
     \<not> inside (bf_agent_root fs) (bf_resolve fs path) \<and> dict_get files (bf_resolve fs path) = Some rs \<and>
     (\<forall>e \<in> set rs. pg_hash e = content_hash digest e)"
  by (auto simp: load_prereg_def external_record_def screen_error_def Let_def bindE_Inr mapE_check split: option.splits)



text \<open>A smoke test that failed for infrastructure is published as not triggered, unlike an unavailable screen.\<close>

lemma infra_published_false:
  "sr_smoke r = Smoke_infra \<Longrightarrow> sr_screen r = Screen_pass \<Longrightarrow> \<not> sr_triggered r \<Longrightarrow> mc_triggered (published_cell costs r) = Some False"
  by (simp add: published_cell_def)

end
