(* ===== verification/Queue_Tasks.thy ===== *)
theory Queue_Tasks
  imports Proof_Causes Proof_Patch Proof_Repeat Proof_Fixers Tools_Poc Complex_Main
begin

text \<open>
  The accounts, the task list and the falsification of the queue runner (\<open>scripts/poc_queue_runner.py\<close>): the
  stamp and the closing fields of an event, the cause of an outcome, retries of model calls, the list of tasks
  with their fixes, and the run of a passing test against the fixed source. An event of the log is a JSON object; times
  are arguments. Scores of headings are exact rationals. A source tree is the list of its regular files with
  their texts; the tools that apply a patch and the sandbox are parameters.

  The lemmas: a call is retried a bounded number of times and only after a model error; a fix taken from the report
  comes from the best matching section, whose heading is anchored and dominant; a test is verified exactly
  if the fix was applied, the patched source was built and the test failed there.
\<close>

section \<open>Events and causes\<close>

definition dict_merge :: "('k, 'v) dict \<Rightarrow> ('k, 'v) dict \<Rightarrow> ('k, 'v) dict" where
  "dict_merge base entry = fold (\<lambda>(k, v). dict_set k v) entry base"

record run_stamp =
  st_run_id :: string
  st_model :: string
  st_code_version :: string

definition str_field :: "string \<Rightarrow> string \<Rightarrow> json_obj" where
  "str_field k v = (if v = [] then [] else [(k, JStr v)])"

definition stamp :: "json \<Rightarrow> run_stamp \<Rightarrow> json_obj \<Rightarrow> json_obj" where
  "stamp ts rs entry =
     dict_merge ((''ts'', ts) # str_field ''run_id'' (st_run_id rs) @ str_field ''model'' (st_model rs) @
                 str_field ''code_version'' (st_code_version rs)) entry"

definition terminal_fields :: "string \<Rightarrow> string \<Rightarrow> nat option \<Rightarrow> string \<Rightarrow> json_obj" where
  "terminal_fields level cause attempt_seq stderr_signature =
     [(''terminal'', JBool True), (''level'', JStr level), (''cause'', JStr cause)] @
     (case attempt_seq of None \<Rightarrow> [] | Some n \<Rightarrow> [(''attempt_seq'', JInt (int n))]) @
     (if is_ok cause then [(''ok'', JBool True)]
      else case cause_nature cause of None \<Rightarrow> [] | Some n \<Rightarrow> [(''nature'', JStr n)]) @
     str_field ''stderr_signature'' stderr_signature"

definition OUTCOME_TO_CAUSE :: "(string, string) dict" where
  "OUTCOME_TO_CAUSE =
     [(''passed_verified'', ''proved''), (''compiled'', ''not_triggered''), (''unverified_pass'', ''not_triggered''),
      (''passed_unchecked'', ''not_triggered''), (''reverted_exhausted'', ''not_triggered''), (''vacuous_pass'', ''model''),
      (''compile_only_defective'', ''model''), (''exhausted'', ''model''), (''draft_failed'', ''model''), (''fix_failed'', ''model''),
      (''base-insufficient'', ''base-insufficient''), (''lookup_failed'', ''lookup_failed''),
      (''sandbox_unavailable'', ''unclassified''), (''run_error'', ''unclassified'')]"

definition finding_cause :: "string \<Rightarrow> string" where
  "finding_cause outcome = dict_getd OUTCOME_TO_CAUSE outcome ''unclassified''"

definition event_of :: "string \<Rightarrow> string \<Rightarrow> json_obj \<Rightarrow> json_obj" where
  "event_of name fid rest = (''event'', JStr name) # (''finding_id'', JStr fid) # rest"

definition closing :: "string \<Rightarrow> json_obj" where
  "closing outcome = terminal_fields ''finding_attempt'' (finding_cause outcome) None []"

text \<open>A lookup for each missing type; the index is there or not.\<close>

definition ladder_lookup :: "symbol_index \<Rightarrow> string \<Rightarrow> string \<Rightarrow> json_obj" where
  "ladder_lookup idx fid name =
     event_of ''lookup'' fid
       [(''attempt'', JInt 0), (''symbol'', JStr name), (''resolved'', JBool (lookup idx name \<noteq> [])),
        (''match_count'', JInt (int (length (lookup idx name)))), (''stage'', JStr ''insufficiency_ladder'')]"

definition insufficiency_ladder_outcome :: "symbol_index option \<Rightarrow> int \<Rightarrow> string list \<Rightarrow> string \<Rightarrow> string \<times> json_obj list" where
  "insufficiency_ladder_outcome idx lookup_budget missing_types fid =
     (case idx of
        None \<Rightarrow> (''base-insufficient'', [])
      | Some ix \<Rightarrow> (if lookup_budget \<le> 0 then (''base-insufficient'', [])
                    else (''lookup_failed'', map (ladder_lookup ix fid) missing_types)))"

definition emit_budget_skips :: "string list \<Rightarrow> json_obj list" where
  "emit_budget_skips remaining =
     map (\<lambda>fid. event_of ''not_attempted'' fid (terminal_fields ''finding_attempt'' ''not_attempted:budget'' None [])) remaining"

section \<open>Actions that log\<close>

text \<open>A part of the runner: a result, the world behind it, and what it did in order: the events it logged, its changes
  to the files of the project, and its runs of forge on the project or on a copy with a fix.\<close>

datatype effect =
    Logged json_obj
  | Wrote string string
  | Removed string
  | Moved string string
  | Tested string "test_result py"
  | Tested_fixed string "test_result py"

type_synonym ('w, 'a) action = "'w \<Rightarrow> 'a \<times> 'w \<times> effect list"

definition act_return :: "'a \<Rightarrow> ('w, 'a) action" where "act_return x = (\<lambda>w. (x, w, []))"

definition act_log :: "json_obj list \<Rightarrow> ('w, unit) action" where "act_log es = (\<lambda>w. ((), w, map Logged es))"

definition events_of :: "effect list \<Rightarrow> json_obj list" where
  "events_of fx = List.map_filter (\<lambda>e. case e of Logged ev \<Rightarrow> Some ev | _ \<Rightarrow> None) fx"

definition act_bind :: "('w, 'a) action \<Rightarrow> ('a \<Rightarrow> ('w, 'b) action) \<Rightarrow> ('w, 'b) action" where
  "act_bind m k = (\<lambda>w. let (x, w1, es1) = m w; (y, w2, es2) = k x w1 in (y, w2, es1 @ es2))"

definition act_quiet :: "('w \<Rightarrow> 'a \<times> 'w) \<Rightarrow> ('w, 'a) action" where
  "act_quiet f = (\<lambda>w. let (x, w1) = f w in (x, w1, []))"

section \<open>Retries\<close>

definition MODEL_ERRORS :: "string list" where
  "MODEL_ERRORS = [''ModelUnavailableError'', ''GeminiUnavailable'', ''OpenRouterUnavailable'']"

definition model_error :: "py_exc \<Rightarrow> bool" where
  "model_error e = (exc_class e \<in> set MODEL_ERRORS)"

definition GEN_RETRY_ATTEMPTS :: nat where "GEN_RETRY_ATTEMPTS = 2"

definition retry_event :: "string \<Rightarrow> string \<Rightarrow> nat \<Rightarrow> py_exc \<Rightarrow> json_obj" where
  "retry_event fid stage attempt e =
     event_of ''model_retry'' fid
       [(''stage'', JStr stage), (''attempt'', JInt (int attempt)), (''error'', JStr (take 150 (exc_msg e)))]"

text \<open>The attempts from a number on, with what is left of them. Without an attempt the function returns \<open>None\<close>.\<close>

fun retry_from :: "('w, 'a py) action \<Rightarrow> string \<Rightarrow> string \<Rightarrow> nat \<Rightarrow> nat \<Rightarrow> ('w, 'a option py) action" where
  "retry_from fn stage fid attempt 0 w = (Inr None, w, [])"
| "retry_from fn stage fid attempt (Suc left) w =
     (case fn w of
        (Inr x, w', fx) \<Rightarrow> (Inr (Some x), w', fx)
      | (Inl e, w', fx) \<Rightarrow>
          (if \<not> model_error e \<or> left = 0 then (Inl e, w', fx)
           else let (r, w2, es) = retry_from fn stage fid (attempt + 1) left w'
                in (r, w2, fx @ Logged (retry_event fid stage attempt e) # es)))"

definition call_with_retry ::
  "('w, 'a py) action \<Rightarrow> string \<Rightarrow> string \<Rightarrow> nat option \<Rightarrow> ('w, 'a option py) action" where
  "call_with_retry fn stage fid attempts w =
     retry_from fn stage fid 1 (case attempts of None \<Rightarrow> GEN_RETRY_ATTEMPTS | Some n \<Rightarrow> n) w"

section \<open>The fix of a finding in the report\<close>

definition FINDING_HEADING_RE :: regex where
  "FINDING_HEADING_RE =
     rseq [RBol True, rlit ''['', rdigit1, rlit '']'', rws0, rlit ''**'', rdigit1, rlit ''.'', rws0,
           RGrp 1 (RSeq noeol (RStar False noeol)), rlit ''**'', rws0, REol True]"

definition DIFF_BLOCK_RE :: regex where
  "DIFF_BLOCK_RE = rseq [rlit (fence @ ''diff'' @ nl), RGrp 1 (RStar False (RChr (\<lambda>_. True))), rlit fence]"

definition WORD_RE :: regex where
  "WORD_RE = RSeq (RChr (\<lambda>c. py_upper_char c \<or> py_lower_char c \<or> c = CHR ''_'')) rword1"

definition title_tokens :: "string \<Rightarrow> string list" where
  "title_tokens text = unique_names (map py_lower (filter (\<lambda>w. 4 \<le> length w) (map (m_span text) (re_finditer WORD_RE text))))"

definition shared_tokens :: "string list \<Rightarrow> string list \<Rightarrow> string list" where
  "shared_tokens want hs = filter (\<lambda>t. t \<in> set hs) want"

definition heading_df :: "string list list \<Rightarrow> string \<Rightarrow> nat" where
  "heading_df htoks t = length (filter (\<lambda>hs. t \<in> set hs) htoks)"

definition heading_score :: "string list \<Rightarrow> string list list \<Rightarrow> string list \<Rightarrow> rat" where
  "heading_score want htoks hs = sum_list (map (\<lambda>t. 1 / of_nat (heading_df htoks t)) (shared_tokens want hs))"

text \<open>The first heading of the greatest score, of those that share a token.\<close>

definition better_heading ::
  "string list \<Rightarrow> string list list \<Rightarrow> nat \<times> string list \<Rightarrow> nat option \<times> rat \<Rightarrow> nat option \<times> rat" where
  "better_heading want htoks ih best =
     (if shared_tokens want (snd ih) = [] then best
      else if snd best < heading_score want htoks (snd ih) then (Some (fst ih), heading_score want htoks (snd ih)) else best)"

definition best_heading :: "string list \<Rightarrow> string list list \<Rightarrow> nat option" where
  "best_heading want htoks = fst (fold (better_heading want htoks) (List.enumerate 0 htoks) (None, 0))"

definition anchored :: "string list list \<Rightarrow> string list \<Rightarrow> bool" where
  "anchored htoks shared = list_ex (\<lambda>t. heading_df htoks t \<le> 2 \<and> 7 \<le> length t) shared"

definition dominant :: "string list \<Rightarrow> string list \<Rightarrow> bool" where
  "dominant want shared = ((6 / 10 :: rat) * of_nat (length want) \<le> of_nat (length shared))"

definition report_section :: "string \<Rightarrow> re_match list \<Rightarrow> nat \<Rightarrow> string" where
  "report_section report headings i =
     substr report (m_end (headings ! i))
       (if i + 1 < length headings then m_start (headings ! (i + 1)) else length report)"

definition extract_fix_for_finding :: "string \<Rightarrow> string \<Rightarrow> string option" where
  "extract_fix_for_finding report title =
     (let headings = re_finditer FINDING_HEADING_RE report; want = title_tokens title;
          htoks = map (\<lambda>h. title_tokens (m_group report 1 h)) headings
      in if headings = [] \<or> want = [] then None
         else case best_heading want htoks of
           None \<Rightarrow> None
         | Some i \<Rightarrow>
             (let shared = shared_tokens want (htoks ! i); section = report_section report headings i in
              if length shared < 2 \<or> \<not> (anchored htoks shared \<and> dominant want shared) then None
              else map_option (m_group section 1) (re_search DIFF_BLOCK_RE section)))"

section \<open>The task list\<close>

record finding_task =
  tk_id :: string
  tk_title :: string
  tk_location :: string
  tk_description :: string
  tk_class :: string
  tk_fix :: "string option"
  tk_fix_patch :: "string option"

definition nat_str02 :: "nat \<Rightarrow> string" where
  "nat_str02 n = (let s = nat_str n in replicate (2 - length s) (CHR ''0'') @ s)"

definition task_of :: "string \<Rightarrow> (string, string) dict \<Rightarrow> nat \<Rightarrow> json_obj \<Rightarrow> finding_task" where
  "task_of report patches i kvs =
     (let str_of = (\<lambda>k. py_str (dict_getd kvs k (JStr [])));
          fid = py_str (por (dict_getd kvs ''id'' JNull) (JStr (''T-'' @ nat_str02 (i + 1))))
      in \<lparr>tk_id = fid, tk_title = str_of ''title'', tk_location = str_of ''location'', tk_description = str_of ''description'',
          tk_class = py_str (por (por (dict_getd kvs ''class'' JNull) (dict_getd kvs ''finding_class'' JNull)) (JStr [])),
          tk_fix = extract_fix_for_finding report (str_of ''title''), tk_fix_patch = dict_get patches fid\<rparr>)"

definition attach_one :: "string \<Rightarrow> (string, string) dict \<Rightarrow> nat \<times> json \<Rightarrow> finding_task option" where
  "attach_one report patches it =
     (case snd it of
        JObj kvs \<Rightarrow> (if truthy (dict_getd kvs ''title'' JNull) then Some (task_of report patches (fst it) kvs) else None)
      | _ \<Rightarrow> None)"

definition attach_fixes :: "json \<Rightarrow> string \<Rightarrow> (string, string) dict \<Rightarrow> finding_task list py" where
  "attach_fixes raw_tasks report patches =
     bindE (jiter raw_tasks) (\<lambda>ts. Inr (List.map_filter (attach_one report patches) (List.enumerate 0 ts)))"

definition tasks_field :: "json \<Rightarrow> json" where
  "tasks_field data = (case data of JObj kvs \<Rightarrow> dict_getd kvs ''tasks'' (JList []) | _ \<Rightarrow> data)"

definition load_pinned_tasks ::
  "(string \<Rightarrow> string py) \<Rightarrow> (string \<Rightarrow> json py) \<Rightarrow> string \<Rightarrow> string \<Rightarrow> (string, string) dict \<Rightarrow> finding_task list py" where
  "load_pinned_tasks read_text loads tasks_path report_path patches =
     bindE (read_text report_path) (\<lambda>report.
     bindE (read_text tasks_path) (\<lambda>raw.
     bindE (loads raw) (\<lambda>data. attach_fixes (tasks_field data) report patches)))"

text \<open>The model's reply; an empty one counts as a transport failure.\<close>

definition extract_reply :: "('w \<Rightarrow> string py \<times> 'w) \<Rightarrow> 'w \<Rightarrow> string py \<times> 'w" where
  "extract_reply generate w =
     (let (r, w') = generate w in
      (bindE r (\<lambda>reply.
         let raw = py_strip (strip_fences reply) in
         if raw = [] then raise ''OpenRouterUnavailable'' ''task extraction returned an empty reply (no JSON content)''
         else Inr raw), w'))"

definition bad_reply :: "string \<Rightarrow> py_exc \<Rightarrow> py_exc" where
  "bad_reply raw e =
     (if exc_class e = ''JSONDecodeError''
      then Py_exc ''JSONDecodeError'' (''task-extraction reply was not valid JSON (len='' @ nat_str (length raw) @ ''): '' @ exc_msg e)
      else e)"

definition extract_tasks ::
  "('w \<Rightarrow> string py \<times> 'w) \<Rightarrow> (string \<Rightarrow> json py) \<Rightarrow> string py \<Rightarrow> (string, string) dict \<Rightarrow>
   ('w, finding_task list py) action" where
  "extract_tasks generate loads report patches w =
     (case report of
        Inl e \<Rightarrow> (Inl e, w, [])
      | Inr rep \<Rightarrow>
          (let (r, w', es) = call_with_retry (act_quiet (extract_reply generate)) ''extract'' ''-'' None w in
           (bindE r (\<lambda>reply.
              let raw = (case reply of None \<Rightarrow> [] | Some s \<Rightarrow> s) in
              (case loads raw of Inl e \<Rightarrow> Inl (bad_reply raw e) | Inr data \<Rightarrow> attach_fixes (tasks_field data) rep patches)), w', es)))"

text \<open>The operator's patches, each from a file outside the agent's repository.\<close>

record patch_files =
  pa_agent_root :: string
  pa_resolve :: "string \<Rightarrow> string"
  pa_is_file :: "string \<Rightarrow> bool"
  pa_read :: "string \<Rightarrow> string py"

definition within_root :: "string \<Rightarrow> string \<Rightarrow> bool" where
  "within_root base p = (p = base \<or> py_startswith p (base @ ''/''))"

definition read_patch :: "patch_files \<Rightarrow> string \<Rightarrow> string \<Rightarrow> (string, string) dict \<Rightarrow> (string, string) dict py" where
  "read_patch pf fid p out =
     (if within_root (pa_agent_root pf) p then raise ''SystemExit'' ''2''
      else if \<not> pa_is_file pf p then raise ''SystemExit'' ''2''
      else bindE (pa_read pf p) (\<lambda>txt. Inr (dict_set (py_strip fid) txt out)))"

definition parse_fix_patch :: "patch_files \<Rightarrow> string \<Rightarrow> (string, string) dict \<Rightarrow> (string, string) dict py" where
  "parse_fix_patch pf spec out =
     (case py_find ''='' spec of
        None \<Rightarrow> raise ''SystemExit'' ''2''
      | Some i \<Rightarrow> read_patch pf (take i spec) (pa_resolve pf (drop (i + 1) spec)) out)"

definition parse_fix_patches :: "patch_files \<Rightarrow> string list \<Rightarrow> (string, string) dict py" where
  "parse_fix_patches pf specs = foldE (parse_fix_patch pf) specs []"

section \<open>Falsification\<close>

definition resolve_fix :: "(string \<Rightarrow> string option) \<Rightarrow> finding_task \<Rightarrow> (string option \<times> string) \<times> json_obj list" where
  "resolve_fix rd task =
     (if set_str (tk_fix_patch task) then ((tk_fix_patch task, []), [])
      else if \<not> set_str (tk_fix task) then ((None, ''no_fix''), [])
      else case reconstruct (the (tk_fix task)) rd of
             Inr patch \<Rightarrow> ((Some patch, []), [])
           | Inl e \<Rightarrow> ((None, ''reconstruction_refused''),
                       [event_of ''reconstruction_refused'' (tk_id task) [(''reason'', JStr (exc_msg e))]]))"

type_synonym source_copy = "(string, string) dict"

record 'w verify_env =
  ve_read :: "string \<Rightarrow> string option"
  ve_git_apply :: "source_copy \<Rightarrow> string \<Rightarrow> source_copy option"
  ve_patch :: "source_copy \<Rightarrow> string \<Rightarrow> source_copy option"
  ve_real :: "string \<Rightarrow> string"                         \<comment> \<open>a path of the copy without links\<close>
  ve_is_dir :: "string \<Rightarrow> bool"
  ve_run :: "source_copy \<Rightarrow> sandbox_call \<Rightarrow> 'w \<Rightarrow> test_result py \<times> 'w"
  ve_copy_dir :: "'w \<Rightarrow> string"

definition MUTVERIFY_COPY_SKIP :: "string list" where "MUTVERIFY_COPY_SKIP = [''.git'', ''node_modules'']"
definition MUTVERIFY_DEP_DIRS :: "string list" where "MUTVERIFY_DEP_DIRS = [''node_modules'']"

definition copy_project :: "source_copy \<Rightarrow> source_copy" where
  "copy_project files = filter (\<lambda>f. \<not> list_ex (\<lambda>c. c \<in> set MUTVERIFY_COPY_SKIP) (py_split (CHR ''/'') (fst f))) files"

definition git_apply :: "'w verify_env \<Rightarrow> source_copy \<Rightarrow> string \<Rightarrow> source_copy option" where
  "git_apply env copy diff0 =
     (let diff = (if suffix nl diff0 then diff0 else diff0 @ nl) in
      case ve_git_apply env copy diff of Some c \<Rightarrow> Some c | None \<Rightarrow> ve_patch env copy diff)"

definition dep_mounts :: "(string \<Rightarrow> bool) \<Rightarrow> string \<Rightarrow> mount list" where
  "dep_mounts is_dir project =
     map (\<lambda>name. \<lparr>mo_host = project @ ''/'' @ name, mo_container = ''/work/'' @ name, mo_read_only = True\<rparr>)
       (filter (\<lambda>name. is_dir (project @ ''/'' @ name)) MUTVERIFY_DEP_DIRS)"

definition sibling_test :: "(string \<Rightarrow> string) \<Rightarrow> string \<Rightarrow> string \<Rightarrow> bool" where
  "sibling_test rp target p = (py_startswith p (POC_SUBDIR @ ''/'') \<and> suffix ''.t.sol'' p \<and> rp p \<noteq> rp target)"

definition isolate_poc_compile_scope :: "(string \<Rightarrow> string) \<Rightarrow> string \<Rightarrow> source_copy \<Rightarrow> source_copy" where
  "isolate_poc_compile_scope rp target copy = filter (\<lambda>f. \<not> sibling_test rp target (fst f)) copy"

datatype verify_status = Verified_fix | Unverified_pass | Unavailable string

record sandbox_settings =
  rn_fork_rpc :: "string option"
  rn_image :: "string option"

definition patched_options :: "'w verify_env \<Rightarrow> string \<Rightarrow> sandbox_settings \<Rightarrow> string \<Rightarrow> run_options" where
  "patched_options env project rs rel =
     default_options\<lparr>ro_test_path := Some rel, ro_foundry_test_dir := Some POC_SUBDIR, ro_fork_rpc := rn_fork_rpc rs,
       ro_extra_mounts := dep_mounts (ve_is_dir env) project,
       ro_image := (if set_str (rn_image rs) then the (rn_image rs) else FOUNDRY_IMAGE)\<rparr>"

definition unavailable_event :: "string \<Rightarrow> string \<Rightarrow> json_obj \<Rightarrow> json_obj" where
  "unavailable_event fid reason rest = event_of ''mutation_verify_unavailable'' fid ((''reason'', JStr reason) # rest)"

definition judge_patched :: "string \<Rightarrow> test_result py \<Rightarrow> verify_status \<times> json_obj list" where
  "judge_patched fid result =
     (case result of
        Inl e \<Rightarrow> (Unavailable ''infra'', [unavailable_event fid ''infra'' [(''error'', JStr (take 200 (exc_msg e)))]])
      | Inr test \<Rightarrow>
          (if \<not> compiled_signal (te_stdout test) (te_stderr test)
           then (Unavailable ''patched_no_build'', [unavailable_event fid ''patched_no_build'' []])
           else if te_passed test then (Unverified_pass, [event_of ''mutation_unverified'' fid []])
           else (Verified_fix, [event_of ''mutation_verified'' fid []])))"

definition mutation_verify ::
  "'w verify_env \<Rightarrow> string \<Rightarrow> source_copy \<Rightarrow> finding_task \<Rightarrow> string \<Rightarrow> sandbox_settings \<Rightarrow>
   ('w, verify_status) action" where
  "mutation_verify env project files task rel rs w =
     (let fid = tk_id task; ((fix0, why), es) = resolve_fix (ve_read env) task in
      case fix0 of
        None \<Rightarrow> (Unavailable why, w, map Logged (es @ [unavailable_event fid why []]))
      | Some patch \<Rightarrow>
          (case git_apply env (copy_project files) patch of
             None \<Rightarrow> (Unavailable ''patch_failed'', w, map Logged (es @ [unavailable_event fid ''patch_failed'' []]))
           | Some patched \<Rightarrow>
               (let (r, w') = ve_run env (isolate_poc_compile_scope (ve_real env) rel patched)
                                (test_call (ve_copy_dir env w) (patched_options env project rs rel)) w;
                    (status, es') = judge_patched fid r
                in (status, w', map Logged es @ [Tested_fixed rel r] @ map Logged es'))))"

section \<open>Facts\<close>

named_theorems act_defs
declare act_return_def [act_defs] act_log_def [act_defs] act_bind_def [act_defs] act_quiet_def [act_defs]

lemma act_bind_log: "act_bind (act_log es) k w = (let (y, w2, es2) = k () w in (y, w2, map Logged es @ es2))"
  by (simp add: act_defs)

text \<open>What holds of the result and of the effects of an action in every world, with a rule for each way to build one.\<close>

definition act_spec :: "('w, 'a) action \<Rightarrow> ('a \<Rightarrow> effect list \<Rightarrow> bool) \<Rightarrow> bool" where
  "act_spec m Q \<longleftrightarrow> (\<forall>w. Q (fst (m w)) (snd (snd (m w))))"

named_theorems act_rules

lemma spec_return [act_rules]: "act_spec (act_return x) Q \<longleftrightarrow> Q x []"
  by (simp add: act_spec_def act_return_def)

lemma spec_bind:
  assumes "act_spec m P" "\<And>x fx. P x fx \<Longrightarrow> act_spec (k x) (\<lambda>y fx2. Q y (fx @ fx2))"
  shows "act_spec (act_bind m k) Q"
  unfolding act_spec_def
proof
  fix w
  have "P (fst (m w)) (snd (snd (m w)))" using assms(1) by (simp add: act_spec_def)
  from assms(2) [OF this] show "Q (fst (act_bind m k w)) (snd (snd (act_bind m k w)))"
    by (simp add: act_spec_def act_bind_def Let_def case_prod_beta)
qed

lemma spec_bind_log [act_rules]:
  "act_spec (act_bind (act_log es) k) Q \<longleftrightarrow> act_spec (k ()) (\<lambda>y fx. Q y (map Logged es @ fx))"
  by (simp add: act_spec_def act_bind_def act_log_def Let_def case_prod_beta)

lemma spec_weaken: "act_spec m P \<Longrightarrow> (\<And>x fx. P x fx \<Longrightarrow> Q x fx) \<Longrightarrow> act_spec m Q"
  by (simp add: act_spec_def)

lemma spec_quiet: "(\<And>x. Q x []) \<Longrightarrow> act_spec (act_quiet f) Q"
  by (simp add: act_spec_def act_quiet_def Let_def case_prod_beta)

lemma spec_at: "act_spec m Q \<Longrightarrow> m w = (x, w', fx) \<Longrightarrow> Q x fx"
  by (simp add: act_spec_def) (metis fst_conv snd_conv)

text \<open>A count of the calls goes up by one with each, and by at most the attempts altogether: a retry
  is logged for each call but the last, and the last call failed for good only when the attempts are used up
  or the failure is none of the model.\<close>

lemma retry_from_bounded:
  assumes calls: "\<And>v. cnt (snd (fn v)) = cnt v + (1 :: nat)"
    and "retry_from (act_quiet fn) stage fid k left w = (r, w', es)" "0 < left"
  shows "cnt w' = cnt w + length es + 1 \<and> length es < left \<and> r \<noteq> Inr None \<and>
    (case r of Inl e \<Rightarrow> \<not> model_error e \<or> length es + 1 = left | Inr _ \<Rightarrow> True)"
  using assms(2, 3)
proof (induction left arbitrary: k w r w' es)
  case (Suc left)
  obtain x v where f: "fn w = (x, v)" by force
  then have c: "cnt v = cnt w + 1" using calls [of w] by simp
  have f: "act_quiet fn w = (x, v, [])" by (simp add: act_quiet_def f)
  show ?case
  proof (cases x)
    case (Inr a)
    with Suc.prems f c show ?thesis by auto
  next
    case (Inl e)
    show ?thesis
    proof (cases "\<not> model_error e \<or> left = 0")
      case True
      with Suc.prems f c Inl show ?thesis by auto
    next
      case False
      obtain r2 w2 es2 where g: "retry_from (act_quiet fn) stage fid (k + 1) left v = (r2, w2, es2)"
        by (cases "retry_from (act_quiet fn) stage fid (k + 1) left v") auto
      have ih: "cnt w2 = cnt v + length es2 + 1 \<and> length es2 < left \<and> r2 \<noteq> Inr None \<and>
        (case r2 of Inl e \<Rightarrow> \<not> model_error e \<or> length es2 + 1 = left | Inr _ \<Rightarrow> True)"
        using Suc.IH [OF g] False by simp
      from Suc.prems f Inl False g have "r = r2" "w' = w2" "es = Logged (retry_event fid stage k e) # es2" by auto
      with ih c show ?thesis by (auto split: sum.splits)
    qed
  qed
qed simp

lemma call_with_retry_bounded:
  assumes calls: "\<And>v. cnt (snd (fn v)) = cnt v + (1 :: nat)" and run: "call_with_retry (act_quiet fn) stage fid None w = (r, w', es)"
  shows "cnt w' \<le> cnt w + GEN_RETRY_ATTEMPTS \<and> r \<noteq> Inr None"
proof -
  have "retry_from (act_quiet fn) stage fid 1 GEN_RETRY_ATTEMPTS w = (r, w', es)" "0 < GEN_RETRY_ATTEMPTS"
    using run by (simp_all add: call_with_retry_def GEN_RETRY_ATTEMPTS_def)
  from retry_from_bounded [where cnt = cnt and fn = fn, OF calls this] show ?thesis by linarith
qed

text \<open>What holds of every effect of a call and of a logged retry holds of every effect of the retried call.\<close>

lemma spec_retry:
  assumes "act_spec fn (\<lambda>_. list_all P)" "\<And>n x. P (Logged (retry_event fid stage n x))"
  shows "act_spec (call_with_retry fn stage fid attempts) (\<lambda>_. list_all P)"
proof -
  have "list_all P (snd (snd (retry_from fn stage fid k left w)))" for k left w
  proof (induction left arbitrary: k w)
    case (Suc left)
    obtain x v fx where f: "fn w = (x, v, fx)" by (metis prod.exhaust)
    then have "list_all P fx" using assms(1) by (metis act_spec_def snd_conv)
    with Suc [of "k + 1" v] assms(2) f show ?case
      by (cases "retry_from fn stage fid (k + 1) left v") (simp split: sum.split)
  qed simp
  then show ?thesis by (simp add: act_spec_def call_with_retry_def)
qed

subsection \<open>The best heading\<close>

lemma heading_score_pos:
  assumes "shared_tokens want hs \<noteq> []" "hs \<in> set htoks"
  shows "0 < heading_score want htoks hs"
proof -
  have "0 < 1 / (of_nat (heading_df htoks t) :: rat)" if "t \<in> set (shared_tokens want hs)" for t
  proof -
    have "hs \<in> set (filter (\<lambda>hs. t \<in> set hs) htoks)" using that assms(2) by (simp add: shared_tokens_def)
    then have "0 < heading_df htoks t" unfolding heading_df_def by (rule length_pos_if_in_set)
    then show ?thesis by simp
  qed
  then have "\<forall>x \<in> set (map (\<lambda>t. 1 / of_nat (heading_df htoks t)) (shared_tokens want hs)). (0::rat) < x" by simp
  moreover have "\<forall>x \<in> set xs. (0::rat) < x \<Longrightarrow> xs \<noteq> [] \<Longrightarrow> 0 < sum_list xs" for xs
    by (induction xs) (auto simp: add_pos_nonneg sum_list_nonneg order.strict_implies_order)
  ultimately show ?thesis unfolding heading_score_def using assms(1) by simp
qed

definition best_so_far :: "string list \<Rightarrow> string list list \<Rightarrow> nat \<Rightarrow> nat option \<times> rat \<Rightarrow> bool" where
  "best_so_far want htoks n best =
     ((case fst best of None \<Rightarrow> snd best = 0 | Some i \<Rightarrow> i < n \<and> shared_tokens want (htoks ! i) \<noteq> [] \<and>
         snd best = heading_score want htoks (htoks ! i)) \<and>
      (\<forall>j < n. heading_score want htoks (htoks ! j) \<le> snd best))"

lemma better_heading_best:
  assumes "best_so_far want htoks n best" "n < length htoks"
  shows "best_so_far want htoks (Suc n) (better_heading want htoks (n, htoks ! n) best)"
proof (cases "shared_tokens want (htoks ! n) = []")
  case True
  then have "heading_score want htoks (htoks ! n) = 0" by (simp add: heading_score_def)
  moreover have "0 \<le> snd best"
  proof (cases "fst best")
    case None
    with assms(1) show ?thesis by (simp add: best_so_far_def)
  next
    case (Some i)
    with assms show ?thesis using heading_score_pos [of want "htoks ! i" htoks] by (auto simp: best_so_far_def)
  qed
  ultimately show ?thesis using assms(1) True
    by (auto simp: best_so_far_def better_heading_def less_Suc_eq split: option.splits)
next
  case False
  then show ?thesis using assms(1)
    by (auto simp: best_so_far_def better_heading_def less_Suc_eq split: option.splits dest: order.strict_implies_order)
qed

lemma best_heading_best:
  assumes "best_heading want htoks = Some i"
  shows "i < length htoks \<and> (\<forall>j < length htoks. heading_score want htoks (htoks ! j) \<le> heading_score want htoks (htoks ! i))"
proof -
  have "best_so_far want htoks n (fold (better_heading want htoks) (take n (List.enumerate 0 htoks)) (None, 0))"
    if "n \<le> length htoks" for n
    using that
  proof (induction n)
    case 0
    then show ?case by (simp add: best_so_far_def)
  next
    case (Suc n)
    then have "take (Suc n) (List.enumerate 0 htoks) = take n (List.enumerate 0 htoks) @ [(n, htoks ! n)]"
      by (simp add: take_Suc_conv_app_nth nth_enumerate_eq)
    with Suc better_heading_best [of want htoks n] show ?case by simp
  qed
  from this [of "length htoks"] assms show ?thesis by (auto simp: best_heading_def best_so_far_def)
qed

text \<open>The section behind a heading, and the heading it belongs to.\<close>

definition fix_section :: "string \<Rightarrow> string \<Rightarrow> nat \<Rightarrow> string \<Rightarrow> bool" where
  "fix_section report title i d =
     (let hs = re_finditer FINDING_HEADING_RE report; want = title_tokens title;
          htoks = map (\<lambda>h. title_tokens (m_group report 1 h)) hs;
          shared = shared_tokens want (htoks ! i); sec = report_section report hs i
      in i < length hs \<and> 2 \<le> length shared \<and> anchored htoks shared \<and> dominant want shared \<and>
         (\<forall>j < length hs. heading_score want htoks (htoks ! j) \<le> heading_score want htoks (htoks ! i)) \<and>
         (case re_search DIFF_BLOCK_RE sec of None \<Rightarrow> False | Some m \<Rightarrow> d = m_group sec 1 m))"

text \<open>C16: A fix taken from the report is confident: it is the text of the first diff block of one finding's section, and the
  heading of that section has the greatest score of all headings, shares at least two words with the finding's title,
  among them a long one that at most two headings have, and shares six tenths of the title's words.\<close>

theorem fix_match_confident:
  assumes "extract_fix_for_finding report title = Some d"
  shows "\<exists>i. fix_section report title i d"
proof -
  let ?hs = "re_finditer FINDING_HEADING_RE report" and ?want = "title_tokens title"
  let ?htoks = "map (\<lambda>h. title_tokens (m_group report 1 h)) ?hs"
  from assms obtain i where i: "best_heading ?want ?htoks = Some i"
    by (auto simp: extract_fix_for_finding_def Let_def split: if_splits option.splits)
  note b = best_heading_best [OF i]
  from assms i b show ?thesis
    by (intro exI [of _ i]) (auto simp: fix_section_def extract_fix_for_finding_def Let_def not_less split: if_splits option.splits)
qed

lemma diff_verbatim:
  assumes "fix_section report title i d"
  shows "sublist d (report_section report (re_finditer FINDING_HEADING_RE report) i)"
proof -
  have "sublist (m_group t 1 m) t" for t m
  proof -
    have "sublist (substr t a b) t" for a b
      unfolding substr_def by (meson sublist_take sublist_drop sublist_order.order_trans)
    then show ?thesis by (auto simp: m_group_def split: option.splits)
  qed
  with assms show ?thesis by (auto simp: fix_section_def Let_def split: option.splits)
qed

text \<open>A report with one finding and its fix.\<close>

definition sample_report :: string where
  "sample_report = ''[1] **1. accrued rate**'' @ nl @ fence @ ''diff'' @ nl @ ''-a'' @ nl @ fence"

lemma sample_fix: "extract_fix_for_finding sample_report ''accrued rate'' = Some (''-a'' @ nl)"
  by code_simp

theorem fix_match_confident_witness: "\<exists>i. fix_section sample_report ''accrued rate'' i (''-a'' @ nl)"
  by (rule fix_match_confident [OF sample_fix])

subsection \<open>Outcomes, tasks and patches\<close>

lemma finding_cause_known: "finding_cause outcome \<in> set FINDING_CAUSES"
proof (cases "dict_get OUTCOME_TO_CAUSE outcome")
  case None
  then show ?thesis by (simp add: finding_cause_def dict_getd_def FINDING_CAUSES_def)
next
  case (Some c)
  then have "(outcome, c) \<in> set OUTCOME_TO_CAUSE" by (rule map_of_SomeD)
  then have "c \<in> set FINDING_CAUSES" by (auto simp: OUTCOME_TO_CAUSE_def FINDING_CAUSES_def)
  with Some show ?thesis by (simp add: finding_cause_def dict_getd_def)
qed

text \<open>A reply with the text of a file gives the tasks the file gives.\<close>

lemma pinned_equals_extracted:
  assumes "generate w = (Inr reply, w1)" "py_strip (strip_fences reply) = raw" "raw \<noteq> []" "loads raw = Inr data"
    "read_text report_path = Inr report" "read_text tasks_path = Inr raw"
  shows "fst (extract_tasks generate loads (read_text report_path) patches w) = load_pinned_tasks read_text loads tasks_path report_path patches"
  using assms
  by (simp add: extract_tasks_def load_pinned_tasks_def call_with_retry_def GEN_RETRY_ATTEMPTS_def numeral_2_eq_2 extract_reply_def bindE_def act_quiet_def)

lemma task_has_title:
  assumes "attach_fixes raw report patches = Inr ts" "t \<in> set ts"
  shows "\<exists>i kvs. t = task_of report patches i kvs \<and> truthy (dict_getd kvs ''title'' JNull)"
proof -
  obtain us where "jiter raw = Inr us" "ts = List.map_filter (attach_one report patches) (List.enumerate 0 us)"
    using assms(1) by (cases "jiter raw") (auto simp: attach_fixes_def bindE_def)
  with assms(2) obtain it where it: "attach_one report patches it = Some t" by (auto simp: set_map_filter_iff)
  then obtain kvs where "snd it = JObj kvs" by (auto simp: attach_one_def split: json.splits)
  with it have "t = task_of report patches (fst it) kvs \<and> truthy (dict_getd kvs ''title'' JNull)"
    by (auto simp: attach_one_def split: if_splits)
  then show ?thesis by blast
qed

definition operator_text :: "patch_files \<Rightarrow> string \<Rightarrow> bool" where
  "operator_text pf txt \<longleftrightarrow> (\<exists>p. \<not> within_root (pa_agent_root pf) p \<and> pa_is_file pf p \<and> pa_read pf p = Inr txt)"

lemma parse_fix_patch_outside:
  assumes "parse_fix_patch pf spec out = Inr out'" "\<forall>t \<in> snd ` set out. operator_text pf t"
  shows "\<forall>t \<in> snd ` set out'. operator_text pf t"
proof -
  have "\<exists>fid p. read_patch pf fid p out = Inr out'"
  proof (cases "py_find ''='' spec")
    case None
    with assms(1) show ?thesis by (simp only: parse_fix_patch_def option.case sum.distinct)
  next
    case (Some i)
    with assms(1) show ?thesis by (simp only: parse_fix_patch_def option.case) blast
  qed
  then obtain fid p where r: "read_patch pf fid p out = Inr out'" by blast
  then obtain t where
    t: "out' = dict_set (py_strip fid) t out" "\<not> within_root (pa_agent_root pf) p" "pa_is_file pf p" "pa_read pf p = Inr t"
    unfolding read_patch_def by (cases "pa_read pf p") (auto simp: bindE_def split: if_splits)
  have "set (dict_set k t d) \<subseteq> insert (k, t) (set d)" for k and d :: "(string, string) dict" by (induction d) auto
  then have "snd ` set out' \<subseteq> insert t (snd ` set out)" unfolding t(1) by force
  moreover have "operator_text pf t" using t(2-) by (auto simp: operator_text_def)
  ultimately show ?thesis using assms(2) by blast
qed

lemma operator_patch_outside:
  assumes "parse_fix_patches pf specs = Inr out" "t \<in> snd ` set out"
  shows "operator_text pf t"
proof -
  have "foldE (parse_fix_patch pf) specs acc = Inr out \<Longrightarrow> \<forall>t \<in> snd ` set acc. operator_text pf t \<Longrightarrow>
      \<forall>t \<in> snd ` set out. operator_text pf t" for acc
  proof (induction specs arbitrary: acc)
    case (Cons sp specs)
    then obtain acc' where a: "parse_fix_patch pf sp acc = Inr acc'" "foldE (parse_fix_patch pf) specs acc' = Inr out"
      by (auto simp: bindE_def split: sum.splits)
    show ?case by (rule Cons.IH [OF a(2) parse_fix_patch_outside [OF a(1) Cons.prems(2)]])
  qed simp
  from this [of "[]"] assms show ?thesis by (auto simp: parse_fix_patches_def)
qed

subsection \<open>Falsification\<close>

lemma isolated_copy: "f \<in> set (isolate_poc_compile_scope rp target copy) \<longleftrightarrow> f \<in> set copy \<and> \<not> sibling_test rp target (fst f)"
  by (simp add: isolate_poc_compile_scope_def)

text \<open>The run of the test against the fixed source.\<close>

definition patched_run ::
  "'w verify_env \<Rightarrow> string \<Rightarrow> source_copy \<Rightarrow> finding_task \<Rightarrow> string \<Rightarrow> sandbox_settings \<Rightarrow> 'w \<Rightarrow> (test_result py \<times> 'w) option" where
  "patched_run env project files task rel rs w =
     (case fst (fst (resolve_fix (ve_read env) task)) of
        None \<Rightarrow> None
      | Some patch \<Rightarrow> map_option (\<lambda>patched. ve_run env (isolate_poc_compile_scope (ve_real env) rel patched)
            (test_call (ve_copy_dir env w) (patched_options env project rs rel)) w) (git_apply env (copy_project files) patch))"

definition builds :: "test_result \<Rightarrow> bool" where
  "builds t = compiled_signal (te_stdout t) (te_stderr t)"

lemma judge_patched_status:
  "fst (judge_patched fid r) =
     (case r of Inl _ \<Rightarrow> Unavailable ''infra''
      | Inr t \<Rightarrow> if \<not> builds t then Unavailable ''patched_no_build'' else if te_passed t then Unverified_pass else Verified_fix)"
  by (simp add: judge_patched_def builds_def split: sum.splits)

text \<open>The falsification of a passing test never guesses. The test is verified exactly if a usable fix was found and applied, the
  fixed source without the other tests was built, and the test failed on it; it is an unverified pass
  exactly if all this happened but the test passed again; in every other case the status is unavailable with a reason.\<close>

lemma mutation_verified_iff:
  "fst (mutation_verify env project files task rel rs w) =
     (case patched_run env project files task rel rs w of
        None \<Rightarrow> Unavailable (if fst (fst (resolve_fix (ve_read env) task)) = None
                              then snd (fst (resolve_fix (ve_read env) task)) else ''patch_failed'')
      | Some (Inl e, w') \<Rightarrow> Unavailable ''infra''
      | Some (Inr t, w') \<Rightarrow>
          if \<not> builds t then Unavailable ''patched_no_build'' else if te_passed t then Unverified_pass else Verified_fix)"
proof -
  obtain fix0 why es where r: "resolve_fix (ve_read env) task = ((fix0, why), es)" by (metis prod.exhaust)
  show ?thesis
  proof (cases fix0)
    case None
    with r show ?thesis by (simp add: mutation_verify_def patched_run_def)
  next
    case (Some patch)
    show ?thesis
    proof (cases "git_apply env (copy_project files) patch")
      case None
      with r Some show ?thesis by (simp add: mutation_verify_def patched_run_def)
    next
      case s: (Some patched)
      obtain res w2 where run: "ve_run env (isolate_poc_compile_scope (ve_real env) rel patched)
          (test_call (ve_copy_dir env w) (patched_options env project rs rel)) w = (res, w2)" by force
      obtain st es2 where j: "judge_patched (tk_id task) res = (st, es2)" by force
      with judge_patched_status [of "tk_id task" res] r Some s run show ?thesis
        by (auto simp: mutation_verify_def patched_run_def split: sum.splits)
    qed
  qed
qed

end
