(* ===== verification/Queue_Sources.thy ===== *)
theory Queue_Sources
  imports Proof_Inventory Proof_Reachability Proof_Fixers Proof_Causes
begin

text \<open>
  What the queue runner reads of the audited project (\<open>scripts/poc_queue_runner.py\<close>): the contracts of a location with
  their local imports, the test base of the project and whether it provides the types a finding needs, an example,
  the map of files and the callable signatures. The project is a view of the file system: a path is a
  text, reading a file may raise. The files under a directory come in the order in which the file system lists them.

  The lemmas: the walk over imports ends, reads no file twice and keeps its budget; the check before the run and the
  search for a base agree on the operator's paths; an example is never a file named after the finding; the signatures of a
  location keep their budget.
\<close>

section \<open>Names in a location\<close>

definition LOC_NAME_RE :: regex where
  "LOC_NAME_RE =
     RAlt (RSeq rident (rlit ''.sol''))
          (rseq [RWordB, RChr py_upper_char, RStar True (RChr py_isalnum), RWordB])"

definition location_names :: "string \<Rightarrow> string list" where
  "location_names location = unique_names (map (\<lambda>m. drop_sol (m_span location m)) (re_finditer LOC_NAME_RE location))"

definition LOC_METHOD_RE :: regex where
  "LOC_METHOD_RE =
     rseq [RWordB, RChr py_lower_char, RChr py_isalnum, RChr py_isalnum, RChr py_isalnum, RStar True (RChr py_isalnum), RWordB]"

definition LOC_METHOD_STOPWORDS :: "string list" where
  "LOC_METHOD_STOPWORDS = [''this'', ''with'', ''from'', ''into'', ''when'', ''that'', ''path'', ''line'']"

definition location_methods :: "string \<Rightarrow> string list" where
  "location_methods location =
     filter (\<lambda>m. m \<notin> set LOC_METHOD_STOPWORDS) (unique_names (map (m_span location) (re_finditer LOC_METHOD_RE location)))"

section \<open>The project\<close>

record project_tree = project_files +
  pt_text :: "string \<Rightarrow> string py"
  pt_real :: "string \<Rightarrow> string"
  pt_file :: "string \<Rightarrow> bool"
  pt_sols :: "string \<Rightarrow> string list option"               \<comment> \<open>\<open>*.sol\<close> below a directory, \<open>None\<close> for no directory\<close>
  pt_tracked :: "string list"

definition join_path :: "string \<Rightarrow> string \<Rightarrow> string" where
  "join_path base p = (if py_startswith p ''/'' then p else base @ ''/'' @ p)"

definition outside_skipped :: "string \<Rightarrow> bool" where
  "outside_skipped rel = (set SKIP_DIRS \<inter> set (py_split (CHR ''/'') rel) = {})"

definition poc_dir_of :: "'a project_tree_scheme \<Rightarrow> string" where
  "poc_dir_of pt = pf_root pt @ ''/'' @ POC_SUBDIR"

text \<open>The first file of a name outside the directories that are skipped.\<close>

definition primary_source :: "'a project_tree_scheme \<Rightarrow> string \<Rightarrow> string option" where
  "primary_source pt name =
     (case filter (\<lambda>p. pf_is_file pt p \<and> outside_skipped p) (pf_rglob pt (name @ ''.sol'')) of
        [] \<Rightarrow> None | p # _ \<Rightarrow> Some (pf_root pt @ ''/'' @ p))"

definition IMPORT_RE :: regex where
  "IMPORT_RE =
     rseq [rlit ''import'', rws1,
           ropt (rseq [RStar True (RChr (\<lambda>c. \<not> quote_char c \<and> c \<noteq> CHR '';'')), RWordB, rlit ''from'', rws1]),
           RChr quote_char, RGrp 1 (rplus (RChr (\<lambda>c. \<not> quote_char c))), RChr quote_char]"

definition resolve_local_imports :: "'a project_tree_scheme \<Rightarrow> string \<Rightarrow> string \<Rightarrow> string list" where
  "resolve_local_imports pt source_path txt =
     filter (pt_file pt) (map (\<lambda>imp. pt_real pt (parent_dir source_path @ ''/'' @ imp))
       (filter (\<lambda>imp. py_startswith imp ''.'') (findall1 IMPORT_RE txt)))"

section \<open>The source of a location\<close>

definition SOURCE_CHAR_BUDGET :: nat where "SOURCE_CHAR_BUDGET = 26000"
definition PRIMARY_CHAR_CAP :: nat where "PRIMARY_CHAR_CAP = 10000"
definition IMPORT_DEPTH :: nat where "IMPORT_DEPTH = 2"
definition REACHABILITY_SOURCE_BUDGET :: nat where "REACHABILITY_SOURCE_BUDGET = 80000"

datatype block_kind = Target | Dependency

record source_state =
  so_seen :: "string list"
  so_budget :: nat
  so_blocks :: "(block_kind \<times> string \<times> string) list"    \<comment> \<open>kind, path, text\<close>

definition emit_cap :: "nat option \<Rightarrow> block_kind \<Rightarrow> nat \<Rightarrow> nat" where
  "emit_cap primary_cap kind budget = (case (kind, primary_cap) of (Target, Some c) \<Rightarrow> min budget c | _ \<Rightarrow> budget)"

definition emit :: "'a project_tree_scheme \<Rightarrow> nat option \<Rightarrow> string \<Rightarrow> block_kind \<Rightarrow> source_state \<Rightarrow> source_state py" where
  "emit pt primary_cap path kind st =
     (if path \<in> set (so_seen st) \<or> so_budget st = 0 then Inr st
      else bindE (pt_text pt path) (\<lambda>whole.
          let txt = take (emit_cap primary_cap kind (so_budget st)) whole in
          Inr \<lparr>so_seen = so_seen st @ [path], so_budget = so_budget st - length txt,
               so_blocks = so_blocks st @ [(kind, path, txt)]\<rparr>))"

definition emit_target ::
  "'a project_tree_scheme \<Rightarrow> nat option \<Rightarrow> string \<Rightarrow> source_state \<times> (string \<times> nat) list \<Rightarrow> (source_state \<times> (string \<times> nat) list) py" where
  "emit_target pt primary_cap name sf =
     (case primary_source pt name of
        None \<Rightarrow> Inr sf
      | Some p \<Rightarrow> bindE (emit pt primary_cap p Target (fst sf)) (\<lambda>st. Inr (st, snd sf @ [(p, 0)])))"

definition emit_dep ::
  "'a project_tree_scheme \<Rightarrow> nat option \<Rightarrow> nat \<Rightarrow> string \<Rightarrow> source_state \<times> (string \<times> nat) list \<Rightarrow> (source_state \<times> (string \<times> nat) list) py" where
  "emit_dep pt primary_cap d dep sf =
     (if dep \<in> set (so_seen (fst sf)) then Inr sf
      else bindE (emit pt primary_cap dep Dependency (fst sf)) (\<lambda>st. Inr (st, snd sf @ [(dep, d + 1)])))"

text \<open>Files appended to a frontier by the imports of one file are one level deeper.\<close>

lemma emit_deps_frontier:
  assumes "foldE (emit_dep pt cap d) deps sf = Inr sf'"
  shows "\<exists>new. snd sf' = snd sf @ map (\<lambda>p. (p, d + 1)) new"
  using assms
proof (induction deps arbitrary: sf)
  case Nil
  then show ?case by (auto intro: exI [of _ "[]"])
next
  case (Cons dep deps)
  from Cons.prems obtain sf1 where s: "emit_dep pt cap d dep sf = Inr sf1" "foldE (emit_dep pt cap d) deps sf1 = Inr sf'"
    by (auto simp: bindE_def split: sum.splits)
  from Cons.IH [OF s(2)] obtain new where n: "snd sf' = snd sf1 @ map (\<lambda>p. (p, d + 1)) new" by blast
  from s(1) have "snd sf1 = snd sf \<or> snd sf1 = snd sf @ [(dep, d + 1)]"
    by (auto simp: emit_dep_def bindE_def split: if_splits sum.splits)
  then show ?case
  proof
    assume "snd sf1 = snd sf @ [(dep, d + 1)]"
    with n have "snd sf' = snd sf @ map (\<lambda>p. (p, d + 1)) (dep # new)" by simp
    then show ?case by blast
  qed (use n in auto)
qed

definition walk_weights :: "nat \<Rightarrow> (string \<times> nat) list \<Rightarrow> nat multiset" where
  "walk_weights depth frontier = mset (map (\<lambda>pd. depth - snd pd) frontier)"

function walk_imports ::
  "'a project_tree_scheme \<Rightarrow> nat option \<Rightarrow> nat \<Rightarrow> source_state \<times> (string \<times> nat) list \<Rightarrow> source_state py" where
  "walk_imports pt cap depth (st, []) = Inr st"
| "walk_imports pt cap depth (st, (path, d) # rest) =
     (if so_budget st = 0 then Inr st
      else if depth \<le> d then walk_imports pt cap depth (st, rest)
      else case pt_text pt path of
             Inl e \<Rightarrow> (if exc_class e = ''OSError'' then walk_imports pt cap depth (st, rest) else Inl e)
           | Inr txt \<Rightarrow>
               (case foldE (emit_dep pt cap d) (resolve_local_imports pt path txt) (st, rest) of
                  Inl e \<Rightarrow> Inl e
                | Inr sf \<Rightarrow> walk_imports pt cap depth sf))"
  by pat_completeness auto

lemma walk_weights_step:
  assumes "\<not> depth \<le> d" "snd sf' = rest @ map (\<lambda>p. (p, d + 1)) new"
  shows "(walk_weights depth (snd sf'), walk_weights depth ((path, d) # rest)) \<in> mult {(a, b). a < b}"
proof -
  have "walk_weights depth (snd sf') = walk_weights depth rest + mset (map (\<lambda>p. depth - (d + 1)) new)"
    using assms(2) by (simp add: walk_weights_def comp_def)
  moreover have "walk_weights depth ((path, d) # rest) = walk_weights depth rest + {#depth - d#}"
    by (simp add: walk_weights_def)
  moreover have "\<forall>k \<in># mset (map (\<lambda>p. depth - (d + 1)) new). \<exists>j \<in># {#depth - d#}. (k, j) \<in> {(a, b). a < b}"
    using assms(1) by auto
  ultimately show ?thesis by (metis one_step_implies_mult add_mset_not_empty)
qed

lemma walk_weights_drop: "(walk_weights depth rest, walk_weights depth ((path, d) # rest)) \<in> mult {(a, b). a < b}"
  using one_step_implies_mult [of "{#depth - d#}" "{#}" "{(a, b). a < b}" "walk_weights depth rest"]
  by (simp add: walk_weights_def)

termination walk_imports
proof (relation "inv_image (mult {(a, b). a < b}) (\<lambda>(pt, cap, depth, st, frontier). walk_weights depth frontier)")
  show "wf (inv_image (mult {(a, b). a < b}) (\<lambda>(pt, cap, depth, st, frontier). walk_weights depth frontier))"
    by (intro wf_inv_image wf_mult) (simp add: wf_less)
next
  fix pt :: "'a project_tree_scheme" and cap :: "nat option" and depth d :: nat and st :: source_state
    and path tx :: string and rest :: "(string \<times> nat) list" and sf
  assume "\<not> depth \<le> d" and f: "foldE (emit_dep pt cap d) (resolve_local_imports pt path tx) (st, rest) = Inr sf"
  obtain new where "snd sf = rest @ map (\<lambda>p. (p, d + 1)) new" using emit_deps_frontier [OF f] by auto
  from walk_weights_step [OF \<open>\<not> depth \<le> d\<close> this, of path]
  show "((pt, cap, depth, sf), (pt, cap, depth, st, (path, d) # rest))
      \<in> inv_image (mult {(a, b). a < b}) (\<lambda>(pt, cap, depth, st, frontier). walk_weights depth frontier)"
    by (cases sf) simp
qed (simp_all add: walk_weights_drop)

declare walk_imports.simps(2) [simp del]

definition source_block :: "'a project_tree_scheme \<Rightarrow> block_kind \<times> string \<times> string \<Rightarrow> string" where
  "source_block pt b =
     (case b of (kind, path, txt) \<Rightarrow>
        ''// ['' @ (case kind of Target \<Rightarrow> ''target'' | Dependency \<Rightarrow> ''dependency'') @ ''] import this file as: '' @ [CHR 0x22] @
        relpath path (poc_dir_of pt) @ [CHR 0x22] @ nl @ txt)"

definition gather_sources ::
  "'a project_tree_scheme \<Rightarrow> string list \<Rightarrow> nat \<Rightarrow> nat \<Rightarrow> nat option \<Rightarrow> source_state py" where
  "gather_sources pt names depth budget cap =
     bindE (foldE (emit_target pt cap) names (\<lparr>so_seen = [], so_budget = budget, so_blocks = []\<rparr>, []))
       (walk_imports pt cap depth)"

definition read_location_source ::
  "'a project_tree_scheme \<Rightarrow> string \<Rightarrow> nat \<Rightarrow> nat \<Rightarrow> nat option \<Rightarrow> string py" where
  "read_location_source pt location depth budget cap =
     (if location_names location = [] then Inr ''(no contract name found in location)''
      else bindE (gather_sources pt (location_names location) depth budget cap)
             (\<lambda>st. Inr (py_join (nl @ nl) (map (source_block pt) (so_blocks st)))))"

section \<open>The test base\<close>

definition SCAFFOLD_CHAR_BUDGET :: nat where "SCAFFOLD_CHAR_BUDGET = 13000"

definition BASE_INHERIT_RE :: regex where
  "BASE_INHERIT_RE =
     rseq [RWordB, rlit ''is'', rws1,
           RGrp 1 (RSeq (RStar True (RChr py_word)) (ralts (map rlit [''Base'', ''Setup'', ''Deploy'', ''Harness'', ''Fixture'']))), RWordB]"

definition TEST_DIR_RE :: regex where
  "TEST_DIR_RE =
     rseq [RBol True, rws0, rlit ''test'', rws0, rlit ''='', rws0, RChr quote_char, RGrp 1 (rplus (RChr (\<lambda>c. \<not> quote_char c)))]"

definition foundry_test_dir :: "'a project_tree_scheme \<Rightarrow> string py" where
  "foundry_test_dir pt =
     (let toml = pf_root pt @ ''/foundry.toml'' in
      if \<not> pt_file pt toml then Inr ''test''
      else bindE (pt_text pt toml) (\<lambda>t. Inr (case re_search TEST_DIR_RE t of None \<Rightarrow> ''test'' | Some m \<Rightarrow> m_group t 1 m)))"

definition scaffold_tokens :: "string \<Rightarrow> string list" where
  "scaffold_tokens spec = filter (\<lambda>t. t \<noteq> []) (map py_strip (py_split (CHR '','') spec))"

definition resolve_scaffold_tokens :: "'a project_tree_scheme \<Rightarrow> string \<Rightarrow> string list \<times> string list" where
  "resolve_scaffold_tokens pt spec =
     (let is_there = (\<lambda>t. pt_file pt (join_path (pf_root pt) t)) in
      (map (\<lambda>t. pt_real pt (join_path (pf_root pt) t)) (filter is_there (scaffold_tokens spec)),
       filter (\<lambda>t. \<not> is_there t) (scaffold_tokens spec)))"

definition preflight_operator_scaffold :: "'a project_tree_scheme \<Rightarrow> string \<Rightarrow> unit py" where
  "preflight_operator_scaffold pt spec =
     (if py_strip spec = [] then Inr ()
      else if snd (resolve_scaffold_tokens pt spec) \<noteq> [] then raise ''SystemExit'' ''2'' else Inr ())"

text \<open>The Solidity files of the test directory, the tracked ones if the project tracks any, with their texts.\<close>

definition test_files :: "'a project_tree_scheme \<Rightarrow> string list option py" where
  "test_files pt = bindE (foundry_test_dir pt) (\<lambda>d. Inr (pt_sols pt (join_path (pf_root pt) d)))"

definition tracked_only :: "'a project_tree_scheme \<Rightarrow> string list \<Rightarrow> string list" where
  "tracked_only pt files = (if pt_tracked pt = [] then files else filter (\<lambda>f. pt_real pt f \<in> set (pt_tracked pt)) files)"

definition with_texts :: "'a project_tree_scheme \<Rightarrow> string list \<Rightarrow> (string \<times> string) list py" where
  "with_texts pt files = mapE (\<lambda>f. bindE (pt_text pt f) (\<lambda>t. Inr (f, t))) files"

definition contract_re :: "string \<Rightarrow> regex" where
  "contract_re name = rseq [RWordB, ropt (RSeq (rlit ''abstract'') rws1), rlit ''contract'', rws1, rlit name, RWordB]"

text \<open>The most inherited name that one of the files defines.\<close>

definition discover_base :: "(string \<times> string) list \<Rightarrow> string option" where
  "discover_base texts =
     (let inherited = fold bump (concat (map (findall1 BASE_INHERIT_RE \<circ> snd) texts)) [];
          ranked = sort_key (\<lambda>n. - int (dict_getd inherited n 0)) (dict_keys inherited);
          definer = (\<lambda>n. find (\<lambda>ft. re_search (contract_re n) (snd ft) \<noteq> None) texts)
      in case List.map_filter definer ranked of [] \<Rightarrow> None | ft # _ \<Rightarrow> Some (fst ft))"

definition resolve_scaffold :: "'a project_tree_scheme \<Rightarrow> string \<Rightarrow> bool \<Rightarrow> string list py" where
  "resolve_scaffold pt spec disabled =
     (if disabled then Inr []
      else let given = fst (resolve_scaffold_tokens pt spec) in
        if given \<noteq> [] then Inr given
        else bindE (test_files pt) (\<lambda>files. case files of
               None \<Rightarrow> Inr []
             | Some fs \<Rightarrow> bindE (with_texts pt (tracked_only pt fs)) (\<lambda>texts.
                 Inr (case discover_base texts of None \<Rightarrow> [] | Some f \<Rightarrow> [pt_real pt f]))))"

definition scaffold_block :: "'a project_tree_scheme \<Rightarrow> string \<Rightarrow> string \<Rightarrow> string" where
  "scaffold_block pt p txt =
     (let inherit = (case scaffold_base_name txt of
                       Some (c # b) \<Rightarrow> ''INHERIT the contract `'' @ (c # b) @ ''` (write `is '' @ (c # b) @ ''` - that is the leaf that '' @
                                       ''has setUp + the deployed state; do NOT inherit a base it extends)''
                     | _ \<Rightarrow> ''INHERIT it'')
      in ''// [test_scaffold] the project'' @ [CHR 0x27] @ ''s PoC base - '' @ inherit @ ''; import as: '' @ [CHR 0x22] @
         relpath p (poc_dir_of pt) @ [CHR 0x22] @ nl @ txt)"

fun scaffold_blocks :: "'a project_tree_scheme \<Rightarrow> nat \<Rightarrow> string list \<Rightarrow> string list py" where
  "scaffold_blocks pt budget [] = Inr []"
| "scaffold_blocks pt budget (p # ps) =
     (if budget = 0 then Inr []
      else bindE (pt_text pt p) (\<lambda>whole. let txt = take budget whole in
        bindE (scaffold_blocks pt (budget - length txt) ps) (\<lambda>bs. Inr (scaffold_block pt p txt # bs))))"

definition read_scaffold :: "'a project_tree_scheme \<Rightarrow> string list \<Rightarrow> string py" where
  "read_scaffold pt paths = bindE (scaffold_blocks pt SCAFFOLD_CHAR_BUDGET paths) (\<lambda>bs. Inr (py_join (nl @ nl) bs))"

definition base_has_nonvirtual_setup :: "string \<Rightarrow> bool" where
  "base_has_nonvirtual_setup scaffold =
     (re_search (rseq [rlit ''function'', rws1, rlit ''setUp'', rws0, rlit ''('', RStar True (RChr (\<lambda>c. c \<noteq> CHR '')'')), rlit '')'', rws0,
        ralts [rlit ''public'', rlit ''external''],
        RAhead False (rseq [RStar True (RChr (\<lambda>c. c \<noteq> CHR ''{'' \<and> c \<noteq> CHR '';'')), RWordB, rlit ''virtual'', RWordB])]) scaffold \<noteq> None)"

section \<open>The types a base provides\<close>

definition STATE_VAR_TYPE_RE :: regex where
  "STATE_VAR_TYPE_RE =
     rseq [RWordB, RGrp 1 (RSeq (RChr py_upper_char) (RStar True (RChr py_word))), rws1,
           ralts [rlit ''internal'', rlit ''public'', rlit ''private''], rws1, rword1, rws0, rlit '';'']"

definition satisfies_type :: "symbol_index \<Rightarrow> string \<Rightarrow> string \<Rightarrow> bool" where
  "satisfies_type idx stem var_type = (var_type = stem \<or> is_subtype idx var_type stem)"

definition provides :: "symbol_index \<Rightarrow> symbol_index \<Rightarrow> string \<Rightarrow> bool" where
  "provides idx scaf stem =
     list_ex (\<lambda>c. (\<exists>vt \<in> state_var_types scaf c. satisfies_type idx stem vt) \<or>
                  list_ex (\<lambda>b. \<exists>vt \<in> state_var_types idx b. satisfies_type idx stem vt) (dict_getd (si_bases scaf) c []))
       (contract_names scaf)"

definition scaffold_missing_types ::
  "(string \<Rightarrow> symbol_index py) \<Rightarrow> string \<Rightarrow> string list \<Rightarrow> symbol_index option \<Rightarrow> string list py" where
  "scaffold_missing_types index_source scaffold target_stems idx =
     (if scaffold = [] \<or> target_stems = [] then Inr []
      else case idx of
        None \<Rightarrow> Inr (filter (\<lambda>s. s \<notin> set (findall1 STATE_VAR_TYPE_RE scaffold)) target_stems)
      | Some ix \<Rightarrow> bindE (index_source scaffold) (\<lambda>scaf. Inr (filter (\<lambda>s. \<not> provides ix scaf s) target_stems)))"

section \<open>An example\<close>

definition EXAMPLE_CHAR_BUDGET :: nat where "EXAMPLE_CHAR_BUDGET = 3500"

definition ASSERT_RE :: regex where
  "ASSERT_RE =
     rseq [RWordB, ralts (map rlit [''assertEq'', ''assertTrue'', ''assertFalse'', ''assertGt'', ''assertGe'', ''assertLt'', ''assertLe'',
             ''assertNotEq'', ''assertApproxEqAbs'', ''expectRevert'', ''expectEmit'']), RWordB]"

definition CONTRACT_DEF_RE :: regex where
  "CONTRACT_DEF_RE = rseq [RWordB, ropt (RSeq (rlit ''abstract'') rws1), rlit ''contract'', rws1, RGrp 1 rword1]"

definition inherits_re :: "string \<Rightarrow> regex" where
  "inherits_re bn = rseq [RWordB, rlit ''is'', RWordB, RStar True (RChr (\<lambda>c. c \<noteq> CHR ''{'')), RWordB, rlit bn, RWordB]"

definition named_after :: "string list \<Rightarrow> string \<Rightarrow> bool" where
  "named_after excl f = list_ex (\<lambda>x. py_in (py_lower x) (py_lower (path_basename f))) excl"

definition own_setup :: "string \<Rightarrow> bool" where
  "own_setup t = (re_search (rseq [RWordB, rlit ''function'', rws1, rlit ''setUp'', RWordB]) t \<noteq> None)"

text \<open>A candidate with its rank: one without a constructor of its own comes first, then the shorter one.\<close>

definition example_candidate ::
  "'a project_tree_scheme \<Rightarrow> string list \<Rightarrow> string list \<Rightarrow> string list \<Rightarrow> string \<Rightarrow> (bool \<times> nat \<times> string) option py" where
  "example_candidate pt base_paths bnames excl f =
     (if (pt_tracked pt \<noteq> [] \<and> pt_real pt f \<notin> set (pt_tracked pt)) \<or> pt_real pt f \<in> pt_real pt ` set base_paths \<or> named_after excl f
      then Inr None
      else bindE (pt_text pt f) (\<lambda>t.
        Inr (if list_ex (\<lambda>bn. re_search (inherits_re bn) t \<noteq> None) bnames \<and> re_search ASSERT_RE t \<noteq> None
             then Some (own_setup t, length t, pt_real pt f) else None)))"

definition resolve_example ::
  "'a project_tree_scheme \<Rightarrow> string \<Rightarrow> bool \<Rightarrow> string list \<Rightarrow> string list \<Rightarrow> string option py" where
  "resolve_example pt spec disabled base_paths excl =
     (if disabled then Inr None
      else case fst (resolve_scaffold_tokens pt spec) of
        p # _ \<Rightarrow> Inr (Some p)
      | [] \<Rightarrow>
          (if base_paths = [] then Inr None
           else bindE (with_texts pt base_paths) (\<lambda>bases.
             let bnames = concat (map (findall1 CONTRACT_DEF_RE \<circ> snd) bases) in
             bindE (test_files pt) (\<lambda>files. case files of
               None \<Rightarrow> Inr None
             | Some fs \<Rightarrow>
                 (if bnames = [] then Inr None
                  else bindE (mapE (example_candidate pt base_paths bnames excl) fs) (\<lambda>cs.
                    Inr (case sort (List.map_filter (\<lambda>c. c) cs) of [] \<Rightarrow> None | (_, _, p) # _ \<Rightarrow> Some p)))))))"

definition read_example :: "'a project_tree_scheme \<Rightarrow> string option \<Rightarrow> string py" where
  "read_example pt path =
     (case path of
        None \<Rightarrow> Inr []
      | Some p \<Rightarrow> bindE (pt_text pt p) (\<lambda>t.
          Inr (''// a REAL PoC from this project (different finding) - copy its structure:'' @ nl @ take EXAMPLE_CHAR_BUDGET t)))"

section \<open>The map of files\<close>

definition FILEMAP_CHAR_BUDGET :: nat where "FILEMAP_CHAR_BUDGET = 10000"

text \<open>A path below a directory, and what follows it; a path elsewhere raises \<open>ValueError\<close>.\<close>

definition below :: "string \<Rightarrow> string \<Rightarrow> bool" where "below dir p = py_startswith p (dir @ ''/'')"

definition relative_to :: "string \<Rightarrow> string \<Rightarrow> string py" where
  "relative_to p dir =
     (if below dir p then Inr (drop (length dir + 1) p) else raise ''ValueError'' (py_repr_str p @ '' is not in the subpath of '' @ py_repr_str dir))"

definition path_stem :: "string \<Rightarrow> string" where
  "path_stem p =
     (let b = path_basename p; suffix_part = takeWhile (\<lambda>c. c \<noteq> CHR ''.'') (rev b); i = length b - length suffix_part - 1 in
      if CHR ''.'' \<notin> set b \<or> i = 0 \<or> suffix_part = [] then b else take i b)"

definition in_scope :: "'a project_tree_scheme \<Rightarrow> string \<Rightarrow> bool" where
  "in_scope pt rp = (pt_tracked pt = [] \<or> rp \<in> set (pt_tracked pt))"

definition manifest_symbol :: "'a project_tree_scheme \<Rightarrow> symbol \<Rightarrow> string list py" where
  "manifest_symbol pt s =
     (let rp = pt_real pt (sy_file s) in
      if \<not> below (pt_real pt (pf_root pt @ ''/contracts'')) rp \<or> \<not> in_scope pt rp then Inr []
      else bindE (relative_to (sy_file s) (pf_root pt)) (\<lambda>rel.
        Inr (if outside_skipped rel then [sy_name s @ '': '' @ relpath (sy_file s) (poc_dir_of pt)] else [])))"

definition manifest_file :: "'a project_tree_scheme \<Rightarrow> string \<Rightarrow> string list py" where
  "manifest_file pt p =
     (if \<not> pt_file pt p \<or> \<not> in_scope pt (pt_real pt p) then Inr []
      else bindE (relative_to p (pf_root pt)) (\<lambda>rel.
        Inr (if outside_skipped rel then [path_stem p @ '': '' @ relpath p (poc_dir_of pt)] else [])))"

definition build_file_manifest :: "'a project_tree_scheme \<Rightarrow> symbol_index option \<Rightarrow> string py" where
  "build_file_manifest pt idx =
     (case idx of
        Some ix \<Rightarrow> bindE (mapE (manifest_symbol pt) (sort_key sy_name (top_level_symbols ix)))
                   (\<lambda>ls. Inr (take FILEMAP_CHAR_BUDGET (py_join nl (unique_names (concat ls)))))
      | None \<Rightarrow> bindE (mapE (manifest_file pt) (sort (case pt_sols pt (pf_root pt @ ''/contracts'') of None \<Rightarrow> [] | Some fs \<Rightarrow> fs)))
                   (\<lambda>ls. Inr (take FILEMAP_CHAR_BUDGET (py_join nl (concat ls)))))"

section \<open>The callable signatures\<close>

definition CALLABLE_API_BUDGET :: nat where "CALLABLE_API_BUDGET = 6000"

definition no_block :: regex where "no_block = RChr (\<lambda>c. c \<noteq> CHR ''{'' \<and> c \<noteq> CHR ''}'' \<and> c \<noteq> CHR '';'')"

definition FUNC_SIG_RE :: regex where
  "FUNC_SIG_RE = rseq [rlit ''function'', rws1, rword1, rws0, rlit ''('', RStar True no_block, rlit '')'', RStar True no_block]"

definition SIG_TAIL_KEYWORDS :: "string list" where
  "SIG_TAIL_KEYWORDS = [''external'', ''public'', ''internal'', ''private'', ''view'', ''pure'', ''payable'', ''virtual'', ''override'',
     ''returns'', ''memory'', ''calldata'', ''storage'']"

definition MODIFIER_TOKEN_RE :: regex where
  "MODIFIER_TOKEN_RE =
     rseq [RWordB, RGrp 1 rident, ropt (RGrp 2 (rseq [rlit ''('', RStar True (RChr (\<lambda>c. c \<noteq> CHR '')'')), rlit '')'']))]"

text \<open>The length of a signature up to the parenthesis that closes its parameters.\<close>

fun params_from :: "nat \<Rightarrow> string \<Rightarrow> nat option" where
  "params_from depth [] = None"
| "params_from depth (c # cs) =
     map_option Suc
       (if c = CHR ''('' then params_from (depth + 1) cs
        else if c = CHR '')'' then (if depth = 1 then Some 0 else params_from (depth - 1) cs)
        else params_from depth cs)"

definition param_list_end :: "string \<Rightarrow> nat py" where
  "param_list_end sig =
     (case py_find ''('' sig of
        None \<Rightarrow> raise ''ValueError'' ''substring not found''
      | Some start \<Rightarrow> Inr (case params_from 0 (drop start sig) of None \<Rightarrow> length sig | Some n \<Rightarrow> start + n))"

definition before :: "string \<Rightarrow> string \<Rightarrow> string" where
  "before needle s = (case py_find needle s of None \<Rightarrow> s | Some i \<Rightarrow> take i s)"

definition sig_modifiers :: "string \<Rightarrow> string list py" where
  "sig_modifiers sig =
     bindE (param_list_end sig) (\<lambda>n.
       let tl1 = before '';'' (before ''returns'' (drop n sig)) in
       Inr (map (\<lambda>m. m_group tl1 1 m @ m_group tl1 2 m)
              (filter (\<lambda>m. m_group tl1 1 m \<notin> set SIG_TAIL_KEYWORDS) (re_finditer MODIFIER_TOKEN_RE tl1))))"

definition u_warning :: string where "u_warning = [CHR 0xE2, CHR 0x9A, CHR 0xA0]"

definition caller_requirement :: "string \<Rightarrow> string list \<Rightarrow> string" where
  "caller_requirement fname mods =
     ''    '' @ u_warning @ '' CALLER REQUIREMENT on `'' @ fname @ ''(...)` above: '' @ py_join '', '' mods @
     '' - vm.prank/startPrank the required address BEFORE calling it, or it reverts.''"

definition signature_entry :: "string \<Rightarrow> string \<Rightarrow> string list \<Rightarrow> string list" where
  "signature_entry sig fname mods = sig # (if mods = [] then [] else [caller_requirement fname mods])"

text \<open>The entries of a file: the functions the location names come first.\<close>

definition by_priority :: "string list \<Rightarrow> (string \<times> string list) list \<Rightarrow> string list" where
  "by_priority wanted entries =
     concat (map snd (filter (\<lambda>e. fst e \<in> set wanted) entries)) @ concat (map snd (filter (\<lambda>e. fst e \<notin> set wanted) entries))"

definition signature_block :: "string \<Rightarrow> nat \<Rightarrow> string list \<Rightarrow> string option \<times> nat" where
  "signature_block path budget ls =
     (if ls = [] then (None, budget)
      else let body = take budget (py_join nl ls) in
        (Some (''// '' @ path_stem path @ '' - real callable signatures:'' @ nl @ body), budget - length body))"

definition render_ast :: "'a project_tree_scheme \<Rightarrow> symbol_index \<Rightarrow> string list \<Rightarrow> string \<Rightarrow> nat \<Rightarrow> (string option \<times> nat) py" where
  "render_ast pt ix wanted path budget =
     Inr (signature_block path budget (by_priority wanted
       (map (\<lambda>m. (sy_name m, signature_entry (sy_definition m) (sy_name m) (sy_modifiers m)))
         (filter (\<lambda>m. sy_visibility m \<in> {''external'', ''public''}) (functions_in_file (pt_real pt) ix path)))))"

definition FUNCTION_NAME_RE :: regex where
  "FUNCTION_NAME_RE = rseq [rlit ''function'', rws1, RGrp 1 rword1]"

definition regex_entry :: "string \<Rightarrow> (string \<times> string list) list py" where
  "regex_entry raw =
     (let sig0 = py_strip (re_subst rws1 (\<lambda>_ _. '' '') 0 raw) in
      if \<not> py_in ''external'' sig0 \<and> \<not> py_in ''public'' sig0 then Inr []
      else let sig = sig0 @ '';'';
               fname = (case re_match_start FUNCTION_NAME_RE sig of None \<Rightarrow> ''?'' | Some m \<Rightarrow> m_group sig 1 m)
           in bindE (sig_modifiers sig) (\<lambda>mods. Inr [(fname, signature_entry sig fname mods)]))"

definition render_regex :: "'a project_tree_scheme \<Rightarrow> string list \<Rightarrow> string \<Rightarrow> nat \<Rightarrow> (string option \<times> nat) py" where
  "render_regex pt wanted path budget =
     bindE (pt_text pt path) (\<lambda>t.
     bindE (mapE regex_entry (map (m_span t) (re_finditer FUNC_SIG_RE t))) (\<lambda>es.
       Inr (signature_block path budget (unique_names (by_priority wanted (concat es))))))"

record api_state =
  ap_seen :: "string list"
  ap_blocks :: "string list"

definition api_file ::
  "(string \<Rightarrow> nat \<Rightarrow> (string option \<times> nat) py) \<Rightarrow> string \<Rightarrow> api_state \<times> nat \<Rightarrow> (api_state \<times> nat) py" where
  "api_file render path sb =
     (if path \<in> set (ap_seen (fst sb)) \<or> snd sb = 0 then Inr sb
      else bindE (render path (snd sb)) (\<lambda>(block, budget).
        Inr ((fst sb)\<lparr>ap_seen := ap_seen (fst sb) @ [path],
                      ap_blocks := ap_blocks (fst sb) @ (case block of None \<Rightarrow> [] | Some b \<Rightarrow> [b])\<rparr>, budget)))"

definition api_name ::
  "'a project_tree_scheme \<Rightarrow> (string \<Rightarrow> nat \<Rightarrow> (string option \<times> nat) py) \<Rightarrow> nat \<Rightarrow> string \<Rightarrow> api_state \<Rightarrow> api_state py" where
  "api_name pt render share name st =
     (case primary_source pt name of
        None \<Rightarrow> Inr st
      | Some p \<Rightarrow> bindE (pt_text pt p) (\<lambda>t.
          bindE (foldE (api_file render) (p # resolve_local_imports pt p t) (st, share)) (\<lambda>sb. Inr (fst sb))))"

definition build_callable_api :: "'a project_tree_scheme \<Rightarrow> string \<Rightarrow> symbol_index option \<Rightarrow> string py" where
  "build_callable_api pt location idx =
     (let names = location_names location; wanted = location_methods location;
          render = (case idx of Some ix \<Rightarrow> render_ast pt ix wanted | None \<Rightarrow> render_regex pt wanted)
      in if names = [] then Inr []
         else bindE (foldE (api_name pt render (max 1 (CALLABLE_API_BUDGET div length names))) names \<lparr>ap_seen = [], ap_blocks = []\<rparr>)
                (\<lambda>st. Inr (py_join (nl @ nl) (ap_blocks st))))"

section \<open>Remappings\<close>

definition strip_set :: "(char \<Rightarrow> bool) \<Rightarrow> string \<Rightarrow> string" where
  "strip_set p s = rev (dropWhile p (rev (dropWhile p s)))"

definition REMAPPING_LINE_RE :: regex where
  "REMAPPING_LINE_RE =
     rseq [RBol True, rws0, ropt (RChr quote_char),
           RGrp 1 (rseq [rplus (RChr (\<lambda>c. \<not> quote_char c \<and> c \<noteq> CHR ''='' \<and> \<not> py_space c)), rlit ''/='', rplus (RChr (\<lambda>c. \<not> quote_char c))]),
           ropt (RChr quote_char), rws0, ropt (rlit '',''), rws0, REol True]"

definition REMAPPINGS_BLOCK_RE :: regex where
  "REMAPPINGS_BLOCK_RE = rseq [rlit ''remappings'', rws0, rlit ''='', rws0, rlit ''['', RGrp 1 (RStar False (RChr (\<lambda>_. True))), rlit '']'']"

definition QUOTED_RE :: regex where
  "QUOTED_RE = rseq [RChr quote_char, RGrp 1 (rplus (RChr (\<lambda>c. \<not> quote_char c))), RChr quote_char]"

definition foundry_remappings :: "'a project_tree_scheme \<Rightarrow> string list py" where
  "foundry_remappings pt =
     (let toml = pf_root pt @ ''/foundry.toml'' in
      if \<not> pt_file pt toml then Inr []
      else bindE (pt_text pt toml) (\<lambda>t.
        Inr (unique_names
          (map (\<lambda>g. strip_set quote_char (strip_set (\<lambda>c. c = CHR '','') (py_strip g))) (findall1 REMAPPING_LINE_RE t) @
           (case re_search REMAPPINGS_BLOCK_RE t of None \<Rightarrow> [] | Some m \<Rightarrow> findall1 QUOTED_RE (m_group t 1 m))))))"

section \<open>Facts on the walk\<close>

text \<open>A file is at a distance from the targets when a chain of local imports leads to it.\<close>

inductive import_chain :: "'a project_tree_scheme \<Rightarrow> string list \<Rightarrow> nat \<Rightarrow> string \<Rightarrow> bool" for pt names where
  chain_target: "name \<in> set names \<Longrightarrow> primary_source pt name = Some p \<Longrightarrow> import_chain pt names 0 p"
| chain_import: "import_chain pt names n p \<Longrightarrow> pt_text pt p = Inr t \<Longrightarrow> q \<in> set (resolve_local_imports pt p t) \<Longrightarrow>
    import_chain pt names (Suc n) q"

definition block_ok :: "'a project_tree_scheme \<Rightarrow> string list \<Rightarrow> nat \<Rightarrow> block_kind \<times> string \<times> string \<Rightarrow> bool" where
  "block_ok pt names depth b =
     (case b of (kind, path, t) \<Rightarrow>
        (\<exists>whole. pt_text pt path = Inr whole \<and> t = take (length t) whole) \<and>
        (\<exists>n. import_chain pt names n path \<and> n \<le> depth \<and> (kind = Target \<longrightarrow> n = 0)))"

definition sources_ok :: "'a project_tree_scheme \<Rightarrow> string list \<Rightarrow> nat \<Rightarrow> nat \<Rightarrow> source_state \<Rightarrow> bool" where
  "sources_ok pt names depth budget st =
     (distinct (so_seen st) \<and> map (fst \<circ> snd) (so_blocks st) = so_seen st \<and>
      (\<Sum>b\<leftarrow>so_blocks st. length (snd (snd b))) + so_budget st = budget \<and> (\<forall>b \<in> set (so_blocks st). block_ok pt names depth b))"

definition frontier_ok :: "'a project_tree_scheme \<Rightarrow> string list \<Rightarrow> (string \<times> nat) list \<Rightarrow> bool" where
  "frontier_ok pt names frontier = (\<forall>(p, n) \<in> set frontier. import_chain pt names n p)"

lemma emit_ok:
  assumes "emit pt cap path kind st = Inr st'" "sources_ok pt names depth budget st"
    "import_chain pt names n path" "n \<le> depth" "kind = Target \<longrightarrow> n = 0"
  shows "sources_ok pt names depth budget st'"
proof (cases "path \<in> set (so_seen st) \<or> so_budget st = 0")
  case True
  with assms show ?thesis by (auto simp: emit_def)
next
  case False
  define c where "c = emit_cap cap kind (so_budget st)"
  have le: "c \<le> so_budget st" by (simp add: c_def emit_cap_def split: block_kind.split option.split)
  from False assms(1) obtain whole where w: "pt_text pt path = Inr whole"
    "st' = \<lparr>so_seen = so_seen st @ [path], so_budget = so_budget st - length (take c whole), so_blocks = so_blocks st @ [(kind, path, take c whole)]\<rparr>"
    by (auto simp: emit_def bindE_def Let_def c_def split: sum.splits)
  have "block_ok pt names depth (kind, path, take c whole)" using w(1) assms(3-5) by (auto simp: block_ok_def min_def)
  with w le False assms(2) show ?thesis by (auto simp: sources_ok_def)
qed

lemma emit_target_ok:
  assumes "emit_target pt cap name (st, fr) = Inr (st', fr')" "sources_ok pt names depth budget st" "frontier_ok pt names fr" "name \<in> set names"
  shows "sources_ok pt names depth budget st' \<and> frontier_ok pt names fr'"
proof (cases "primary_source pt name")
  case None
  with assms show ?thesis by (simp add: emit_target_def)
next
  case (Some p)
  with assms(1) have e: "emit pt cap p Target st = Inr st'" "fr' = fr @ [(p, 0)]"
    by (auto simp: emit_target_def bindE_def split: sum.splits)
  have c: "import_chain pt names 0 p" using assms(4) Some by (rule chain_target)
  with emit_ok [OF e(1) assms(2) c] e(2) assms(3) show ?thesis by (simp add: frontier_ok_def)
qed

lemma emit_dep_ok:
  assumes "emit_dep pt cap d dep (st, fr) = Inr (st', fr')" "sources_ok pt names depth budget st" "frontier_ok pt names fr"
    "import_chain pt names (d + 1) dep" "d + 1 \<le> depth"
  shows "sources_ok pt names depth budget st' \<and> frontier_ok pt names fr'"
proof (cases "dep \<in> set (so_seen st)")
  case True
  with assms show ?thesis by (simp add: emit_dep_def)
next
  case False
  with assms(1) have e: "emit pt cap dep Dependency st = Inr st'" "fr' = fr @ [(dep, d + 1)]"
    by (auto simp: emit_dep_def bindE_def split: sum.splits)
  with emit_ok [OF e(1) assms(2,4,5)] assms(3,4) show ?thesis by (simp add: frontier_ok_def)
qed

lemma foldE_invariant:
  assumes "foldE f xs s = Inr s'" "P s" "\<And>x a b. x \<in> set xs \<Longrightarrow> f x a = Inr b \<Longrightarrow> P a \<Longrightarrow> P b"
  shows "P s'"
  using assms
proof (induction xs arbitrary: s)
  case (Cons x xs)
  from Cons.prems(1) obtain s1 where s: "f x s = Inr s1" "foldE f xs s1 = Inr s'" by (auto simp: bindE_def split: sum.splits)
  have "P s1" using Cons.prems(3) [OF _ s(1) Cons.prems(2)] by simp
  then show ?case using Cons.IH [OF s(2)] Cons.prems(3) by (meson list.set_intros(2))
qed simp

lemma walk_imports_ok:
  assumes "walk_imports pt cap depth (st, fr) = Inr st'" "sources_ok pt names depth budget st" "frontier_ok pt names fr"
  shows "sources_ok pt names depth budget st'"
  using assms
proof (induction pt cap depth "(st, fr)" arbitrary: st fr rule: walk_imports.induct)
  case (2 pt cap depth st path d rest)
  note eq = "2.prems"(1) [unfolded walk_imports.simps(2)]
  have rest: "frontier_ok pt names rest" using "2.prems"(3) by (simp add: frontier_ok_def)
  have chain: "import_chain pt names d path" using "2.prems"(3) by (simp add: frontier_ok_def)
  show ?case
  proof (cases "so_budget st = 0 \<or> depth \<le> d")
    case True
    then show ?thesis using eq "2.hyps"(1) "2.prems"(2) rest by (auto split: if_splits)
  next
    case False
    show ?thesis
    proof (cases "pt_text pt path")
      case (Inl e)
      then show ?thesis using eq "2.hyps"(2) "2.prems"(2) rest False by (auto split: if_splits)
    next
      case (Inr t)
      with eq False obtain st1 fr1 where f: "foldE (emit_dep pt cap d) (resolve_local_imports pt path t) (st, rest) = Inr (st1, fr1)"
        "walk_imports pt cap depth (st1, fr1) = Inr st'" by (auto split: sum.splits)
      have "(\<lambda>(s, fr). sources_ok pt names depth budget s \<and> frontier_ok pt names fr) (st1, fr1)"
      proof (rule foldE_invariant [OF f(1)])
        show "(\<lambda>(s, fr). sources_ok pt names depth budget s \<and> frontier_ok pt names fr) (st, rest)" using "2.prems"(2) rest by simp
      next
        fix q a b
        assume q: "q \<in> set (resolve_local_imports pt path t)" and e: "emit_dep pt cap d q a = Inr b"
          and ok: "(\<lambda>(s, fr). sources_ok pt names depth budget s \<and> frontier_ok pt names fr) a"
        have "import_chain pt names (d + 1) q" using chain_import [OF chain Inr q] by simp
        with emit_dep_ok e ok False show "(\<lambda>(s, fr). sources_ok pt names depth budget s \<and> frontier_ok pt names fr) b"
          by (cases a; cases b) fastforce
      qed
      then show ?thesis using "2.hyps"(3) [OF _ _ Inr f(1) f(2)] False by auto
    qed
  qed
qed simp

lemma gather_sources_ok:
  assumes "gather_sources pt names depth budget cap = Inr st"
  shows "sources_ok pt names depth budget st"
proof -
  from assms obtain st0 fr where g: "foldE (emit_target pt cap) names (\<lparr>so_seen = [], so_budget = budget, so_blocks = []\<rparr>, []) = Inr (st0, fr)"
    "walk_imports pt cap depth (st0, fr) = Inr st" by (auto simp: gather_sources_def bindE_def split: sum.splits)
  have "(\<lambda>(s, fr). sources_ok pt names depth budget s \<and> frontier_ok pt names fr) (st0, fr)"
  proof (rule foldE_invariant [OF g(1)])
    show "(\<lambda>(s, fr). sources_ok pt names depth budget s \<and> frontier_ok pt names fr) (\<lparr>so_seen = [], so_budget = budget, so_blocks = []\<rparr>, [])"
      by (simp add: sources_ok_def frontier_ok_def)
  next
    fix name a b
    assume "name \<in> set names" "emit_target pt cap name a = Inr b" "(\<lambda>(s, fr). sources_ok pt names depth budget s \<and> frontier_ok pt names fr) a"
    then show "(\<lambda>(s, fr). sources_ok pt names depth budget s \<and> frontier_ok pt names fr) b"
      using emit_target_ok by (cases a; cases b) fastforce
  qed
  with walk_imports_ok [OF g(2)] show ?thesis by simp
qed


text \<open>A project of one contract with a local import.\<close>

definition two_files :: project_tree where
  "two_files =
     \<lparr>pf_root = ''/p'', pf_rglob = (\<lambda>n. if n = ''A.sol'' then [''out/A.sol'', ''A.sol''] else []), pf_is_file = (\<lambda>_. True), pf_tracked = (\<lambda>_. True),
      pt_text = (\<lambda>p. if p = ''/p/A.sol'' then Inr (''import '' @ [CHR 0x22] @ ''./B.sol'' @ [CHR 0x22] @ '';'') else Inr ''contract B'' ),
      pt_real = (\<lambda>p. if p = ''/p/./B.sol'' then ''/p/B.sol'' else p), pt_file = (\<lambda>_. True), pt_sols = (\<lambda>_. None), pt_tracked = []\<rparr>"

lemma two_files_sources:
  "gather_sources two_files [''A''] 2 20 (Some 30) =
     Inr \<lparr>so_seen = [''/p/A.sol'', ''/p/B.sol''], so_budget = 0,
       so_blocks = [(Target, ''/p/A.sol'', ''import '' @ [CHR 0x22] @ ''./B.sol'' @ [CHR 0x22] @ '';''), (Dependency, ''/p/B.sol'', ''con'')]\<rparr>"
  by code_simp


section \<open>The operator's base\<close>

lemma tokens_split:
  "snd (resolve_scaffold_tokens pt spec) = [] \<Longrightarrow>
   fst (resolve_scaffold_tokens pt spec) = map (\<lambda>t. pt_real pt (join_path (pf_root pt) t)) (scaffold_tokens spec)"
  by (simp add: resolve_scaffold_tokens_def filter_empty_conv filter_id_conv)

lemma tokens_of_blank: "py_strip spec = [] \<Longrightarrow> scaffold_tokens spec = []"
proof -
  assume "py_strip spec = []"
  then have all: "\<forall>c \<in> set spec. py_space c"
    by (simp add: py_strip_def dropWhile_eq_Nil_conv) (metis set_dropWhileD dropWhile_eq_Nil_conv set_rev hd_dropWhile list.set_sel(1) rev_is_Nil_conv)
  have "py_strip t = []" if "t \<in> set (py_split sep s)" "\<forall>c \<in> set s. py_space c" for sep s t
  proof -
    have "set t \<subseteq> set s" using that(1)
      by (induction sep s arbitrary: t rule: py_split.induct) (auto split: if_splits list.splits, blast+)
    with that(2) have "dropWhile py_space t = []" by (auto simp: dropWhile_eq_Nil_conv)
    then have "py_strip t = rev (dropWhile py_space (rev []))" by (simp only: py_strip_def)
    then show ?thesis by simp
  qed
  with all show ?thesis unfolding scaffold_tokens_def by (auto simp: filter_empty_conv)
qed



section \<open>The example\<close>

lemma mapE_mem: "mapE f xs = Inr ys \<Longrightarrow> y \<in> set ys \<Longrightarrow> \<exists>x \<in> set xs. f x = Inr y"
  by (induction xs arbitrary: ys) (auto simp: bindE_def split: sum.splits)

lemma example_candidate_from:
  assumes "example_candidate pt base_paths bnames excl f = Inr (Some (s, n, p))"
  shows "p = pt_real pt f \<and> in_scope pt p \<and> p \<notin> pt_real pt ` set base_paths \<and> \<not> named_after excl f"
  using assms by (auto simp: example_candidate_def bindE_def in_scope_def split: if_splits sum.splits)

text \<open>C22: The worked example never gives the answer away: unless the operator named a file, the example is a test file
  of the project, a tracked one if the project tracks any, that is none of the bases and whose name contains none of the
  finding's names.\<close>

theorem example_not_the_answer:
  assumes "resolve_example pt spec disabled base_paths excl = Inr (Some p)" "fst (resolve_scaffold_tokens pt spec) = []"
  shows "\<exists>f files. test_files pt = Inr (Some files) \<and> f \<in> set files \<and> p = pt_real pt f \<and> in_scope pt p \<and>
    p \<notin> pt_real pt ` set base_paths \<and> \<not> named_after excl f"
proof -
  from assms obtain bases files where b: "base_paths \<noteq> []" "with_texts pt base_paths = Inr bases" "test_files pt = Inr (Some files)"
    by (auto simp: resolve_example_def bindE_def Let_def split: if_splits sum.splits option.splits)
  define bnames where "bnames = concat (map (findall1 CONTRACT_DEF_RE \<circ> snd) bases)"
  from assms b obtain cs where c: "mapE (example_candidate pt base_paths bnames excl) files = Inr cs"
    "(case sort (List.map_filter (\<lambda>c. c) cs) of [] \<Rightarrow> None | (_, _, p) # _ \<Rightarrow> Some p) = Some p"
    by (auto simp: resolve_example_def bindE_def Let_def bnames_def split: if_splits sum.splits)
  then obtain s n rest where "sort (List.map_filter (\<lambda>c. c) cs) = (s, n, p) # rest"
    by (auto split: list.splits)
  then have "(s, n, p) \<in> set (List.map_filter (\<lambda>c. c) cs)" by (metis list.set_intros(1) set_sort)
  then have "Some (s, n, p) \<in> set cs" by (auto simp: set_map_filter_iff)
  with mapE_mem [OF c(1)] obtain f where "f \<in> set files" "example_candidate pt base_paths bnames excl f = Inr (Some (s, n, p))" by blast
  with example_candidate_from b(3) show ?thesis by blast
qed

text \<open>A project with a test of its own for another finding.\<close>

definition one_example :: project_tree where
  "one_example = two_files\<lparr>pt_file := (\<lambda>_. False), pt_sols := (\<lambda>_. Some [''/p/test/H1.t.sol'', ''/p/test/X.t.sol'']),
     pt_text := (\<lambda>p. if p = ''/p/b'' then Inr ''contract B'' else Inr ''is B assertEq'')\<rparr>"

lemma one_example_found: "resolve_example one_example [] False [''/p/b''] [''h1''] = Inr (Some ''/p/test/X.t.sol'')"
  by code_simp

theorem example_not_the_answer_witness:
  "\<not> named_after [''h1''] ''/p/test/X.t.sol''"
proof -
  have "fst (resolve_scaffold_tokens one_example []) = []" by code_simp
  from example_not_the_answer [OF one_example_found this] obtain f where "''/p/test/X.t.sol'' = pt_real one_example f" "\<not> named_after [''h1''] f"
    by blast
  then show ?thesis by (auto simp: one_example_def two_files_def split: if_splits)
qed

end
