(* ===== verification/Queue_Hints.thy ===== *)
theory Queue_Hints
  imports Queue_Sources Exploit_Loop
begin

text \<open>
  What the queue runner tells the model about a failed test (\<open>scripts/poc_queue_runner.py\<close>): the defects that make a passing
  test worthless, the methods of the finding that the test calls, the corrections for each
  compiler error, and the reverts with the trace of the failing test.

  The lemmas: a test without defects asserts something, declares no target again and reaches the
  real contracts; a correction is taken from the sources it cites; an excerpt of a trace keeps its budget unless the
  failing line alone exhausts it.
\<close>

section \<open>Defects of a test\<close>

definition mock_re :: "string \<Rightarrow> regex" where
  "mock_re stem = rseq [RWordB, rlit ''contract'', rws1, rlit stem, RWordB]"

definition INHERITS_RE :: regex where
  "INHERITS_RE = rseq [RWordB, rlit ''contract'', rws1, rword1, rws1, rlit ''is'', rws1, RChr py_word]"

definition TEST_IMPORT_RE :: regex where
  "TEST_IMPORT_RE =
     rseq [rlit ''import'', RStar False (RChr (\<lambda>c. c \<noteq> CHR '';'')), RChr quote_char, RGrp 1 (rplus (RChr (\<lambda>c. \<not> quote_char c))), RChr quote_char]"

definition no_assertion :: string where
  "no_assertion = ''no active assertion/expectRevert - the test is empty or fully '' @
     ''commented out (a vacuous test that reproduces nothing).''"

definition inline_mock :: "string \<Rightarrow> string" where
  "inline_mock stem = ''re-declares the real contract `'' @ stem @ ''` inline (a mock) - you MUST '' @
     ''import the real one via its given path, never mock or reimplement it.''"

definition no_import :: string where
  "no_import = ''does not import the real target contract - add an import using the '' @ ''exact path from its source-block header.''"

definition imports_target :: "string list \<Rightarrow> string \<Rightarrow> bool" where
  "imports_target stems body = list_ex (\<lambda>imp. list_ex (\<lambda>s. py_in s imp) stems) (findall1 TEST_IMPORT_RE body)"

definition poc_defects :: "string \<Rightarrow> string list \<Rightarrow> bool \<Rightarrow> string list" where
  "poc_defects code target_stems scaffold_used =
     (let body = strip_comments code; inherits_base = (scaffold_used \<and> re_search INHERITS_RE body \<noteq> None) in
      (if re_search ASSERT_RE body = None then [no_assertion] else []) @
      map inline_mock (filter (\<lambda>stem. re_search (mock_re stem) body \<noteq> None) target_stems) @
      (if target_stems \<noteq> [] \<and> \<not> inherits_base \<and> \<not> imports_target target_stems body then [no_import] else []))"

section \<open>The methods a test calls\<close>

definition DESC_BACKTICK_METHOD_RE :: regex where
  "DESC_BACKTICK_METHOD_RE = rseq [rlit ''`'', RGrp 1 rident, rlit ''('', ropt (rlit '')''), rlit ''`'']"

definition description_methods :: "string \<Rightarrow> string list" where
  "description_methods description =
     (let backticked = unique_names (findall1 DESC_BACKTICK_METHOD_RE description) in
      if backticked \<noteq> [] then backticked else location_methods description)"

definition called_re :: "string \<Rightarrow> regex" where
  "called_re m = rseq [rlit ''.'', rlit m, rws0, rlit ''('']"

text \<open>The checked methods and those of them that are called.\<close>

definition mechanism_signal :: "string \<Rightarrow> string \<Rightarrow> string \<Rightarrow> string list \<times> string list" where
  "mechanism_signal code location description =
     (let methods = unique_names (location_methods location @ description_methods description) in
      (methods, filter (\<lambda>m. re_search (called_re m) (strip_comments code) \<noteq> None) methods))"

section \<open>Signatures in the callable block\<close>

function split_text :: "string \<Rightarrow> string \<Rightarrow> string list" where
  "split_text sep s =
     (if sep = [] then [s]
      else case py_find sep s of None \<Rightarrow> [s] | Some i \<Rightarrow> take i s # split_text sep (drop (i + length sep) s))"
  by pat_completeness auto
termination
proof (relation "measure (\<lambda>(sep, s). length s)")
  fix sep s :: string and i
  assume "sep \<noteq> []" "py_find sep s = Some i"
  then have "i + length sep \<le> length s \<and> s \<noteq> []"
    by (induction s arbitrary: i) (auto simp: py_startswith_def split: if_splits, (metis length_Cons length_append append_take_drop_id le_add1)?)
  with \<open>sep \<noteq> []\<close> show "((sep, drop (i + length sep) s), sep, s) \<in> measure (\<lambda>(sep, s). length s)"
    by (cases sep) auto
qed simp

declare split_text.simps [simp del]

definition api_blocks :: "string \<Rightarrow> string list" where "api_blocks api = split_text (nl @ nl) api"

definition sigs_for :: "string \<Rightarrow> string \<Rightarrow> string" where
  "sigs_for callable_api contract =
     (case find (\<lambda>b. py_startswith b (''// '' @ contract @ '' '')) (api_blocks callable_api) of
        None \<Rightarrow> [] | Some b \<Rightarrow> take 1400 (py_join nl (drop 1 (py_splitlines b))))"

definition method_sig_re :: "string \<Rightarrow> regex" where
  "method_sig_re m = rseq [RWordB, rlit ''function'', rws1, rlit m, rws0, rlit ''('']"

definition sig_by_method :: "string \<Rightarrow> string \<Rightarrow> string" where
  "sig_by_method callable_api m =
     take 600 (py_join nl (unique_names
       (filter (\<lambda>ln. re_search (method_sig_re m) ln \<noteq> None) (concat (map (\<lambda>b. drop 1 (py_splitlines b)) (api_blocks callable_api))))))"

section \<open>Corrections for compiler errors\<close>

definition ERROR_LINE_RE :: regex where
  "ERROR_LINE_RE =
     rseq [rlit ''-->'', rws0, rplus (RChr (\<lambda>c. \<not> py_space c)), rlit ''.t.sol:'', RGrp 1 rdigit1, rlit '':'', rdigit1]"

definition CALL_RE :: regex where "CALL_RE = rseq [rlit ''.'', RGrp 1 rword1, rws0, rlit ''('']"

definition line_hints :: "string list \<Rightarrow> string \<Rightarrow> string \<Rightarrow> string list" where
  "line_hints ls callable_api lineno =
     (let idx = dec_val lineno in
      if idx = 0 \<or> length ls < idx then []
      else let src_line = py_strip (ls ! (idx - 1)) in
        List.map_filter (\<lambda>m. let sigs = sig_by_method callable_api m in
            if sigs = [] then None
            else Some (''Line '' @ lineno @ '' calls `.'' @ m @ ''(...)` - your arguments don'' @ [CHR 0x27] @ ''t match its REAL '' @
                       ''signature. Use EXACTLY:'' @ nl @ sigs @ nl @ ''against: '' @ src_line))
          (unique_names (findall1 CALL_RE src_line)))"

definition line_level_hints :: "string \<Rightarrow> string \<Rightarrow> string \<Rightarrow> string list" where
  "line_level_hints forge_output code callable_api =
     (if \<not> py_in ''Invalid type for argument'' forge_output \<and> \<not> py_in ''Wrong argument count'' forge_output then []
      else concat (map (line_hints (py_splitlines code) callable_api) (unique_names (findall1 ERROR_LINE_RE forge_output))))"

definition text_end :: regex where "text_end = RAhead False (RChr (\<lambda>_. True))"

definition REDECLARED_RE :: regex where
  "REDECLARED_RE =
     rseq [rlit ''Identifier already declared.'', RGrp 1 (RStar False (RChr (\<lambda>_. True))),
           RAhead True (ralts [rlit (nl @ ''Error (''), rlit (nl @ ''Warning''), text_end])]"

definition SRC_PTR_RE :: regex where
  "SRC_PTR_RE =
     rseq [rlit ''-->'', rws0, RGrp 1 (RSeq (rplus (RChr (\<lambda>c. \<not> py_space c))) (rlit ''.sol'')), rlit '':'', rdigit1]"

definition BASE_STATE_VAR_RE :: regex where
  "BASE_STATE_VAR_RE =
     rseq [RWordB, rword1, rws1, ralts [rlit ''internal'', rlit ''public'', rlit ''private''], rws1, RGrp 1 rword1, rws0, rlit '';'']"

definition base_state_vars :: "string \<Rightarrow> string list" where
  "base_state_vars scaffold = findall1 BASE_STATE_VAR_RE (strip_comments scaffold)"

definition redeclaration_hint :: "string \<Rightarrow> string" where
  "redeclaration_hint block =
     (case unique_names (findall1 BASE_STATE_VAR_RE block) of
        [name] \<Rightarrow>
          (let loc = (case find (\<lambda>p. \<not> py_in POC_SUBDIR p) (findall1 SRC_PTR_RE block) of
                        Some (c # p) \<Rightarrow> '' (in `'' @ (c # p) @ ''`)'' | _ \<Rightarrow> [])
           in ''`'' @ name @ ''` is ALREADY declared by the test base you inherit'' @ loc @ '' - do not redeclare '' @
              ''it. Delete your own `'' @ name @ ''` declaration and use the inherited one (the base'' @ [CHR 0x27] @ ''s '' @
              ''setUp already deployed it). If you genuinely need a separate variable, rename '' @
              ''yours instead - the two declarations may have different types.'')
      | _ \<Rightarrow> ''An identifier is already declared in a contract you inherit - do NOT redeclare '' @
             ''inherited state. Remove your duplicate declaration and use the inherited one, '' @
             ''or rename yours to a non-colliding name.'')"

definition nested_hints :: "symbol_index option \<Rightarrow> string \<Rightarrow> string list" where
  "nested_hints idx forge_output =
     (case idx of
        None \<Rightarrow> []
      | Some ix \<Rightarrow>
          List.map_filter (\<lambda>d. case nested_container ix d of
              Some (c # cs) \<Rightarrow>
                (let container = c # cs in
                 Some (''`'' @ d @ ''` is a NESTED type declared inside `'' @ container @ ''` - remove any '' @
                       ''`import { '' @ d @ '' } from ...;`, import `'' @ container @ ''`, and reference it '' @
                       ''as `'' @ container @ ''.'' @ d @ ''` everywhere.''))
            | _ \<Rightarrow> None)
          (findall1 (rseq [rlit (''Declaration '' @ [CHR 0x22]), RGrp 1 rword1, rlit ([CHR 0x22] @ '' not found'')]) forge_output))"

definition MEMBER_RE :: regex where
  "MEMBER_RE =
     rseq [rlit (''Member '' @ [CHR 0x22]), RGrp 1 rword1, rlit ([CHR 0x22] @ '' not found''), RStar False (RChr (\<lambda>c. c \<noteq> CHR ''.'')),
           rlit ''in contract '', RGrp 2 rword1]"

definition member_hint :: "string \<Rightarrow> string \<Rightarrow> string \<times> string \<Rightarrow> string" where
  "member_hint scaffold callable_api mc =
     (case mc of (member, contract) \<Rightarrow>
        if member \<in> set (base_state_vars scaffold)
        then ''`'' @ member @ ''` is NOT a member of `'' @ contract @ ''` - it is the test base'' @ [CHR 0x27] @ ''s OWN state '' @
             ''variable, already declared and deployed by the base you inherit. Drop the '' @
             ''`'' @ contract @ ''.` qualifier and reference `'' @ member @ ''` directly.''
        else if sigs_for callable_api contract \<noteq> []
        then ''`'' @ contract @ ''` has NO member `'' @ member @ ''`. Use only its real functions:'' @ nl @ sigs_for callable_api contract
        else ''`'' @ contract @ ''` has no member `'' @ member @ ''` - use a real function from [callable_api].'')"

definition SOURCE_RE :: regex where
  "SOURCE_RE =
     rseq [rlit (''Source '' @ [CHR 0x22]), RGrp 1 (RSeq (rplus (RChr (\<lambda>c. c \<noteq> CHR 0x22))) (rlit ''.sol'')), rlit ([CHR 0x22] @ '' not found'')]"

definition source_hint :: "string \<Rightarrow> string \<Rightarrow> string" where
  "source_hint file_map src =
     (let name = path_stem src; path = path_for file_map name in
      if path \<noteq> [] then ''Import `'' @ name @ ''` from the real path `'' @ path @ ''`''
      else if py_in ''_synth/'' (py_replace [CHR 0x5C] ''/'' src)
      then ''`'' @ name @ ''` is a synthesized base under audit/poc/_synth/ - import it as '' @
           ''`./_synth/'' @ name @ ''.sol` (a bare `_synth/...` path resolves from the project '' @
           ''root and will not be found).''
      else ''`'' @ name @ ''` is not a real file - use a name from [project_files], not an invented one.'')"

definition inventory_names :: "inventory \<Rightarrow> string list" where
  "inventory_names iy = map iv_name (in_vars iy) @ map ih_name (in_lifecycle iy @ in_callable iy)"

definition undefined_hint :: "inventory option \<Rightarrow> string \<Rightarrow> string" where
  "undefined_hint inventory forge_output =
     (case inventory of
        None \<Rightarrow> ''An identifier is undefined: use only names from [project_files] + the base'' @ [CHR 0x27] @ ''s state '' @
                ''variables, and IMPORT every type you reference (imports are not inherited from the base).''
      | Some iy \<Rightarrow>
          (let undeclared = findall1 (rseq [rlit [CHR 0x22], RGrp 1 rword1, rlit [CHR 0x22]]) forge_output;
               hits = filter (\<lambda>n. n \<in> set (inventory_names iy)) (unique_names undeclared);
               exact = (if hits = [] then []
                        else '' Exact match(es) already on the inherited base: '' @ py_join '', '' (map (\<lambda>n. ''`'' @ n @ ''`'') hits) @ ''.'')
           in ''An identifier is undefined: the inherited base ALREADY exposes a concrete '' @
              ''symbol list - do NOT invent parallel names.'' @ exact @
              '' Use names from [project_files] + the base inventory below; IMPORT every '' @
              ''type you reference (imports are not inherited from the base).'' @ nl @
              ''[scaffold_api excerpt]'' @ nl @ hint_excerpt iy))"

definition ADDR_IFACE_RE :: regex where
  "ADDR_IFACE_RE = RSeq (rlit ''conversion from address to contract '') (RGrp 1 rword1)"

definition address_hint :: "string \<Rightarrow> string" where
  "address_hint typ =
     ''A call passes a bare `address` where type `'' @ typ @ ''` is required - wrap the argument as '' @
     ''`'' @ typ @ ''(address(x))` (or pass the already-typed variable), don'' @ [CHR 0x27] @ ''t pass a bare address.''"

record hint_sources =
  hs_callable :: string
  hs_file_map :: string
  hs_index :: "symbol_index option"
  hs_scaffold :: string
  hs_inventory :: "inventory option"

definition targeted_hints :: "hint_sources \<Rightarrow> string \<Rightarrow> string \<Rightarrow> string" where
  "targeted_hints hs forge_output code =
     py_join nl (unique_names
       (line_level_hints forge_output code (hs_callable hs) @
        nested_hints (hs_index hs) forge_output @
        map (\<lambda>m. member_hint (hs_scaffold hs) (hs_callable hs) (m_group forge_output 1 m, m_group forge_output 2 m)) (re_finditer MEMBER_RE forge_output) @
        map (source_hint (hs_file_map hs)) (findall1 SOURCE_RE forge_output) @
        (if py_in ''Wrong argument count'' forge_output
         then [''A call has the wrong number of arguments - match a signature in [callable_api] exactly.''] else []) @
        (if py_in ''Identifier not found'' forge_output then [undefined_hint (hs_inventory hs) forge_output] else []) @
        map redeclaration_hint (findall1 REDECLARED_RE forge_output) @
        map address_hint (findall1 ADDR_IFACE_RE forge_output)))"

section \<open>Reverts\<close>

definition fail_mark :: regex where
  "fail_mark = RSeq (rlit ''[FAIL'') (RChr (\<lambda>c. c = CHR '':'' \<or> c = CHR ''.''))"

definition FAIL_LINE_RE :: regex where "FAIL_LINE_RE = RSeq fail_mark (RStar True noeol)"

definition TRACE_EXCERPT_BUDGET :: nat where "TRACE_EXCERPT_BUDGET = 2500"

definition TRACE_BLOCK_END_RE :: regex where
  "TRACE_BLOCK_END_RE =
     RSeq rws0 (ralts [rlit ''[PASS]'', fail_mark, rlit ''Suite result:'', rseq [rlit ''Ran '', rdigit1, rlit '' test''], rlit ''Compiling '', rlit ''Warning ''])"

definition opens_block :: "string \<Rightarrow> bool" where "opens_block line = (re_match_start FAIL_LINE_RE (py_strip line) \<noteq> None)"

definition in_block :: "string \<Rightarrow> bool" where "in_block line = (re_match_start TRACE_BLOCK_END_RE line = None)"

function trace_blocks :: "string list \<Rightarrow> string list" where
  "trace_blocks [] = []"
| "trace_blocks (l # ls) =
     (if opens_block l
      then let block = py_rstrip (py_join nl (l # takeWhile in_block ls)) in
           (if py_in ''Traces:'' block \<or> py_in ''Backtrace:'' block then [block] else []) @ trace_blocks (dropWhile in_block ls)
      else trace_blocks ls)"
  by pat_completeness auto
termination by (relation "measure length") (auto simp: le_imp_less_Suc length_dropWhile_le)

text \<open>\<open>s[-n:]\<close>; with zero it is the whole text.\<close>

definition py_tail :: "nat \<Rightarrow> string \<Rightarrow> string" where
  "py_tail n s = (if n = 0 then s else drop (length s - n) s)"

definition first_line :: "string \<Rightarrow> string" where "first_line s = takeWhile (\<lambda>c. c \<noteq> CHR 0x0A) s"

definition trace_excerpt :: "string \<Rightarrow> nat \<Rightarrow> string" where
  "trace_excerpt out budget =
     (let blocks = trace_blocks (py_splitlines out); excerpt = py_join (nl @ nl) blocks; head_line = first_line excerpt in
      if blocks = [] then []
      else if length excerpt \<le> budget then excerpt
      else head_line @ nl @ u_ellipsis @ nl @ py_tail (budget - length head_line - 5) excerpt)"

definition hex_lit :: regex where "hex_lit = RSeq (rlit ''0x'') (rplus (RChr hex_char))"

definition ALLOWANCE_REVERT_RE :: regex where
  "ALLOWANCE_REVERT_RE =
     rseq [rlit ''ERC20InsufficientAllowance('', RGrp 1 hex_lit, rlit '','', rws0, rdigit1, rlit '','', rws0, RGrp 2 rdigit1]"

definition allowance_hint :: "string \<times> string \<Rightarrow> string" where
  "allowance_hint sn =
     (case sn of (spender, needed) \<Rightarrow>
        ''REVERT `ERC20InsufficientAllowance`: a token transfer needs approval FIRST. The '' @
        ''account that owns the tokens must approve spender `'' @ spender @ ''` for at least '' @ needed @ '' '' @
        ''BEFORE the failing call - add, before that call: `vm.prank(<the account being '' @
        ''debited>); IERC20(<the token being pulled>).approve('' @ spender @ '', type(uint256).max);`. '' @
        ''The token is usually the vault'' @ [CHR 0x27] @ ''s asset or share token; the owner is the account '' @
        ''doing the redeem/deposit.'')"

definition setup_revert_hints :: "string \<Rightarrow> string" where
  "setup_revert_hints blob =
     py_join nl (unique_names (map (\<lambda>m. allowance_hint (m_group blob 1 m, m_group blob 2 m)) (re_finditer ALLOWANCE_REVERT_RE blob)))"

definition revert_hints :: "string \<Rightarrow> string \<Rightarrow> string \<Rightarrow> string \<Rightarrow> string" where
  "revert_hints out err title description =
     (let blob = out @ nl @ err; fails = map (m_span blob) (re_finditer FAIL_LINE_RE blob) in
      if fails = [] then []
      else let setup = setup_revert_hints blob; tr = trace_excerpt out TRACE_EXCERPT_BUDGET;
               note = (if tr = [] then []
                       else ''EXECUTION TRACE of the failing test (forge -vvv - the call path to the revert/assert; '' @
                            ''read it to see WHICH call blocked the exploit and with what value):'' @ nl @ tr);
               generic = ''The test compiled and ran, but did NOT pass - this is an EXPLOIT-LOGIC problem, '' @
                         ''not a compile error:'' @ nl @ take 800 (py_join nl (unique_names fails)) @
                         nl @ nl @ ''Re-read the finding and fix the SEQUENCE/PRECONDITIONS, not just syntax:'' @ nl @
                         ''Title: '' @ title @ nl @ ''Description: '' @ description @ nl @
                         ''Common causes: wrong order of calls, a precondition never actually set up '' @
                         ''(e.g. a required state/role/balance not established before the exploit step), '' @
                         ''asserting the wrong condition, or expecting a revert that the real code doesn'' @ [CHR 0x27] @ ''t '' @
                         ''produce at that call (check which call in the sequence should actually revert).'';
               core = (if note \<noteq> [] then note @ nl @ nl @ generic else generic)
           in if setup \<noteq> [] then setup @ nl @ nl @ core else core)"

section \<open>Facts\<close>

text \<open>A test has no defects exactly if its code outside comments asserts something, declares no target again, and
  inherits a base or imports a target, if there are targets.\<close>

lemma no_defects_iff:
  "poc_defects code stems used = [] \<longleftrightarrow>
     re_search ASSERT_RE (strip_comments code) \<noteq> None \<and>
     (\<forall>stem \<in> set stems. re_search (mock_re stem) (strip_comments code) = None) \<and>
     (stems = [] \<or> (used \<and> re_search INHERITS_RE (strip_comments code) \<noteq> None) \<or> imports_target stems (strip_comments code))"
  by (auto simp: poc_defects_def Let_def filter_empty_conv)

lemma mechanism_called: "set (snd (mechanism_signal code location description)) \<subseteq> set (fst (mechanism_signal code location description))"
  by (auto simp: mechanism_signal_def Let_def)

definition full_excerpt :: "string \<Rightarrow> string" where
  "full_excerpt out = py_join (nl @ nl) (trace_blocks (py_splitlines out))"

text \<open>An excerpt of a trace keeps its budget exactly if the whole fits or the first line leaves room for some
  of the end: otherwise an empty end is written, as \<open>s[-0:]\<close>, which is the whole text.\<close>

lemma trace_excerpt_budget:
  "length (trace_excerpt out budget) \<le> budget \<longleftrightarrow>
     trace_blocks (py_splitlines out) = [] \<or> length (full_excerpt out) \<le> budget \<or> length (first_line (full_excerpt out)) + 5 < budget"
proof -
  define e where "e = full_excerpt out"
  have eq: "trace_excerpt out budget =
      (if trace_blocks (py_splitlines out) = [] then [] else if length e \<le> budget then e
       else first_line e @ nl @ u_ellipsis @ nl @ py_tail (budget - length (first_line e) - 5) e)"
    by (simp only: trace_excerpt_def e_def full_excerpt_def Let_def)
  have f: "length (first_line e) \<le> length e" by (simp add: first_line_def length_takeWhile_le)
  show ?thesis unfolding eq e_def [symmetric] using f by (auto simp: py_tail_def nl_def u_ellipsis_def)
qed

lemma split_text_nonempty: "split_text sep s \<noteq> []"
  by (subst split_text.simps) (auto split: option.splits)

end
