(* ===== verification/Queue_Synthesis.thy ===== *)
theory Queue_Synthesis
  imports Queue_Replies
begin

text \<open>
  The synthesis of a test base that deploys what a finding needs (\<open>scripts/poc_queue_runner.py\<close>, \<open>synthesize_scaffold\<close>): an
  earlier base is used again if it still provides the types, otherwise the model writes one, which is compiled below a
  minimal test, repaired by the deterministic fixers for a bounded number of rounds, and promoted only if it
  compiles. Writing, removing and moving a file and running forge act on the world and are recorded in the trace of
  effects.

  The lemmas: an attempt that does not end in an exception closes with exactly one closing event, unless a base is used
  again; where no run compiles, nothing is written into the directory of accepted bases; a run is started at most once a round.
\<close>

section \<open>The world of the runner\<close>

record 'w runner_env =
  ru_draft :: "'w draft_env"
  ru_project :: string
  ru_run_id :: string                                    \<comment> \<open>of this run, a fresh one if none was given\<close>
  ru_write :: "string \<Rightarrow> string \<Rightarrow> 'w \<Rightarrow> 'w"
  ru_remove :: "string \<Rightarrow> 'w \<Rightarrow> 'w"
  ru_move :: "string \<Rightarrow> string \<Rightarrow> 'w \<Rightarrow> bool \<times> 'w"      \<comment> \<open>whether the file system allowed it\<close>
  ru_run :: "sandbox_call \<Rightarrow> 'w \<Rightarrow> test_result py \<times> 'w"
  ru_settings :: sandbox_settings
  ru_index_source :: "string \<Rightarrow> symbol_index py"

definition act_get :: "('w \<Rightarrow> 'a) \<Rightarrow> ('w, 'a) action" where "act_get f = (\<lambda>w. (f w, w, []))"

definition act_try :: "'a py \<Rightarrow> ('a \<Rightarrow> ('w, 'b py) action) \<Rightarrow> ('w, 'b py) action" where
  "act_try r k = (case r of Inl e \<Rightarrow> act_return (Inl e) | Inr x \<Rightarrow> k x)"

definition act_write :: "('w, 'z) runner_env_scheme \<Rightarrow> string \<Rightarrow> string \<Rightarrow> ('w, unit) action" where
  "act_write env path txt = (\<lambda>w. ((), ru_write env path txt w, [Wrote path txt]))"

definition act_remove :: "('w, 'z) runner_env_scheme \<Rightarrow> string \<Rightarrow> ('w, unit) action" where
  "act_remove env path = (\<lambda>w. ((), ru_remove env path w, [Removed path]))"

definition act_move_or_remove :: "('w, 'z) runner_env_scheme \<Rightarrow> string \<Rightarrow> string \<Rightarrow> ('w, unit) action" where
  "act_move_or_remove env p q =
     (\<lambda>w. let (moved, w1) = ru_move env p q w in
            if moved then ((), w1, [Moved p q]) else ((), ru_remove env p w1, [Removed p]))"

definition tree_at :: "('w, 'z) runner_env_scheme \<Rightarrow> 'w \<Rightarrow> project_tree" where
  "tree_at env w = de_tree (ru_draft env) w"

definition files_at :: "('w, 'z) runner_env_scheme \<Rightarrow> 'w \<Rightarrow> project_files" where
  "files_at env w = project_files.truncate (tree_at env w)"

definition idx_of :: "('w, 'z) runner_env_scheme \<Rightarrow> symbol_index option" where
  "idx_of env = de_index (ru_draft env)"

definition poc_root :: "('w, 'z) runner_env_scheme \<Rightarrow> string" where "poc_root env = ru_project env @ ''/'' @ POC_SUBDIR"

definition SYNTH_SUBDIR :: string where "SYNTH_SUBDIR = ''audit/poc/_synth''"
definition SYNTH_REPAIR_ROUNDS :: nat where "SYNTH_REPAIR_ROUNDS = 3"

definition live_dir :: "('w, 'z) runner_env_scheme \<Rightarrow> string" where "live_dir env = ru_project env @ ''/'' @ SYNTH_SUBDIR"
definition attempt_dir :: "('w, 'z) runner_env_scheme \<Rightarrow> string" where "attempt_dir env = poc_root env @ ''/_runs/'' @ ru_run_id env"

section \<open>The prompt\<close>

definition proof_task_of :: "finding_task \<Rightarrow> proof_task" where
  "proof_task_of t = [(''id'', tk_id t), (''title'', tk_title t), (''location'', tk_location t), (''description'', tk_description t),
     (''finding_class'', tk_class t)]"

definition read_reachability :: "project_tree \<Rightarrow> string \<Rightarrow> string py" where
  "read_reachability pt loc = read_location_source pt loc IMPORT_DEPTH REACHABILITY_SOURCE_BUDGET None"

text \<open>The parent whose source is read; a failure to read it is not caught.\<close>

definition resolved_parent :: "inventory option \<Rightarrow> string list \<Rightarrow> (string \<Rightarrow> string py) \<Rightarrow> proof_task \<Rightarrow> parent_resolution py" where
  "resolved_parent inventory missing rd task =
     (let pr = resolve_parent inventory missing (\<lambda>t. case rd t of Inl _ \<Rightarrow> [] | Inr s \<Rightarrow> s) task in
      case (pr_status pr, pr_contract pr) of
        (Resolved, Some ty) \<Rightarrow> bindE (rd ty) (\<lambda>_. Inr pr)
      | _ \<Rightarrow> Inr pr)"

definition want_name :: "finding_task \<Rightarrow> string" where "want_name task = ''SynthBase_'' @ ident (tk_id task)"

definition synth_prompt ::
  "('w, 'z) runner_env_scheme \<Rightarrow> finding_task \<Rightarrow> string list \<Rightarrow> string \<Rightarrow> inventory option \<Rightarrow> 'w \<Rightarrow> (string \<times> pattern_match list) py" where
  "synth_prompt env task missing existing inventory w =
     (let pt = tree_at env w; pk = proof_task_of task; joined = py_join '' '' missing in
      bindE (read_location_source pt joined IMPORT_DEPTH SOURCE_CHAR_BUDGET (Some PRIMARY_CHAR_CAP)) (\<lambda>source.
      bindE (read_location_source pt (tk_location task) 1 (if existing \<noteq> [] then 12000 else SOURCE_CHAR_BUDGET) (Some PRIMARY_CHAR_CAP)) (\<lambda>location_source.
      bindE (resolved_parent inventory missing (read_reachability pt) pk) (\<lambda>parent.
      bindE (read_reachability pt joined) (\<lambda>miss.
        let matches = detect_patterns pk location_source parent miss existing in
        Inr (de_prompt (ru_draft env) ''poc-synth-scaffold''
               [(''missing'', py_join '', '' missing), (''source'', source), (''existing'', none_text existing), (''name'', want_name task)] @
             synthesis_extras matches location_source parent pk, matches))))))"

section \<open>The rounds\<close>

definition CONTRACT_NAME_RE :: regex where
  "CONTRACT_NAME_RE = rseq [RWordB, ropt (RSeq (rlit ''abstract'') rws1), rlit ''contract'', rws1, RGrp 1 rident]"

record synth_job =
  sj_fid :: string
  sj_name :: string
  sj_missing :: "string list"
  sj_matches :: "pattern_match list"
  sj_existing :: string
  sj_file_map :: string

definition candidate_path :: "('w, 'z) runner_env_scheme \<Rightarrow> synth_job \<Rightarrow> string" where
  "candidate_path env job = attempt_dir env @ ''/'' @ sj_name job @ ''.sol''"

definition live_path :: "('w, 'z) runner_env_scheme \<Rightarrow> synth_job \<Rightarrow> string" where
  "live_path env job = live_dir env @ ''/'' @ sj_name job @ ''.sol''"

definition smoke_path :: "('w, 'z) runner_env_scheme \<Rightarrow> string" where "smoke_path env = poc_root env @ ''/_synth_smoke.t.sol''"

definition smoke_test :: "('w, 'z) runner_env_scheme \<Rightarrow> synth_job \<Rightarrow> string" where
  "smoke_test env job =
     ''// SPDX-License-Identifier: MIT'' @ nl @ ''pragma solidity ^0.8.28;'' @ nl @
     ''import { '' @ sj_name job @ '' } from '' @ [CHR 0x22] @ ''./'' @ relpath (candidate_path env job) (poc_root env) @ [CHR 0x22] @ '';'' @ nl @
     ''contract _SynthSmoke is '' @ sj_name job @ '' { function test_compiles() public {} }'' @ nl"

definition test_options :: "sandbox_settings \<Rightarrow> string \<Rightarrow> bool \<Rightarrow> run_options" where
  "test_options rs rel trace =
     default_options\<lparr>ro_test_path := Some rel, ro_foundry_test_dir := Some POC_SUBDIR, ro_fork_rpc := rn_fork_rpc rs, ro_trace := trace,
       ro_image := (if set_str (rn_image rs) then the (rn_image rs) else FOUNDRY_IMAGE)\<rparr>"

definition act_test :: "('w, 'z) runner_env_scheme \<Rightarrow> string \<Rightarrow> bool \<Rightarrow> ('w, test_result py) action" where
  "act_test env rel trace = (\<lambda>w. let (r, w1) = ru_run env (test_call (ru_project env) (test_options (ru_settings env) rel trace)) w in (r, w1, [Tested rel r]))"

definition blob_of :: "test_result \<Rightarrow> string" where "blob_of t = te_stdout t @ nl @ te_stderr t"

definition import_lines :: "string \<Rightarrow> json" where
  "import_lines code = JList (take 12 (map (\<lambda>l. JStr (py_strip l)) (filter (\<lambda>l. py_startswith (py_lstrip l) ''import'') (py_splitlines code))))"

definition fixers_json :: "fixer_result list \<Rightarrow> json" where
  "fixers_json rs = JList (map (\<lambda>r. JObj [(''name'', JStr (fr_name r)), (''matched'', JBool (fr_matched r)), (''applied'', JBool (fr_applied r))]) rs)"

definition wiring_event :: "string \<Rightarrow> json_obj \<Rightarrow> json_obj" where
  "wiring_event fid place = event_of ''scaffold_wiring_receiver_fix'' fid (place @ [(''applied'', JBool True)])"

datatype synth_end = Synth_infra py_exc | Synth_built nat string | Synth_failed "string option" string

text \<open>Nothing was left to repair: an environment's failure keeps its own cause.\<close>

definition give_up :: "synth_job \<Rightarrow> nat \<Rightarrow> string \<Rightarrow> string \<Rightarrow> fixer_result list \<Rightarrow> string option \<times> json_obj" where
  "give_up job rnd blob code results =
     (let build_cause = classify_build_failure blob;
          event = (\<lambda>name cause. event_of name (sj_fid job)
            [(''round'', JInt (int rnd)), (''fixers'', fixers_json results), (''cause'', JStr cause), (''imports'', import_lines code)])
      in if build_cause \<in> {''no_build:toolchain'', ''no_build:path'', ''no_build:infra''}
         then (None, event ''scaffold_repair_stopped'' build_cause)
         else let cause = (if list_ex (\<lambda>r. fr_matched r \<and> \<not> fr_applied r) results
                           then ''repair_exhausted:resolvable'' else ''repair_exhausted:unresolvable'')
              in (Some cause, event ''scaffold_repair_exhausted'' cause))"

definition repair_code ::
  "('w, 'z) runner_env_scheme \<Rightarrow> synth_job \<Rightarrow> nat \<Rightarrow> string \<Rightarrow> string \<Rightarrow> 'w \<Rightarrow> (string \<times> string list \<times> fixer_result list) \<times> json_obj list" where
  "repair_code env job rnd blob code w =
     (let (c1, results) = seq_synth_repair (files_at env w) (attempt_dir env) (idx_of env) (sj_file_map job) (sj_existing job) blob code;
          (c2, wr) = fix_wiring_receivers c1 (sj_matches job) (sj_missing job) (idx_of env)
      in ((c2, applied_names results @ (if wr then [''wiring_receiver''] else []), results),
          if wr then [wiring_event (sj_fid job) [(''stage'', JStr ''repair''), (''round'', JInt (int rnd))]] else []))"

definition repair_round ::
  "('w, 'z) runner_env_scheme \<Rightarrow> synth_job \<Rightarrow> nat \<Rightarrow> string \<Rightarrow> (string \<Rightarrow> ('w, synth_end) action) \<Rightarrow> string \<Rightarrow> ('w, synth_end) action" where
  "repair_round env job rnd blob again code =
     act_bind (act_get (repair_code env job rnd blob code)) (\<lambda>((code1, applied, results), es).
     act_bind (act_log es) (\<lambda>_.
       if applied = []
       then (let (cause, ev) = give_up job rnd blob code1 results in act_bind (act_log [ev]) (\<lambda>_. act_return (Synth_failed cause blob)))
       else act_bind (act_log [event_of ''scaffold_repair'' (sj_fid job)
                [(''round'', JInt (int rnd)), (''fixes'', JList (map JStr applied))]]) (\<lambda>_. again code1)))"

fun synth_rounds :: "('w, 'z) runner_env_scheme \<Rightarrow> synth_job \<Rightarrow> nat \<Rightarrow> nat \<Rightarrow> string \<Rightarrow> string \<Rightarrow> ('w, synth_end) action" where
  "synth_rounds env job rnd 0 blob code = act_return (Synth_failed None blob)"
| "synth_rounds env job rnd (Suc left) blob code =
     act_bind (act_write env (candidate_path env job) code) (\<lambda>_.
     act_bind (act_test env (POC_SUBDIR @ ''/_synth_smoke.t.sol'') False) (\<lambda>r.
       case r of
         Inl e \<Rightarrow> act_return (Synth_infra e)
       | Inr test \<Rightarrow>
           (if compiled_signal (te_stdout test) (te_stderr test) then act_return (Synth_built rnd code)
            else repair_round env job rnd (blob_of test) (\<lambda>code1. synth_rounds env job (rnd + 1) left (blob_of test) code1) code)))"

section \<open>The end of an attempt\<close>

definition synth_closing :: "string \<Rightarrow> string \<Rightarrow> json_obj" where
  "synth_closing cause sig = terminal_fields ''synthesis_attempt'' cause (Some 1) sig"

definition synth_failed_event :: "string \<Rightarrow> string \<Rightarrow> json_obj \<Rightarrow> string \<Rightarrow> string \<Rightarrow> json_obj" where
  "synth_failed_event fid reason rest cause sig =
     event_of ''scaffold_synthesis_failed'' fid ((''reason'', JStr reason) # rest @ synth_closing cause sig)"

definition promoted_event :: "('w, 'z) runner_env_scheme \<Rightarrow> synth_job \<Rightarrow> nat \<Rightarrow> reachability_check list \<Rightarrow> json_obj" where
  "promoted_event env job rnd checks =
     event_of ''scaffold_synthesized'' (sj_fid job)
       ([(''path'', JStr (SYNTH_SUBDIR @ ''/'' @ sj_name job @ ''.sol'')),
         (''attempt_path'', JStr (POC_SUBDIR @ ''/_runs/'' @ ru_run_id env @ ''/'' @ sj_name job @ ''.sol'')),
         (''missing_types'', JList (map JStr (sj_missing job))), (''repair_rounds'', JInt (int rnd - 1))] @
        synth_closing ''synthesized'' [] @
        (if checks = [] then [] else [(''reachability_checks'', JList (reachability_checks_to_json checks))]))"

definition term_cause :: "string option \<Rightarrow> string \<Rightarrow> string" where
  "term_cause exhausted blob = (case exhausted of Some c \<Rightarrow> c | None \<Rightarrow> classify_build_failure blob)"

type_synonym synth_result = "(string \<times> reachability_check list) option"

definition synth_finish :: "('w, 'z) runner_env_scheme \<Rightarrow> synth_job \<Rightarrow> synth_end \<Rightarrow> ('w, synth_result) action" where
  "synth_finish env job en =
     (let fid = sj_fid job; cand = candidate_path env job in
      case en of
        Synth_infra e \<Rightarrow>
          act_bind (act_log [synth_failed_event fid ''infra'' [(''error'', JStr (take 200 (exc_msg e)))] ''no_build:infra'' []]) (\<lambda>_.
          act_bind (act_remove env cand) (\<lambda>_. act_return None))
      | Synth_built rnd code \<Rightarrow>
          act_bind (act_get (\<lambda>w. fst (seq_synth_prewrite (files_at env w) (live_dir env) code))) (\<lambda>live_code.
          act_bind (act_write env (live_path env job) live_code) (\<lambda>_.
            let checks = check_reachability (sj_matches job) live_code in
            act_bind (act_log [promoted_event env job rnd checks]) (\<lambda>_. act_return (Some (live_path env job, checks)))))
      | Synth_failed exhausted blob \<Rightarrow>
          act_bind (act_log [synth_failed_event fid (if exhausted \<noteq> None then ''repair_exhausted'' else ''no_build'')
              [(''stderr_tail'', JStr (py_tail 600 blob)), (''rejected_base'', JStr (POC_SUBDIR @ ''/_runs/'' @ ru_run_id env @ ''/'' @ sj_name job @ ''.sol.rejected''))]
              (term_cause exhausted blob) (py_tail 600 blob)]) (\<lambda>_.
          act_bind (act_move_or_remove env cand (cand @ ''.rejected'')) (\<lambda>_. act_return None)))"

text \<open>From the model's code on: the rewritten candidate, the smoke test, the rounds, and the smoke test removed at the end.\<close>

definition prewritten :: "('w, 'z) runner_env_scheme \<Rightarrow> synth_job \<Rightarrow> string \<Rightarrow> 'w \<Rightarrow> string \<times> bool" where
  "prewritten env job code w =
     fix_wiring_receivers (fst (seq_synth_prewrite (files_at env w) (attempt_dir env) code)) (sj_matches job) (sj_missing job) (idx_of env)"

definition build_candidate :: "('w, 'z) runner_env_scheme \<Rightarrow> synth_job \<Rightarrow> string \<Rightarrow> ('w, synth_result) action" where
  "build_candidate env job code =
     act_bind (act_get (prewritten env job code)) (\<lambda>(code1, wr0).
     act_bind (act_log (if wr0 then [wiring_event (sj_fid job) [(''stage'', JStr ''prewrite'')]] else [])) (\<lambda>_.
     act_bind (act_write env (smoke_path env) (smoke_test env job)) (\<lambda>_.
     act_bind (synth_rounds env job 1 SYNTH_REPAIR_ROUNDS [] code1) (\<lambda>en.
     act_bind (synth_finish env job en) (\<lambda>r.
     act_bind (act_remove env (smoke_path env)) (\<lambda>_. act_return r))))))"

definition synth_reply ::
  "('w, 'z) runner_env_scheme \<Rightarrow> finding_task \<Rightarrow> string list \<Rightarrow> string \<Rightarrow> string \<Rightarrow> pattern_match list \<Rightarrow> string py \<Rightarrow> ('w, synth_result py) action" where
  "synth_reply env task missing existing file_map matches reply =
     (case reply of
        Inl e \<Rightarrow>
          (if model_error e
           then act_bind (act_log [synth_failed_event (tk_id task) ''no_output'' [(''error'', JStr (take 200 (exc_msg e)))] ''no_output:crash'' []])
                  (\<lambda>_. act_return (Inr None))
           else act_return (Inl e))
      | Inr raw \<Rightarrow>
          (let code = extract_solidity raw in
           case re_search CONTRACT_NAME_RE code of
             Some m \<Rightarrow>
               (if py_in ''pragma'' code
                then act_bind (build_candidate env \<lparr>sj_fid = tk_id task, sj_name = m_group code 1 m, sj_missing = missing, sj_matches = matches,
                                 sj_existing = existing, sj_file_map = file_map\<rparr> code) (\<lambda>r. act_return (Inr r))
                else act_bind (act_log [synth_failed_event (tk_id task) ''no_output'' [] ''no_output:model'' []]) (\<lambda>_. act_return (Inr None)))
           | None \<Rightarrow> act_bind (act_log [synth_failed_event (tk_id task) ''no_output'' [] ''no_output:model'' []]) (\<lambda>_. act_return (Inr None))))"

text \<open>An earlier base that still provides the types.\<close>

definition reusable_base :: "('w, 'z) runner_env_scheme \<Rightarrow> finding_task \<Rightarrow> string list \<Rightarrow> 'w \<Rightarrow> string option py" where
  "reusable_base env task missing w =
     (let p = live_dir env @ ''/'' @ want_name task @ ''.sol''; pt = tree_at env w in
      if \<not> pt_file pt p then Inr None
      else bindE (pt_text pt p) (\<lambda>t. bindE (scaffold_missing_types (ru_index_source env) t missing (idx_of env)) (\<lambda>still.
        Inr (if still = [] then Some p else None))))"

definition synthesize_scaffold ::
  "('w, 'z) runner_env_scheme \<Rightarrow> finding_task \<Rightarrow> string list \<Rightarrow> string \<Rightarrow> string \<Rightarrow> inventory option \<Rightarrow> ('w, synth_result py) action" where
  "synthesize_scaffold env task missing existing file_map inventory =
     act_bind (act_get (reusable_base env task missing)) (\<lambda>found.
     act_try found (\<lambda>live.
       case live of
         Some p \<Rightarrow>
           act_bind (act_log [event_of ''scaffold_reused'' (tk_id task)
             [(''path'', JStr (SYNTH_SUBDIR @ ''/'' @ want_name task @ ''.sol'')), (''missing_types'', JList (map JStr missing))]])
             (\<lambda>_. act_return (Inr (Some (p, []))))
       | None \<Rightarrow>
           act_bind (act_get (synth_prompt env task missing existing inventory)) (\<lambda>pm.
           act_try pm (\<lambda>(prompt, matches).
             act_bind (act_quiet (mc_generate (de_client (ru_draft env)) prompt))
               (synth_reply env task missing existing file_map matches)))))"

section \<open>Rules\<close>

lemma spec_bind_get: "(\<And>x. act_spec (k x) Q) \<Longrightarrow> act_spec (act_bind (act_get f) k) Q"
  by (simp add: act_spec_def act_bind_def act_get_def Let_def case_prod_beta)

lemma bind_get_at: "act_bind (act_get f) k w = k (f w) w"
  by (simp add: act_bind_def act_get_def)

lemma spec_bind_get_at: "(\<And>w. act_spec (k (f w)) Q) \<Longrightarrow> act_spec (act_bind (act_get f) k) Q"
  by (simp add: act_spec_def act_bind_def act_get_def Let_def case_prod_beta)

lemma spec_bind_write [act_rules]:
  "act_spec (act_bind (act_write env p t) k) Q \<longleftrightarrow> act_spec (\<lambda>w. k () (ru_write env p t w)) (\<lambda>y fx. Q y (Wrote p t # fx))"
  by (simp add: act_spec_def act_bind_def act_write_def Let_def case_prod_beta)

lemma spec_any_world: "act_spec m Q \<Longrightarrow> act_spec (\<lambda>w. m (f w)) Q"
  by (simp add: act_spec_def)

lemma spec_bind_write': "act_spec (k ()) (\<lambda>y fx. Q y (Wrote p t # fx)) \<Longrightarrow> act_spec (act_bind (act_write env p t) k) Q"
  by (simp add: act_rules spec_any_world)

lemma spec_bind_remove: "act_spec (k ()) (\<lambda>y fx. Q y (Removed p # fx)) \<Longrightarrow> act_spec (act_bind (act_remove env p) k) Q"
  by (simp add: act_spec_def act_bind_def act_remove_def Let_def case_prod_beta)

lemma spec_bind_test: "(\<And>r. act_spec (k r) (\<lambda>y fx. Q y (Tested rel r # fx))) \<Longrightarrow> act_spec (act_bind (act_test env rel trace) k) Q"
  by (simp add: act_spec_def act_bind_def act_test_def Let_def case_prod_beta)

lemma spec_bind_quiet: "(\<And>x. act_spec (k x) Q) \<Longrightarrow> act_spec (act_bind (act_quiet f) k) Q"
  by (simp add: act_spec_def act_bind_def act_quiet_def Let_def case_prod_beta)

lemma spec_bind_move:
  "act_spec (k ()) (\<lambda>y fx. Q y (Moved p q # fx)) \<Longrightarrow> act_spec (k ()) (\<lambda>y fx. Q y (Removed p # fx)) \<Longrightarrow>
   act_spec (act_bind (act_move_or_remove env p q) k) Q"
  by (simp add: act_spec_def act_bind_def act_move_or_remove_def Let_def case_prod_beta)

lemma spec_try: "(\<And>e. r = Inl e \<Longrightarrow> Q (Inl e) []) \<Longrightarrow> (\<And>x. r = Inr x \<Longrightarrow> act_spec (k x) Q) \<Longrightarrow> act_spec (act_try r k) Q"
  by (simp add: act_try_def act_rules split: sum.split)

lemmas spec_steps = spec_bind_get spec_bind_write' spec_bind_remove spec_bind_test spec_bind_quiet spec_try

section \<open>Closing events\<close>

definition closes :: "string \<Rightarrow> effect \<Rightarrow> bool" where
  "closes level e = (case e of Logged ev \<Rightarrow> dict_get ev ''terminal'' = Some (JBool True) \<and> dict_get ev ''level'' = Some (JStr level) | _ \<Rightarrow> False)"

definition closings :: "string \<Rightarrow> effect list \<Rightarrow> nat" where
  "closings level fx = length (filter (closes level) fx)"

lemma closings_simps [simp]:
  "closings l [] = 0" "closings l (fx @ gx) = closings l fx + closings l gx"
  "closings l (e # fx) = (if closes l e then 1 else 0) + closings l fx"
  by (simp_all add: closings_def)

lemma closes_simps [simp]:
  "\<not> closes l (Wrote p t)" "\<not> closes l (Removed p)" "\<not> closes l (Moved p q)" "\<not> closes l (Tested p r)" "\<not> closes l (Tested_fixed p r)"
  by (simp_all add: closes_def)

text \<open>An event whose fields do not say \<open>terminal\<close> closes nothing.\<close>

lemma plain_event_closes_nothing: "''terminal'' \<notin> fst ` set rest \<Longrightarrow> \<not> closes l (Logged (event_of name fid rest))"
  by (auto simp: closes_def event_of_def map_of_eq_None_iff [THEN iffD2] split: if_splits)

lemma terminal_event_closes:
  assumes "''terminal'' \<notin> fst ` set front" "''level'' \<notin> fst ` set front"
  shows "closes l (Logged (event_of name fid (front @ terminal_fields level cause n sig @ back))) \<longleftrightarrow> l = level"
proof -
  have "map_of (front @ terminal_fields level cause n sig @ back) ''terminal'' = Some (JBool True)"
       "map_of (front @ terminal_fields level cause n sig @ back) ''level'' = Some (JStr level)"
    using assms by (simp_all add: terminal_fields_def map_of_append map_add_def map_of_eq_None_iff [THEN iffD2])
  then show ?thesis by (auto simp: closes_def event_of_def)
qed

section \<open>An attempt closes once, and only what compiles is promoted\<close>

definition touches_live :: "('w, 'z) runner_env_scheme \<Rightarrow> effect \<Rightarrow> bool" where
  "touches_live env e =
     (case e of
        Wrote p _ \<Rightarrow> below (live_dir env) p | Removed p \<Rightarrow> below (live_dir env) p
      | Moved p q \<Rightarrow> below (live_dir env) p \<or> below (live_dir env) q | _ \<Rightarrow> False)"

lemma touches_live_simps [simp]:
  "touches_live env (Wrote p t) = below (live_dir env) p" "touches_live env (Removed p) = below (live_dir env) p"
  "touches_live env (Moved p q) = (below (live_dir env) p \<or> below (live_dir env) q)"
  "\<not> touches_live env (Logged ev)" "\<not> touches_live env (Tested rel r)" "\<not> touches_live env (Tested_fixed rel r)"
  by (simp_all add: touches_live_def)

lemma startswith_append [simp]: "py_startswith (s @ a) (s @ b) = py_startswith a b"
  by (simp add: py_startswith_def)

lemma not_below_live [simp]:
  "\<not> below (live_dir env) (candidate_path env job)" "\<not> below (live_dir env) (candidate_path env job @ ''.rejected'')"
  "\<not> below (live_dir env) (smoke_path env)"
  by (simp_all add: below_def live_dir_def candidate_path_def attempt_dir_def poc_root_def smoke_path_def SYNTH_SUBDIR_def POC_SUBDIR_def)
    (simp_all add: py_startswith_def)

lemma below_live [simp]: "below (live_dir env) (live_path env job)"
  by (simp add: below_def live_path_def) (simp add: py_startswith_def)

definition silent :: "('w, 'z) runner_env_scheme \<Rightarrow> effect list \<Rightarrow> bool" where
  "silent env fx \<longleftrightarrow> (\<forall>l. closings l fx = 0) \<and> filter (touches_live env) fx = []"

lemma silent_simps [simp]:
  "silent env []" "silent env (fx @ gx) \<longleftrightarrow> silent env fx \<and> silent env gx"
  "silent env (e # fx) \<longleftrightarrow> (\<forall>l. \<not> closes l e) \<and> \<not> touches_live env e \<and> silent env fx"
  by (auto simp: silent_def filter_empty_conv)

definition smoke_rel :: string where "smoke_rel = POC_SUBDIR @ ''/_synth_smoke.t.sol''"

definition runs_of :: "effect list \<Rightarrow> nat" where
  "runs_of fx = length (filter (\<lambda>e. case e of Tested _ _ \<Rightarrow> True | _ \<Rightarrow> False) fx)"

lemma runs_of_simps [simp]:
  "runs_of [] = 0" "runs_of (fx @ gx) = runs_of fx + runs_of gx"
  "runs_of (Tested p r # fx) = Suc (runs_of fx)" "runs_of (Logged ev # fx) = runs_of fx" "runs_of (Wrote p t # fx) = runs_of fx"
  "runs_of (map Logged es) = 0"
  by (simp_all add: runs_of_def filter_empty_conv)

definition rounds_ok :: "('w, 'z) runner_env_scheme \<Rightarrow> nat \<Rightarrow> synth_end \<Rightarrow> effect list \<Rightarrow> bool" where
  "rounds_ok env left en fx \<longleftrightarrow> silent env fx \<and> runs_of fx \<le> left \<and>
     (case en of Synth_built rnd code \<Rightarrow> \<exists>pre t. fx = pre @ [Tested smoke_rel (Inr t)] \<and> builds t | _ \<Rightarrow> True)"

lemma rounds_ok_cons:
  "rounds_ok env left en fx \<Longrightarrow> silent env gx \<Longrightarrow> runs_of gx \<le> 1 \<Longrightarrow> rounds_ok env (Suc left) en (gx @ fx)"
  by (auto simp: rounds_ok_def split: synth_end.splits)

lemma give_up_silent: "give_up job rnd blob code results = (cause, ev) \<Longrightarrow> silent env [Logged ev]"
  by (auto simp: give_up_def Let_def plain_event_closes_nothing split: if_splits)

lemma repair_code_silent: "silent env (map Logged (snd (repair_code env job rnd blob code w)))"
  by (simp add: repair_code_def case_prod_beta wiring_event_def plain_event_closes_nothing)

lemma repair_round_spec:
  assumes "\<And>code1. act_spec (again code1) (rounds_ok env left)"
  shows "act_spec (repair_round env job rnd blob again code) (\<lambda>en fx. \<exists>gx hx. fx = gx @ hx \<and> silent env gx \<and> runs_of gx = 0 \<and> rounds_ok env left en hx)"
  unfolding repair_round_def
proof (rule spec_bind_get_at)
  fix w
  obtain code1 applied results es where r: "repair_code env job rnd blob code w = ((code1, applied, results), es)" by (metis prod.exhaust)
  have s: "silent env (map Logged es)" using repair_code_silent [of env job rnd blob code w] r by simp
  let ?Q = "\<lambda>en fx. \<exists>gx hx. fx = gx @ hx \<and> silent env gx \<and> runs_of gx = 0 \<and> rounds_ok env left en hx"
  let ?ev = "event_of ''scaffold_repair'' (sj_fid job) [(''round'', JInt (int rnd)), (''fixes'', JList (map JStr applied))]"
  obtain cause ev where g: "give_up job rnd blob code1 results = (cause, ev)" by force
  have "?Q (Synth_failed cause blob) (map Logged es @ [Logged ev])"
    using s give_up_silent [OF g, of env] by (intro exI [of _ "map Logged es @ [Logged ev]"] exI [of _ "[]"]) (simp add: rounds_ok_def)
  moreover have "act_spec (again code1) (\<lambda>en fx. ?Q en (map Logged es @ Logged ?ev # fx))"
  proof (rule spec_weaken [OF assms])
    fix en fx assume "rounds_ok env left en fx"
    with s show "?Q en (map Logged es @ Logged ?ev # fx)"
      by (intro exI [of _ "map Logged es @ [Logged ?ev]"] exI [of _ fx]) (simp add: plain_event_closes_nothing)
  qed
  ultimately show "act_spec ((\<lambda>((code1, applied, results), es). act_bind (act_log es) (\<lambda>_.
       if applied = []
       then (let (cause, ev) = give_up job rnd blob code1 results in act_bind (act_log [ev]) (\<lambda>_. act_return (Synth_failed cause blob)))
       else act_bind (act_log [event_of ''scaffold_repair'' (sj_fid job)
                [(''round'', JInt (int rnd)), (''fixes'', JList (map JStr applied))]]) (\<lambda>_. again code1)))
      (repair_code env job rnd blob code w)) ?Q"
    by (cases "applied = []") (simp_all add: r g act_rules)
qed

lemma synth_rounds_spec: "act_spec (synth_rounds env job rnd left blob code) (rounds_ok env left)"
proof (induction left arbitrary: rnd blob code)
  case 0
  then show ?case by (simp add: act_rules rounds_ok_def)
next
  case (Suc left)
  show ?case unfolding synth_rounds.simps
  proof (rule spec_bind_write', rule spec_bind_test)
    fix r :: "test_result py"
    let ?gx = "[Wrote (candidate_path env job) code, Tested (POC_SUBDIR @ ''/_synth_smoke.t.sol'') r]"
    show "act_spec (case r of Inl e \<Rightarrow> act_return (Synth_infra e)
        | Inr test \<Rightarrow> (if compiled_signal (te_stdout test) (te_stderr test) then act_return (Synth_built rnd code)
            else repair_round env job rnd (blob_of test) (\<lambda>code1. synth_rounds env job (rnd + 1) left (blob_of test) code1) code))
        (\<lambda>y fx. rounds_ok env (Suc left) y
           (Wrote (candidate_path env job) code # Tested (POC_SUBDIR @ ''/_synth_smoke.t.sol'') r # fx))"
    proof (cases r)
      case (Inl e)
      then show ?thesis by (simp add: act_rules rounds_ok_def)
    next
      case (Inr test)
      show ?thesis
      proof (cases "builds test")
        case True
        then have "rounds_ok env (Suc left) (Synth_built rnd code) ?gx"
          using Inr by (simp add: rounds_ok_def smoke_rel_def)
        with True Inr show ?thesis by (simp add: act_rules builds_def)
      next
        case False
        have "act_spec (repair_round env job rnd (blob_of test) (\<lambda>code1. synth_rounds env job (rnd + 1) left (blob_of test) code1) code)
            (\<lambda>y fx. rounds_ok env (Suc left) y (?gx @ fx))"
        proof (rule spec_weaken [OF repair_round_spec [OF Suc.IH]])
          fix en fx
          assume "\<exists>gx hx. fx = gx @ hx \<and> silent env gx \<and> runs_of gx = 0 \<and> rounds_ok env left en hx"
          then obtain gx hx where g: "fx = gx @ hx" "silent env gx" "runs_of gx = 0" "rounds_ok env left en hx" by blast
          have "silent env (?gx @ gx)" "runs_of (?gx @ gx) \<le> 1" using g(2,3) by simp_all
          from rounds_ok_cons [OF g(4) this] show "rounds_ok env (Suc left) en (?gx @ fx)" by (simp add: g(1))
        qed
        with False Inr show ?thesis by (simp add: builds_def)
      qed
    qed
  qed
qed

definition one_attempt :: "effect list \<Rightarrow> bool" where
  "one_attempt fx \<longleftrightarrow> (\<forall>l. closings l fx = (if l = ''synthesis_attempt'' then 1 else 0))"

definition built_first :: "('w, 'z) runner_env_scheme \<Rightarrow> string \<Rightarrow> effect list \<Rightarrow> bool" where
  "built_first env p fx \<longleftrightarrow>
     (\<exists>pre t c post. fx = pre @ Tested smoke_rel (Inr t) # Wrote p c # post \<and> builds t \<and> filter (touches_live env) (pre @ post) = [])"

definition attempt_ok :: "('w, 'z) runner_env_scheme \<Rightarrow> synth_result \<Rightarrow> effect list \<Rightarrow> bool" where
  "attempt_ok env r fx \<longleftrightarrow> one_attempt fx \<and> runs_of fx \<le> SYNTH_REPAIR_ROUNDS \<and>
     (case r of None \<Rightarrow> filter (touches_live env) fx = [] | Some (p, _) \<Rightarrow> built_first env p fx)"

lemma runs_of_moves [simp]: "runs_of (Removed p # fx) = runs_of fx" "runs_of (Moved p q # fx) = runs_of fx"
  by (simp_all add: runs_of_def)

lemma failed_event_closes [simp]:
  "reason \<noteq> [] \<Longrightarrow> ''terminal'' \<notin> fst ` set rest \<Longrightarrow> ''level'' \<notin> fst ` set rest \<Longrightarrow>
   closes l (Logged (synth_failed_event fid reason rest cause sig)) \<longleftrightarrow> l = ''synthesis_attempt''"
  using terminal_event_closes [of "(''reason'', JStr reason) # rest" l _ fid _ cause "Some 1" sig "[]"]
  by (simp add: synth_failed_event_def synth_closing_def)

lemma promoted_event_closes [simp]: "closes l (Logged (promoted_event env job rnd checks)) \<longleftrightarrow> l = ''synthesis_attempt''"
  unfolding promoted_event_def synth_closing_def by (rule terminal_event_closes) simp_all

definition finish_ok :: "('w, 'z) runner_env_scheme \<Rightarrow> synth_job \<Rightarrow> synth_end \<Rightarrow> synth_result \<Rightarrow> effect list \<Rightarrow> bool" where
  "finish_ok env job en r fx \<longleftrightarrow> one_attempt fx \<and> runs_of fx = 0 \<and>
     (case en of
        Synth_built rnd code \<Rightarrow> (\<exists>c checks post. r = Some (live_path env job, checks) \<and> fx = Wrote (live_path env job) c # post \<and>
          filter (touches_live env) post = [])
      | _ \<Rightarrow> r = None \<and> filter (touches_live env) fx = [])"

lemma synth_finish_spec: "act_spec (synth_finish env job en) (finish_ok env job en)"
proof (cases en)
  case (Synth_infra e)
  have "finish_ok env job en None [Logged (synth_failed_event fid ''infra'' [(''error'', x)] ''no_build:infra'' []), Removed (candidate_path env job)]" for fid x
    by (simp add: finish_ok_def one_attempt_def Synth_infra)
  then show ?thesis
    by (simp add: synth_finish_def Synth_infra act_rules) (rule spec_bind_remove, simp add: act_rules)
next
  case (Synth_built rnd code)
  have "finish_ok env job en (Some (live_path env job, checks)) [Wrote (live_path env job) c, Logged (promoted_event env job rnd checks)]" for checks c
    by (simp add: finish_ok_def one_attempt_def Synth_built)
  then show ?thesis
    unfolding synth_finish_def Let_def Synth_built synth_end.case
    by (intro spec_bind_get spec_bind_write') (simp add: act_rules)
next
  case (Synth_failed ex blob)
  let ?c = "candidate_path env job"
  have "act_spec (act_bind (act_move_or_remove env ?c (?c @ ''.rejected'')) (\<lambda>_. act_return None))
      (\<lambda>y fx. finish_ok env job (Synth_failed ex blob) y (Logged (synth_failed_event fid (if b then ''repair_exhausted'' else ''no_build'')
         [(''stderr_tail'', x), (''rejected_base'', z)] cause sig) # fx))" for fid x z cause sig b ex
    by (rule spec_bind_move) (simp_all add: act_rules finish_ok_def one_attempt_def)
  from this [where b = True] this [where b = False] show ?thesis
    by (simp add: synth_finish_def Synth_failed act_rules Let_def)
qed

lemma build_candidate_spec: "act_spec (build_candidate env job code) (attempt_ok env)"
  unfolding build_candidate_def
proof (rule spec_bind_get_at)
  fix w
  obtain code1 wr0 where p: "prewritten env job code w = (code1, wr0)" by force
  let ?es = "if wr0 then [wiring_event (sj_fid job) [(''stage'', JStr ''prewrite'')]] else []"
  have es: "silent env (map Logged ?es)" by (simp add: wiring_event_def plain_event_closes_nothing)
  have "act_spec (act_bind (synth_rounds env job 1 SYNTH_REPAIR_ROUNDS [] code1) (\<lambda>en.
          act_bind (synth_finish env job en) (\<lambda>r. act_bind (act_remove env (smoke_path env)) (\<lambda>_. act_return r))))
        (\<lambda>r fx. attempt_ok env r ((map Logged ?es @ [Wrote (smoke_path env) (smoke_test env job)]) @ fx))"
  proof (rule spec_bind [OF synth_rounds_spec])
    fix en fx assume f: "rounds_ok env SYNTH_REPAIR_ROUNDS en fx"
    show "act_spec (act_bind (synth_finish env job en) (\<lambda>r. act_bind (act_remove env (smoke_path env)) (\<lambda>_. act_return r)))
        (\<lambda>r gx. attempt_ok env r ((map Logged ?es @ [Wrote (smoke_path env) (smoke_test env job)]) @ fx @ gx))"
    proof (rule spec_bind [OF synth_finish_spec])
      fix r gx assume g: "finish_ok env job en r gx"
      let ?all = "(map Logged ?es @ [Wrote (smoke_path env) (smoke_test env job)]) @ fx @ gx @ [Removed (smoke_path env)]"
      have "attempt_ok env r ?all"
      proof (cases en)
        case (Synth_built rnd code')
        from f Synth_built obtain pre t where pre: "fx = pre @ [Tested smoke_rel (Inr t)]" "builds t" by (auto simp: rounds_ok_def)
        from g Synth_built obtain c checks post where post: "r = Some (live_path env job, checks)" "gx = Wrote (live_path env job) c # post"
          "filter (touches_live env) post = []" by (auto simp: finish_ok_def)
        have "built_first env (live_path env job) ?all" unfolding built_first_def
          using pre post f es
          by (intro exI [of _ "map Logged ?es @ [Wrote (smoke_path env) (smoke_test env job)] @ pre"] exI [of _ t] exI [of _ c]
              exI [of _ "post @ [Removed (smoke_path env)]"]) (simp add: rounds_ok_def silent_def)
        with f g es post show ?thesis by (simp add: attempt_ok_def rounds_ok_def finish_ok_def one_attempt_def silent_def)
      qed (use f g es in \<open>simp_all add: attempt_ok_def rounds_ok_def finish_ok_def one_attempt_def silent_def\<close>)
      then show "act_spec (act_bind (act_remove env (smoke_path env)) (\<lambda>_. act_return r))
          (\<lambda>r hx. attempt_ok env r ((map Logged ?es @ [Wrote (smoke_path env) (smoke_test env job)]) @ fx @ gx @ hx))"
        by (intro spec_bind_remove) (simp add: act_rules)
    qed
  qed
  then show "act_spec ((\<lambda>(code1, wr0).
     act_bind (act_log (if wr0 then [wiring_event (sj_fid job) [(''stage'', JStr ''prewrite'')]] else [])) (\<lambda>_.
     act_bind (act_write env (smoke_path env) (smoke_test env job)) (\<lambda>_.
     act_bind (synth_rounds env job 1 SYNTH_REPAIR_ROUNDS [] code1) (\<lambda>en.
     act_bind (synth_finish env job en) (\<lambda>r.
     act_bind (act_remove env (smoke_path env)) (\<lambda>_. act_return r)))))) (prewritten env job code w)) (attempt_ok env)"
    by (simp add: p act_rules spec_any_world)
qed

definition reply_ok :: "('w, 'z) runner_env_scheme \<Rightarrow> synth_result py \<Rightarrow> effect list \<Rightarrow> bool" where
  "reply_ok env r fx = (case r of Inl e \<Rightarrow> fx = [] | Inr x \<Rightarrow> attempt_ok env x fx)"

lemma no_output_ok: "reply_ok env (Inr None) [Logged (synth_failed_event fid ''no_output'' [(''error'', x)] cause sig)]"
  "reply_ok env (Inr None) [Logged (synth_failed_event fid ''no_output'' [] cause sig)]"
  by (simp_all add: reply_ok_def attempt_ok_def one_attempt_def)

lemma synth_reply_spec: "act_spec (synth_reply env task missing existing file_map matches reply) (reply_ok env)"
proof -
  have b: "act_spec (act_bind (build_candidate env job code) (\<lambda>r. act_return (Inr r))) (reply_ok env)" for job code
    by (rule spec_bind [OF build_candidate_spec]) (simp add: act_rules reply_ok_def)
  have n: "reply_ok env (Inl e) []" for e by (simp add: reply_ok_def)
  show ?thesis by (simp add: synth_reply_def Let_def act_rules no_output_ok b n split: sum.split option.split)
qed

lemma synthesize_fresh_spec:
  "act_spec (act_bind (act_get (synth_prompt env task missing existing inventory)) (\<lambda>pm.
       act_try pm (\<lambda>(prompt, matches).
         act_bind (act_quiet (mc_generate (de_client (ru_draft env)) prompt))
           (synth_reply env task missing existing file_map matches)))) (reply_ok env)"
proof (rule spec_bind_get, rule spec_try)
  fix pm :: "(string \<times> pattern_match list) py" and x
  assume "pm = Inr x"
  show "act_spec ((\<lambda>(prompt, matches). act_bind (act_quiet (mc_generate (de_client (ru_draft env)) prompt))
         (synth_reply env task missing existing file_map matches)) x) (reply_ok env)"
    by (cases x) (simp, rule spec_bind_quiet, rule synth_reply_spec)
qed (simp add: reply_ok_def)

text \<open>C11: A synthesis that raises has recorded nothing and written nothing; one that returns without a base has recorded
  exactly one closing event, on the level of a synthesis and never on that of a finding, and has left the directory of
  accepted bases alone; one that returns a base either found it there, already providing the types, or wrote it
  immediately after a run of the smoke test that compiled, which is its only access to that directory, and closed the
  attempt once. At most three runs are started.\<close>

theorem synthesis_closed:
  "case synthesize_scaffold env task missing existing file_map inventory w of (r, w', fx) \<Rightarrow>
     runs_of fx \<le> 3 \<and>
     (case r of
        Inl e \<Rightarrow> fx = []
      | Inr None \<Rightarrow> closings l fx = (if l = ''synthesis_attempt'' then 1 else 0) \<and> filter (touches_live env) fx = []
      | Inr (Some (p, checks)) \<Rightarrow>
          (if reusable_base env task missing w = Inr (Some p) then closings l fx = 0 \<and> filter (touches_live env) fx = [] \<and> w' = w
           else closings l fx = (if l = ''synthesis_attempt'' then 1 else 0) \<and>
             (\<exists>pre t c post. fx = pre @ Tested smoke_rel (Inr t) # Wrote p c # post \<and> builds t \<and>
                filter (touches_live env) (pre @ post) = [])))"
proof -
  note fresh = synthesize_fresh_spec [of env task missing existing inventory file_map]
  show ?thesis
  proof (cases "reusable_base env task missing w")
    case (Inl e)
    then show ?thesis by (simp add: synthesize_scaffold_def act_bind_def act_get_def act_try_def act_return_def)
  next
    case (Inr live)
    show ?thesis
    proof (cases live)
      case (Some p)
      with Inr show ?thesis
        by (simp add: synthesize_scaffold_def act_bind_def act_get_def act_try_def act_return_def act_log_def plain_event_closes_nothing)
    next
      case None
      let ?m = "act_bind (act_get (synth_prompt env task missing existing inventory)) (\<lambda>pm.
       act_try pm (\<lambda>(prompt, matches).
         act_bind (act_quiet (mc_generate (de_client (ru_draft env)) prompt))
           (synth_reply env task missing existing file_map matches)))"
      obtain r w' fx where m: "?m w = (r, w', fx)" by (metis prod.exhaust)
      have eq: "synthesize_scaffold env task missing existing file_map inventory w = (r, w', fx)"
        unfolding synthesize_scaffold_def bind_get_at [where f = "reusable_base env task missing"]
        using Inr None m by (simp add: act_try_def)
      from spec_at [OF fresh m] Inr None show ?thesis unfolding eq
        by (cases r) (auto simp: reply_ok_def attempt_ok_def one_attempt_def built_first_def SYNTH_REPAIR_ROUNDS_def split: option.splits)
    qed
  qed
qed

end
