(* ===== verification/Queue_Closing.thy ===== *)
theory Queue_Closing
  imports Queue_Runner
begin

text \<open>
  How findings are closed by the queue of \<open>scripts/poc_queue_runner.py\<close>: rules for what holds of every effect of an action and
  for the number of its runs, which follow the way the action is built; the trace of the exploit loop; each
  finding that is processed is closed by exactly one event with the cause of its outcome, and the queue closes its
  findings in order and each once, those the time limit skipped included.
\<close>

section \<open>Rules\<close>

text \<open>What holds of every effect, and how many runs there are at most: both follow the way an action is built.\<close>

definition always :: "(effect \<Rightarrow> bool) \<Rightarrow> ('w, 'a) action \<Rightarrow> bool" where
  "always P m = act_spec m (\<lambda>_. list_all P)"

definition runs_within :: "nat \<Rightarrow> ('w, 'a) action \<Rightarrow> bool" where
  "runs_within n m = act_spec m (\<lambda>_ fx. runs_of fx \<le> n)"

named_theorems always_intros
named_theorems within_intros

lemma always_bind [always_intros]: "always P m \<Longrightarrow> (\<And>x. always P (k x)) \<Longrightarrow> always P (act_bind m k)"
  unfolding always_def by (rule spec_bind) (auto elim: spec_weaken)

lemma always_return [always_intros]: "always P (act_return x)"
  by (simp add: always_def act_rules)

lemma always_get [always_intros]: "always P (act_get f)"
  by (simp add: always_def act_spec_def act_get_def)

lemma always_quiet [always_intros]: "always P (act_quiet f)"
  unfolding always_def by (rule spec_quiet) simp

lemma always_log [always_intros]: "list_all (\<lambda>e. P (Logged e)) es \<Longrightarrow> always P (act_log es)"
  by (simp add: always_def act_spec_def act_log_def list_all_iff)

lemma always_try [always_intros]: "(\<And>x. r = Inr x \<Longrightarrow> always P (k x)) \<Longrightarrow> always P (act_try r k)"
  unfolding always_def by (rule spec_try) simp_all

lemma always_write [always_intros]: "P (Wrote p t) \<Longrightarrow> always P (act_write env p t)"
  by (simp add: always_def act_spec_def act_write_def)

lemma always_test [always_intros]: "(\<And>r. P (Tested rel r)) \<Longrightarrow> always P (act_test env rel trace)"
  by (simp add: always_def act_spec_def act_test_def Let_def case_prod_beta)

lemma always_move [always_intros]: "P (Moved p q) \<Longrightarrow> always P (act_move env p q)"
  by (simp add: always_def act_spec_def act_move_def Let_def case_prod_beta)

lemma within_bind: "runs_within n m \<Longrightarrow> (\<And>x. runs_within k (f x)) \<Longrightarrow> runs_within (n + k) (act_bind m f)"
  unfolding runs_within_def by (erule spec_bind) (auto simp: act_spec_def intro: add_mono)

lemma within_mono: "runs_within n m \<Longrightarrow> n \<le> k \<Longrightarrow> runs_within k m"
  unfolding runs_within_def by (erule spec_weaken) simp

text \<open>An action that starts no run, and one run.\<close>

lemma within_silent [within_intros]: "runs_within 0 m \<Longrightarrow> (\<And>x. runs_within k (f x)) \<Longrightarrow> runs_within k (act_bind m f)"
  using within_bind [of 0 m k f] by simp

lemma runs_none: "runs_of fx = 0 \<longleftrightarrow> list_all (\<lambda>e. \<forall>p r. e \<noteq> Tested p r) fx"
  by (induction fx) (auto simp: runs_of_def split: effect.splits)

lemma within_always: "always (\<lambda>e. \<forall>p r. e \<noteq> Tested p r) m \<Longrightarrow> runs_within 0 m"
  by (simp add: always_def runs_within_def runs_none)

lemma within_return [within_intros]: "runs_within n (act_return x)"
  by (simp add: runs_within_def act_rules)

lemma within_test: "runs_within 1 (act_test env rel trace)"
  by (simp add: runs_within_def act_spec_def act_test_def Let_def case_prod_beta)

lemma within_run: "(\<And>x. runs_within k (f x)) \<Longrightarrow> runs_within (Suc k) (act_bind (act_test env rel trace) f)"
  using within_bind [OF within_test, of k f] by simp

lemma within_try [within_intros]: "(\<And>x. r = Inr x \<Longrightarrow> runs_within n (k x)) \<Longrightarrow> runs_within n (act_try r k)"
  unfolding runs_within_def by (rule spec_try) simp_all

section \<open>Events that close nothing\<close>

abbreviation open_effect :: "effect \<Rightarrow> bool" where "open_effect e \<equiv> \<not> closes ''finding_attempt'' e"

lemma plain_open [simp]: "''terminal'' \<notin> fst ` set rest \<Longrightarrow> open_effect (Logged (event_of name fid rest))"
  by (rule plain_event_closes_nothing)

lemma unterminated_open: "dict_get ev ''terminal'' = None \<Longrightarrow> open_effect (Logged ev)"
  by (simp add: closes_def)

lemma attempt_event_open [simp]: "''terminal'' \<notin> fst ` set rest \<Longrightarrow> open_effect (Logged (attempt_event name fid n rest))"
  by (simp add: attempt_event_def)

lemma poc_relative: "relative_to (poc_file env fid) (ru_project env) = Inr (poc_rel fid)"
  by (simp add: relative_to_def below_def poc_file_def poc_rel_def poc_path_def poc_root_def) (simp add: py_startswith_def)

lemma put_poc_eq: "put_poc env fid code = act_bind (act_write env (poc_file env fid) code) (\<lambda>_. act_return (Inr (poc_rel fid)))"
  using poc_relative [of env fid] by (simp add: put_poc_def write_poc_def bindE_def poc_file_def)

lemma put_poc_then: "act_bind (put_poc env fid code) (\<lambda>r. act_try r k) = act_bind (act_write env (poc_file env fid) code) (\<lambda>_. k (poc_rel fid))"
  by (simp add: put_poc_eq act_try_def act_bind_def act_return_def act_write_def fun_eq_iff Let_def case_prod_beta)

lemma always_put_poc [always_intros]: "P (Wrote (poc_file env fid) code) \<Longrightarrow> always P (put_poc env fid code)"
  unfolding put_poc_eq by (intro always_intros)

lemma spec_open_synth: "act_spec m (\<lambda>_ fx. closings ''finding_attempt'' fx = 0) \<longleftrightarrow> always open_effect m"
  by (simp add: always_def act_spec_def closings_def filter_empty_conv list_all_iff)

lemma lookup_event_open [simp]: "open_effect (Logged (lookup_event fid n s))" "open_effect (Logged (retry_event fid stage n e))"
  by (simp_all add: lookup_event_def retry_event_def)

lemma always_round [always_intros]: "(\<And>s. P (Logged (lookup_event fid n s))) \<Longrightarrow> always P (logged_round fid n f)"
  by (simp add: always_def act_spec_def logged_round_def Let_def case_prod_beta list_all_iff)

lemma always_retry [always_intros]:
  "always P m \<Longrightarrow> (\<And>n x. P (Logged (retry_event fid stage n x))) \<Longrightarrow> always P (call_with_retry m stage fid limit)"
  unfolding always_def by (rule spec_retry)

lemma always_lesson [always_intros]:
  assumes "\<And>name rest. ''terminal'' \<notin> fst ` set rest \<Longrightarrow> P (Logged (event_of name fid rest))"
  shows "always P (maybe_capture_lesson store fid n li)"
proof -
  have "list_all P (snd (snd (maybe_capture_lesson store fid n li w)))" for w
    using assms by (simp add: maybe_capture_lesson_def act_return_def split: option.split sum.split prod.split)
  then show ?thesis by (simp add: always_def act_spec_def)
qed

lemma synthesize_spec:
  "act_spec (synthesize_scaffold env task missing existing file_map inventory) (\<lambda>_ fx. runs_of fx \<le> 3 \<and> closings ''finding_attempt'' fx = 0)"
  (is "act_spec _ ?Q")
proof -
  have "?Q r fx" if "reply_ok env r fx" for r :: "synth_result py" and fx
    using that by (auto simp: reply_ok_def attempt_ok_def one_attempt_def SYNTH_REPAIR_ROUNDS_def split: sum.splits)
  note fresh = spec_weaken [OF synthesize_fresh_spec this]
  show ?thesis unfolding synthesize_scaffold_def
    apply (rule spec_bind_get, rule spec_try)
     apply simp
    subgoal for found live by (cases live) (simp_all add: fresh act_rules)
    done
qed

lemma always_synthesize [always_intros]: "always open_effect (synthesize_scaffold env task missing existing file_map inventory)"
  unfolding spec_open_synth [symmetric] by (rule spec_weaken [OF synthesize_spec]) simp

lemma within_synthesize: "runs_within 3 (synthesize_scaffold env task missing existing file_map inventory)"
  unfolding runs_within_def by (rule spec_weaken [OF synthesize_spec]) simp

lemma always_get_at: "(\<And>w. always P (k (f w))) \<Longrightarrow> always P (act_bind (act_get f) k)"
  unfolding always_def by (rule spec_bind_get_at)

lemma inventory_result_open: "inventory_result fid r = (x, es) \<Longrightarrow> list_all (\<lambda>e. open_effect (Logged e)) es"
  by (auto simp: inventory_result_def partial_event_def split: option.splits if_splits)

lemma always_refresh [always_intros]: "always open_effect (refresh_scaffold_inventory env fid paths)"
  unfolding refresh_scaffold_inventory_def
  apply (rule always_get_at, rule always_try)
  subgoal for w x by (cases x) (auto simp: bindE_def inventory_result_open split: sum.splits intro!: always_intros)
  done

lemma always_load [always_intros]: "always open_effect (load_base env fid paths)"
  unfolding load_base_def by (intro always_intros)

definition plain_event :: "string \<Rightarrow> json_obj \<Rightarrow> bool" where
  "plain_event fid ev \<longleftrightarrow> (\<exists>name rest. ev = event_of name fid rest \<and> ''terminal'' \<notin> fst ` set rest)"

lemma plain_eventI: "''terminal'' \<notin> fst ` set rest \<Longrightarrow> plain_event fid (event_of name fid rest)"
  by (auto simp: plain_event_def)

lemma resolve_fix_plain: "resolve_fix rd task = (x, es) \<Longrightarrow> list_all (plain_event (tk_id task)) es"
  by (auto simp: resolve_fix_def plain_eventI split: if_splits sum.splits)

lemma judge_patched_plain: "judge_patched fid r = (s, es) \<Longrightarrow> list_all (plain_event fid) es"
  by (auto simp: judge_patched_def unavailable_event_def plain_eventI split: sum.splits if_splits)

definition falsification_ok :: "string \<Rightarrow> string \<Rightarrow> verify_status \<Rightarrow> effect list \<Rightarrow> bool" where
  "falsification_ok fid rel s fx \<longleftrightarrow>
     list_all (\<lambda>e. (\<exists>ev. e = Logged ev \<and> plain_event fid ev) \<or> (\<exists>r. e = Tested_fixed rel r)) fx \<and>
     (s = Verified_fix \<longrightarrow> (\<exists>t. Tested_fixed rel (Inr t) \<in> set fx \<and> builds t \<and> \<not> te_passed t))"

lemma mutation_spec: "act_spec (mutation_verify ve project files task rel rs) (falsification_ok (tk_id task) rel)"
proof -
  have "falsification_ok (tk_id task) rel s fx" if m: "mutation_verify ve project files task rel rs w = (s, w', fx)" for s w w' fx
  proof -
    obtain fix0 why es where r: "resolve_fix (ve_read ve) task = ((fix0, why), es)" by (metis prod.exhaust)
    note es = resolve_fix_plain [OF r]
    show ?thesis
    proof (cases "fix0 = None \<or> git_apply ve (copy_project files) (the fix0) = None")
      case True
      then show ?thesis using m es
        by (cases fix0) (auto simp: mutation_verify_def Let_def r falsification_ok_def unavailable_event_def list_all_iff plain_eventI)
    next
      case False
      then obtain patch patched where p: "fix0 = Some patch" "git_apply ve (copy_project files) patch = Some patched" by auto
      obtain x w1 where x: "ve_run ve (isolate_poc_compile_scope (ve_real ve) rel patched)
          (test_call (ve_copy_dir ve w) (patched_options ve project rs rel)) w = (x, w1)" by force
      obtain s1 es1 where j: "judge_patched (tk_id task) x = (s1, es1)" by force
      have "s = s1" "fx = map Logged es @ [Tested_fixed rel x] @ map Logged es1"
        using m by (simp_all add: mutation_verify_def r p x j)
      moreover have "\<exists>t. x = Inr t \<and> builds t \<and> \<not> te_passed t" if "s1 = Verified_fix"
        using judge_patched_status [of "tk_id task" x] that by (simp add: j split: sum.splits if_splits)
      ultimately show ?thesis using es judge_patched_plain [OF j] by (auto simp: falsification_ok_def list_all_iff)
    qed
  qed
  then show ?thesis unfolding act_spec_def by (metis prod.collapse)
qed

lemma always_mutation [always_intros]: "always open_effect (mutation_verify ve project files task rel rs)"
  unfolding always_def
  by (rule spec_weaken [OF mutation_spec]) (auto simp: falsification_ok_def plain_event_def list_all_iff)

lemma always_det [always_intros]:
  "(\<And>name rest. ''terminal'' \<notin> fst ` set rest \<Longrightarrow> P (Logged (event_of name (tk_id (fc_task fc)) rest))) \<Longrightarrow>
   (\<And>c. P (Wrote (poc_file env (tk_id (fc_task fc))) c)) \<Longrightarrow> (\<And>rel r. P (Tested rel r)) \<Longrightarrow> always P (det_repair env fc n left code test)"
proof (induction left arbitrary: code test)
  case (Suc left)
  show ?case
    by (auto simp: Let_def Suc.prems Suc.IH [OF Suc.prems] split: prod.split sum.split intro!: always_intros)
qed (simp add: always_intros)

lemma run_failed_open: "run_failed fid n e = (outcome, ev) \<Longrightarrow> open_effect (Logged ev)"
  by (auto simp: run_failed_def split: if_splits)

lemma always_write_and_run [always_intros]: "always open_effect (write_and_run env fc n code)"
  unfolding write_and_run_def Let_def
  by (auto split: sum.split prod.split intro!: always_intros simp: run_failed_open)

lemma always_adopt [always_intros]: "always open_effect (adopt env fid v lo)"
  unfolding adopt_def Let_def
  by (auto split: option.split intro!: always_intros simp: tested_event_def refusal_event_def Let_def unterminated_open)

lemma always_postmodel [always_intros]: "always open_effect (postmodel env fc s code)"
  unfolding postmodel_def by (auto intro!: always_intros split: prod.split simp: list_all_iff)

lemma always_next_code [always_intros]: "always open_effect (next_code env fc n code err)"
  unfolding next_code_def Let_def by (auto split: sum.split intro!: always_intros)

lemma always_conclude [always_intros]: "always open_effect (conclude env fc v)"
  unfolding conclude_def Let_def by (auto intro!: always_intros)

lemma note_open:
  "list_all (\<lambda>e. open_effect (Logged e)) (snd (observed_note fid v))" "list_all (\<lambda>e. open_effect (Logged e)) (hint_events fid n hints revert)"
  "list_all (\<lambda>e. open_effect (Logged e)) (snd (stall_note fid n st pg))" "list_all (\<lambda>e. open_effect (Logged e)) (snd (repeat_note fid n checks pg))"
  "list_all (\<lambda>e. open_effect (Logged e)) (snd (mechanism_note fid n pg))"
  by (simp_all add: observed_note_def hint_events_def stall_note_def repeat_note_def mechanism_note_def Let_def)

lemma feedback_open: "feedback env fc st v pg code = (err, es) \<Longrightarrow> list_all (\<lambda>e. open_effect (Logged e)) es"
  by (simp add: feedback_def Let_def case_prod_beta) (metis note_open list_all_append)

lemma always_after_verdict [always_intros]: "always open_effect (after_verdict env fc v st)"
  unfolding after_verdict_def Let_def
  by (auto split: option.split prod.split intro!: always_intros simp: feedback_open)

lemma always_one_try [always_intros]: "always open_effect (one_try env fc n st)"
  unfolding one_try_def Let_def by (auto split: stage.split prod.split intro!: always_intros)

lemma always_attempts [always_intros]: "always open_effect (attempts env fc left n st)"
proof (induction left arbitrary: n st)
  case (Suc left)
  then show ?case by (auto split: option.split prod.split intro!: always_intros)
qed (simp add: always_intros)

lemma always_restore_end [always_intros]: "always open_effect (restore_end env fid st)"
  unfolding restore_end_def by (auto intro!: always_intros)

lemma always_quarantine [always_intros]: "always open_effect (quarantine env fid outcome st)"
  unfolding quarantine_def by (auto intro!: always_intros)

subsection \<open>The exploit loop\<close>

text \<open>An invariant of the trace of the loop: it is kept when a run is recorded, and the runs are counted.\<close>

definition loop_trace_ok :: "nat \<Rightarrow> effect list \<Rightarrow> bool" where
  "loop_trace_ok n fx \<longleftrightarrow> list_all open_effect fx \<and> runs_of fx \<le> n"

lemma always_loop_run [always_intros]: "always open_effect (loop_run env fc code)"
  unfolding loop_run_def by (intro always_intros) simp_all

lemma within_put_poc [within_intros]: "(\<And>x. runs_within k (f x)) \<Longrightarrow> runs_within k (act_bind (put_poc env fid code) f)"
  by (rule within_silent) (auto intro!: within_always always_intros)

lemma within_get [within_intros]: "(\<And>x. runs_within k (f x)) \<Longrightarrow> runs_within k (act_bind (act_get g) f)"
  by (rule within_silent) (auto intro!: within_always always_intros)

lemma within_log [within_intros]: "(\<And>x. runs_within k (f x)) \<Longrightarrow> runs_within k (act_bind (act_log es) f)"
  by (rule within_silent) (auto intro!: within_always always_intros simp: list_all_iff)

lemma within_loop_run: "runs_within 1 (loop_run env fc code)"
  unfolding loop_run_def One_nat_def by (intro within_get within_put_poc within_try within_run within_return)

lemma recorded_run:
  assumes "le_run (traced_loop env fc) code wt = (r, wt')" "loop_trace_ok n (snd wt)"
  shows "loop_trace_ok (n + 1) (snd wt')"
proof -
  obtain x w1 gx where m: "loop_run env fc code (fst wt) = (x, w1, gx)" by (metis prod.exhaust)
  have "list_all open_effect gx" "runs_of gx \<le> 1"
    using always_loop_run [of env fc code] within_loop_run [of env fc code] m
    by (metis always_def act_spec_def snd_conv, metis runs_within_def act_spec_def snd_conv)
  moreover have "wt' = (w1, snd wt @ gx)" using assms(1) m by (simp add: traced_loop_def Let_def recording_def)
  ultimately show ?thesis using assms(2) by (simp add: loop_trace_ok_def)
qed

text \<open>What the model calls leave alone, a draft leaves alone.\<close>

lemma reads_keep:
  "(\<And>p w. view (snd (le_generate env p w)) = view w) \<Longrightarrow> generate_with_reads env budget used forced cur w lg = (r, w1, log1) \<Longrightarrow> view w1 = view w"
proof (induction env budget used forced cur w lg arbitrary: r w1 log1 rule: generate_with_reads.induct)
  case (1 env budget used forced cur w lg)
  obtain x w2 where g: "le_generate env cur w = (x, w2)" by (metis prod.exhaust)
  have v: "view w2 = view w" using "1.prems"(1) [of cur w] g by simp
  show ?case
  proof (cases "\<exists>raw reads refusals. x = Inr raw \<and> parse_requests raw = Inr (reads, refusals)")
    case False
    then show ?thesis using "1.prems"(2) g v by (subst (asm) generate_with_reads.simps) (auto split: sum.splits)
  next
    case True
    then obtain raw reads refusals where t: "x = Inr raw" "parse_requests raw = Inr (reads, refusals)" by blast
    note IH1 = "1.IH"(1) [OF g [symmetric] t refl _ "1.prems"(1)]
    note IH2 = "1.IH"(2) [OF g [symmetric] t refl _ _ "1.prems"(1)]
    show ?thesis
    proof (cases "reads \<noteq> [] \<and> used < budget")
      case True
      then show ?thesis using "1.prems"(2) g t v by (subst (asm) generate_with_reads.simps) (auto dest!: IH1 [OF True] simp del: length_take)
    next
      case no: False
      show ?thesis
      proof (cases "extract_solidity raw \<noteq> [] \<or> forced")
        case True
        then show ?thesis using "1.prems"(2) g t v no by (subst (asm) generate_with_reads.simps) (auto split: if_splits)
      next
        case none: False
        then have "generate_with_reads env budget used True (cur @ commit_prompt) w2 (lg @ map refused_verb refusals @ [Force_commit used]) = (r, w1, log1)"
          using "1.prems"(2) g t no by (subst (asm) generate_with_reads.simps) auto
        from IH2 [OF no none this] v show ?thesis by simp
      qed
    qed
  qed
qed

lemma reroll_keeps:
  assumes "\<And>p w. view (snd (le_generate env p w)) = view w" "reroll env budget prompt left retry code st w lg = (r, st1, w1, log1)"
  shows "view w1 = view w"
  using assms(2)
proof (induction left arbitrary: retry code st w lg)
  case (Suc left)
  obtain x w2 log2 where g: "generate_with_reads env budget 0 False prompt w
      (lg @ [Degenerate_retry (Suc (ls_calls st)) (Suc retry) (Suc (ls_retries st))]) = (x, w2, log2)" by (metis prod.exhaust)
  have v: "view w2 = view w" using reads_keep [where view = view, OF assms(1) g] .
  show ?case
    using Suc.prems Suc.IH v by (auto simp: Let_def g split: sum.splits if_splits)
qed simp

lemma draft_keeps:
  assumes "\<And>p w. view (snd (le_generate env p w)) = view w" "draft_turn env cfg prompt st w lg = (r, st1, w1, log1)"
  shows "view w1 = view w"
proof -
  obtain x w2 log2 where g: "generate_with_reads env (lc_read_budget cfg) 0 False prompt w lg = (x, w2, log2)" by (metis prod.exhaust)
  have "view w2 = view w" using reads_keep [where view = view, OF assms(1) g] .
  then show ?thesis using assms(2) reroll_keeps [where view = view, OF assms(1)] by (auto simp: draft_turn_def g split: sum.splits)
qed

lemma traced_generate: "snd (snd (le_generate (traced_loop env fc) p wt)) = snd wt"
  by (simp add: traced_loop_def Let_def on_trace_def case_prod_beta)

lemma traced_stop: "stop_reason (traced_loop env fc) cfg st wt = (x, wt1) \<Longrightarrow> snd wt1 = snd wt"
  by (auto simp: stop_reason_def traced_loop_def on_trace_def Let_def split: if_splits prod.splits)

definition loop_head_ok :: "nat \<Rightarrow> exploit_state \<Rightarrow> 'w \<times> effect list \<Rightarrow> bool" where
  "loop_head_ok budget st wt \<longleftrightarrow> loop_trace_ok (ls_calls st) (snd wt) \<and> (ls_calls st < budget \<or> ls_calls st = 0)"

lemma loop_trace_mono: "loop_trace_ok n fx \<Longrightarrow> n \<le> k \<Longrightarrow> loop_trace_ok k fx"
  by (simp add: loop_trace_ok_def)

lemma exploit_trace:
  "loop_trace_ok (max 1 (lc_budget cfg)) (snd (fst (snd (exploit_loop (traced_loop env fc) cfg prompt (w, [])))))"
proof -
  let ?env = "traced_loop env fc" and ?b = "lc_budget cfg"
  let ?Q = "\<lambda>(r :: loop_result py) wt. loop_trace_ok (max 1 ?b) (snd wt)"
  have within: "loop_head_ok ?b st wt \<Longrightarrow> loop_trace_ok (max 1 ?b) (snd wt)" for st and wt :: "'a \<times> effect list"
    by (auto simp: loop_head_ok_def elim: loop_trace_mono)
  have run: "loop_trace_ok (ls_calls st + 1) (snd w2)" if "loop_head_ok ?b st wt" "le_run ?env code wt = (r, w2)" for st wt code r w2
    using recorded_run [OF that(2)] that(1) by (simp add: loop_head_ok_def)
  have ran: "loop_trace_ok (max 1 ?b) (snd w2)" if "loop_head_ok ?b st wt" "le_run ?env code wt = (r, w2)" for st wt code r w2
    by (rule loop_trace_mono [OF run [OF that]]) (use that(1) in \<open>auto simp: loop_head_ok_def\<close>)
  have "?Q (fst (exploit_run ?env cfg prompt prompt [] initial_loop (w, []) [])) (fst (snd (exploit_run ?env cfg prompt prompt [] initial_loop (w, []) [])))"
  proof (rule exploit_run_rule [where I = "loop_head_ok ?b" and J = "\<lambda>_. loop_head_ok ?b"])
    show "loop_head_ok ?b initial_loop (w, [])" by (simp add: loop_head_ok_def initial_loop_def loop_trace_ok_def)
  next
    fix prompt st lg e st1 and wt w1 :: "'a \<times> effect list" and log1
    assume "loop_head_ok ?b st wt" "draft_turn ?env cfg prompt st wt lg = (Inl e, st1, w1, log1)"
    with within draft_keeps [where view = snd, OF traced_generate] show "?Q (Inl e) w1" by metis
  next
    fix prompt st lg code st1 and wt w1 :: "'a \<times> effect list" and log1
    assume "loop_head_ok ?b st wt" and d: "draft_turn ?env cfg prompt st wt lg = (Inr code, st1, w1, log1)"
    with draft_keeps [where view = snd, OF traced_generate d] draft_calls [OF d] show "loop_head_ok ?b st1 w1" by (simp add: loop_head_ok_def)
  next
    fix code st and wt :: "'a \<times> effect list"
    assume "loop_head_ok ?b st wt"
    with within show "?Q (Inr \<lparr>lr_outcome = Out_no_code, lr_code = code, lr_state = st\<rparr>) wt" by simp
  next
    fix code st e and wt w2 :: "'a \<times> effect list"
    assume "loop_head_ok ?b st wt" "le_run ?env code wt = (Inl e, w2)"
    with ran show "?Q (Inl e) w2" by simp
  next
    fix code st out err and wt w2 :: "'a \<times> effect list"
    assume "loop_head_ok ?b st wt" "le_run ?env code wt = (Inr (out, err), w2)"
    with ran show "?Q (Inr \<lparr>lr_outcome = Out_triggered, lr_code = code, lr_state = st\<lparr>ls_calls := ls_calls st + 1\<rparr>\<rparr>) w2" by simp
  next
    fix code st out err r and wt w2 w3 :: "'a \<times> effect list"
    assume h: "loop_head_ok ?b st wt" "le_run ?env code wt = (Inr (out, err), w2)"
      and s: "stop_reason ?env cfg (observed cfg out err st) w2 = (Some r, w3)"
    show "?Q (Inr \<lparr>lr_outcome = r, lr_code = code, lr_state = observed cfg out err st\<rparr>) w3"
      using ran [OF h] traced_stop [OF s] by simp
  next
    fix code st out err and wt w2 w3 :: "'a \<times> effect list"
    assume h: "loop_head_ok ?b st wt" "le_run ?env code wt = (Inr (out, err), w2)"
      and s: "stop_reason ?env cfg (observed cfg out err st) w2 = (None, w3)"
    show "loop_head_ok ?b (observed cfg out err st) w3"
      using run [OF h] traced_stop [OF s] stop_reason_None [OF s] by (simp add: loop_head_ok_def)
  qed
  then show ?thesis by (simp add: exploit_loop_def)
qed

lemma loop_event_open: "open_effect (Logged (loop_event_json e))"
  by (rule unterminated_open) (cases e; simp add: loop_event_json_def Let_def)

lemma loop_action_spec: "act_spec (loop_action env fc prompt) (\<lambda>_. loop_trace_ok (max 1 (lc_budget (ra_loop (qe_args env)))))"
  unfolding act_spec_def
proof
  fix w
  obtain r wt evs where x: "exploit_loop (traced_loop env fc) (loop_settings env) prompt (w, []) = (r, wt, evs)" by (metis prod.exhaust)
  have ev: "list_all open_effect (map (Logged \<circ> loop_event_json) evs)" "runs_of (map (Logged \<circ> loop_event_json) evs) = 0"
    by (simp add: list_all_iff loop_event_open) (simp add: runs_none list_all_iff)
  have "loop_trace_ok (max 1 (lc_budget (ra_loop (qe_args env)))) (snd wt)"
    using exploit_trace [where cfg = "loop_settings env" and env = env and fc = fc and prompt = prompt and w = w]
    by (simp add: x) (simp add: loop_settings_def)
  with ev show "loop_trace_ok (max 1 (lc_budget (ra_loop (qe_args env)))) (snd (snd (loop_action env fc prompt w)))"
    by (simp add: loop_action_def x loop_trace_ok_def)
qed

section \<open>A finding is closed once\<close>

definition closed_findings :: "effect list \<Rightarrow> (json option \<times> json option) list" where
  "closed_findings fx =
     List.map_filter (\<lambda>e. case e of
        Logged ev \<Rightarrow> (if closes ''finding_attempt'' e then Some (dict_get ev ''finding_id'', dict_get ev ''cause'') else None)
      | _ \<Rightarrow> None) fx"

lemma closed_findings_simps [simp]:
  "closed_findings [] = []"
  "closed_findings (fx @ gx) = closed_findings fx @ closed_findings gx"
  by (simp_all add: closed_findings_def map_filter_def)

lemma closed_findings_open: "list_all open_effect fx \<Longrightarrow> closed_findings fx = []"
  by (induction fx) (auto simp: closed_findings_def map_filter_def split: effect.splits)

definition closed_as :: "string \<Rightarrow> string \<Rightarrow> json option \<times> json option" where
  "closed_as fid outcome = (Some (JStr fid), Some (JStr (finding_cause outcome)))"

lemma closed_by:
  assumes "''terminal'' \<notin> fst ` set front" "''level'' \<notin> fst ` set front" "''cause'' \<notin> fst ` set front"
  shows "closed_findings [Logged (event_of name fid (front @ closing outcome @ rest))] = [closed_as fid outcome]"
proof -
  have "closes ''finding_attempt'' (Logged (event_of name fid (front @ closing outcome @ rest)))"
    using terminal_event_closes [OF assms(1,2), of "''finding_attempt''" name fid "''finding_attempt''" "finding_cause outcome" None "[]" rest]
    by (simp add: closing_def)
  moreover have "map_of (front @ closing outcome @ rest) ''cause'' = Some (JStr (finding_cause outcome))"
    using assms(3) by (simp add: closing_def terminal_fields_def map_of_append map_add_def map_of_eq_None_iff [THEN iffD2])
  ultimately show ?thesis by (simp add: closed_findings_def map_filter_def event_of_def closed_as_def)
qed

definition stage_ok :: "string \<Rightarrow> 'a stage py \<Rightarrow> effect list \<Rightarrow> bool" where
  "stage_ok fid r fx =
     (case r of
        Inr (Closed outcome) \<Rightarrow> outcome \<notin> set SUCCESSES \<and> closed_findings fx = [closed_as fid outcome]
      | _ \<Rightarrow> list_all open_effect fx)"

lemma stage_after: "always open_effect m \<Longrightarrow> (\<And>x. act_spec (k x) (stage_ok fid)) \<Longrightarrow> act_spec (act_bind m k) (stage_ok fid)"
  unfolding always_def
  by (erule spec_bind, rule spec_weaken, assumption) (auto simp: stage_ok_def closed_findings_open split: sum.splits stage.splits)

lemma stage_get: "(\<And>x. act_spec (k x) (stage_ok fid)) \<Longrightarrow> act_spec (act_bind (act_get f) k) (stage_ok fid)"
  by (rule spec_bind_get)

lemma stage_try: "(\<And>x. r = Inr x \<Longrightarrow> act_spec (k x) (stage_ok fid)) \<Longrightarrow> act_spec (act_try r k) (stage_ok fid)"
  by (rule spec_try) (simp_all add: stage_ok_def)

lemma stage_return: "r = Inr (Ready x) \<or> r = Inl e \<Longrightarrow> act_spec (act_return r) (stage_ok fid)"
  by (auto simp: act_rules stage_ok_def)

lemma stage_close: "outcome \<notin> set SUCCESSES \<Longrightarrow> fst field \<in> {''error'', ''reason''} \<Longrightarrow> act_spec (close_with fid outcome field) (stage_ok fid)"
  using closed_by [of "[field]" outcome fid outcome "[]"] by (auto simp: close_with_def act_rules stage_ok_def)

lemma finish_spec: "act_spec (finish env started fid outcome reason) (\<lambda>_ fx. closed_findings fx = [closed_as fid outcome])"
  unfolding finish_def
proof (rule spec_bind_get)
  fix el
  have "closed_findings [Logged (done_event fid outcome el reason)] = [closed_as fid outcome]"
    using closed_by [of "[(''outcome'', JStr outcome), (''elapsed_s'', el)]" "''task_done''" fid outcome "str_field ''verify_reason'' reason"]
    by (simp add: done_event_def)
  then show "act_spec (act_log [done_event fid outcome el reason]) (\<lambda>_ fx. closed_findings fx = [closed_as fid outcome])"
    by (simp add: act_spec_def act_log_def)
qed

lemma stage_finish:
  "outcome \<notin> set SUCCESSES \<Longrightarrow> act_spec (act_bind (finish env started fid outcome reason) (\<lambda>_. act_return (Inr (Closed outcome)))) (stage_ok fid)"
  by (rule spec_bind [OF finish_spec]) (simp add: act_rules stage_ok_def)

lemma use_synth_spec: "act_spec (use_synth env fc pc) (stage_ok fid)"
  unfolding use_synth_def Let_def by (intro stage_after stage_try stage_return always_intros) simp_all

lemma ladder_outcome:
  "insufficiency_ladder_outcome idx b missing fid = (outcome, es) \<Longrightarrow> outcome \<notin> set SUCCESSES \<and> list_all (\<lambda>e. open_effect (Logged e)) es"
  by (auto simp: insufficiency_ladder_outcome_def SUCCESSES_def ladder_lookup_def list_all_iff split: option.splits if_splits)

lemma lookup_ladder_spec: "act_spec (lookup_ladder env started fid missing) (stage_ok fid)"
proof -
  obtain outcome es where l: "insufficiency_ladder_outcome (idx_of env) (int (de_budget (ru_draft env))) missing fid = (outcome, es)" by force
  show ?thesis using ladder_outcome [OF l] by (auto simp: lookup_ladder_def l intro!: stage_after stage_finish always_intros)
qed

lemma escalate_spec: "act_spec (escalate_base env started fc missing) (stage_ok (tk_id (fc_task fc)))"
  unfolding escalate_base_def Let_def insufficient_event_def
  by (auto intro!: stage_after stage_try lookup_ladder_spec use_synth_spec always_intros split: option.split)

lemma grounded_task: "grounded env task b w = Inr (fc, ev) \<Longrightarrow> fc_task fc = task \<and> open_effect (Logged ev)"
  by (auto simp: grounded_def grounding_event_def Let_def bindE_def split: sum.splits)

lemma prepare_spec: "act_spec (prepare env started task) (stage_ok (tk_id task))"
  unfolding prepare_def Let_def absent_event_def
  apply (rule stage_get, rule stage_try)
  subgoal for r paths
    apply (cases "\<not> ra_no_scaffold (qe_args env) \<and> paths = []")
    subgoal by (auto intro!: stage_after stage_finish always_intros simp: SUCCESSES_def)
    subgoal
      apply (simp only: if_False simp_thms)
      apply (rule stage_after, rule always_load, rule stage_try, rule spec_bind_get_at, rule stage_try)
      subgoal for r b w x
        using grounded_task [of env task b w "fst x" "snd x"] escalate_spec [of env started "fst x"]
        by (cases x) (auto intro!: stage_after stage_try stage_return always_intros)
      done
    done
  done

lemma always_agentic [always_intros]: "always open_effect (run_agentic_exploit_loop env fc)"
proof -
  have "always open_effect (loop_action env fc p)" for p
    unfolding always_def by (rule spec_weaken [OF loop_action_spec]) (simp add: loop_trace_ok_def)
  then show ?thesis unfolding run_agentic_exploit_loop_def
    by (auto intro!: always_intros simp: loop_done_event_def Let_def)
qed

lemma no_code_spec: "act_spec (no_code fid why r) (stage_ok fid)"
  unfolding no_code_def by (auto intro!: stage_close stage_return simp: SUCCESSES_def split: sum.split)

lemma first_code_spec: "act_spec (first_code env fc) (stage_ok (tk_id (fc_task fc)))"
proof -
  have "act_spec (agentic_code env fc) (stage_ok (tk_id (fc_task fc)))"
    unfolding agentic_code_def Let_def
    by (auto intro!: stage_after stage_close stage_return no_code_spec always_intros simp: SUCCESSES_def split: sum.split)
  moreover have "act_spec (drafted_code env fc) (stage_ok (tk_id (fc_task fc)))"
    unfolding drafted_code_def Let_def
    by (auto intro!: stage_after stage_close stage_return no_code_spec always_intros simp: SUCCESSES_def split: sum.split)
  ultimately show ?thesis by (simp add: first_code_def)
qed

text \<open>From the attempts on a finding is closed by its last event, and with no other.\<close>

definition closed_ok :: "string \<Rightarrow> string py \<Rightarrow> effect list \<Rightarrow> bool" where
  "closed_ok fid r fx = (case r of Inl e \<Rightarrow> closed_findings fx = [] | Inr outcome \<Rightarrow> closed_findings fx = [closed_as fid outcome])"

lemma closed_after: "always open_effect m \<Longrightarrow> (\<And>x. act_spec (k x) (closed_ok fid)) \<Longrightarrow> act_spec (act_bind m k) (closed_ok fid)"
  unfolding always_def
  by (erule spec_bind, rule spec_weaken, assumption) (auto simp: closed_ok_def closed_findings_open split: sum.splits)

lemma closed_try: "(\<And>x. r = Inr x \<Longrightarrow> act_spec (k x) (closed_ok fid)) \<Longrightarrow> act_spec (act_try r k) (closed_ok fid)"
  by (rule spec_try) (simp_all add: closed_ok_def)

lemma run_attempts_spec: "act_spec (run_attempts env started fc code) (closed_ok (tk_id (fc_task fc)))"
proof -
  have fin: "act_spec (act_bind (finish env started fid outcome reason) (\<lambda>_. act_return (Inr outcome))) (closed_ok fid)" for fid outcome reason
    by (rule spec_bind [OF finish_spec]) (simp add: act_rules closed_ok_def)
  show ?thesis unfolding run_attempts_def Let_def
    by (auto intro!: closed_after closed_try fin always_intros split: prod.split)
qed

lemma closed_stage:
  fixes k :: "'b \<Rightarrow> ('w, string py) action"
  assumes "act_spec m (\<lambda>r fx. stage_ok fid r fx \<and> (\<forall>x. r = Inr (Ready x) \<longrightarrow> R x))" "\<And>x. R x \<Longrightarrow> act_spec (k x) (closed_ok fid)"
  shows "act_spec (act_bind m (\<lambda>r. act_try r (\<lambda>s. case s of Closed outcome \<Rightarrow> act_return (Inr outcome) | Ready x \<Rightarrow> k x))) (closed_ok fid)"
proof (rule spec_bind [OF assms(1)])
  fix r :: "'b stage py" and fx
  assume s: "stage_ok fid r fx \<and> (\<forall>x. r = Inr (Ready x) \<longrightarrow> R x)"
  consider e where "r = Inl e" | outcome where "r = Inr (Closed outcome)" | x where "r = Inr (Ready x)"
    by (metis obj_sumE stage.exhaust)
  then show "act_spec (act_try r (\<lambda>s. case s of Closed outcome \<Rightarrow> act_return (Inr outcome) | Ready x \<Rightarrow> k x)) (\<lambda>y fx2. closed_ok fid y (fx @ fx2))"
  proof cases
    case 3
    with s have "act_spec (k x) (closed_ok fid)" "closed_findings fx = []" by (simp_all add: assms(2) stage_ok_def closed_findings_open)
    then show ?thesis using 3 by (auto simp: act_try_def closed_ok_def act_spec_def split: sum.splits)
  qed (use s in \<open>simp_all add: act_try_def act_rules stage_ok_def closed_ok_def closed_findings_open\<close>)
qed

text \<open>What holds of the result whatever the effects.\<close>

definition returns :: "('a \<Rightarrow> bool) \<Rightarrow> ('w, 'a) action \<Rightarrow> bool" where "returns P m = act_spec m (\<lambda>r _. P r)"

named_theorems returns_intros

lemma returns_bind [returns_intros]: "(\<And>x. returns P (k x)) \<Longrightarrow> returns P (act_bind m k)"
  by (simp add: returns_def act_spec_def act_bind_def case_prod_beta Let_def)

lemma returns_return [returns_intros]: "P x \<Longrightarrow> returns P (act_return x)"
  by (simp add: returns_def act_rules)

lemma returns_try [returns_intros]: "(\<And>e. P (Inl e)) \<Longrightarrow> (\<And>x. r = Inr x \<Longrightarrow> returns P (k x)) \<Longrightarrow> returns P (act_try r k)"
  unfolding returns_def by (rule spec_try)

lemma returns_get_at: "(\<And>w. returns P (k (f w))) \<Longrightarrow> returns P (act_bind (act_get f) k)"
  unfolding returns_def by (rule spec_bind_get_at)

lemma spec_conj: "act_spec m P \<Longrightarrow> act_spec m Q \<Longrightarrow> act_spec m (\<lambda>r fx. P r fx \<and> Q r fx)"
  by (simp add: act_spec_def)

definition ready_for :: "finding_task \<Rightarrow> finding_context stage py \<Rightarrow> bool" where
  "ready_for task r \<longleftrightarrow> (\<forall>fc. r = Inr (Ready fc) \<longrightarrow> fc_task fc = task \<and> fc_stems fc = location_names (tk_location task))"

lemma grounded_context: "grounded env task b w = Inr (fc, ev) \<Longrightarrow> fc_task fc = task \<and> fc_stems fc = location_names (tk_location task)"
  by (auto simp: grounded_def Let_def bindE_def split: sum.splits)

lemma escalate_ready:
  "fc_task fc = task \<Longrightarrow> fc_stems fc = location_names (tk_location task) \<Longrightarrow> returns (ready_for task) (escalate_base env started fc missing)"
  unfolding escalate_base_def use_synth_def lookup_ladder_def Let_def
  by (auto intro!: returns_intros simp: ready_for_def split: option.split prod.split)

lemma prepare_ready: "returns (ready_for task) (prepare env started task)"
  unfolding prepare_def Let_def
  apply (rule returns_bind, rule returns_try)
   apply (simp add: ready_for_def)
  subgoal for r paths
    apply (cases "\<not> ra_no_scaffold (qe_args env) \<and> paths = []")
    subgoal by (auto intro!: returns_intros simp: ready_for_def)
    subgoal
      apply (simp only: if_False simp_thms)
      apply (rule returns_bind, rule returns_try)
       apply (simp add: ready_for_def)
      apply (rule returns_get_at, rule returns_try)
       apply (simp add: ready_for_def)
      subgoal for r b w x
        using grounded_context [of env task b w "fst x" "snd x"] escalate_ready [of "fst x" task env started]
        by (cases x) (auto intro!: returns_intros simp: ready_for_def)
      done
    done
  done

lemma process_spec: "act_spec (process_finding env task) (closed_ok (tk_id task))"
proof -
  have r: "act_spec (prepare env started task) (\<lambda>r fx. stage_ok (tk_id task) r fx \<and> (\<forall>x. r = Inr (Ready x) \<longrightarrow> fc_task x = task))" for started
    by (rule spec_weaken [OF spec_conj [OF prepare_spec prepare_ready [unfolded returns_def]]]) (simp add: ready_for_def)
  have c: "act_spec (first_code env fc) (\<lambda>r fx. stage_ok (tk_id task) r fx \<and> (\<forall>x. r = Inr (Ready x) \<longrightarrow> True))" if "fc_task fc = task" for fc
    using first_code_spec [of env fc] that by simp
  show ?thesis unfolding process_finding_def
    apply (rule spec_bind_get, rule closed_after)
    subgoal by (rule always_log) simp
    subgoal for w0
      apply (rule closed_stage [OF r])
      subgoal for fc using closed_stage [OF c] run_attempts_spec [of env w0 fc] by simp
      done
    done
qed

text \<open>C4: A finding that is processed is closed exactly once, by an event with its identifier and the cause of its outcome,
  whichever of the stages ends it, also when a base is synthesised on the way, which closes its own attempt but
  no finding; and a finding whose processing raises has not been closed.\<close>

theorem finding_closed_once:
  "case process_finding env task w of (r, w', fx) \<Rightarrow>
     closed_findings fx = (case r of Inl e \<Rightarrow> [] | Inr outcome \<Rightarrow> [(Some (JStr (tk_id task)), Some (JStr (finding_cause outcome)))])"
proof -
  obtain r w' fx where p: "process_finding env task w = (r, w', fx)" by (metis prod.exhaust)
  from spec_at [OF process_spec p] show ?thesis by (cases r) (simp_all add: p closed_ok_def closed_as_def)
qed

section \<open>The queue closes every finding\<close>

definition closed_ids :: "effect list \<Rightarrow> json option list" where "closed_ids fx = map fst (closed_findings fx)"

lemma closed_ids_append [simp]: "closed_ids [] = []" "closed_ids (fx @ gx) = closed_ids fx @ closed_ids gx"
  by (simp_all add: closed_ids_def)

lemma closed_ids_open: "list_all open_effect fx \<Longrightarrow> closed_ids fx = []"
  by (simp add: closed_ids_def closed_findings_open)

abbreviation id_of :: "finding_task \<Rightarrow> json option" where "id_of t \<equiv> Some (JStr (tk_id t))"

definition queue_ok :: "finding_task list \<Rightarrow> unit py \<Rightarrow> effect list \<Rightarrow> bool" where
  "queue_ok todo r fx = (case r of Inl e \<Rightarrow> prefix (closed_ids fx) (map id_of todo) | Inr _ \<Rightarrow> closed_ids fx = map id_of todo)"

lemma skips_close: "closed_ids (map Logged (emit_budget_skips (map tk_id ts))) = map id_of ts"
proof (induction ts)
  case (Cons t ts)
  let ?ev = "event_of ''not_attempted'' (tk_id t) (terminal_fields ''finding_attempt'' ''not_attempted:budget'' None [])"
  have "closes ''finding_attempt'' (Logged ?ev)"
    using terminal_event_closes [of "[]" "''finding_attempt''" "''not_attempted''" "tk_id t" "''finding_attempt''" "''not_attempted:budget''" None "[]" "[]"] by simp
  then have "closed_ids [Logged ?ev] = [id_of t]" by (simp add: closed_ids_def closed_findings_def map_filter_def event_of_def)
  with Cons show ?case using closed_ids_append(2) [of "[Logged ?ev]"] by (simp add: emit_budget_skips_def)
qed (simp add: emit_budget_skips_def)

lemma queue_after: "always open_effect m \<Longrightarrow> (\<And>x. act_spec (k x) (queue_ok todo)) \<Longrightarrow> act_spec (act_bind m k) (queue_ok todo)"
  unfolding always_def
  by (erule spec_bind, rule spec_weaken, assumption) (auto simp: queue_ok_def closed_ids_open split: sum.splits)

lemma queue_try: "(\<And>x. r = Inr x \<Longrightarrow> act_spec (k x) (queue_ok todo)) \<Longrightarrow> act_spec (act_try r k) (queue_ok todo)"
  by (rule spec_try) (simp_all add: queue_ok_def)

lemma run_queue_spec:
  fixes env :: "('w, 'z) queue_env_scheme"
  shows "act_spec (run_queue env i todo) (queue_ok todo)"
proof (induction todo arbitrary: i)
  case Nil
  then show ?case by (simp add: act_rules queue_ok_def)
next
  case (Cons task rest)
  let ?bev = "[(''event'', JStr ''budget_reached''), (''max_minutes'', ra_max_minutes (qe_args env)), (''done_before_stop'', JInt (int i))]"
  have skip: "act_spec (act_bind (act_log (?bev # emit_budget_skips (map tk_id (task # rest)))) (\<lambda>_. act_return (Inr ())) :: ('w, unit py) action)
      (queue_ok (task # rest))"
  proof -
    have "closed_ids (map Logged (?bev # emit_budget_skips (map tk_id (task # rest)))) = map id_of (task # rest)"
      using closed_ids_append(2) [of "[Logged ?bev]" "map Logged (emit_budget_skips (map tk_id (task # rest)))"] skips_close [of "task # rest"]
        closed_ids_open [of "[Logged ?bev]"] by (simp add: unterminated_open)
    then show ?thesis by (simp add: act_rules queue_ok_def)
  qed
  have go: "act_spec (act_bind (process_finding env task) (\<lambda>r. act_try r (\<lambda>_. run_queue env (i + 1) rest))) (queue_ok (task # rest))"
  proof (rule spec_bind [OF process_spec])
    fix r fx assume c: "closed_ok (tk_id task) r fx"
    show "act_spec (act_try r (\<lambda>_. run_queue env (i + 1) rest)) (\<lambda>y fx2. queue_ok (task # rest) y (fx @ fx2))"
    proof (cases r)
      case (Inl e)
      with c show ?thesis by (simp add: act_try_def act_rules queue_ok_def closed_ok_def closed_ids_def)
    next
      case (Inr outcome)
      with c have "closed_ids fx = [id_of task]" by (simp add: closed_ok_def closed_ids_def closed_as_def)
      with Inr show ?thesis by (auto simp: act_try_def queue_ok_def split: sum.splits intro!: spec_weaken [OF Cons.IH])
    qed
  qed
  show ?case unfolding run_queue.simps by (rule spec_bind_get) (use skip go in simp)
qed

text \<open>C6: A run over the extracted tasks that ends without an exception closes the selected findings in their order and each
  exactly once, those that the time limit kept from being started included; one that is ended by an exception has closed an
  initial part of them.\<close>

theorem queue_closes_all:
  "case run_tasks env tasks w of (r, w', fx) \<Rightarrow>
     (case r of
        Inr _ \<Rightarrow> map fst (closed_findings fx) = map (\<lambda>t. Some (JStr (tk_id t))) (fst (select_tasks (qe_args env) tasks))
      | Inl e \<Rightarrow> prefix (map fst (closed_findings fx)) (map (\<lambda>t. Some (JStr (tk_id t))) (fst (select_tasks (qe_args env) tasks))))"
proof -
  obtain todo es where sel: "select_tasks (qe_args env) tasks = (todo, es)" by force
  then have es: "list_all (\<lambda>e. open_effect (Logged e)) es"
    by (auto simp: select_tasks_def Let_def unterminated_open split: if_splits)
  have done_last: "act_spec (act_bind (run_queue e1 0 todo) (\<lambda>r. act_try r (\<lambda>_. act_bind (act_log [[(''event'', JStr ''done'')]]) (\<lambda>_. act_return (Inr ())))))
      (queue_ok todo)" for e1 :: "('a, 'b) queue_env_scheme"
  proof (rule spec_bind [OF run_queue_spec])
    fix r fx assume q: "queue_ok todo r fx"
    have "closed_ids [Logged [(''event'', JStr ''done'')]] = []" by (rule closed_ids_open) (simp add: unterminated_open)
    with q show "act_spec (act_try r (\<lambda>_. act_bind (act_log [[(''event'', JStr ''done'')]]) (\<lambda>_. act_return (Inr ()))))
        (\<lambda>y fx2. queue_ok todo y (fx @ fx2))"
      by (cases r) (simp_all add: act_try_def act_rules queue_ok_def)
  qed
  have "act_spec (run_tasks env tasks) (queue_ok todo)"
    unfolding run_tasks_def sel Let_def prod.case
    by (auto intro!: queue_after queue_try done_last always_intros es simp: unterminated_open mode_event_def Let_def split: option.split)
  moreover obtain r w' fx where r: "run_tasks env tasks w = (r, w', fx)" by (metis prod.exhaust)
  ultimately have "queue_ok todo r fx" by (rule spec_at)
  then show ?thesis by (cases r) (simp_all add: r queue_ok_def closed_ids_def sel)
qed

end
