(* ===== verification/Queue_Verified.thy ===== *)
theory Queue_Verified
  imports Queue_Closing
begin

text \<open>
  What a verified pass of the queue means (\<open>scripts/poc_queue_runner.py\<close>), in terms of the trace of effects, and how often forge
  is run for a finding. At the end one finding is processed in a concrete environment, from its draft to a
  verified pass.
\<close>

section \<open>How often forge is run\<close>

lemma within_zero [within_intros]:
  "runs_within 0 (act_log es)" "runs_within 0 (act_get f)" "runs_within 0 (act_write env p t)" "runs_within 0 (act_move env p q)"
  "runs_within 0 (put_poc env fid code)" "runs_within 0 (maybe_capture_lesson store fid n li)"
  by (rule within_always; (intro always_intros)?; simp add: list_all_iff)+

lemma within_retry [within_intros]: "runs_within 0 (call_with_retry (logged_round fid n f) stage fid limit)"
  by (rule within_always) (auto intro!: always_intros)

lemma within_mutation [within_intros]: "runs_within 0 (mutation_verify ve project files task rel rs)"
  by (rule within_always, unfold always_def, rule spec_weaken [OF mutation_spec]) (auto simp: falsification_ok_def list_all_iff)

lemma within_load [within_intros]: "runs_within 0 (load_base env fid paths)"
  unfolding load_base_def refresh_scaffold_inventory_def by (auto intro!: within_intros split: prod.split)

lemma within_finish [within_intros]: "runs_within 0 (finish env started fid outcome reason)"
  unfolding finish_def by (intro within_intros)

lemma within_ladder [within_intros]: "runs_within k (lookup_ladder env started fid missing)"
  unfolding lookup_ladder_def by (auto intro!: within_intros split: prod.split)

lemma within_use_synth [within_intros]: "runs_within k (use_synth env fc pc)"
  unfolding use_synth_def Let_def by (intro within_intros)

lemma within_from: "runs_within n m \<Longrightarrow> (\<And>x. runs_within 0 (k x)) \<Longrightarrow> runs_within n (act_bind m k)"
  using within_bind [of n m 0 k] by simp

lemma within_escalate: "runs_within 3 (escalate_base env started fc missing)"
  unfolding escalate_base_def Let_def
  apply (rule within_silent, rule within_zero)
  apply (split if_split, intro conjI impI within_ladder)
  apply (rule within_from [OF within_synthesize])
  apply (auto intro!: within_intros split: option.split)
  done

lemma within_prepare: "runs_within 3 (prepare env started task)"
  unfolding prepare_def Let_def by (auto intro!: within_intros within_escalate split: prod.split)

lemma within_det: "runs_within left (det_repair env fc n left code test)"
proof (induction left arbitrary: code test)
  case (Suc left)
  show ?case by (auto simp: Let_def intro!: within_intros within_put_poc within_run Suc.IH split: prod.split sum.split)
qed (simp add: within_intros)

lemma within_write_and_run: "runs_within 3 (write_and_run env fc n code)"
proof -
  have "runs_within (2 + 0) (act_bind (det_repair env fc n DET_REPAIR_ROUNDS code test) (\<lambda>r. act_try r (\<lambda>ct. act_return (Inr (Ready ct)))))" for test
    using within_det [of DET_REPAIR_ROUNDS env fc n code test] by (intro within_bind within_intros) (simp add: DET_REPAIR_ROUNDS_def)
  then show ?thesis unfolding write_and_run_def Let_def numeral_3_eq_3
    by (auto intro!: within_intros within_put_poc within_run split: sum.split prod.split simp: numeral_2_eq_2)
qed

lemma within_postmodel [within_intros]: "runs_within 0 (postmodel env fc s code)"
  unfolding postmodel_def by (auto intro!: within_intros split: prod.split)

lemma within_adopt [within_intros]: "runs_within 0 (adopt env fid v lo)"
  unfolding adopt_def Let_def by (auto intro!: within_intros split: option.split)

lemma within_conclude [within_intros]: "runs_within 0 (conclude env fc v)"
  unfolding conclude_def Let_def by (auto intro!: within_intros)

lemma within_next_code [within_intros]: "runs_within 0 (next_code env fc n code err)"
  unfolding next_code_def Let_def by (auto intro!: within_intros split: sum.split)

lemma within_after_verdict: "runs_within 0 (after_verdict env fc v st)"
  unfolding after_verdict_def Let_def by (auto intro!: within_intros split: option.split prod.split)

lemma within_one_try: "runs_within 3 (one_try env fc n st)"
proof -
  have "runs_within (3 + 0) (one_try env fc n st)"
    unfolding one_try_def Let_def
    by (rule within_bind [OF within_write_and_run]) (auto intro!: within_intros within_after_verdict split: stage.split prod.split)
  then show ?thesis by simp
qed

lemma within_attempts: "runs_within (3 * left) (attempts env fc left n st)"
proof (induction left arbitrary: n st)
  case (Suc left)
  have "runs_within (3 + 3 * left) (attempts env fc (Suc left) n st)" unfolding attempts.simps
    by (rule within_bind [OF within_one_try]) (auto intro!: within_intros Suc.IH split: option.split prod.split)
  then show ?case by simp
qed (simp add: within_intros)

lemma within_run_attempts: "runs_within (3 * effective_attempts (qe_args env)) (run_attempts env started fc code)"
  unfolding run_attempts_def restore_end_def quarantine_def Let_def
  apply (rule within_silent, rule within_postmodel, rule within_from, rule within_attempts)
  apply (auto intro!: within_intros split: prod.split)
  done

definition loop_runs :: "run_arguments \<Rightarrow> nat" where "loop_runs args = (if ra_agentic args then max 1 (lc_budget (ra_loop args)) else 0)"

lemma within_first_code: "runs_within (loop_runs (qe_args env)) (first_code env fc)"
proof -
  let ?b = "max 1 (lc_budget (ra_loop (qe_args env)))"
  have l: "runs_within ?b (loop_action env fc p)" for p
    unfolding runs_within_def by (rule spec_weaken [OF loop_action_spec]) (simp add: loop_trace_ok_def)
  have c: "runs_within k (close_with fid outcome field)" "runs_within k (no_code fid why r)" for k fid outcome field why r
    unfolding close_with_def no_code_def by (auto intro!: within_intros split: sum.split)
  have a: "runs_within ?b (run_agentic_exploit_loop env fc)"
    unfolding run_agentic_exploit_loop_def
    apply (rule within_silent, rule within_zero, rule within_try, rule within_silent, rule within_zero, rule within_from [OF l])
    apply (auto intro!: within_intros)
    done
  have "runs_within (?b + 0) (agentic_code env fc)"
    unfolding agentic_code_def Let_def by (rule within_bind [OF a]) (auto intro!: within_intros c split: sum.split)
  moreover have "runs_within 0 (drafted_code env fc)"
    unfolding drafted_code_def Let_def by (auto intro!: within_intros c split: sum.split)
  ultimately show ?thesis by (auto simp: first_code_def loop_runs_def)
qed


section \<open>What a verified pass means\<close>

text \<open>The code of a result: it was run with this result, and if the run built it is what was written for that run.\<close>

definition tested_as :: "('w, 'z) runner_env_scheme \<Rightarrow> string \<Rightarrow> string \<Rightarrow> test_result \<Rightarrow> effect list \<Rightarrow> bool" where
  "tested_as env fid code test fx \<longleftrightarrow>
     subseq [Tested (poc_rel fid) (Inr test)] fx \<and> (\<not> builds test \<or> subseq [Wrote (poc_file env fid) code, Tested (poc_rel fid) (Inr test)] fx)"

lemma tested_more: "tested_as env fid code test fx \<Longrightarrow> tested_as env fid code test (fx @ gx)"
  by (auto simp: tested_as_def intro: subseq_rev_drop_many)

lemma det_spec:
  "tested_as env (tk_id (fc_task fc)) code test pre \<Longrightarrow>
   act_spec (det_repair env fc n left code test) (\<lambda>r fx. \<forall>ct. r = Inr ct \<longrightarrow> tested_as env (tk_id (fc_task fc)) (fst ct) (snd ct) (pre @ fx))"
proof (induction left arbitrary: code test pre)
  case 0
  then show ?case by (simp add: act_rules)
next
  case (Suc left)
  let ?fid = "tk_id (fc_task fc)"
  obtain code1 applied where d: "seq_draft_inplace (dc_file_map (fc_draft fc)) (blob_of test) code = (code1, applied)" by force
  show ?case
  proof (cases "builds test \<or> applied = []")
    case True
    with Suc.prems show ?thesis by (auto simp: d act_rules builds_def tested_as_def)
  next
    case False
    let ?ev = "event_of ''deterministic_fix'' ?fid [(''attempt'', JInt (int n)), (''fixes'', JList (map JStr applied))]"
    let ?pre = "\<lambda>r. pre @ [Logged ?ev, Wrote (poc_file env ?fid) code1, Tested (poc_rel ?fid) r]"
    have old: "tested_as env ?fid code1 test (pre @ gx)" for gx
      using Suc.prems False by (auto simp: tested_as_def intro: subseq_rev_drop_many)
    have new: "tested_as env ?fid code1 test1 (?pre (Inr test1))" for test1
      by (auto simp: tested_as_def intro: subseq_drop_many)
    have "act_spec (case r of
         Inl e \<Rightarrow> act_bind (act_log [event_of ''run_error'' ?fid [(''attempt'', JInt (int n)), (''error'', JStr (exc_msg e))]]) (\<lambda>_. act_return (Inr (code1, test)))
       | Inr test1 \<Rightarrow> det_repair env fc n left code1 test1)
       (\<lambda>y fx. \<forall>ct. y = Inr ct \<longrightarrow> tested_as env ?fid (fst ct) (snd ct) (pre @ [Logged ?ev, Wrote (poc_file env ?fid) code1, Tested (poc_rel ?fid) r] @ fx))" for r
      using old Suc.IH [OF new] by (cases r) (simp_all add: act_rules)
    then show ?thesis using False
      by (simp add: d builds_def Let_def put_poc_then spec_bind_log) (rule spec_bind_write', rule spec_bind_test, simp)
  qed
qed

lemma write_and_run_spec:
  "act_spec (write_and_run env fc n code)
     (\<lambda>r fx. \<forall>ct. r = Inr (Ready ct) \<longrightarrow> tested_as env (tk_id (fc_task fc)) (fst ct) (snd ct) fx)"
  (is "act_spec _ ?Q")
proof -
  let ?fid = "tk_id (fc_task fc)"
  let ?ev = "event_of ''written'' ?fid [(''attempt'', JInt (int n)), (''path'', JStr (poc_rel ?fid))]"
  let ?pre = "\<lambda>r. [Wrote (poc_file env ?fid) code, Logged ?ev, Tested (poc_rel ?fid) r]"
  have start: "tested_as env ?fid code test (?pre (Inr test))" for test
    by (auto simp: tested_as_def)
  have "act_spec (act_bind (det_repair env fc n DET_REPAIR_ROUNDS code test) (\<lambda>r. act_try r (\<lambda>ct. act_return (Inr (Ready ct)))))
      (\<lambda>y fx. ?Q y (?pre (Inr test) @ fx))" for test
    by (rule spec_bind [OF det_spec [OF start]]) (auto simp: act_try_def act_rules split: sum.splits)
  then have "act_spec (case r of
        Inl e \<Rightarrow> (let (outcome, ev) = run_failed ?fid n e in act_bind (act_log [ev]) (\<lambda>_. act_return (Inr (Closed outcome))))
      | Inr test \<Rightarrow> act_bind (det_repair env fc n DET_REPAIR_ROUNDS code test) (\<lambda>r. act_try r (\<lambda>ct. act_return (Inr (Ready ct)))))
      (\<lambda>y fx. ?Q y (?pre r @ fx))" for r
    by (cases r) (auto simp: act_rules split: prod.split)
  then show ?thesis unfolding write_and_run_def Let_def put_poc_then
    by (intro spec_bind_write') (simp add: spec_bind_log, rule spec_bind_test, simp add: Let_def)
qed

lemma write_and_run_outcome: "returns (\<lambda>r. \<forall>outcome. r = Inr (Closed outcome) \<longrightarrow> outcome \<noteq> ''passed_verified'') (write_and_run env fc n code)"
  unfolding write_and_run_def Let_def run_failed_def by (auto intro!: returns_intros split: sum.split prod.split)

text \<open>How a pass is verified, in the order of the effects: the run passed, the code that passed has no structural defect,
  and the run against the fixed source was built and failed.\<close>

definition verified_by :: "('w, 'z) runner_env_scheme \<Rightarrow> finding_task \<Rightarrow> string list \<Rightarrow> string \<Rightarrow> test_result \<Rightarrow> test_result \<Rightarrow> effect list \<Rightarrow> bool" where
  "verified_by env task stems code test patched fx \<longleftrightarrow>
     te_passed test \<and> (\<exists>used. poc_defects code stems used = []) \<and> builds patched \<and> \<not> te_passed patched \<and>
     subseq [Tested (poc_rel (tk_id task)) (Inr test), Tested_fixed (poc_rel (tk_id task)) (Inr patched)] fx \<and>
     (\<not> builds test \<or>
      subseq [Wrote (poc_file env (tk_id task)) code, Tested (poc_rel (tk_id task)) (Inr test), Tested_fixed (poc_rel (tk_id task)) (Inr patched)] fx)"

definition verified_trace :: "('w, 'z) runner_env_scheme \<Rightarrow> finding_task \<Rightarrow> string list \<Rightarrow> effect list \<Rightarrow> bool" where
  "verified_trace env task stems fx \<longleftrightarrow> (\<exists>code test patched. verified_by env task stems code test patched fx)"

lemma verified_more: "verified_trace env task stems fx \<Longrightarrow> verified_trace env task stems (gx @ fx @ hx)"
proof -
  have "subseq xs fx \<Longrightarrow> subseq xs (gx @ fx @ hx)" for xs by (intro subseq_drop_many subseq_rev_drop_many)
  then show "verified_trace env task stems fx \<Longrightarrow> verified_trace env task stems (gx @ fx @ hx)"
    unfolding verified_trace_def verified_by_def by blast
qed

lemma verified_from:
  assumes "tested_as env (tk_id task) code test pre" "te_passed test" "poc_defects code stems used = []"
    "Tested_fixed (poc_rel (tk_id task)) (Inr patched) \<in> set post" "builds patched" "\<not> te_passed patched"
  shows "verified_trace env task stems (pre @ post)"
proof -
  have p: "subseq [Tested_fixed (poc_rel (tk_id task)) (Inr patched)] post" using assms(4) by (simp add: subseq_singleton_left)
  have j: "subseq xs pre \<Longrightarrow> subseq (xs @ [Tested_fixed (poc_rel (tk_id task)) (Inr patched)]) (pre @ post)" for xs
    by (rule list_emb_append_mono [OF _ p])
  from assms(1) j [of "[Tested (poc_rel (tk_id task)) (Inr test)]"]
    j [of "[Wrote (poc_file env (tk_id task)) code, Tested (poc_rel (tk_id task)) (Inr test)]"] assms(2,3,5,6)
  have "verified_by env task stems code test patched (pre @ post)" by (auto simp: tested_as_def verified_by_def)
  then show ?thesis by (auto simp: verified_trace_def)
qed

text \<open>The outcome of a verdict.\<close>

lemma conclude_spec:
  "act_spec (conclude env fc v) (\<lambda>fin fx. \<forall>reason. fin = Some (''passed_verified'', reason) \<longrightarrow>
     vd_real_pass v \<and> (\<exists>t. Tested_fixed (poc_rel (tk_id (fc_task fc))) (Inr t) \<in> set fx \<and> builds t \<and> \<not> te_passed t))"
  (is "act_spec _ ?Q")
proof (cases "vd_real_pass v")
  case True
  have "act_spec (act_bind (mutation_verify (qe_verify env) (ru_project env) files (fc_task fc) (poc_rel (tk_id (fc_task fc))) (ru_settings env)) (\<lambda>s.
             act_return (Some (verified_outcome s)))) ?Q" for files
    by (rule spec_bind [OF mutation_spec])
      (use True in \<open>auto simp: act_rules falsification_ok_def verified_outcome_def split: verify_status.splits\<close>)
  then show ?thesis using True by (simp add: conclude_def Let_def spec_bind_get)
next
  case False
  then show ?thesis by (auto simp: conclude_def Let_def act_rules exhausted_outcome_def)
qed

definition verified_ok :: "('w, 'z) runner_env_scheme \<Rightarrow> finding_context \<Rightarrow> string option \<Rightarrow> effect list \<Rightarrow> bool" where
  "verified_ok env fc outcome fx \<longleftrightarrow> outcome \<noteq> Some ''passed_verified'' \<or> verified_trace env (fc_task fc) (fc_stems fc) fx"

text \<open>Behind a stage with a verified trace, or one that closes nothing, the rest may do what it likes.\<close>

lemma verified_append: "verified_ok env fc outcome fx \<Longrightarrow> verified_ok env fc outcome (fx @ gx)" "verified_ok env fc outcome fx \<Longrightarrow> verified_ok env fc outcome (gx @ fx)"
  using verified_more [of env "fc_task fc" "fc_stems fc" fx "[]" gx] verified_more [of env "fc_task fc" "fc_stems fc" fx gx "[]"]
  by (auto simp: verified_ok_def)

definition try_ok :: "('w, 'z) runner_env_scheme \<Rightarrow> finding_context \<Rightarrow> ((string \<times> string) option \<times> attempt_state) py \<Rightarrow> effect list \<Rightarrow> bool" where
  "try_ok env fc r fx \<longleftrightarrow> (\<forall>o1 st. r = Inr (Some o1, st) \<longrightarrow> verified_ok env fc (Some (fst o1)) fx)"

lemma next_code_closed: "returns (\<lambda>r. \<forall>outcome. r = Inr (Closed outcome) \<longrightarrow> outcome = ''fix_failed'') (next_code env fc n code err)"
  unfolding next_code_def Let_def by (auto intro!: returns_intros split: sum.split)

text \<open>What \<open>conclude_spec\<close> says of an outcome, and the way from there to the next attempt.\<close>

definition concluded :: "finding_context \<Rightarrow> verdict \<Rightarrow> (string \<times> string) option \<Rightarrow> effect list \<Rightarrow> bool" where
  "concluded fc v fin fx \<longleftrightarrow> (\<forall>reason. fin = Some (''passed_verified'', reason) \<longrightarrow>
     vd_real_pass v \<and> (\<exists>t. Tested_fixed (poc_rel (tk_id (fc_task fc))) (Inr t) \<in> set fx \<and> builds t \<and> \<not> te_passed t))"

lemma concluded_verified:
  assumes "tested_as env (tk_id (fc_task fc)) code test pre" "v = judge fc n code test" "concluded fc v (Some o1) fx"
  shows "verified_ok env fc (Some (fst o1)) (pre @ gx @ fx)"
proof (cases "fst o1 = ''passed_verified''")
  case True
  with assms(3) obtain t where t: "vd_real_pass v" "Tested_fixed (poc_rel (tk_id (fc_task fc))) (Inr t) \<in> set (gx @ fx)" "builds t" "\<not> te_passed t"
    by (cases o1) (auto simp: concluded_def)
  then show ?thesis using verified_from [OF assms(1), of _ _ t "gx @ fx"] assms(2)
    by (auto simp: verified_ok_def vd_real_pass_def judge_def)
qed (simp add: verified_ok_def)

definition next_try :: "('w, 'z) queue_env_scheme \<Rightarrow> finding_context \<Rightarrow> verdict \<Rightarrow> attempt_state \<Rightarrow> loop_state \<Rightarrow> progress \<Rightarrow> string \<Rightarrow> attempt_state \<Rightarrow>
    ('w, ((string \<times> string) option \<times> attempt_state) py) action" where
  "next_try env fc v st lo pg code st1 =
     (let (err, es) = feedback env fc st v pg code in
      act_bind (act_log es) (\<lambda>_.
      act_bind (next_code env fc (vd_number v) code err) (\<lambda>r.
      act_try r (\<lambda>s.
        let st2 = st1\<lparr>sx_prev_error := pg_error pg, sx_prev_fail := pg_fail pg, sx_prev_code := Some code, sx_prev_symptom := blob_of (vd_test v)\<rparr> in
        act_return (Inr (case s of
            Closed outcome \<Rightarrow> (Some (outcome, []), st2)
          | Ready code1 \<Rightarrow> (None, st2\<lparr>sx_loop := lo\<lparr>lo_code := code1\<rparr>\<rparr>)))))))"

lemma next_try_unverified: "act_spec (next_try env fc v st lo pg code st1) (\<lambda>r fx. \<forall>o1 st2. r = Inr (Some o1, st2) \<longrightarrow> fst o1 = ''fix_failed'')"
proof -
  obtain err es where f: "feedback env fc st v pg code = (err, es)" by force
  show ?thesis unfolding next_try_def f Let_def prod.case spec_bind_log
    by (rule spec_bind [OF next_code_closed [unfolded returns_def]])
      (auto simp: act_try_def act_rules split: sum.splits stage.splits)
qed

lemma after_verdict_unfold:
  "after_verdict env fc v st =
     (let fid = tk_id (fc_task fc) in
      act_bind (adopt env fid v (sx_loop st)) (\<lambda>r.
      act_try r (\<lambda>lo.
        let code = lo_code lo; pg = progress_of st v code;
            st1 = st\<lparr>sx_loop := lo, sx_repeat := pg_repeat pg, sx_mech := pg_mech pg\<rparr> in
        act_bind (maybe_capture_lesson (qe_lessons env) fid (vd_number v) (lesson_from st v pg code)) (\<lambda>_.
        act_bind (conclude env fc v) (\<lambda>fin.
          case fin of Some o1 \<Rightarrow> act_return (Inr (Some o1, st1)) | None \<Rightarrow> next_try env fc v st lo pg code st1)))))"
  by (simp add: after_verdict_def next_try_def)

lemma after_verdict_spec:
  assumes "tested_as env (tk_id (fc_task fc)) code test pre" "v = judge fc n code test"
  shows "act_spec (after_verdict env fc v st) (\<lambda>r fx. try_ok env fc r (pre @ fx))"
  unfolding after_verdict_unfold Let_def
  apply (rule spec_bind [where P = "\<lambda>_ _. True"])
  subgoal by (simp add: act_spec_def)
  subgoal for r fx0
    apply (rule spec_try)
    subgoal by (simp add: try_ok_def)
    subgoal for lo
      apply (rule spec_bind [where P = "\<lambda>_ _. True"])
      subgoal by (simp add: act_spec_def)
      subgoal for u fx1
        apply (rule spec_bind [OF conclude_spec [folded concluded_def]])
        subgoal for fin fx2
          using concluded_verified [OF assms, of _ fx2 "fx0 @ fx1"]
          by (cases fin) (auto simp: act_rules try_ok_def verified_ok_def intro!: spec_weaken [OF next_try_unverified])
        done
      done
    done
  done

lemma one_try_spec: "act_spec (one_try env fc n st) (try_ok env fc)"
  unfolding one_try_def Let_def
proof (rule spec_bind [OF spec_conj [OF write_and_run_spec write_and_run_outcome [unfolded returns_def]]])
  fix r :: "(string \<times> test_result) stage py" and fx
  assume r: "(\<forall>ct. r = Inr (Ready ct) \<longrightarrow> tested_as env (tk_id (fc_task fc)) (fst ct) (snd ct) fx) \<and>
    (\<forall>outcome. r = Inr (Closed outcome) \<longrightarrow> outcome \<noteq> ''passed_verified'')"
  show "act_spec (act_try r (\<lambda>s. case s of
         Closed outcome \<Rightarrow> act_return (Inr (Some (outcome, []), st\<lparr>sx_written := True\<rparr>))
       | Ready (code, test) \<Rightarrow> after_verdict env fc (judge fc n code test) (st\<lparr>sx_written := True\<rparr>))) (\<lambda>y fx2. try_ok env fc y (fx @ fx2))"
  proof (rule spec_try)
    fix s assume s: "r = Inr s"
    show "act_spec (case s of
         Closed outcome \<Rightarrow> act_return (Inr (Some (outcome, []), st\<lparr>sx_written := True\<rparr>))
       | Ready (code, test) \<Rightarrow> after_verdict env fc (judge fc n code test) (st\<lparr>sx_written := True\<rparr>)) (\<lambda>y fx2. try_ok env fc y (fx @ fx2))"
    proof (cases s)
      case (Closed outcome)
      with r s show ?thesis by (simp add: act_rules try_ok_def verified_ok_def)
    next
      case (Ready ct)
      with r s have "tested_as env (tk_id (fc_task fc)) (fst ct) (snd ct) fx" by blast
      from after_verdict_spec [OF this refl] Ready show ?thesis by (cases ct) simp
    qed
  qed (simp add: try_ok_def)
qed

definition ends_ok :: "('w, 'z) runner_env_scheme \<Rightarrow> finding_context \<Rightarrow> ((string \<times> string) \<times> attempt_state) py \<Rightarrow> effect list \<Rightarrow> bool" where
  "ends_ok env fc r fx \<longleftrightarrow> (\<forall>o1 st. r = Inr (o1, st) \<longrightarrow> verified_ok env fc (Some (fst o1)) fx)"

lemma attempts_spec: "act_spec (attempts env fc left n st) (ends_ok env fc)"
proof (induction left arbitrary: n st)
  case 0
  then show ?case by (simp add: act_rules ends_ok_def verified_ok_def)
next
  case (Suc left)
  show ?case unfolding attempts.simps
  proof (rule spec_bind [OF one_try_spec])
    fix r :: "((string \<times> string) option \<times> attempt_state) py" and fx
    assume r: "try_ok env fc r fx"
    consider e where "r = Inl e" | o1 st1 where "r = Inr (Some o1, st1)" | st1 where "r = Inr (None, st1)"
      by (metis obj_sumE option.exhaust prod.exhaust)
    then show "act_spec (act_try r (\<lambda>(fin, st1). case fin of Some o1 \<Rightarrow> act_return (Inr (o1, st1)) | None \<Rightarrow> attempts env fc left (n + 1) st1))
        (\<lambda>y fx2. ends_ok env fc y (fx @ fx2))"
    proof cases
      case 2
      with r show ?thesis by (cases o1) (simp add: act_try_def act_rules ends_ok_def try_ok_def)
    next
      case 3
      have "act_spec (attempts env fc left (n + 1) st1) (\<lambda>y fx2. ends_ok env fc y (fx @ fx2))"
        by (rule spec_weaken [OF Suc.IH]) (auto simp: ends_ok_def intro: verified_append)
      with 3 show ?thesis by (simp add: act_try_def)
    qed (simp add: act_try_def act_rules ends_ok_def)
  qed
qed

definition outcome_ok :: "('w, 'z) runner_env_scheme \<Rightarrow> finding_context \<Rightarrow> string py \<Rightarrow> effect list \<Rightarrow> bool" where
  "outcome_ok env fc r fx \<longleftrightarrow> (\<forall>outcome. r = Inr outcome \<longrightarrow> verified_ok env fc (Some outcome) fx)"

lemma run_attempts_verified: "act_spec (run_attempts env started fc code) (outcome_ok env fc)"
  unfolding run_attempts_def Let_def
proof (rule spec_bind [where P = "\<lambda>_ _. True"])
  fix code1 fx0
  let ?rest = "\<lambda>r :: ((string \<times> string) \<times> attempt_state) py. act_try r (\<lambda>((outcome, reason), st).
      act_bind (restore_end env (tk_id (fc_task fc)) st) (\<lambda>r. act_try r (\<lambda>_.
      act_bind (quarantine env (tk_id (fc_task fc)) outcome st) (\<lambda>r. act_try r (\<lambda>_.
      act_bind (finish env started (tk_id (fc_task fc)) outcome reason) (\<lambda>_. act_return (Inr outcome)))))))"
  show "act_spec (act_bind (attempts env fc (effective_attempts (qe_args env)) 1 (attempt_start code1)) ?rest) (\<lambda>y fx2. outcome_ok env fc y (fx0 @ fx2))"
  proof (rule spec_bind [OF attempts_spec])
    fix r :: "((string \<times> string) \<times> attempt_state) py" and fx
    assume e: "ends_ok env fc r fx"
    have "returns (\<lambda>y. \<forall>outcome. y = Inr outcome \<longrightarrow> (\<exists>reason st. r = Inr ((outcome, reason), st))) (?rest r)"
      by (cases r) (auto intro!: returns_intros split: prod.split sum.split simp: act_try_def)
    then show "act_spec (?rest r) (\<lambda>y fx2. outcome_ok env fc y (fx0 @ fx @ fx2))"
      unfolding returns_def
      by (rule spec_weaken) (use e in \<open>fastforce simp: outcome_ok_def ends_ok_def intro: verified_append\<close>)
  qed
qed (simp add: act_spec_def)

lemma stage_verified:
  fixes k :: "'b \<Rightarrow> ('w, string py) action"
  assumes "act_spec m (\<lambda>r fx. (\<forall>outcome. r = Inr (Closed outcome) \<longrightarrow> outcome \<noteq> ''passed_verified'') \<and> (\<forall>x. r = Inr (Ready x) \<longrightarrow> R x))"
    "\<And>x. R x \<Longrightarrow> act_spec (k x) (\<lambda>r fx. r = Inr ''passed_verified'' \<longrightarrow> verified_trace env task stems fx)"
  shows "act_spec (act_bind m (\<lambda>r. act_try r (\<lambda>s. case s of Closed outcome \<Rightarrow> act_return (Inr outcome) | Ready x \<Rightarrow> k x)))
    (\<lambda>r fx. r = Inr ''passed_verified'' \<longrightarrow> verified_trace env task stems fx)"
proof (rule spec_bind [OF assms(1)], rule spec_try)
  fix r :: "'b stage py" and fx s
  assume a: "(\<forall>outcome. r = Inr (Closed outcome) \<longrightarrow> outcome \<noteq> ''passed_verified'') \<and> (\<forall>x. r = Inr (Ready x) \<longrightarrow> R x)" "r = Inr s"
  show "act_spec (case s of Closed outcome \<Rightarrow> act_return (Inr outcome) | Ready x \<Rightarrow> k x)
      (\<lambda>y fx2. y = Inr ''passed_verified'' \<longrightarrow> verified_trace env task stems (fx @ fx2))"
  proof (cases s)
    case (Closed outcome)
    with a show ?thesis by (simp add: act_rules)
  next
    case (Ready x)
    with a have "act_spec (k x) (\<lambda>r fx. r = Inr ''passed_verified'' \<longrightarrow> verified_trace env task stems fx)" by (simp add: assms(2))
    then have "act_spec (k x) (\<lambda>y fx2. y = Inr ''passed_verified'' \<longrightarrow> verified_trace env task stems (fx @ fx2))"
      by (rule spec_weaken) (auto dest: verified_more [where hx = "[]" and gx = fx])
    with Ready show ?thesis by simp
  qed
qed simp

lemma stage_closed_failed: "act_spec m (stage_ok fid) \<Longrightarrow> act_spec m (\<lambda>r fx. \<forall>outcome. r = Inr (Closed outcome) \<longrightarrow> outcome \<noteq> ''passed_verified'')"
  by (erule spec_weaken) (auto simp: stage_ok_def SUCCESSES_def)

lemma process_verified:
  "act_spec (process_finding env task) (\<lambda>r fx. r = Inr ''passed_verified'' \<longrightarrow> verified_trace env task (location_names (tk_location task)) fx)"
proof -
  let ?R = "\<lambda>fc. fc_task fc = task \<and> fc_stems fc = location_names (tk_location task)"
  have p: "act_spec (prepare env started task) (\<lambda>r fx. (\<forall>outcome. r = Inr (Closed outcome) \<longrightarrow> outcome \<noteq> ''passed_verified'') \<and>
      (\<forall>fc. r = Inr (Ready fc) \<longrightarrow> ?R fc))" for started
    by (rule spec_weaken [OF spec_conj [OF stage_closed_failed [OF prepare_spec] prepare_ready [unfolded returns_def]]]) (auto simp: ready_for_def)
  have c: "act_spec (first_code env fc) (\<lambda>r fx. (\<forall>outcome. r = Inr (Closed outcome) \<longrightarrow> outcome \<noteq> ''passed_verified'') \<and>
      (\<forall>x. r = Inr (Ready x) \<longrightarrow> True))" for fc
    using stage_closed_failed [OF first_code_spec [of env fc]] by simp
  have a: "act_spec (run_attempts env started fc code) (\<lambda>r fx. r = Inr ''passed_verified'' \<longrightarrow> verified_trace env task (location_names (tk_location task)) fx)"
    if "?R fc" for started fc code
    by (rule spec_weaken [OF run_attempts_verified]) (use that in \<open>auto simp: outcome_ok_def verified_ok_def\<close>)
  have inner: "act_spec (act_bind (first_code env fc) (\<lambda>r. act_try r (\<lambda>s.
        case s of Closed outcome \<Rightarrow> act_return (Inr outcome) | Ready code \<Rightarrow> run_attempts env started fc code)))
      (\<lambda>r fx. r = Inr ''passed_verified'' \<longrightarrow> verified_trace env task (location_names (tk_location task)) fx)" if "?R fc" for started fc
    by (rule stage_verified [OF c]) (rule a [OF that])
  have outer: "act_spec (act_bind (prepare env started task) (\<lambda>r. act_try r (\<lambda>s. case s of
         Closed outcome \<Rightarrow> act_return (Inr outcome)
       | Ready fc \<Rightarrow> act_bind (first_code env fc) (\<lambda>r. act_try r (\<lambda>s.
           case s of Closed outcome \<Rightarrow> act_return (Inr outcome) | Ready code \<Rightarrow> run_attempts env started fc code)))))
      (\<lambda>r fx. r = Inr ''passed_verified'' \<longrightarrow> verified_trace env task (location_names (tk_location task)) fx)" for started
    by (rule stage_verified [OF p]) (rule inner)
  show ?thesis unfolding process_finding_def
    apply (rule spec_bind_get)
    apply (simp only: spec_bind_log)
    apply (rule spec_weaken [OF outer])
    apply (auto dest: verified_more [where hx = "[]" and gx = "[e]" for e])
    done
qed

text \<open>C5: A finding only ends as verified when a run of its test passed, the code judged with that run has no structural
  defect, and a later run of the test against the fixed source was built and failed; and if the passing run was built, that code is what
  had been written to the test's file before it.\<close>

theorem verified_pass_means:
  assumes "process_finding env task w = (Inr ''passed_verified'', w', fx)"
  shows "\<exists>code test patched. te_passed test \<and> (\<exists>used. poc_defects code (location_names (tk_location task)) used = []) \<and>
    builds patched \<and> \<not> te_passed patched \<and>
    subseq [Tested (poc_rel (tk_id task)) (Inr test), Tested_fixed (poc_rel (tk_id task)) (Inr patched)] fx \<and>
    (\<not> builds test \<or>
     subseq [Wrote (poc_file env (tk_id task)) code, Tested (poc_rel (tk_id task)) (Inr test), Tested_fixed (poc_rel (tk_id task)) (Inr patched)] fx)"
  using spec_at [OF process_verified assms] by (simp add: verified_trace_def verified_by_def)

section \<open>A finding from its draft to a verified pass\<close>

definition demo_code :: string where "demo_code = ''pragma x;assertEq(1);''"

definition demo_tree :: project_tree where
  "demo_tree = \<lparr>pf_root = ''/p'', pf_rglob = (\<lambda>_. []), pf_is_file = (\<lambda>_. False), pf_tracked = (\<lambda>_. False),
     pt_text = (\<lambda>_. Inr []), pt_real = (\<lambda>p. p), pt_file = (\<lambda>_. False), pt_sols = (\<lambda>_. None), pt_tracked = []\<rparr>"

definition demo_run :: "bool \<Rightarrow> test_result" where
  "demo_run ok = \<lparr>te_passed = ok, te_exit_code = (if ok then 0 else 1), te_stdout = ''Ran 1 test'', te_stderr = []\<rparr>"

definition demo_draft :: "unit draft_env" where
  "demo_draft = \<lparr>de_client = \<lparr>mc_generate = (\<lambda>_ w. (Inr demo_code, w)), mc_chat = (\<lambda>_ _ w. (Inr \<lparr>ch_content = [], ch_tool_calls = []\<rparr>, w)),
       mc_loads = (\<lambda>_. Inr JNull), mc_marker = []\<rparr>,
     de_tree = (\<lambda>_. demo_tree), de_index = None, de_budget = 0, de_mode = ''marker'', de_prompt = (\<lambda>n _. n), de_lessons = None\<rparr>"

definition demo_args :: run_arguments where
  "demo_args = \<lparr>ra_attempts = 1, ra_agentic = False, ra_no_scaffold = True, ra_no_synthesis = True, ra_no_example = True, ra_no_file_map = True,
     ra_test_scaffold = [], ra_example = [], ra_only = [], ra_limit = 0, ra_model = ''m'',
     ra_loop = \<lparr>lc_budget = 1, lc_spin_k = 1, lc_read_budget = 0, lc_retry_cap = 0, lc_is_float = (\<lambda>_. False)\<rparr>, ra_max_minutes = JNull\<rparr>"

definition demo_verify :: "unit verify_env" where
  "demo_verify = \<lparr>ve_read = (\<lambda>_. None), ve_git_apply = (\<lambda>c _. Some c), ve_patch = (\<lambda>_ _. None), ve_real = (\<lambda>p. p), ve_is_dir = (\<lambda>_. False),
     ve_run = (\<lambda>_ _ w. (Inr (demo_run False), w)), ve_copy_dir = (\<lambda>_. ''/c'')\<rparr>"

definition demo_loop :: "unit loop_env" where
  "demo_loop = \<lparr>le_generate = (\<lambda>_ w. (Inr [], w)), le_run = (\<lambda>_ w. (Inr ([], []), w)), le_deadline = (\<lambda>w. (False, w)), le_read = (\<lambda>_. Inl []),
     le_search = (\<lambda>_. Inl []), le_sanitize = (\<lambda>s. (s, [])), le_root = ''/p'', le_index = None\<rparr>"

definition demo_env :: "unit queue_env" where
  "demo_env = \<lparr>ru_draft = demo_draft, ru_project = ''/p'', ru_run_id = ''r'', ru_write = (\<lambda>_ _ w. w), ru_remove = (\<lambda>_ w. w),
     ru_move = (\<lambda>_ _ w. (True, w)), ru_run = (\<lambda>_ w. (Inr (demo_run True), w)), ru_settings = \<lparr>rn_fork_rpc = None, rn_image = None\<rparr>,
     ru_index_source = (\<lambda>_. Inr empty_index), qe_args = demo_args, qe_require_pass = False, qe_file_map = [], qe_verify = demo_verify,
     qe_copy = (\<lambda>_. []), qe_lessons = None,
     qe_sources = (\<lambda>_ _. \<lparr>sf_parse = (\<lambda>_. None), sf_read = (\<lambda>_. None), sf_resolve = (\<lambda>p. p), sf_file_map = None, sf_remappings = []\<rparr>),
     qe_loop = demo_loop, qe_elapsed = (\<lambda>_ _. JNull), qe_gap = (\<lambda>_. JNull), qe_over = (\<lambda>_. False)\<rparr>"

definition demo_task :: finding_task where
  "demo_task = \<lparr>tk_id = ''H'', tk_title = [], tk_location = [], tk_description = [], tk_class = [], tk_fix = None, tk_fix_patch = Some ''d''\<rparr>"

lemma demo_verified: "fst (process_finding demo_env demo_task ()) = Inr ''passed_verified''"
  by code_simp

theorem verified_pass_means_witness:
  "\<exists>code test patched. te_passed test \<and> builds patched \<and> \<not> te_passed patched \<and>
     subseq [Tested (poc_rel ''H'') (Inr test), Tested_fixed (poc_rel ''H'') (Inr patched)] (snd (snd (process_finding demo_env demo_task ())))"
proof -
  obtain w' fx where p: "process_finding demo_env demo_task () = (Inr ''passed_verified'', w', fx)"
    using demo_verified by (metis prod.collapse)
  have "tk_id demo_task = ''H''" by (simp add: demo_task_def)
  with verified_pass_means [OF p] show ?thesis by (auto simp: p)
qed

end
